(* ===== verification/Prelude.thy ===== *)
theory Prelude
  imports Main "HOL-Library.Sublist"
begin

text \<open>
  Shared vocabulary of the development: the error values of the package (the sentinels of
  \<^verbatim>\<open>errors.go\<close>, \<^verbatim>\<open>memory_store.go\<close> and \<^verbatim>\<open>filestore.go\<close>, and the wrapping that
  \<^verbatim>\<open>fmt.Errorf\<close> with \<^verbatim>\<open>%w\<close> builds), the names of the model's basic types, and generic
  lemmas on lists and folds that several components use.
\<close>

named_theorems run_simps \<open>equations that unfold one step of an operation of the model\<close>
named_theorems frame_simps \<open>which parts of a state an operation leaves alone\<close>

section \<open>Identifiers\<close>

text \<open>Pointers to agents and tasks are addresses; the objects live in the run state.\<close>

type_synonym aid = nat
type_synonym tid = nat

section \<open>Errors\<close>

datatype sentinel =
    ErrNoLLM | ErrNoAgent | ErrNoTasks | ErrNoStages | ErrNoManager | ErrMaxIterations
  | ErrInvalidOutput | ErrRepairBudgetExceeded | ErrBlockedByGuardrail
  | ErrNativeToolsUnsupported | ErrWebSearchUnsupported | ErrToolCallStructuredUnsupported
  | ErrEvaluationFailed | ErrInvalidEvaluation | ErrOutputPathRejected | ErrCrewRunning
  | ErrTaskDependencyCycle | ErrStreamIncomplete | ErrStreamResponseTooLarge
  | ErrFlowRunning | ErrFlowCycle | ErrFlowUnknownStep | ErrFlowNoStart
  | ErrFlowDuplicateStep | ErrFlowStartDeps
  | ErrSchemaRefCycle | ErrSchemaRefInvalid | ErrSchemaRefNotFound | ErrSchemaRefDepth
  | ErrCrewConfigTooLarge | ErrUnknownRef

text \<open>The sentinels that live beside their component rather than in \<^verbatim>\<open>errors.go\<close>.\<close>

datatype store_sentinel = ErrMemoryEntryTooLarge | ErrFileStoreClosed | ErrFileStoreRoot

fun sentinel_text :: "sentinel \<Rightarrow> string" where
  "sentinel_text ErrNoLLM = ''crewai: agent without a configured LLM''"
| "sentinel_text ErrNoAgent = ''crewai: task without an assigned agent''"
| "sentinel_text ErrNoTasks = ''crewai: crew without tasks''"
| "sentinel_text ErrNoStages = ''crewai: staged process requires at least one stage''"
| "sentinel_text ErrNoManager = ''crewai: hierarchical process requires ManagerLLM or ManagerAgent''"
| "sentinel_text ErrMaxIterations = ''crewai: maximum number of iterations reached''"
| "sentinel_text ErrInvalidOutput = ''crewai: structured output failed schema validation''"
| "sentinel_text ErrRepairBudgetExceeded =
     ''crewai: repair budget exceeded, structured output could not be validated''"
| "sentinel_text ErrBlockedByGuardrail = ''crewai: output blocked by guardrail''"
| "sentinel_text ErrNativeToolsUnsupported =
     ''crewai: agent requires native tool calling but LLM does not implement ToolCallingLLM''"
| "sentinel_text ErrWebSearchUnsupported = ''crewai: LLM does not implement WebSearcher''"
| "sentinel_text ErrToolCallStructuredUnsupported =
     ''crewai: structured output with tool-call requires an LLM that implements ToolCallingLLM''"
| "sentinel_text ErrEvaluationFailed =
     ''crewai: output did not pass evaluation after all refinements''"
| "sentinel_text ErrInvalidEvaluation = ''crewai: evaluator returned an invalid response''"
| "sentinel_text ErrOutputPathRejected = ''crewai: output path rejected''"
| "sentinel_text ErrCrewRunning = ''crewai: crew already running''"
| "sentinel_text ErrTaskDependencyCycle = ''crewai: invalid task dependency (cycle or same-wave)''"
| "sentinel_text ErrStreamIncomplete = ''crewai: stream ended without Done or Err''"
| "sentinel_text ErrStreamResponseTooLarge = ''crewai: stream response exceeds size limit''"
| "sentinel_text ErrFlowRunning = ''crewai: flow already running''"
| "sentinel_text ErrFlowCycle = ''crewai: flow has a cycle''"
| "sentinel_text ErrFlowUnknownStep = ''crewai: flow unknown step''"
| "sentinel_text ErrFlowNoStart = ''crewai: flow has no start step''"
| "sentinel_text ErrFlowDuplicateStep = ''crewai: flow duplicate step name''"
| "sentinel_text ErrFlowStartDeps = ''crewai: Start step cannot declare deps''"
| "sentinel_text ErrSchemaRefCycle = ''crewai: JSON Schema $ref cycle''"
| "sentinel_text ErrSchemaRefInvalid = ''crewai: JSON Schema $ref invalid or external''"
| "sentinel_text ErrSchemaRefNotFound = ''crewai: JSON Schema $ref target not found''"
| "sentinel_text ErrSchemaRefDepth = ''crewai: JSON Schema $ref depth exceeded''"
| "sentinel_text ErrCrewConfigTooLarge = ''crewai: crew config exceeds size limit''"
| "sentinel_text ErrUnknownRef = ''crewai: unknown config reference''"

fun store_sentinel_text :: "store_sentinel \<Rightarrow> string" where
  "store_sentinel_text ErrMemoryEntryTooLarge = ''crewai: memory entry exceeds MaxMemoryEntryBytes''"
| "store_sentinel_text ErrFileStoreClosed = ''crewai: file store closed''"
| "store_sentinel_text ErrFileStoreRoot = ''crewai: file store root path rejected''"

text \<open>
  An error value: a sentinel, an error from outside (or \<^verbatim>\<open>fmt.Errorf\<close> without \<^verbatim>\<open>%w\<close>) known
  by its text, or \<^verbatim>\<open>fmt.Errorf("pre%wpost", e)\<close>, which keeps \<open>e\<close> reachable for \<^verbatim>\<open>errors.Is\<close>.
\<close>

datatype err =
    Sentinel sentinel
  | StoreSentinel store_sentinel
  | Plain string
  | Wrap string err string

fun error_text :: "err \<Rightarrow> string" where
  "error_text (Sentinel s) = sentinel_text s"
| "error_text (StoreSentinel s) = store_sentinel_text s"
| "error_text (Plain s) = s"
| "error_text (Wrap pre e post) = pre @ error_text e @ post"

fun errors_is :: "err \<Rightarrow> sentinel \<Rightarrow> bool" where
  "errors_is (Sentinel s) t = (s = t)"
| "errors_is (StoreSentinel _) t = False"
| "errors_is (Plain _) t = False"
| "errors_is (Wrap _ e _) t = errors_is e t"

abbreviation wrapf :: "string \<Rightarrow> err \<Rightarrow> err" where
  "wrapf pre e \<equiv> Wrap pre e []"

section \<open>Generic lemmas\<close>

lemma fold_update_length [simp]: "length (fold (\<lambda>i ys. ys[i := c]) is ys) = length ys"
  by (induction "is" arbitrary: ys) auto

lemma fold_update_nth:
  "k < length ys \<Longrightarrow> fold (\<lambda>i ys. ys[i := c]) is ys ! k = (if k \<in> set is then c else ys ! k)"
  by (induction "is" arbitrary: ys) (auto simp: nth_list_update)

lemma sum_int_eq_0_iff_nat:
  "finite A \<Longrightarrow> (\<Sum>i\<in>A. int (f i)) = 0 \<longleftrightarrow> (\<forall>i\<in>A. f i = 0)"
  by (simp add: sum_nonneg_eq_0_iff)

lemma no_pred_cycle:
  assumes "finite U" "U \<noteq> {}" "\<And>x. x \<in> U \<Longrightarrow> \<exists>y\<in>U. (y, x) \<in> E"
  shows "\<not> acyclic E"
proof
  assume ac: "acyclic E"
  let ?F = "E \<inter> U \<times> U"
  have "finite ?F" using assms(1) by auto
  moreover have "acyclic ?F" using ac by (rule acyclic_subset) auto
  ultimately have "wf ?F" by (rule finite_acyclic_wf)
  moreover obtain x where "x \<in> U" using assms(2) by auto
  ultimately obtain z where z: "z \<in> U" "\<And>y. (y, z) \<in> ?F \<Longrightarrow> y \<notin> U"
    by (rule wfE_min) blast
  obtain y where "y \<in> U" "(y, z) \<in> E" using assms(3) [OF z(1)] by blast
  with z show False by blast
qed

lemma strict_rank_acyclic:
  assumes "\<And>x y. (x, y) \<in> E \<Longrightarrow> (f x :: nat) < f y"
  shows "acyclic E"
proof -
  have "E \<subseteq> inv_image less_than f" using assms by auto
  moreover have "wf (inv_image less_than f)" by simp
  ultimately have "wf E" by (rule wf_subset [rotated])
  then show ?thesis by (rule wf_acyclic)
qed

section \<open>Interleavings\<close>

text \<open>
  The order in which \<open>n\<close> goroutines run, each as one step: \<open>ord\<close> completed to a permutation
  of \<open>[0..<n]\<close>, so that every list stands for an order and every order is one of a list.
\<close>

definition wave_order :: "nat list \<Rightarrow> nat \<Rightarrow> nat list" where
  "wave_order ord n =
     (let xs = remdups (filter (\<lambda>k. k < n) ord) in xs @ filter (\<lambda>k. k \<notin> set xs) [0..<n])"

lemma wave_order_perm: "distinct (wave_order ord n)" "set (wave_order ord n) = {..<n}"
  by (auto simp: wave_order_def Let_def)

lemma wave_order_all: "distinct ord \<Longrightarrow> set ord = {..<n} \<Longrightarrow> wave_order ord n = ord"
  by (auto simp: wave_order_def Let_def distinct_remdups_id filter_id_conv)

end
