(* ===== verification/GoStrings.thy ===== *)
theory GoStrings
  imports Prelude
begin

text \<open>
  The functions of Go's \<^verbatim>\<open>strings\<close>, \<^verbatim>\<open>strconv\<close> and \<^verbatim>\<open>path/filepath\<close> packages that the sources
  use. A Go string is a byte string, so a \<^typ>\<open>string\<close> here is a list of bytes, \<^verbatim>\<open>len\<close> is
  \<^const>\<open>length\<close>, and a letter beyond ASCII is the several bytes of its UTF-8 form. Strings are
  taken to be valid UTF-8. An index of \<^verbatim>\<open>-1\<close> is \<^const>\<open>None\<close>.
\<close>

section \<open>Searching\<close>

definition has_prefix :: "string \<Rightarrow> string \<Rightarrow> bool" where
  "has_prefix s p = prefix p s"

definition has_suffix :: "string \<Rightarrow> string \<Rightarrow> bool" where
  "has_suffix s p = suffix p s"

fun str_index :: "string \<Rightarrow> string \<Rightarrow> nat option" where
  "str_index [] sub = (if sub = [] then Some 0 else None)"
| "str_index (c # cs) sub =
     (if prefix sub (c # cs) then Some 0 else map_option Suc (str_index cs sub))"

definition contains :: "string \<Rightarrow> string \<Rightarrow> bool" where
  "contains s sub \<longleftrightarrow> str_index s sub \<noteq> None"

lemma str_index_bound: "str_index s sub = Some i \<Longrightarrow> i + length sub \<le> length s"
  by (induction s arbitrary: i) (auto split: if_splits dest: prefix_length_le)

lemma str_index_prefix: "str_index s sub = Some i \<Longrightarrow> prefix sub (drop i s)"
  by (induction s arbitrary: i) (auto split: if_splits)

section \<open>Case mapping\<close>

definition ascii_lower :: "char \<Rightarrow> char" where
  "ascii_lower c = (let n = (of_char c :: nat) in if 65 \<le> n \<and> n \<le> 90 then char_of (n + 32) else c)"

text \<open>
  The letters beyond ASCII whose lower case has a UTF-8 form of another length, as pairs of byte
  strings: U+023A, U+023E (two bytes to three), U+0130, U+212A (to one byte), U+2126, U+212B and
  U+1E9E (three bytes to two). Every other letter keeps its length, so positions in the
  lowered string are exact; this table leaves the letter itself as it is.
\<close>

definition lower_table :: "(string \<times> string) list" where
  "lower_table =
    [ ([CHR 0xC8, CHR 0xBA], [CHR 0xE2, CHR 0xB1, CHR 0xA5]),
      ([CHR 0xC8, CHR 0xBE], [CHR 0xE2, CHR 0xB1, CHR 0xA6]),
      ([CHR 0xC4, CHR 0xB0], [CHR 0x69]),
      ([CHR 0xE2, CHR 0x84, CHR 0xAA], [CHR 0x6B]),
      ([CHR 0xE2, CHR 0x84, CHR 0xA6], [CHR 0xCF, CHR 0x89]),
      ([CHR 0xE2, CHR 0x84, CHR 0xAB], [CHR 0xC3, CHR 0xA5]),
      ([CHR 0xE1, CHR 0xBA, CHR 0x9E], [CHR 0xC3, CHR 0x9F]) ]"

definition lower_head :: "string \<Rightarrow> (string \<times> string) option" where
  "lower_head s = (if s \<noteq> [] \<and> (of_char (hd s) :: nat) < 128 then None
                   else find (\<lambda>(u, l). prefix u s) lower_table)"

function to_lower :: "string \<Rightarrow> string" where
  "to_lower [] = []"
| "to_lower (c # cs) =
     (case lower_head (c # cs) of
        None \<Rightarrow> ascii_lower c # to_lower cs
      | Some (u, l) \<Rightarrow> l @ to_lower (drop (length u - 1) cs))"
  by pat_completeness auto
termination by (relation "measure length") auto

text \<open>\<^verbatim>\<open>strings.EqualFold\<close> on the letters above.\<close>

definition equal_fold :: "string \<Rightarrow> string \<Rightarrow> bool" where
  "equal_fold s t \<longleftrightarrow> to_lower s = to_lower t"

section \<open>Trimming\<close>

text \<open>The white space of \<^verbatim>\<open>unicode.IsSpace\<close>, each rune as its UTF-8 bytes.\<close>

definition space_runes :: "string list" where
  "space_runes =
    [[CHR 0x20], [CHR 0x09], [CHR 0x0A], [CHR 0x0B], [CHR 0x0C], [CHR 0x0D],
     [CHR 0xC2, CHR 0x85], [CHR 0xC2, CHR 0xA0], [CHR 0xE1, CHR 0x9A, CHR 0x80],
     [CHR 0xE2, CHR 0x80, CHR 0x80], [CHR 0xE2, CHR 0x80, CHR 0x81], [CHR 0xE2, CHR 0x80, CHR 0x82],
     [CHR 0xE2, CHR 0x80, CHR 0x83], [CHR 0xE2, CHR 0x80, CHR 0x84], [CHR 0xE2, CHR 0x80, CHR 0x85],
     [CHR 0xE2, CHR 0x80, CHR 0x86], [CHR 0xE2, CHR 0x80, CHR 0x87], [CHR 0xE2, CHR 0x80, CHR 0x88],
     [CHR 0xE2, CHR 0x80, CHR 0x89], [CHR 0xE2, CHR 0x80, CHR 0x8A], [CHR 0xE2, CHR 0x80, CHR 0xA8],
     [CHR 0xE2, CHR 0x80, CHR 0xA9], [CHR 0xE2, CHR 0x80, CHR 0xAF], [CHR 0xE2, CHR 0x81, CHR 0x9F],
     [CHR 0xE3, CHR 0x80, CHR 0x80]]"

function strip_with :: "string list \<Rightarrow> string \<Rightarrow> string" where
  "strip_with rs s =
     (case find (\<lambda>r. r \<noteq> [] \<and> prefix r s) rs of
        None \<Rightarrow> s
      | Some r \<Rightarrow> strip_with rs (drop (length r) s))"
  by pat_completeness auto
termination
proof (relation "measure (\<lambda>(rs, s). length s)", goal_cases)
  case (2 rs s r)
  then have "r \<noteq> []" "length r \<le> length s"
    by (auto simp: find_Some_iff dest: prefix_length_le)
  then show ?case by (cases r) auto
qed simp

declare strip_with.simps [simp del]

definition trim_space :: "string \<Rightarrow> string" where
  "trim_space s = rev (strip_with (map rev space_runes) (rev (strip_with space_runes s)))"

lemma strip_with_length: "length (strip_with rs s) \<le> length s"
proof (induction rs s rule: strip_with.induct)
  case (1 rs s)
  then show ?case
    by (subst strip_with.simps) (fastforce split: option.splits)
qed

lemma trim_space_length: "length (trim_space s) \<le> length s"
  unfolding trim_space_def
  by (metis length_rev order_trans strip_with_length)

lemma strip_with_suffix: "suffix (strip_with rs s) s"
proof (induction rs s rule: strip_with.induct)
  case (1 rs s)
  then show ?case
    by (subst strip_with.simps)
      (auto split: option.splits intro: suffix_order.trans suffix_drop)
qed

lemma strip_with_stop: "strip_with rs s = t \<Longrightarrow> r \<in> set rs \<Longrightarrow> r \<noteq> [] \<Longrightarrow> \<not> prefix r t"
proof (induction rs s arbitrary: t rule: strip_with.induct)
  case (1 rs s)
  show ?case
  proof (cases "find (\<lambda>r. r \<noteq> [] \<and> prefix r s) rs")
    case None
    with 1 show ?thesis by (auto simp: strip_with.simps [of rs s] find_None_iff)
  next
    case (Some u)
    with 1 show ?thesis by (auto simp: strip_with.simps [of rs s])
  qed
qed

lemma strip_with_Nil [simp]: "strip_with rs [] = []"
  using strip_with_length [of rs "[]"] by simp

lemma trim_space_Nil [simp]: "trim_space [] = []"
  by (simp add: trim_space_def)

section \<open>Splitting, joining, replacing\<close>

fun split_on :: "char \<Rightarrow> string \<Rightarrow> string list" where
  "split_on d [] = [[]]"
| "split_on d (c # cs) =
     (if c = d then [] # split_on d cs
      else case split_on d cs of [] \<Rightarrow> [[c]] | x # xs \<Rightarrow> (c # x) # xs)"

fun str_join :: "string \<Rightarrow> string list \<Rightarrow> string" where
  "str_join sep [] = []"
| "str_join sep [x] = x"
| "str_join sep (x # y # xs) = x @ sep @ str_join sep (y # xs)"

text \<open>\<^verbatim>\<open>bufio.ScanLines\<close>: the lines of a content, a last line without newline included, each without a final return.\<close>

definition strip_return :: "string \<Rightarrow> string" where
  "strip_return l = (if l \<noteq> [] \<and> last l = CHR 0x0D then butlast l else l)"

definition scan_lines :: "string \<Rightarrow> string list" where
  "scan_lines s = (let ls = split_on CHR 0x0A s in map strip_return (if last ls = [] then butlast ls else ls))"

lemma strip_return_plain: "CHR 0x0D \<notin> set l \<Longrightarrow> strip_return l = l"
  by (metis last_in_set strip_return_def)

text \<open>\<^verbatim>\<open>strings.ReplaceAll\<close> with a non-empty pattern.\<close>

function replace_all :: "string \<Rightarrow> string \<Rightarrow> string \<Rightarrow> string" where
  "replace_all old new [] = []"
| "replace_all old new (c # cs) =
     (if old \<noteq> [] \<and> prefix old (c # cs)
      then new @ replace_all old new (drop (length old - 1) cs)
      else c # replace_all old new cs)"
  by pat_completeness auto
termination by (relation "measure (\<lambda>(_, _, s). length s)") auto

lemma split_on_nonempty [simp]: "split_on d s \<noteq> []"
  by (induction s) (auto split: list.splits)

lemma split_on_no_sep: "c \<in> set (split_on d s) \<Longrightarrow> d \<notin> set c"
  by (induction s arbitrary: c) (auto split: if_splits list.splits)

lemma split_on_none: "d \<notin> set s \<Longrightarrow> split_on d s = [s]"
  by (induction s) auto

lemma split_on_append: "d \<notin> set a \<Longrightarrow> split_on d (a @ d # s) = a # split_on d s"
  by (induction a) auto

lemma split_on_join: "cs \<noteq> [] \<Longrightarrow> \<forall>c\<in>set cs. d \<notin> set c \<Longrightarrow> split_on d (str_join [d] cs) = cs"
  by (induction "[d]" cs rule: str_join.induct) (auto simp: split_on_none split_on_append)

lemma split_on_sep: "split_on d (a @ d # s) = split_on d a @ split_on d s"
  by (induction a) (auto split: list.splits)

section \<open>Formatting\<close>

definition digit_char :: "nat \<Rightarrow> char" where
  "digit_char n = char_of (48 + n)"

fun itoa :: "nat \<Rightarrow> string" where
  "itoa n = (if n < 10 then [digit_char n] else itoa (n div 10) @ [digit_char (n mod 10)])"

declare itoa.simps [simp del]

lemma itoa_nonempty [simp]: "itoa n \<noteq> []"
  by (subst itoa.simps) simp

lemma itoa_0: "itoa 0 = ''0''"
  by code_simp

definition itoa_int :: "int \<Rightarrow> string" where
  "itoa_int i = (if i < 0 then ''-'' @ itoa (nat (- i)) else itoa (nat i))"

definition hex_digit :: "nat \<Rightarrow> char" where
  "hex_digit n = (if n < 10 then char_of (48 + n) else char_of (87 + n))"

text \<open>The escapes of \<^verbatim>\<open>%q\<close>; bytes beyond ASCII are those of printable runes and stand for themselves.\<close>

definition quote_char :: "char \<Rightarrow> string" where
  "quote_char c =
     (let n = (of_char c :: nat) in
      if c = CHR 0x22 then [CHR 0x5C, CHR 0x22]
      else if c = CHR 0x5C then [CHR 0x5C, CHR 0x5C]
      else if n = 7 then [CHR 0x5C, CHR ''a''] else if n = 8 then [CHR 0x5C, CHR ''b'']
      else if n = 12 then [CHR 0x5C, CHR ''f''] else if n = 10 then [CHR 0x5C, CHR ''n'']
      else if n = 13 then [CHR 0x5C, CHR ''r''] else if n = 9 then [CHR 0x5C, CHR ''t'']
      else if n = 11 then [CHR 0x5C, CHR ''v'']
      else if n < 32 \<or> n = 127 then [CHR 0x5C, CHR ''x'', hex_digit (n div 16), hex_digit (n mod 16)]
      else [c])"

definition go_quote :: "string \<Rightarrow> string" where
  "go_quote s = [CHR 0x22] @ concat (map quote_char s) @ [CHR 0x22]"

section \<open>Runes\<close>

text \<open>
  The next rune of a byte string and its width, with the checks of \<^verbatim>\<open>unicode/utf8\<close>: an invalid
  sequence is U+FFFD of width one.
\<close>

definition cont_byte :: "nat \<Rightarrow> nat \<Rightarrow> nat \<Rightarrow> bool" where
  "cont_byte lo hi b \<longleftrightarrow> lo \<le> b \<and> b \<le> hi"

definition decode_bytes :: "nat list \<Rightarrow> nat \<times> nat" where
  "decode_bytes bs =
     (case bs of
        [] \<Rightarrow> (0xFFFD, 0)
      | b0 # rest \<Rightarrow>
          if b0 < 0x80 then (b0, 1)
          else if 0xC2 \<le> b0 \<and> b0 \<le> 0xDF then
            (case rest of
               b1 # _ \<Rightarrow> if cont_byte 0x80 0xBF b1 then ((b0 - 0xC0) * 64 + (b1 - 0x80), 2) else (0xFFFD, 1)
             | _ \<Rightarrow> (0xFFFD, 1))
          else if 0xE0 \<le> b0 \<and> b0 \<le> 0xEF then
            (case rest of
               b1 # b2 # _ \<Rightarrow>
                 if cont_byte (if b0 = 0xE0 then 0xA0 else 0x80) (if b0 = 0xED then 0x9F else 0xBF) b1
                    \<and> cont_byte 0x80 0xBF b2
                 then ((b0 - 0xE0) * 4096 + (b1 - 0x80) * 64 + (b2 - 0x80), 3) else (0xFFFD, 1)
             | _ \<Rightarrow> (0xFFFD, 1))
          else if 0xF0 \<le> b0 \<and> b0 \<le> 0xF4 then
            (case rest of
               b1 # b2 # b3 # _ \<Rightarrow>
                 if cont_byte (if b0 = 0xF0 then 0x90 else 0x80) (if b0 = 0xF4 then 0x8F else 0xBF) b1
                    \<and> cont_byte 0x80 0xBF b2 \<and> cont_byte 0x80 0xBF b3
                 then ((b0 - 0xF0) * 262144 + (b1 - 0x80) * 4096 + (b2 - 0x80) * 64 + (b3 - 0x80), 4)
                 else (0xFFFD, 1)
             | _ \<Rightarrow> (0xFFFD, 1))
          else (0xFFFD, 1))"

fun runes_from :: "nat \<Rightarrow> nat list \<Rightarrow> nat list" where
  "runes_from skip [] = []"
| "runes_from (Suc skip) (b # bs) = runes_from skip bs"
| "runes_from 0 (b # bs) = (let (r, width) = decode_bytes (b # bs) in r # runes_from (width - 1) bs)"

definition runes :: "string \<Rightarrow> nat list" where
  "runes s = runes_from 0 (map of_char s)"

text \<open>\<^verbatim>\<open>WriteRune\<close> and \<^verbatim>\<open>string([]rune)\<close>: the UTF-8 bytes of a rune.\<close>

definition encode_rune :: "nat \<Rightarrow> string" where
  "encode_rune r = map char_of
     (if r < 0x80 then [r]
      else if r < 0x800 then [0xC0 + r div 64, 0x80 + r mod 64]
      else if r < 0x10000 then [0xE0 + r div 4096, 0x80 + r div 64 mod 64, 0x80 + r mod 64]
      else [0xF0 + r div 262144, 0x80 + r div 4096 mod 64, 0x80 + r div 64 mod 64, 0x80 + r mod 64])"

text \<open>\<^verbatim>\<open>%04X\<close>.\<close>

definition hex_upper :: "nat \<Rightarrow> char" where
  "hex_upper n = (if n < 10 then char_of (48 + n) else char_of (55 + n))"

fun hex_digits :: "nat \<Rightarrow> string" where
  "hex_digits n = (if n < 16 then [hex_upper n] else hex_digits (n div 16) @ [hex_upper (n mod 16)])"

declare hex_digits.simps [simp del]

definition hex4 :: "nat \<Rightarrow> string" where
  "hex4 n = (let d = hex_digits n in replicate (4 - length d) (CHR ''0'') @ d)"

section \<open>Lexical path cleaning\<close>

text \<open>\<^verbatim>\<open>filepath.Clean\<close> on a Unix system: components are pushed on a stack, read last to first.\<close>

fun clean_push :: "bool \<Rightarrow> string list \<Rightarrow> string list \<Rightarrow> string list" where
  "clean_push rooted st [] = st"
| "clean_push rooted st (p # ps) =
     (if p = [] \<or> p = ''.'' then clean_push rooted st ps
      else if p = ''..'' then
        (case st of
           [] \<Rightarrow> clean_push rooted (if rooted then [] else [''..'']) ps
         | q # qs \<Rightarrow> if q = ''..'' then clean_push rooted (''..'' # st) ps
                     else clean_push rooted qs ps)
      else clean_push rooted (p # st) ps)"

definition path_clean :: "string \<Rightarrow> string" where
  "path_clean p =
     (let rooted = has_prefix p ''/'';
          comps = rev (clean_push rooted [] (split_on (CHR ''/'') p));
          body = str_join ''/'' comps
      in if rooted then CHR ''/'' # body else if body = [] then ''.'' else body)"

end
