(* ===== verification/Facts.thy ===== *)
theory Facts
  imports GoStrings
begin

text \<open>
  Facts with provenance (\<^verbatim>\<open>fact.go\<close>): the record \<open>fact\<close>, the tool that remembers the facts of its
  last successful call, the provenance check and the deduplication by payload hash that the
  executor and the crew fold fact lists with. A Go function value is a function on an outside
  world \<open>'w\<close>; the SHA-256 digest is an argument. The lemmas show that deduplication is an
  associative fold that keeps first occurrences and never removes or reorders what was there.
\<close>

section \<open>Facts and fact tools\<close>

text \<open>A point in time; \<open>0\<close> is the zero \<^verbatim>\<open>time.Time\<close>.\<close>

type_synonym time = nat

record fact =
  Claim :: string
  SourceOrg :: string
  SourceURL :: string
  CollectedAt :: time
  PayloadHash :: string

definition NewFact :: "(string \<Rightarrow> string) \<Rightarrow> time \<Rightarrow> string \<Rightarrow> string \<Rightarrow> string \<Rightarrow> string \<Rightarrow> fact" where
  "NewFact sha256_hex now claim sourceOrg sourceURL rawPayload =
     \<lparr>Claim = claim, SourceOrg = sourceOrg, SourceURL = sourceURL, CollectedAt = now,
      PayloadHash = sha256_hex rawPayload\<rparr>"

record 'w factSourceTool =
  fst_name :: string
  fst_description :: string
  fst_fn :: "string \<Rightarrow> 'w \<Rightarrow> 'w \<times> string \<times> err option"
  fst_factsFn :: "(string \<Rightarrow> 'w \<Rightarrow> 'w \<times> fact list) option"
  lastFacts :: "fact list"

definition NewFactSourceTool ::
  "string \<Rightarrow> string \<Rightarrow> (string \<Rightarrow> 'w \<Rightarrow> 'w \<times> string \<times> err option)
   \<Rightarrow> (string \<Rightarrow> 'w \<Rightarrow> 'w \<times> fact list) option \<Rightarrow> 'w factSourceTool" where
  "NewFactSourceTool name description fn factsFn =
     \<lparr>fst_name = name, fst_description = description, fst_fn = fn, fst_factsFn = factsFn,
      lastFacts = []\<rparr>"

definition factSourceTool_Call ::
  "'w factSourceTool \<Rightarrow> string \<Rightarrow> 'w \<Rightarrow> 'w factSourceTool \<times> 'w \<times> string \<times> err option" where
  "factSourceTool_Call t input w =
     (let (w, out, e) = fst_fn t input w in
      case (e, fst_factsFn t) of
        (None, Some factsFn) \<Rightarrow>
          (let (w, fs) = factsFn out w in (t\<lparr>lastFacts := fs\<rparr>, w, out, e))
      | _ \<Rightarrow> (t\<lparr>lastFacts := []\<rparr>, w, out, e))"

definition factSourceTool_Facts :: "'w factSourceTool \<Rightarrow> fact list" where
  "factSourceTool_Facts t = lastFacts t"

section \<open>The provenance check\<close>

fun provenance_from :: "nat \<Rightarrow> fact list \<Rightarrow> err option" where
  "provenance_from i [] = None"
| "provenance_from i (f # fs) =
     (if SourceURL f = [] then
        Some (Plain (''fact '' @ itoa i @ '' (claim '' @ go_quote (Claim f) @ ''): missing source_url''))
      else if PayloadHash f = [] then
        Some (Plain (''fact '' @ itoa i @ '' (claim '' @ go_quote (Claim f) @ ''): missing payload_hash''))
      else provenance_from (Suc i) fs)"

definition AllFactsProvenanced :: "fact list \<Rightarrow> err option" where
  "AllFactsProvenanced facts = provenance_from 0 facts"

section \<open>Deduplication\<close>

fun dedup_loop :: "string set \<Rightarrow> fact list \<Rightarrow> fact list \<Rightarrow> fact list" where
  "dedup_loop seen existing [] = existing"
| "dedup_loop seen existing (f # fs) =
     (if PayloadHash f = [] \<or> PayloadHash f \<in> seen then dedup_loop seen existing fs
      else dedup_loop (insert (PayloadHash f) seen) (existing @ [f]) fs)"

definition dedupFacts :: "fact list \<Rightarrow> fact list \<Rightarrow> fact list" where
  "dedupFacts existing newFacts = dedup_loop (PayloadHash ` set existing) existing newFacts"

text \<open>A list that deduplication may have built: hashes present and pairwise different.\<close>

definition dedup_wf :: "fact list \<Rightarrow> bool" where
  "dedup_wf fs \<longleftrightarrow> distinct (map PayloadHash fs) \<and> [] \<notin> PayloadHash ` set fs"

section \<open>Lemmas\<close>

lemma factSourceTool_Call_failed:
  "factSourceTool_Call t input w = (t', w', out, Some e) \<Longrightarrow> factSourceTool_Facts t' = []"
  by (auto simp: factSourceTool_Call_def factSourceTool_Facts_def Let_def
           split: prod.splits option.splits)

lemma provenance_from_None:
  "provenance_from i fs = None \<longleftrightarrow> (\<forall>f\<in>set fs. SourceURL f \<noteq> [] \<and> PayloadHash f \<noteq> [])"
  by (induction fs arbitrary: i) auto

lemma dedupFacts_Nil [simp]: "dedupFacts ex [] = ex"
  by (simp add: dedupFacts_def)

lemma dedupFacts_Cons:
  "dedupFacts ex (f # fs) =
     (if PayloadHash f = [] \<or> PayloadHash f \<in> PayloadHash ` set ex then dedupFacts ex fs
      else dedupFacts (ex @ [f]) fs)"
  by (simp add: dedupFacts_def)

lemma dedupFacts_append: "dedupFacts ex (fs @ gs) = dedupFacts (dedupFacts ex fs) gs"
  by (induction fs arbitrary: ex) (simp_all add: dedupFacts_Cons)

lemma dedupFacts_prefix: "prefix ex (dedupFacts ex fs)"
proof (induction fs arbitrary: ex)
  case (Cons f fs)
  show ?case
    using Cons [of ex] Cons [of "ex @ [f]"] by (auto simp: dedupFacts_Cons dest: append_prefixD)
qed simp

lemma dedupFacts_wf: "dedup_wf ex \<Longrightarrow> dedup_wf (dedupFacts ex fs)"
proof (induction fs arbitrary: ex)
  case (Cons f fs)
  have "dedup_wf (ex @ [f])" if "PayloadHash f \<noteq> []" "PayloadHash f \<notin> PayloadHash ` set ex"
    using that Cons.prems by (auto simp: dedup_wf_def)
  then show ?case using Cons by (simp add: dedupFacts_Cons)
qed simp

lemma dedupFacts_hashes:
  "PayloadHash ` set (dedupFacts ex fs) = PayloadHash ` set ex \<union> (PayloadHash ` set fs - {[]})"
proof (induction fs arbitrary: ex)
  case (Cons f fs)
  show ?case by (subst dedupFacts_Cons) (auto simp only: Cons if_split set_append set_simps image_insert image_Un split: if_split)
qed simp

lemma dedupFacts_absorb:
  "PayloadHash ` set fs \<subseteq> insert [] (PayloadHash ` set ex) \<Longrightarrow> dedupFacts ex fs = ex"
  by (induction fs) (auto simp: dedupFacts_Cons)

lemma dedup_wf_Nil [simp]: "dedup_wf []"
  by (simp add: dedup_wf_def)

lemma fold_dedupFacts: "fold (\<lambda>fs acc. dedupFacts acc fs) fss ex = dedupFacts ex (concat fss)"
  by (induction fss arbitrary: ex) (simp_all add: dedupFacts_append)

section \<open>Properties\<close>

text \<open>
  Deduplication never touches the facts already collected (they stay a prefix), keeps hashes
  non-empty and pairwise different, and loses no hash: the result has exactly the old hashes and
  the non-empty new ones.
\<close>
theorem dedupFacts_sound:
  assumes "dedup_wf existing"
  shows "prefix existing (dedupFacts existing newFacts)
    \<and> dedup_wf (dedupFacts existing newFacts)
    \<and> PayloadHash ` set (dedupFacts existing newFacts)
        = PayloadHash ` set existing \<union> (PayloadHash ` set newFacts - {[]})"
  using assms by (simp add: dedupFacts_prefix dedupFacts_wf dedupFacts_hashes)

lemma dedupFacts_sound_witness:
  "let f = (\<lambda>c h. \<lparr>Claim = c, SourceOrg = [], SourceURL = ''u'', CollectedAt = 1, PayloadHash = h\<rparr>);
       old = [f ''a'' ''1''];
       new = [f ''b'' ''1'', f ''c'' [], f ''d'' ''2'', f ''e'' ''2'']
   in dedup_wf old \<and> dedup_wf (dedupFacts old new)
      \<and> map Claim (dedupFacts old new) = [''a'', ''d'']"
  using dedupFacts_sound
    [of "[\<lparr>Claim = ''a'', SourceOrg = [], SourceURL = ''u'', CollectedAt = 1, PayloadHash = ''1''\<rparr>]"]
  by (simp add: dedup_wf_def dedupFacts_def)

text \<open>
  Folding facts in one batch or in any number of consecutive batches gives the same list, so
  the crew may deduplicate task by task, and folding the same facts again adds nothing.
\<close>
theorem dedupFacts_batches:
  "fold (\<lambda>fs acc. dedupFacts acc fs) batches existing = dedupFacts existing (concat batches)
   \<and> dedupFacts (dedupFacts existing (concat batches)) (concat batches)
       = dedupFacts existing (concat batches)"
proof -
  have "dedupFacts (dedupFacts existing (concat batches)) (concat batches)
          = dedupFacts existing (concat batches)"
    by (rule dedupFacts_absorb) (auto simp only: dedupFacts_hashes)
  then show ?thesis by (simp add: fold_dedupFacts)
qed

end
