(* ===== verification/Memory.thy ===== *)
theory Memory
  imports Complex_Main Facts "HOL-Library.Product_Lexorder"
begin

text \<open>
  The in-memory store: entries, queries and caps (\<^verbatim>\<open>memory_store.go\<close>), ranking and the two
  selection rules shared by the built-in stores (\<^verbatim>\<open>memory_embed.go\<close>), and \<^verbatim>\<open>*Memory\<close> with its
  short-term and its store operations (\<^verbatim>\<open>memory.go\<close>). \<open>select_hits\<close> is the contract both stores
  implement; the locale \<open>memory_store\<close> states it as an interface, proves what a client gets from
  it, and is interpreted on \<^verbatim>\<open>*Memory\<close> here and on \<^verbatim>\<open>FileStore\<close> in its own theory.
  Vector components are the exact values of the float32s and scores are exact reals; random ids
  come from a stream \<open>rnd\<close> that the state reads at \<open>mem_draws\<close>.
\<close>

section \<open>Entries and queries\<close>

definition MaxMemoryEntryBytes :: nat where "MaxMemoryEntryBytes = 32 * 1024"
definition MaxMemoryQueryLimit :: int where "MaxMemoryQueryLimit = 32"
definition DefaultMemoryQueryLimit :: int where "DefaultMemoryQueryLimit = 8"
definition DefaultMemoryMaxChars :: int where "DefaultMemoryMaxChars = 4000"

type_synonym memoryScope = string

record memoryEntry =
  me_ID :: string
  me_Scope :: memoryScope
  me_Agent :: string
  me_Task :: string
  me_Content :: string
  me_CreatedAt :: time
  me_Metadata :: "string \<rightharpoonup> string"
  me_Embedding :: "real list"

record memoryQuery =
  mq_Scope :: memoryScope
  mq_Text :: string
  mq_Embedding :: "real list"
  mq_Limit :: int
  mq_MaxChars :: int

text \<open>The zero \<^verbatim>\<open>MemoryEntry{}\<close> and \<^verbatim>\<open>MemoryQuery{}\<close> that literals start from.\<close>

definition zero_entry :: memoryEntry where
  "zero_entry = \<lparr>me_ID = [], me_Scope = [], me_Agent = [], me_Task = [], me_Content = [],
     me_CreatedAt = 0, me_Metadata = Map.empty, me_Embedding = []\<rparr>"

definition zero_query :: memoryQuery where
  "zero_query = \<lparr>mq_Scope = [], mq_Text = [], mq_Embedding = [], mq_Limit = 0, mq_MaxChars = 0\<rparr>"

section \<open>Selection: bounds, latest-N, cosine ranking\<close>

fun cosine_sums :: "real list \<Rightarrow> real list \<Rightarrow> real \<times> real \<times> real \<Rightarrow> real \<times> real \<times> real" where
  "cosine_sums (fa # as) (fb # bs) (dot, na, nb) =
     cosine_sums as bs (dot + fa * fb, na + fa * fa, nb + fb * fb)"
| "cosine_sums _ _ acc = acc"

definition cosineSimilarity :: "real list \<Rightarrow> real list \<Rightarrow> real" where
  "cosineSimilarity a b =
     (if a = [] \<or> length a \<noteq> length b then 0
      else let (dot, na, nb) = cosine_sums a b (0, 0, 0) in
        if na = 0 \<or> nb = 0 then 0 else dot / (sqrt na * sqrt nb))"

definition clampQueryBounds :: "memoryQuery \<Rightarrow> int \<times> int" where
  "clampQueryBounds q =
     (let limit = mq_Limit q;
          limit = (if limit \<le> 0 \<or> limit > MaxMemoryQueryLimit then DefaultMemoryQueryLimit else limit);
          maxChars = mq_MaxChars q;
          maxChars = (if maxChars = 0 then DefaultMemoryMaxChars else maxChars)
      in (limit, maxChars))"

text \<open>The bounded copy loop that \<^verbatim>\<open>takeLatestN\<close> and both passes of \<^verbatim>\<open>rankByEmbedding\<close> run.\<close>

fun take_loop :: "int \<Rightarrow> int \<Rightarrow> memoryEntry list \<Rightarrow> int \<Rightarrow> memoryEntry list \<Rightarrow> memoryEntry list" where
  "take_loop limit maxChars out tot [] = out"
| "take_loop limit maxChars out tot (e # es) =
     (if int (length out) \<ge> limit then out
      else if maxChars \<ge> 0 \<and> tot + int (length (me_Content e)) > maxChars then out
      else take_loop limit maxChars (out @ [e]) (tot + int (length (me_Content e))) es)"

definition takeLatestN :: "memoryEntry list \<Rightarrow> int \<Rightarrow> int \<Rightarrow> memoryEntry list" where
  "takeLatestN candidates limit maxChars = take_loop limit maxChars [] 0 (rev candidates)"

record scored =
  sc_e :: memoryEntry
  sc_score :: real
  sc_idx :: nat

fun score_items :: "real list \<Rightarrow> nat \<Rightarrow> memoryEntry list \<Rightarrow> scored list" where
  "score_items query i [] = []"
| "score_items query i (e # es) =
     \<lparr>sc_e = e, sc_score = cosineSimilarity query (me_Embedding e), sc_idx = i\<rparr>
       # score_items query (Suc i) es"

definition scored_key :: "scored \<Rightarrow> real \<times> int" where
  "scored_key it = (- sc_score it, - int (sc_idx it))"

definition rankByEmbedding :: "real list \<Rightarrow> memoryEntry list \<Rightarrow> int \<Rightarrow> int \<Rightarrow> memoryEntry list" where
  "rankByEmbedding query candidates limit maxChars =
     (if candidates = [] \<or> query = [] then []
      else let items = sort_key scored_key (score_items query 0 candidates);
               out = take_loop limit maxChars [] 0 (map sc_e items);
               hasPos = list_ex (\<lambda>it. sc_score it > 0) items
           in if hasPos
              then take_loop limit maxChars [] 0 (map sc_e (filter (\<lambda>it. \<not> sc_score it \<le> 0) items))
              else out)"

text \<open>The text filter of a query and the choice of the selection rule.\<close>

definition query_text :: "memoryQuery \<Rightarrow> string" where
  "query_text q = to_lower (trim_space (mq_Text q))"

definition text_match :: "memoryQuery \<Rightarrow> string \<Rightarrow> string \<Rightarrow> bool" where
  "text_match q content task \<longleftrightarrow>
     mq_Embedding q \<noteq> [] \<or> query_text q = [] \<or> contains (to_lower content) (query_text q)
       \<or> contains (to_lower task) (query_text q)"

definition choose_hits :: "memoryQuery \<Rightarrow> memoryEntry list \<Rightarrow> memoryEntry list" where
  "choose_hits q candidates =
     (let (limit, maxChars) = clampQueryBounds q in
      if mq_Embedding q \<noteq> [] then rankByEmbedding (mq_Embedding q) candidates limit maxChars
      else takeLatestN candidates limit maxChars)"

text \<open>The contract of a query over the entries of one scope, in insertion order.\<close>

definition select_hits :: "memoryQuery \<Rightarrow> memoryEntry list \<Rightarrow> memoryEntry list" where
  "select_hits q es = choose_hits q (filter (\<lambda>e. text_match q (me_Content e) (me_Task e)) es)"

section \<open>The in-memory store\<close>

record memoryRecord =
  mr_Agent :: string
  mr_Task :: string
  mr_Content :: string

record memorySlot =
  sl_rec :: memoryRecord
  sl_id :: string
  sl_scope :: memoryScope
  sl_createdAt :: time
  sl_embedding :: "real list"

record memory =
  mem_records :: "memorySlot list"
  mem_draws :: nat

definition NewMemory :: "nat \<Rightarrow> memory" where
  "NewMemory n = \<lparr>mem_records = [], mem_draws = n\<rparr>"

definition Memory_Save :: "memoryRecord \<Rightarrow> memory \<Rightarrow> memory" where
  "Memory_Save rec m =
     m\<lparr>mem_records := mem_records m @
        [\<lparr>sl_rec = rec, sl_id = [], sl_scope = [], sl_createdAt = 0, sl_embedding = []\<rparr>]\<rparr>"

definition Memory_Records :: "memory \<Rightarrow> memoryRecord list" where
  "Memory_Records m = map sl_rec (mem_records m)"

definition Memory_Search :: "string \<Rightarrow> memory \<Rightarrow> memoryRecord list" where
  "Memory_Search query m =
     (if trim_space query = [] then map sl_rec (mem_records m)
      else let q = to_lower query in
        filter (\<lambda>r. contains (to_lower (mr_Content r)) q \<or> contains (to_lower (mr_Task r)) q)
          (map sl_rec (mem_records m)))"

definition Memory_String :: "memory \<Rightarrow> string" where
  "Memory_String m =
     concat (map (\<lambda>s. ''- ['' @ mr_Agent (sl_rec s) @ ''] '' @ mr_Content (sl_rec s) @ [CHR 0x0A])
       (mem_records m))"

text \<open>
  \<^verbatim>\<open>generateIDLocked\<close> draws ids until one is unused. Nothing in the code bounds the loop, so it is
  a partial function: \<^const>\<open>None\<close> stands for a loop that never returns. \<^verbatim>\<open>FileStore.freshIDLocked\<close>
  is the same loop over another set of used ids.
\<close>

partial_function (option) generateID ::
  "(nat \<Rightarrow> string) \<Rightarrow> string set \<Rightarrow> nat \<Rightarrow> (string \<times> nat) option" where
  "generateID rnd used n =
     (if rnd n \<in> used then generateID rnd used (Suc n) else Some (rnd n, Suc n))"

definition Memory_Put ::
  "(nat \<Rightarrow> string) \<Rightarrow> time \<Rightarrow> memoryEntry \<Rightarrow> memory \<Rightarrow> (memory \<times> (err + memoryEntry)) option" where
  "Memory_Put rnd now e m =
     (if length (me_Content e) > MaxMemoryEntryBytes
      then Some (m, Inl (StoreSentinel ErrMemoryEntryTooLarge))
      else case (if me_ID e = [] then generateID rnd (sl_id ` set (mem_records m)) (mem_draws m)
                 else Some (me_ID e, mem_draws m)) of
        None \<Rightarrow> None
      | Some (i, n) \<Rightarrow>
          (let e = e\<lparr>me_CreatedAt := (if me_CreatedAt e = 0 then now else me_CreatedAt e)\<rparr>;
               e = e\<lparr>me_ID := i\<rparr>;
               slot = \<lparr>sl_rec = \<lparr>mr_Agent = me_Agent e, mr_Task = me_Task e, mr_Content = me_Content e\<rparr>,
                       sl_id = i, sl_scope = me_Scope e, sl_createdAt = me_CreatedAt e,
                       sl_embedding = me_Embedding e\<rparr>
           in Some (m\<lparr>mem_records := mem_records m @ [slot], mem_draws := n\<rparr>, Inr e)))"

definition slot_entry :: "memorySlot \<Rightarrow> memoryEntry" where
  "slot_entry s =
     \<lparr>me_ID = sl_id s, me_Scope = sl_scope s, me_Agent = mr_Agent (sl_rec s),
      me_Task = mr_Task (sl_rec s), me_Content = mr_Content (sl_rec s),
      me_CreatedAt = sl_createdAt s, me_Metadata = Map.empty, me_Embedding = sl_embedding s\<rparr>"

text \<open>\<^verbatim>\<open>idForLocked\<close>: a slot without id gets the next random id on first demand.\<close>

definition idForLocked :: "(nat \<Rightarrow> string) \<Rightarrow> memorySlot \<Rightarrow> nat \<Rightarrow> memorySlot \<times> nat" where
  "idForLocked rnd s n = (if sl_id s = [] then (s\<lparr>sl_id := rnd n\<rparr>, Suc n) else (s, n))"

fun query_scan ::
  "(nat \<Rightarrow> string) \<Rightarrow> memoryQuery \<Rightarrow> memorySlot list \<Rightarrow> nat \<Rightarrow> memorySlot list \<times> nat \<times> memoryEntry list" where
  "query_scan rnd q [] n = ([], n, [])"
| "query_scan rnd q (s # ss) n =
     (if sl_scope s \<noteq> mq_Scope q
         \<or> \<not> text_match q (mr_Content (sl_rec s)) (mr_Task (sl_rec s))
      then let (ss', n', es) = query_scan rnd q ss n in (s # ss', n', es)
      else let (s', n1) = idForLocked rnd s n; (ss', n', es) = query_scan rnd q ss n1
           in (s' # ss', n', slot_entry s' # es))"

definition Memory_Query ::
  "(nat \<Rightarrow> string) \<Rightarrow> memoryQuery \<Rightarrow> memory \<Rightarrow> memory \<times> (err + memoryEntry list)" where
  "Memory_Query rnd q m =
     (let (ss, n, candidates) = query_scan rnd q (mem_records m) (mem_draws m)
      in (m\<lparr>mem_records := ss, mem_draws := n\<rparr>, Inr (choose_hits q candidates)))"

fun delete_scan ::
  "(nat \<Rightarrow> string) \<Rightarrow> memoryScope \<Rightarrow> string \<Rightarrow> memorySlot list \<Rightarrow> nat \<Rightarrow> memorySlot list \<times> nat" where
  "delete_scan rnd scope i [] n = ([], n)"
| "delete_scan rnd scope i (s # ss) n =
     (let (s', n1) = idForLocked rnd s n in
      if sl_id s' = i \<and> sl_scope s = scope then (ss, n1)
      else let (ss', n') = delete_scan rnd scope i ss n1 in (s' # ss', n'))"

definition Memory_Delete ::
  "(nat \<Rightarrow> string) \<Rightarrow> memoryScope \<Rightarrow> string \<Rightarrow> memory \<Rightarrow> memory \<times> err option" where
  "Memory_Delete rnd scope i m =
     (let (ss, n) = delete_scan rnd scope i (mem_records m) (mem_draws m)
      in (m\<lparr>mem_records := ss, mem_draws := n\<rparr>, None))"

definition Memory_Close :: "memory \<Rightarrow> memory \<times> err option" where
  "Memory_Close m = (m, None)"

section \<open>Lemmas on selection\<close>

definition chars :: "memoryEntry list \<Rightarrow> int" where
  "chars es = (\<Sum>e\<leftarrow>es. int (length (me_Content e)))"

lemma chars_simps [simp]:
  "chars [] = 0"
  "chars (e # es) = int (length (me_Content e)) + chars es"
  "chars (es @ fs) = chars es + chars fs"
  by (simp_all add: chars_def)

text \<open>What every run of the copy loop satisfies: a prefix within both bounds that cannot grow.\<close>

definition budget_prefix :: "int \<Rightarrow> int \<Rightarrow> memoryEntry list \<Rightarrow> memoryEntry list \<Rightarrow> bool" where
  "budget_prefix limit maxChars es hits \<longleftrightarrow>
     prefix hits es \<and> int (length hits) \<le> limit \<and> (maxChars \<ge> 0 \<longrightarrow> chars hits \<le> maxChars)
     \<and> (length hits < length es \<longrightarrow>
          int (length hits) = limit
          \<or> (maxChars \<ge> 0 \<and> chars hits + int (length (me_Content (es ! length hits))) > maxChars))"

lemma take_loop_budget:
  "int (length out) \<le> limit \<Longrightarrow> tot = chars out \<Longrightarrow> (maxChars \<ge> 0 \<longrightarrow> tot \<le> maxChars)
   \<Longrightarrow> budget_prefix limit maxChars (out @ es) (take_loop limit maxChars out tot es)"
proof (induction es arbitrary: out tot)
  case (Cons e es)
  let ?n = "int (length (me_Content e))"
  consider "int (length out) \<ge> limit" | "int (length out) < limit" "maxChars \<ge> 0 \<and> tot + ?n > maxChars"
    | "int (length out) < limit" "\<not> (maxChars \<ge> 0 \<and> tot + ?n > maxChars)"
    by linarith
  then show ?case
  proof cases
    case 3
    then have "take_loop limit maxChars out tot (e # es)
        = take_loop limit maxChars (out @ [e]) (tot + ?n) es" by auto
    moreover have "budget_prefix limit maxChars ((out @ [e]) @ es)
        (take_loop limit maxChars (out @ [e]) (tot + ?n) es)"
      by (rule Cons.IH) (use 3 Cons.prems in auto)
    ultimately show ?thesis by simp
  qed (use Cons.prems in \<open>simp_all add: budget_prefix_def\<close>)
qed (simp add: budget_prefix_def)

lemma take_loop_extends: "\<exists>zs. take_loop limit maxChars out tot es = out @ zs"
proof (induction es arbitrary: out tot)
  case (Cons e es)
  then show ?case using Cons [of "out @ [e]" "tot + int (length (me_Content e))"] by auto
qed simp

lemma take_loop_budget0:
  "0 \<le> limit \<Longrightarrow> budget_prefix limit maxChars es (take_loop limit maxChars [] 0 es)"
  using take_loop_budget [of "[]" limit 0 maxChars es] by simp

lemma clampQueryBounds_limit:
  "clampQueryBounds q = (limit, maxChars) \<Longrightarrow> 0 < limit \<and> limit \<le> MaxMemoryQueryLimit \<and> maxChars \<noteq> 0"
  by (auto simp: clampQueryBounds_def Let_def MaxMemoryQueryLimit_def DefaultMemoryQueryLimit_def
      DefaultMemoryMaxChars_def split: if_splits)

lemma score_items_nth:
  "k < length es \<Longrightarrow> score_items q i es ! k =
     \<lparr>sc_e = es ! k, sc_score = cosineSimilarity q (me_Embedding (es ! k)), sc_idx = i + k\<rparr>"
  by (induction es arbitrary: i k) (auto simp: nth_Cons split: nat.splits)

lemma score_items_length [simp]: "length (score_items q i es) = length es"
  by (induction es arbitrary: i) auto

lemma score_items_entries [simp]: "map sc_e (score_items q i es) = es"
  by (induction es arbitrary: i) auto

lemma score_items_idx: "it \<in> set (score_items q i es) \<Longrightarrow> i \<le> sc_idx it"
  by (induction es arbitrary: i) force+

lemma score_items_inj: "inj_on scored_key (set (score_items q i es))"
proof (induction es arbitrary: i)
  case (Cons e es)
  moreover have "scored_key \<lparr>sc_e = e, sc_score = r, sc_idx = i\<rparr> \<noteq> scored_key it"
    if "it \<in> set (score_items q (Suc i) es)" for it r
    using score_items_idx [OF that] by (auto simp: scored_key_def)
  ultimately show ?case by (auto simp: inj_on_insert)
qed simp

lemma score_items_distinct: "distinct (score_items q i es)"
proof (induction es arbitrary: i)
  case (Cons e es)
  then show ?case using score_items_idx [of _ q "Suc i" es] by fastforce
qed simp

text \<open>The order of the ranked list: higher score first, the later entry first among equals.\<close>

definition ranks_before :: "scored \<Rightarrow> scored \<Rightarrow> bool" where
  "ranks_before a b \<longleftrightarrow> sc_score a > sc_score b \<or> (sc_score a = sc_score b \<and> sc_idx a > sc_idx b)"

lemma ranks_before_key: "ranks_before a b \<longleftrightarrow> scored_key a < scored_key b"
  by (auto simp: ranks_before_def scored_key_def)

lemma sorted_items_rank:
  assumes "distinct xs" "inj_on scored_key (set xs)"
  shows "sorted_wrt ranks_before (sort_key scored_key xs)"
proof -
  let ?ys = "sort_key scored_key xs"
  have "sorted (map scored_key ?ys)" by simp
  moreover have "distinct (map scored_key ?ys)" using assms by (simp add: distinct_map)
  ultimately have "sorted_wrt (<) (map scored_key ?ys)" by (simp add: strict_sorted_iff)
  then show ?thesis
    by (simp add: sorted_wrt_map ranks_before_key [abs_def])
qed

section \<open>Lemmas on the in-memory store\<close>

lemma generateID_result:
  assumes "generateID rnd used n = Some y"
  shows "fst y \<notin> used \<and> (\<exists>k\<ge>n. y = (rnd k, Suc k))"
proof (rule generateID.raw_induct
    [of "\<lambda>rnd used n y. fst y \<notin> used \<and> (\<exists>k\<ge>n. y = (rnd k, Suc k))", OF _ assms])
  fix gen :: "(nat \<Rightarrow> string) \<Rightarrow> string set \<Rightarrow> nat \<Rightarrow> (string \<times> nat) option"
    and rnd :: "nat \<Rightarrow> string" and used n y
  assume IH: "\<And>rnd used n y. gen rnd used n = Some y \<Longrightarrow>
      fst y \<notin> used \<and> (\<exists>k\<ge>n. y = (rnd k, Suc k))"
    and eq: "(if rnd n \<in> used then gen rnd used (Suc n) else Some (rnd n, Suc n)) = Some y"
  show "fst y \<notin> used \<and> (\<exists>k\<ge>n. y = (rnd k, Suc k))"
  proof (cases "rnd n \<in> used")
    case True
    with eq IH [of rnd used "Suc n" y] show ?thesis by (auto dest: Suc_leD)
  qed (use eq in auto)
qed

lemma generateID_terminates:
  assumes "rnd (n + d) \<notin> used"
  shows "generateID rnd used n \<noteq> None"
  using assms
proof (induction d arbitrary: n)
  case 0
  then show ?case by (simp add: generateID.simps)
next
  case (Suc d)
  then show ?case by (subst generateID.simps) simp
qed

text \<open>The entries of one scope, and the states in which every slot has its own id.\<close>

definition mem_entries :: "memory \<Rightarrow> memoryScope \<Rightarrow> memoryEntry list" where
  "mem_entries m scope = map slot_entry (filter (\<lambda>s. sl_scope s = scope) (mem_records m))"

definition ids_ok :: "memory \<Rightarrow> bool" where
  "ids_ok m \<longleftrightarrow> distinct (map sl_id (mem_records m)) \<and> [] \<notin> sl_id ` set (mem_records m)"

definition mem_valid :: "(nat \<Rightarrow> string) \<Rightarrow> memory \<Rightarrow> bool" where
  "mem_valid rnd m \<longleftrightarrow> ids_ok m \<and> (\<forall>k\<ge>mem_draws m. rnd k \<noteq> [])"

lemma query_scan_ids:
  "[] \<notin> sl_id ` set ss \<Longrightarrow>
   query_scan rnd q ss n =
     (ss, n, filter (\<lambda>e. text_match q (me_Content e) (me_Task e))
        (map slot_entry (filter (\<lambda>s. sl_scope s = mq_Scope q) ss)))"
  by (induction ss) (auto simp: idForLocked_def slot_entry_def Let_def)

lemma delete_scan_ids:
  "[] \<notin> sl_id ` set ss \<Longrightarrow>
   delete_scan rnd scope i ss n =
     (case List.extract (\<lambda>s. sl_id s = i \<and> sl_scope s = scope) ss of
        None \<Rightarrow> ss | Some (xs, _, ys) \<Rightarrow> xs @ ys, n)"
  by (induction ss)
    (auto simp: idForLocked_def Let_def extract_Nil_code extract_Cons_code split: option.splits)

lemma Memory_Query_ids:
  "ids_ok m \<Longrightarrow> Memory_Query rnd q m = (m, Inr (select_hits q (mem_entries m (mq_Scope q))))"
  by (simp add: Memory_Query_def query_scan_ids ids_ok_def select_hits_def mem_entries_def)

lemma delete_first_filter:
  assumes "distinct (map sl_id ss)"
  shows "(case List.extract (\<lambda>s. sl_id s = i \<and> sl_scope s = scope) ss of
            None \<Rightarrow> ss | Some (xs, _, ys) \<Rightarrow> xs @ ys)
         = filter (\<lambda>s. \<not> (sl_id s = i \<and> sl_scope s = scope)) ss"
proof (cases "List.extract (\<lambda>s. sl_id s = i \<and> sl_scope s = scope) ss")
  case None
  then have "\<forall>s\<in>set ss. \<not> (sl_id s = i \<and> sl_scope s = scope)"
    by (simp add: extract_None_iff)
  then have "filter (\<lambda>s. \<not> (sl_id s = i \<and> sl_scope s = scope)) ss = ss"
    by (simp add: filter_id_conv)
  with None show ?thesis by simp
next
  case (Some t)
  obtain xs y ys where t: "t = (xs, y, ys)" by (cases t)
  with Some have *: "ss = xs @ y # ys" "sl_id y = i" "sl_scope y = scope"
    "\<forall>s\<in>set xs. \<not> (sl_id s = i \<and> sl_scope s = scope)"
    by (auto simp: extract_Some_iff)
  with assms have "\<forall>s\<in>set ys. sl_id s \<noteq> i" by (auto simp: image_iff)
  with * have "filter (\<lambda>s. \<not> (sl_id s = i \<and> sl_scope s = scope)) ys = ys"
    by (simp add: filter_id_conv)
  moreover from *(4) have "filter (\<lambda>s. \<not> (sl_id s = i \<and> sl_scope s = scope)) xs = xs"
    by (simp add: filter_id_conv)
  ultimately have "filter (\<lambda>s. \<not> (sl_id s = i \<and> sl_scope s = scope)) ss = xs @ ys"
    using *(2,3) by (simp add: *(1))
  with Some t show ?thesis by simp
qed

lemma Memory_Delete_ids:
  assumes "ids_ok m"
  shows "Memory_Delete rnd scope i m =
    (m\<lparr>mem_records := filter (\<lambda>s. \<not> (sl_id s = i \<and> sl_scope s = scope)) (mem_records m)\<rparr>, None)"
  using assms
  by (simp add: Memory_Delete_def delete_scan_ids delete_first_filter ids_ok_def)

section \<open>The store interface\<close>

text \<open>
  What a client of \<^verbatim>\<open>MemoryStore\<close> may rely on: \<open>entries s scope\<close> are the live entries of a
  scope in insertion order. A \<^verbatim>\<open>Put\<close> of an entry without id may not return (see \<open>generateID\<close>),
  hence the option. \<open>same_note\<close> leaves out what a store may assign or drop: id, time, metadata.
\<close>

definition same_note :: "memoryEntry \<Rightarrow> memoryEntry \<Rightarrow> bool" where
  "same_note a b \<longleftrightarrow> me_Scope a = me_Scope b \<and> me_Agent a = me_Agent b \<and> me_Task a = me_Task b
     \<and> me_Content a = me_Content b \<and> me_Embedding a = me_Embedding b"

locale memory_store =
  fixes entries :: "'s \<Rightarrow> memoryScope \<Rightarrow> memoryEntry list"
    and valid :: "'s \<Rightarrow> bool"
    and put :: "time \<Rightarrow> memoryEntry \<Rightarrow> 's \<Rightarrow> ('s \<times> (err + memoryEntry)) option"
    and query :: "memoryQuery \<Rightarrow> 's \<Rightarrow> 's \<times> (err + memoryEntry list)"
    and delete :: "memoryScope \<Rightarrow> string \<Rightarrow> 's \<Rightarrow> 's \<times> err option"
  assumes put_large: "MaxMemoryEntryBytes < length (me_Content e) \<Longrightarrow> valid s \<Longrightarrow>
      put now e s = Some (s, Inl (StoreSentinel ErrMemoryEntryTooLarge))"
    and put_new: "length (me_Content e) \<le> MaxMemoryEntryBytes \<Longrightarrow> me_ID e = [] \<Longrightarrow> valid s \<Longrightarrow>
      put now e s = Some (s', r) \<Longrightarrow>
      \<exists>e' x. r = Inr e' \<and> valid s' \<and> same_note e e' \<and> same_note e x \<and> me_ID x = me_ID e'
        \<and> me_ID x \<noteq> [] \<and> me_ID x \<notin> me_ID ` set (entries s (me_Scope e))
        \<and> entries s' = (entries s)(me_Scope e := entries s (me_Scope e) @ [x])"
    and query_selects: "valid s \<Longrightarrow> query q s = (s, Inr (select_hits q (entries s (mq_Scope q))))"
    and delete_removes: "valid s \<Longrightarrow> i \<noteq> [] \<Longrightarrow>
      \<exists>s'. delete sc i s = (s', None) \<and> valid s'
        \<and> entries s' = (entries s)(sc := filter (\<lambda>e. me_ID e \<noteq> i) (entries s sc))"
begin

text \<open>Deleting what was just stored restores every scope.\<close>

lemma put_delete:
  assumes "length (me_Content e) \<le> MaxMemoryEntryBytes" "me_ID e = []" "valid s"
    "put now e s = Some (s', Inr e')" "delete (me_Scope e) (me_ID e') s' = (s'', r)"
  shows "r = None \<and> valid s'' \<and> entries s'' = entries s"
proof -
  obtain x where x: "valid s'" "me_ID x = me_ID e'" "me_ID x \<noteq> []"
    "me_ID x \<notin> me_ID ` set (entries s (me_Scope e))"
    "entries s' = (entries s)(me_Scope e := entries s (me_Scope e) @ [x])"
    using put_new [OF assms(1-4)] by auto
  obtain t where t: "delete (me_Scope e) (me_ID e') s' = (t, None)" "valid t"
    "entries t = (entries s')(me_Scope e :=
       filter (\<lambda>e. me_ID e \<noteq> me_ID e') (entries s' (me_Scope e)))"
    using delete_removes [OF x(1)] x(2,3) by metis
  have "filter (\<lambda>e. me_ID e \<noteq> me_ID e') (entries s (me_Scope e)) = entries s (me_Scope e)"
    using x(2,4) by (intro filter_True) (metis image_eqI)
  then have "entries t = entries s" using t(3) x(2,5) by auto
  then show ?thesis using t(1,2) assms(5) by simp
qed

text \<open>A stored note is the first hit of the next unfiltered query of its scope.\<close>

lemma put_query:
  assumes "length (me_Content e) \<le> MaxMemoryEntryBytes" "me_ID e = []" "valid s"
    "put now e s = Some (s', Inr e')"
    "mq_Scope q = me_Scope e" "mq_Embedding q = []" "trim_space (mq_Text q) = []"
    "mq_MaxChars q < 0 \<or> int (length (me_Content e)) \<le> mq_MaxChars q"
  shows "\<exists>h hs. query q s' = (s', Inr (h # hs)) \<and> same_note e h \<and> me_ID h = me_ID e'"
proof -
  obtain x where x: "valid s'" "same_note e x" "me_ID x = me_ID e'"
    "entries s' = (entries s)(me_Scope e := entries s (me_Scope e) @ [x])"
    using put_new [OF assms(1-4)] by auto
  obtain limit mc where b: "clampQueryBounds q = (limit, mc)" by fastforce
  have "0 < limit" "mc < 0 \<or> int (length (me_Content e)) \<le> mc"
    using b assms(8)
    by (auto simp: clampQueryBounds_def Let_def DefaultMemoryQueryLimit_def MaxMemoryQueryLimit_def
        DefaultMemoryMaxChars_def split: if_splits)
  then have "select_hits q (entries s (me_Scope e) @ [x])
      = take_loop limit mc [x] (chars [x]) (rev (entries s (me_Scope e)))"
    using b assms(6,7) x(2)
    by (auto simp: select_hits_def choose_hits_def takeLatestN_def text_match_def query_text_def same_note_def)
  then have "\<exists>hs. select_hits q (entries s' (mq_Scope q)) = x # hs"
    using take_loop_extends [of limit mc "[x]"] x(4) assms(5) by auto
  then show ?thesis using query_selects [OF x(1), of q] x(2,3) by auto
qed

text \<open>Storing in one scope is invisible in every other.\<close>

lemma put_isolated:
  assumes "length (me_Content e) \<le> MaxMemoryEntryBytes" "me_ID e = []" "valid s"
    "put now e s = Some (s', r)" "mq_Scope q \<noteq> me_Scope e"
  shows "snd (query q s') = snd (query q s)"
  using put_new [OF assms(1-4)] query_selects [of s' q] query_selects [OF assms(3), of q] assms(5)
  by auto

end

text \<open>\<^verbatim>\<open>*Memory\<close> provides the interface.\<close>

lemma Memory_Put_new:
  assumes "length (me_Content e) \<le> MaxMemoryEntryBytes" "me_ID e = []" "mem_valid rnd m"
    "Memory_Put rnd now e m = Some (m', r)"
  shows "\<exists>e' x. r = Inr e' \<and> mem_valid rnd m' \<and> same_note e e' \<and> same_note e x \<and> me_ID x = me_ID e'
    \<and> me_ID x \<noteq> [] \<and> me_ID x \<notin> me_ID ` set (mem_entries m (me_Scope e))
    \<and> mem_entries m' = (mem_entries m)(me_Scope e := mem_entries m (me_Scope e) @ [x])"
proof -
  obtain i n where g: "generateID rnd (sl_id ` set (mem_records m)) (mem_draws m) = Some (i, n)"
    using assms(1,2,4) by (auto simp: Memory_Put_def split: option.splits)
  obtain k where k: "i \<notin> sl_id ` set (mem_records m)" "k \<ge> mem_draws m" "i = rnd k" "n = Suc k"
    using generateID_result [OF g] by auto
  let ?e = "e\<lparr>me_CreatedAt := (if me_CreatedAt e = 0 then now else me_CreatedAt e), me_ID := i\<rparr>"
  let ?slot = "\<lparr>sl_rec = \<lparr>mr_Agent = me_Agent e, mr_Task = me_Task e, mr_Content = me_Content e\<rparr>,
     sl_id = i, sl_scope = me_Scope e, sl_createdAt = me_CreatedAt ?e, sl_embedding = me_Embedding e\<rparr>"
  have m': "m' = m\<lparr>mem_records := mem_records m @ [?slot], mem_draws := n\<rparr>" and r: "r = Inr ?e"
    using assms(1,2,4) g by (auto simp: Memory_Put_def Let_def)
  have "mem_valid rnd m'"
    using assms(3) k by (auto simp: mem_valid_def ids_ok_def m' image_iff)
  moreover have "mem_entries m' = (mem_entries m)(me_Scope e := mem_entries m (me_Scope e) @ [slot_entry ?slot])"
    by (auto simp: mem_entries_def m')
  moreover have "same_note e ?e" "same_note e (slot_entry ?slot)" "me_ID (slot_entry ?slot) = me_ID ?e"
    "me_ID ?e = i"
    by (simp_all add: same_note_def slot_entry_def)
  moreover have "i \<noteq> []" "i \<notin> me_ID ` set (mem_entries m (me_Scope e))"
    using k assms(3) by (auto simp: mem_valid_def mem_entries_def slot_entry_def)
  ultimately show ?thesis unfolding r
    by (intro exI [of _ ?e] exI [of _ "slot_entry ?slot"]) simp
qed

lemma Memory_Delete_entries:
  assumes "mem_valid rnd m"
  shows "\<exists>m'. Memory_Delete rnd sc i m = (m', None) \<and> mem_valid rnd m'
    \<and> mem_entries m' = (mem_entries m)(sc := filter (\<lambda>e. me_ID e \<noteq> i) (mem_entries m sc))"
proof -
  let ?m = "m\<lparr>mem_records := filter (\<lambda>s. \<not> (sl_id s = i \<and> sl_scope s = sc)) (mem_records m)\<rparr>"
  have "mem_valid rnd ?m"
    using assms by (auto simp: mem_valid_def ids_ok_def distinct_map_filter)
  moreover have "mem_entries ?m = (mem_entries m)(sc := filter (\<lambda>e. me_ID e \<noteq> i) (mem_entries m sc))"
  proof
    fix sc'
    show "mem_entries ?m sc' = ((mem_entries m)(sc := filter (\<lambda>e. me_ID e \<noteq> i) (mem_entries m sc))) sc'"
      by (auto simp: mem_entries_def filter_map o_def slot_entry_def intro!: filter_cong arg_cong [where f = "map slot_entry"])
  qed
  ultimately show ?thesis
    using assms by (simp add: Memory_Delete_ids mem_valid_def)
qed

interpretation memstore: memory_store mem_entries "mem_valid rnd" "Memory_Put rnd"
  "Memory_Query rnd" "Memory_Delete rnd" for rnd
proof (unfold_locales, goal_cases)
  case (1 e s now)
  then show ?case by (simp add: Memory_Put_def)
next
  case (2 e s now s' r)
  then show ?case by (rule Memory_Put_new)
next
  case (3 s q)
  then show ?case by (simp add: mem_valid_def Memory_Query_ids)
next
  case (4 s i sc)
  then show ?case by (simp add: Memory_Delete_entries)
qed

section \<open>Properties\<close>

lemma take_loop_subset: "set (take_loop limit maxChars out tot es) \<subseteq> set out \<union> set es"
proof (induction es arbitrary: out tot)
  case (Cons e es)
  then show ?case using Cons [of "out @ [e]" "tot + int (length (me_Content e))"] by auto
qed simp

lemma ranked_entries:
  "sc_e ` set (sort_key scored_key (score_items q 0 es)) = set es"
  by (metis list.set_map score_items_entries set_sort)

lemma rankByEmbedding_loop:
  "\<exists>xs. set xs \<subseteq> set es \<and> rankByEmbedding query es limit mc = take_loop limit mc [] 0 xs"
proof (cases "es = [] \<or> query = []")
  case True
  then show ?thesis by (auto simp: rankByEmbedding_def intro: exI [of _ "[]"])
next
  case False
  let ?i = "sort_key scored_key (score_items query 0 es)"
  let ?p = "filter (\<lambda>it. \<not> sc_score it \<le> 0) ?i"
  have "set (map sc_e ?p) \<subseteq> sc_e ` set ?i" by (simp only: set_map set_filter) blast
  then have p: "set (map sc_e ?p) \<subseteq> set es" by (simp only: ranked_entries)
  have i: "set (map sc_e ?i) \<subseteq> set es" by (simp only: set_map ranked_entries)
  show ?thesis
  proof (cases "list_ex (\<lambda>it. 0 < sc_score it) ?i")
    case True
    then have "rankByEmbedding query es limit mc = take_loop limit mc [] 0 (map sc_e ?p)"
      using False by (simp only: rankByEmbedding_def Let_def if_True if_False)
    with p show ?thesis by blast
  next
    case nopos: False
    then have "rankByEmbedding query es limit mc = take_loop limit mc [] 0 (map sc_e ?i)"
      using False by (simp only: rankByEmbedding_def Let_def if_True if_False)
    with i show ?thesis by blast
  qed
qed

lemma rankByEmbedding_subset: "set (rankByEmbedding query es limit mc) \<subseteq> set es"
  using rankByEmbedding_loop [of es query limit mc] take_loop_subset [of limit mc "[]" 0] by fastforce

lemma distinct_set_single: "distinct xs \<Longrightarrow> set xs = {x} \<Longrightarrow> xs = [x]"
  by (cases xs; cases "tl xs") (auto simp: subset_singleton_iff)

lemma ranks_before_distinct: "sorted_wrt ranks_before xs \<Longrightarrow> distinct xs"
  by (induction xs) (auto simp: ranks_before_def)

text \<open>
  A query's answer is bounded: at most \<^verbatim>\<open>MaxMemoryQueryLimit\<close> hits whatever the caller asks
  for, at most the clamped number of characters unless the cap is disabled by a negative
  \<^verbatim>\<open>MaxChars\<close>, and only entries of the queried scope, on the text path as on the semantic path.
\<close>
theorem select_hits_bounded:
  "let hits = select_hits q es; (limit, maxChars) = clampQueryBounds q in
     int (length hits) \<le> limit \<and> limit \<le> 32 \<and> set hits \<subseteq> set es
     \<and> (maxChars < 0 \<or> chars hits \<le> maxChars)"
proof -
  obtain limit mc where b: "clampQueryBounds q = (limit, mc)" by fastforce
  let ?c = "filter (\<lambda>e. text_match q (me_Content e) (me_Task e)) es"
  have l: "0 < limit" "limit \<le> 32"
    using clampQueryBounds_limit [OF b] by (auto simp: MaxMemoryQueryLimit_def)
  have sub: "set (select_hits q es) \<subseteq> set ?c"
    using rankByEmbedding_subset [of "mq_Embedding q" ?c limit mc] take_loop_subset [of limit mc "[]" 0 "rev ?c"]
    by (simp add: select_hits_def choose_hits_def b takeLatestN_def)
  have "\<exists>xs. select_hits q es = take_loop limit mc [] 0 xs"
    using rankByEmbedding_loop [of ?c "mq_Embedding q" limit mc]
    by (auto simp: select_hits_def choose_hits_def b takeLatestN_def)
  then obtain xs where "budget_prefix limit mc xs (select_hits q es)"
    using take_loop_budget0 [of limit mc] l(1) by fastforce
  then show ?thesis
    using sub l b by (auto simp: budget_prefix_def)
qed

text \<open>
  The text path returns the newest entries first and as many as the bounds allow: the answer
  is a prefix of the reversed insertion order, and a shorter one than all candidates has
  either reached the limit or would exceed the character cap with the next candidate.
\<close>
theorem takeLatestN_newest:
  assumes "0 \<le> limit"
  shows "let hits = takeLatestN candidates limit maxChars; n = length hits in
     prefix hits (rev candidates) \<and> int n \<le> limit
     \<and> (n = length candidates \<or> int n = limit
        \<or> (maxChars \<ge> 0 \<and> chars hits + int (length (me_Content (rev candidates ! n))) > maxChars))"
proof -
  have "budget_prefix limit maxChars (rev candidates) (takeLatestN candidates limit maxChars)"
    unfolding takeLatestN_def using assms by (rule take_loop_budget0)
  then show ?thesis
    by (auto simp: budget_prefix_def Let_def dest: prefix_length_le)
qed

lemma takeLatestN_newest_witness:
  "(0::int) \<le> 8 \<and>
   map me_Content (takeLatestN [zero_entry\<lparr>me_Content := ''old''\<rparr>, zero_entry\<lparr>me_Content := ''mid''\<rparr>,
     zero_entry\<lparr>me_Content := ''new''\<rparr>] 8 6) = [''new'', ''mid'']"
  using takeLatestN_newest [of 8] by (simp add: takeLatestN_def zero_entry_def)

text \<open>
  Semantic ranking: the candidates sorted by cosine score, best first and the more recent
  first among equals, without those scoring zero or less as soon as one scores above zero; the
  answer is a maximal prefix of that list within the limit and the character cap.
\<close>
theorem rankByEmbedding_ranked:
  assumes "0 \<le> limit" "query \<noteq> []" "candidates \<noteq> []"
  shows "\<exists>ranked. sorted_wrt ranks_before ranked
     \<and> set ranked = {it \<in> set (score_items query 0 candidates).
          sc_score it > 0 \<or> (\<forall>it'\<in>set (score_items query 0 candidates). sc_score it' \<le> 0)}
     \<and> budget_prefix limit maxChars (map sc_e ranked) (rankByEmbedding query candidates limit maxChars)"
proof -
  let ?items = "score_items query 0 candidates"
  let ?sorted = "sort_key scored_key ?items"
  have srt: "sorted_wrt ranks_before ?sorted"
    by (rule sorted_items_rank [OF score_items_distinct score_items_inj])
  show ?thesis
  proof (cases "\<exists>it\<in>set ?items. sc_score it > 0")
    case True
    let ?pos = "filter (\<lambda>it. \<not> sc_score it \<le> 0) ?sorted"
    have "rankByEmbedding query candidates limit maxChars = take_loop limit maxChars [] 0 (map sc_e ?pos)"
      using assms True by (auto simp: rankByEmbedding_def Let_def list_ex_iff)
    moreover have "set ?pos = {it \<in> set ?items. sc_score it > 0 \<or> (\<forall>it'\<in>set ?items. sc_score it' \<le> 0)}"
      using True by auto
    ultimately show ?thesis
      using assms(1) srt by (intro exI [of _ ?pos]) (simp add: take_loop_budget0 sorted_wrt_filter)
  next
    case False
    then have all: "\<forall>it\<in>set ?items. sc_score it \<le> 0" by (auto simp: not_less)
    then have "rankByEmbedding query candidates limit maxChars
        = take_loop limit maxChars [] 0 (map sc_e ?sorted)"
      using assms by (auto simp: rankByEmbedding_def Let_def list_ex_iff not_less)
    moreover have "set ?sorted = {it \<in> set ?items. sc_score it > 0 \<or> (\<forall>it'\<in>set ?items. sc_score it' \<le> 0)}"
      using all by auto
    ultimately show ?thesis
      using assms(1) srt by (intro exI [of _ ?sorted]) (simp add: take_loop_budget0)
  qed
qed

lemma rankByEmbedding_ranked_witness:
  "let a = zero_entry\<lparr>me_Content := ''a'', me_Embedding := [0, 1]\<rparr>;
       b = zero_entry\<lparr>me_Content := ''b'', me_Embedding := [2, 0]\<rparr>
   in (0::int) \<le> 8 \<and> [1, 0::real] \<noteq> [] \<and> [a, b, a] \<noteq> []
      \<and> budget_prefix 8 100 [b] (rankByEmbedding [1, 0] [a, b, a] 8 100)"
proof -
  let ?a = "zero_entry\<lparr>me_Content := ''a'', me_Embedding := [0, 1]\<rparr>"
  let ?b = "zero_entry\<lparr>me_Content := ''b'', me_Embedding := [2, 0]\<rparr>"
  obtain ranked where r: "sorted_wrt ranks_before ranked"
    "set ranked = {it \<in> set (score_items [1, 0] 0 [?a, ?b, ?a]).
        sc_score it > 0 \<or> (\<forall>it'\<in>set (score_items [1, 0] 0 [?a, ?b, ?a]). sc_score it' \<le> 0)}"
    "budget_prefix 8 100 (map sc_e ranked) (rankByEmbedding [1, 0] [?a, ?b, ?a] 8 100)"
    using rankByEmbedding_ranked [of 8 "[1, 0]" "[?a, ?b, ?a]" 100] by auto
  have "set ranked = {\<lparr>sc_e = ?b, sc_score = 1, sc_idx = 1\<rparr>}"
    unfolding r(2) by (auto simp: cosineSimilarity_def)
  with ranks_before_distinct [OF r(1)] have "ranked = [\<lparr>sc_e = ?b, sc_score = 1, sc_idx = 1\<rparr>]"
    by (rule distinct_set_single)
  then show ?thesis using r(3) by simp
qed

text \<open>
  Drawing a fresh id returns exactly when the random source ever yields an unused id, and
  what it returns is unused; so a \<^verbatim>\<open>Put\<close> without id returns under the same condition.
\<close>
theorem generateID_returns:
  "(generateID rnd used n \<noteq> None) = (\<exists>k\<ge>n. rnd k \<notin> used)
   \<and> (case generateID rnd used n of None \<Rightarrow> True | Some (i, n') \<Rightarrow> i \<notin> used \<and> n < n')"
proof -
  have "generateID rnd used n \<noteq> None" if "k \<ge> n" "rnd k \<notin> used" for k
    using generateID_terminates [of rnd n "k - n"] that by simp
  moreover have "\<exists>k\<ge>n. rnd k \<notin> used" if "generateID rnd used n = Some y" for y
    using generateID_result [OF that] by auto
  moreover have "case generateID rnd used n of None \<Rightarrow> True | Some (i, n') \<Rightarrow> i \<notin> used \<and> n < n'"
    using generateID_result [of rnd used n] by (auto split: option.splits)
  ultimately show ?thesis by blast
qed

text \<open>
  Read-your-writes on \<^verbatim>\<open>*Memory\<close>: an entry stored without id is the first hit of the next
  unfiltered query of its scope, and deleting it by the id \<^verbatim>\<open>Put\<close> returned restores every scope.
\<close>
theorem Memory_read_your_writes:
  assumes "mem_valid rnd m" "me_ID e = []" "length (me_Content e) \<le> MaxMemoryEntryBytes"
    "Memory_Put rnd now e m = Some (m', Inr e')"
    "mq_Scope q = me_Scope e" "mq_Embedding q = []" "trim_space (mq_Text q) = []" "mq_MaxChars q < 0"
  shows "(\<exists>h hs. Memory_Query rnd q m' = (m', Inr (h # hs)) \<and> same_note e h \<and> me_ID h = me_ID e')
    \<and> mem_entries (fst (Memory_Delete rnd (me_Scope e) (me_ID e') m')) = mem_entries m"
  using memstore.put_query [OF assms(3,2,1,4-7)] assms(8)
    memstore.put_delete [OF assms(3,2,1,4)]
  by (metis prod.collapse)

lemma Memory_read_your_writes_witness:
  "let rnd = itoa; m = NewMemory 0; e = zero_entry\<lparr>me_Content := ''note''\<rparr>;
       q = zero_query\<lparr>mq_MaxChars := - 1\<rparr>;
       m' = fst (the (Memory_Put rnd 5 e m))
   in mem_valid rnd m \<and> mem_entries (fst (Memory_Delete rnd [] ''0'' m')) = mem_entries m"
proof -
  let ?e = "zero_entry\<lparr>me_Content := ''note''\<rparr>"
  have v: "mem_valid itoa (NewMemory 0)"
    by (simp add: mem_valid_def ids_ok_def NewMemory_def)
  have p: "Memory_Put itoa 5 ?e (NewMemory 0)
      = Some (fst (the (Memory_Put itoa 5 ?e (NewMemory 0))),
              Inr (?e\<lparr>me_CreatedAt := 5, me_ID := ''0''\<rparr>))"
    by (simp add: Memory_Put_def NewMemory_def zero_entry_def MaxMemoryEntryBytes_def Let_def
        generateID.simps [of _ "{}"] itoa_0)
  show ?thesis
    using Memory_read_your_writes [OF v _ _ p, of "zero_query\<lparr>mq_MaxChars := - 1\<rparr>"] v
    by (simp add: zero_entry_def zero_query_def MaxMemoryEntryBytes_def)
qed

text \<open>
  \<^verbatim>\<open>*Memory\<close> does not upsert: storing an entry whose id exists keeps both copies, and one
  \<^verbatim>\<open>Delete\<close> of that id leaves the newer copy visible (\<^verbatim>\<open>FileStore\<close> replaces in place). It also
  drops the entry's metadata, which \<^verbatim>\<open>Put\<close> still returns to the caller.
\<close>
theorem Memory_put_existing_id:
  "let e = zero_entry\<lparr>me_ID := ''k'', me_Content := ''v1'', me_Metadata := [''a'' \<mapsto> ''b'']\<rparr>;
       (m1, r1) = the (Memory_Put rnd now e (NewMemory n));
       (m2, r2) = the (Memory_Put rnd now (e\<lparr>me_Content := ''v2''\<rparr>) m1);
       (m3, r3) = Memory_Delete rnd [] ''k'' m2
   in map me_Content (mem_entries m2 []) = [''v1'', ''v2''] \<and> r3 = None
      \<and> map me_Content (mem_entries m3 []) = [''v2'']
      \<and> (case r1 of Inl _ \<Rightarrow> False | Inr e1 \<Rightarrow> me_Metadata e1 \<noteq> Map.empty)
      \<and> map me_Metadata (mem_entries m2 []) = [Map.empty, Map.empty]"
  by (simp add: Memory_Put_def NewMemory_def zero_entry_def MaxMemoryEntryBytes_def Let_def
      Memory_Delete_def idForLocked_def mem_entries_def slot_entry_def)

end
