(* ===== verification/Utf8.thy ===== *)
theory Utf8
  imports GoStrings
begin

text \<open>
  The decoder and the encoder of UTF-8 in GoStrings are inverse on Unicode scalar values, and whatever
  bytes are decoded give scalar values. Components that filter or cut text rune by rune rest on this.
\<close>

definition scalar :: "nat \<Rightarrow> bool" where
  "scalar r = (r < 0xD800 \<or> 0xE000 \<le> r \<and> r < 0x110000)"

definition rune_string :: "nat list \<Rightarrow> string" where
  "rune_string rs = concat (map encode_rune rs)"

text \<open>Text that decodes and encodes back to itself; ASCII is.\<close>

definition valid_text :: "string \<Rightarrow> bool" where
  "valid_text s = (rune_string (runes s) = s)"

lemma rune_string_append: "rune_string (xs @ ys) = rune_string xs @ rune_string ys"
  by (simp add: rune_string_def)

section \<open>Decoding what was encoded\<close>

lemma of_char_of: "n < 256 \<Longrightarrow> of_char (char_of n :: char) = (n :: nat)"
  by simp

lemma digits64:
  obtains a b c d :: nat where "r = 262144 * a + 4096 * b + 64 * c + d" "b < 64" "c < 64" "d < 64"
    "r div 262144 = a" "r div 4096 mod 64 = b" "r div 64 mod 64 = c" "r mod 64 = d" "r div 4096 = 64 * a + b" "r div 64 = 4096 * a + 64 * b + c"
proof -
  let ?q = "r div 64" let ?p = "r div 4096" let ?a = "r div 262144"
  have q: "r = 64 * ?q + r mod 64" by simp
  have p: "?q = 64 * ?p + ?q mod 64" using div_mult2_eq [of r 64 64] by simp
  have a: "?p = 64 * ?a + ?p mod 64" using div_mult2_eq [of r 4096 64] by simp
  show ?thesis
  proof (rule that)
    show "r = 262144 * ?a + 4096 * (?p mod 64) + 64 * (?q mod 64) + r mod 64" using q p a by linarith
    show "?p = 64 * ?a + ?p mod 64" by (rule a)
    show "?q = 4096 * ?a + 64 * (?p mod 64) + ?q mod 64" using p a by linarith
  qed simp_all
qed

lemma decode4:
  assumes "0xF0 \<le> b0" "b0 \<le> 0xF4" "cont_byte (if b0 = 0xF0 then 0x90 else 0x80) (if b0 = 0xF4 then 0x8F else 0xBF) b1"
    "cont_byte 0x80 0xBF b2" "cont_byte 0x80 0xBF b3"
  shows "decode_bytes (b0 # b1 # b2 # b3 # bs) = ((b0 - 0xF0) * 262144 + (b1 - 0x80) * 4096 + (b2 - 0x80) * 64 + (b3 - 0x80), 4)"
proof -
  have "\<not> b0 < 0x80" "\<not> b0 \<le> 0xDF" "\<not> b0 \<le> 0xEF" using assms(1) by linarith+
  then show ?thesis unfolding decode_bytes_def list.case by (simp only: assms if_True if_False simp_thms)
qed

lemma decode_encode:
  assumes "scalar r"
  shows "decode_bytes (map of_char (encode_rune r) @ bs) = (r, length (encode_rune r))"
proof -
  obtain a b c d where r: "r = 262144 * a + 4096 * b + 64 * c + d" "b < 64" "c < 64" "d < 64"
    and q: "r div 262144 = a" "r div 4096 mod 64 = b" "r div 64 mod 64 = c" "r mod 64 = d" "r div 4096 = 64 * a + b" "r div 64 = 4096 * a + 64 * b + c"
    by (rule digits64)
  consider "r < 0x80" | "0x80 \<le> r" "r < 0x800" | "0x800 \<le> r" "r < 0x10000" | "0x10000 \<le> r" by linarith
  then show ?thesis
  proof cases
    case 1
    then show ?thesis by (simp add: encode_rune_def decode_bytes_def)
  next
    case 2
    then have ab: "a = 0" "b = 0" using r by linarith+
    then have c: "2 \<le> c" "c < 32" using 2 r by linarith+
    show ?thesis using c 2 r q ab by (simp add: encode_rune_def decode_bytes_def cont_byte_def)
  next
    case 3
    then have ab: "a = 0" "b < 16" using r by linarith+
    have c: "b = 0 \<longrightarrow> 32 \<le> c" "b = 13 \<longrightarrow> c < 32" using 3 r ab assms unfolding scalar_def by linarith+
    show ?thesis using c 3 r q ab
      by (cases "b = 0"; cases "b = 13") (simp_all add: encode_rune_def decode_bytes_def cont_byte_def)
  next
    case 4
    then have "a < 5" "a = 0 \<longrightarrow> 16 \<le> b" "a = 4 \<longrightarrow> b < 16" using r assms unfolding scalar_def by linarith+
    then have c: "a \<le> 4" "cont_byte (if 0xF0 + a = 0xF0 then 0x90 else 0x80) (if 0xF0 + a = 0xF4 then 0x8F else 0xBF) (0x80 + b)"
      using r(2) by (auto simp: cont_byte_def)
    have "map of_char (encode_rune r) = [0xF0 + a, 0x80 + b, 0x80 + c, 0x80 + d]"
      using 4 q(1-4) c(1) r(2-4) by (simp add: encode_rune_def)
    moreover have "decode_bytes ([0xF0 + a, 0x80 + b, 0x80 + c, 0x80 + d] @ bs) = (a * 262144 + b * 4096 + c * 64 + d, 4)"
      using c r(2-4) decode4 [of "0xF0 + a" "0x80 + b" "0x80 + c" "0x80 + d"] by (simp add: cont_byte_def)
    moreover have "length (encode_rune r) = 4" using 4 by (simp add: encode_rune_def)
    ultimately show ?thesis using r(1) by simp
  qed
qed

lemma encode_rune_nonempty [simp]: "encode_rune r \<noteq> []"
  by (simp add: encode_rune_def)

lemma runes_from_skip: "runes_from (length xs) (xs @ bs) = runes_from 0 bs"
  by (induction xs) auto

lemma runes_from_encode: "scalar r \<Longrightarrow> runes_from 0 (map of_char (encode_rune r) @ bs) = r # runes_from 0 bs"
proof -
  assume s: "scalar r"
  obtain b xs where x: "(map of_char (encode_rune r) :: nat list) = b # xs" by (cases "map of_char (encode_rune r) :: nat list") auto
  then have "length (encode_rune r) = Suc (length xs)" by (metis length_map length_Cons)
  then show ?thesis using decode_encode [OF s, of bs] x runes_from_skip [of xs bs] by simp
qed

lemma runes_encode: "scalar r \<Longrightarrow> runes (encode_rune r @ s) = r # runes s"
  using runes_from_encode [of r "map of_char s"] by (simp add: runes_def)

lemma runes_rune_string: "list_all scalar rs \<Longrightarrow> runes (rune_string rs) = rs"
  by (induction rs) (simp_all add: rune_string_def runes_encode, simp add: runes_def)

section \<open>Decoded runes are scalar values\<close>

lemma scalar_if: "(c \<Longrightarrow> scalar (fst x)) \<Longrightarrow> scalar (fst y) \<Longrightarrow> scalar (fst (if c then x else y))"
  by simp

lemma scalar_case: "scalar (fst x) \<Longrightarrow> (\<And>b bs. scalar (fst (f b bs))) \<Longrightarrow> scalar (fst (case xs of [] \<Rightarrow> x | b # bs \<Rightarrow> f b bs))"
  by (cases xs) simp_all

lemma decode_scalar: "scalar (fst (decode_bytes bs))"
proof -
  have "scalar 0xFFFD" by (simp add: scalar_def)
  moreover have "scalar ((b0 - 0xE0) * 4096 + (b1 - 0x80) * 64 + (b2 - 0x80))"
    if "0xE0 \<le> b0 \<and> b0 \<le> 0xEF" "cont_byte (if b0 = 0xE0 then 0xA0 else 0x80) (if b0 = 0xED then 0x9F else 0xBF) b1 \<and> cont_byte 0x80 0xBF b2" for b0 b1 b2
  proof -
    have le: "0x80 \<le> b1" "0x80 \<le> b2" and b0: "0xE0 \<le> b0" using that by (auto simp: cont_byte_def split: if_splits)
    obtain x y z where "b0 = 0xE0 + x" "b1 = 0x80 + y" "b2 = 0x80 + z"
      using le_Suc_ex [OF b0] le_Suc_ex [OF le(1)] le_Suc_ex [OF le(2)] by blast
    then show ?thesis using that by (auto simp: scalar_def cont_byte_def split: if_splits)
  qed
  moreover have "scalar ((b0 - 0xF0) * 262144 + (b1 - 0x80) * 4096 + (b2 - 0x80) * 64 + (b3 - 0x80))"
    if "0xF0 \<le> b0 \<and> b0 \<le> 0xF4" "cont_byte (if b0 = 0xF0 then 0x90 else 0x80) (if b0 = 0xF4 then 0x8F else 0xBF) b1 \<and> cont_byte 0x80 0xBF b2 \<and> cont_byte 0x80 0xBF b3" for b0 b1 b2 b3
  proof -
    have le: "0x80 \<le> b1" "0x80 \<le> b2" "0x80 \<le> b3" and b0: "0xF0 \<le> b0" using that by (auto simp: cont_byte_def split: if_splits)
    obtain x y z u where "b0 = 0xF0 + x" "b1 = 0x80 + y" "b2 = 0x80 + z" "b3 = 0x80 + u"
      using le_Suc_ex [OF b0] le_Suc_ex [OF le(1)] le_Suc_ex [OF le(2)] le_Suc_ex [OF le(3)] by blast
    then show ?thesis using that by (auto simp: scalar_def cont_byte_def split: if_splits)
  qed
  moreover have "scalar ((b0 - 0xC0) * 64 + (b1 - 0x80))" if "0xC2 \<le> b0 \<and> b0 \<le> 0xDF" "cont_byte 0x80 0xBF b1" for b0 b1
    using that by (auto simp: scalar_def cont_byte_def)
  moreover have "scalar b0" if "b0 < 0x80" for b0 using that by (simp add: scalar_def)
  ultimately show ?thesis unfolding decode_bytes_def
    by (intro scalar_case scalar_if) (simp_all only: fst_conv)
qed

lemma runes_from_scalar: "list_all scalar (runes_from k bs)"
proof (induction k bs rule: runes_from.induct)
  case (3 b bs)
  obtain r w where "decode_bytes (b # bs) = (r, w)" by fastforce
  then show ?case using 3 decode_scalar [of "b # bs"] by simp
qed simp_all

lemma runes_scalar: "list_all scalar (runes s)"
  by (simp add: runes_def runes_from_scalar)

lemma list_all_filter: "list_all P xs \<Longrightarrow> list_all P (filter Q xs)"
  by (induction xs) auto

lemma list_all_take: "list_all P xs \<Longrightarrow> list_all P (take n xs)"
  using set_take_subset by (fastforce simp: list_all_iff)

end
