(* ===== verification/FileStore.thy ===== *)
theory FileStore
  imports Memory Utf8 "HOL-Library.AList" "HOL-Library.List_Lexorder" "HOL-Library.Char_ord"
begin

text \<open>
  The durable store of \<^verbatim>\<open>filestore.go\<close>: the in-RAM index per scope, the append-only
  \<^verbatim>\<open>entries.jsonl\<close> and \<^verbatim>\<open>meta.json\<close> of each scope directory, and \<^verbatim>\<open>Open\<close>, which replays the
  files. A line of a file is modelled by its length and by what decoding it yields, which is the value
  that was encoded with its texts made valid UTF-8 (\<open>json_text\<close>); a disk
  operation succeeds or fails as the call's \<open>diskIO\<close> says. The lemmas show that the index keeps
  its shape, that the store meets the interface of \<open>Memory\<close>, that replaying the log of a scope
  rebuilds its index, and where sharing a directory between scopes breaks this.
\<close>

section \<open>State\<close>

record scopeIndex =
  si_entries :: "memoryEntry list"
  si_byID :: "(string \<times> nat) list"
  si_corruptSkipped :: nat
  si_dirty :: bool

record fileMeta =
  fm_Version :: nat
  fm_Scope :: memoryScope
  fm_CorruptSkipped :: nat
  fm_EntryCount :: nat

text \<open>
  A line of \<^verbatim>\<open>entries.jsonl\<close> after \<^verbatim>\<open>TrimSpace\<close>: the JSON of an entry, the JSON of a tombstone, a
  line that is neither, or nothing. An entry read as a tombstone has \<^verbatim>\<open>Deleted\<close> false, and a
  tombstone read as an entry has only its id.
\<close>

datatype jbody = JEntry memoryEntry | JTomb string bool | JBad | JBlank

record jline =
  jl_len :: nat
  jl_body :: jbody

record scopeFiles =
  sf_entries :: "jline list option"
  sf_meta :: "fileMeta option"

record fileStore =
  fs_root :: string
  fs_closed :: bool
  fs_byScope :: "(memoryScope \<times> scopeIndex) list"
  fs_disk :: "(string \<times> scopeFiles) list"
  fs_draws :: nat

definition fileStoreSchemaVersion :: nat where "fileStoreSchemaVersion = 1"
definition defaultScopeDir :: string where "defaultScopeDir = ''_default''"

text \<open>The outcome of each disk operation of one call, \<^const>\<open>None\<close> for success.\<close>

record diskIO =
  io_mkdir :: "err option"
  io_open :: "err option"
  io_encode :: "err option"
  io_sync :: "err option"
  io_mkdirMeta :: "err option"
  io_write :: "err option"
  io_rename :: "err option"

definition no_faults :: diskIO where
  "no_faults = \<lparr>io_mkdir = None, io_open = None, io_encode = None, io_sync = None,
     io_mkdirMeta = None, io_write = None, io_rename = None\<rparr>"

definition empty_index :: scopeIndex where
  "empty_index = \<lparr>si_entries = [], si_byID = [], si_corruptSkipped = 0, si_dirty = False\<rparr>"

definition empty_files :: scopeFiles where
  "empty_files = \<lparr>sf_entries = None, sf_meta = None\<rparr>"

section \<open>Directory names\<close>

definition scope_rune :: "nat \<Rightarrow> string" where
  "scope_rune r =
     (if (97 \<le> r \<and> r \<le> 122) \<or> (65 \<le> r \<and> r \<le> 90) \<or> (48 \<le> r \<and> r \<le> 57)
         \<or> r = 45 \<or> r = 95 \<or> r = 46
      then [char_of r]
      else if r > 127 \<or> \<not> (32 \<le> r \<and> r \<le> 126) \<or> r = 47 \<or> r = 92 then ''_u'' @ hex4 r @ ''_''
      else ''_'')"

definition scopeDirName :: "memoryScope \<Rightarrow> string" where
  "scopeDirName scope =
     (if scope = [] then defaultScopeDir
      else let out = concat (map scope_rune (runes scope)) in
        if out = ''.'' \<or> out = ''..'' \<or> out = [] then defaultScopeDir else out)"

section \<open>What is written\<close>

text \<open>
  Texts go to the files as JSON strings: a byte that is not UTF-8 becomes U+FFFD, so what is read back
  is the text of the decoded runes. Two keys of a map that become the same are written both, in the
  order of the keys, and the later one is read back.
\<close>

definition json_text :: "string \<Rightarrow> string" where
  "json_text s = rune_string (runes s)"

definition json_map :: "(string \<rightharpoonup> string) \<Rightarrow> (string \<rightharpoonup> string)" where
  "json_map m = (\<lambda>k. let ks = {k' \<in> dom m. json_text k' = k} in
     if ks = {} then None else map_option json_text (m (Max ks)))"

definition json_entry :: "memoryEntry \<Rightarrow> memoryEntry" where
  "json_entry e = e\<lparr>me_ID := json_text (me_ID e), me_Scope := json_text (me_Scope e), me_Agent := json_text (me_Agent e),
     me_Task := json_text (me_Task e), me_Content := json_text (me_Content e), me_Metadata := json_map (me_Metadata e)\<rparr>"

text \<open>
  \<^verbatim>\<open>encoding/json\<close> writes a string with these escapes (HTML escaping on, U+2028, U+2029 and bytes that
  are not UTF-8 as \<^verbatim>\<open>\u\<close> escapes). The length of the other fields is an argument.
\<close>

definition json_char :: "char \<Rightarrow> string" where
  "json_char c =
     (let n = (of_char c :: nat) in
      if c = CHR 0x22 then [CHR 0x5C, CHR 0x22] else if c = CHR 0x5C then [CHR 0x5C, CHR 0x5C]
      else if n = 8 then [CHR 0x5C, CHR ''b''] else if n = 12 then [CHR 0x5C, CHR ''f'']
      else if n = 10 then [CHR 0x5C, CHR ''n''] else if n = 13 then [CHR 0x5C, CHR ''r'']
      else if n = 9 then [CHR 0x5C, CHR ''t'']
      else if n < 32 \<or> c = CHR ''<'' \<or> c = CHR ''>'' \<or> c = CHR ''&''
      then [CHR 0x5C] @ ''u00'' @ [hex_digit (n div 16), hex_digit (n mod 16)]
      else [c])"

text \<open>The rune \<open>r\<close> of a string, decoded from \<open>w\<close> bytes.\<close>

definition json_rune :: "nat \<Rightarrow> nat \<Rightarrow> string" where
  "json_rune r w =
     (if r < 0x80 then json_char (char_of r)
      else if r = 0xFFFD \<and> w = 1 then [CHR 0x5C] @ ''ufffd''
      else if r = 0x2028 then [CHR 0x5C] @ ''u2028''
      else if r = 0x2029 then [CHR 0x5C] @ ''u2029''
      else encode_rune r)"

fun json_from :: "nat \<Rightarrow> nat list \<Rightarrow> string" where
  "json_from skip [] = []"
| "json_from (Suc skip) (b # bs) = json_from skip bs"
| "json_from 0 (b # bs) = (let (r, w) = decode_bytes (b # bs) in json_rune r w @ json_from (w - 1) bs)"

definition json_string :: "string \<Rightarrow> string" where
  "json_string s = [CHR 0x22] @ json_from 0 (map of_char s) @ [CHR 0x22]"

definition entry_line :: "(memoryEntry \<Rightarrow> nat) \<Rightarrow> memoryEntry \<Rightarrow> jline" where
  "entry_line rest e = \<lparr>jl_len = rest e + length (json_string (me_Content e)), jl_body = JEntry (json_entry e)\<rparr>"

definition tomb_line :: "string \<Rightarrow> jline" where
  "tomb_line i = \<lparr>jl_len = 6 + length (json_string i) + 16, jl_body = JTomb (json_text i) True\<rparr>"

text \<open>The largest line plus newline that the scanner of \<^verbatim>\<open>loadScope\<close> accepts.\<close>

definition scan_limit :: nat where
  "scan_limit = MaxMemoryEntryBytes + 64 * 1024"

section \<open>Disk operations\<close>

definition get_files :: "fileStore \<Rightarrow> string \<Rightarrow> scopeFiles" where
  "get_files fs d = (case map_of (fs_disk fs) d of None \<Rightarrow> empty_files | Some f \<Rightarrow> f)"

definition set_files :: "string \<Rightarrow> scopeFiles \<Rightarrow> fileStore \<Rightarrow> fileStore" where
  "set_files d f fs = fs\<lparr>fs_disk := AList.update d f (fs_disk fs)\<rparr>"

definition file_lines :: "scopeFiles \<Rightarrow> jline list" where
  "file_lines f = (case sf_entries f of None \<Rightarrow> [] | Some ls \<Rightarrow> ls)"

text \<open>An \<^verbatim>\<open>Encode\<close> that fails is taken to have written nothing; a failed \<^verbatim>\<open>Sync\<close> leaves the line.\<close>

definition appendLineLocked ::
  "diskIO \<Rightarrow> memoryScope \<Rightarrow> jline \<Rightarrow> fileStore \<Rightarrow> fileStore \<times> err option" where
  "appendLineLocked io scope line fs =
     (let d = scopeDirName scope in
      case io_mkdir io of
        Some e \<Rightarrow> (fs, Some (wrapf ''crewai: creating scope dir: '' e))
      | None \<Rightarrow>
        let fs = set_files d (get_files fs d) fs in
        (case io_open io of
           Some e \<Rightarrow> (fs, Some (wrapf ''crewai: opening entries.jsonl for append: '' e))
         | None \<Rightarrow>
           let fs = set_files d ((get_files fs d)\<lparr>sf_entries := Some (file_lines (get_files fs d))\<rparr>) fs in
           (case io_encode io of
              Some e \<Rightarrow> (fs, Some (wrapf ''crewai: encoding memory entry: '' e))
            | None \<Rightarrow>
              let fs = set_files d ((get_files fs d)\<lparr>sf_entries := Some (file_lines (get_files fs d) @ [line])\<rparr>) fs in
              (case io_sync io of
                 Some e \<Rightarrow> (fs, Some (wrapf ''crewai: syncing entries.jsonl: '' e))
               | None \<Rightarrow> (fs, None)))))"

definition put_index :: "memoryScope \<Rightarrow> scopeIndex \<Rightarrow> fileStore \<Rightarrow> fileStore" where
  "put_index scope idx fs = fs\<lparr>fs_byScope := AList.update scope idx (fs_byScope fs)\<rparr>"

definition writeMetaLocked ::
  "diskIO \<Rightarrow> memoryScope \<Rightarrow> scopeIndex \<Rightarrow> fileStore \<Rightarrow> fileStore \<times> err option" where
  "writeMetaLocked io scope idx fs =
     (let d = scopeDirName scope in
      case io_mkdirMeta io of
        Some e \<Rightarrow> (fs, Some (wrapf ''crewai: creating scope dir: '' e))
      | None \<Rightarrow>
        let fs = set_files d (get_files fs d) fs;
            meta = \<lparr>fm_Version = fileStoreSchemaVersion, fm_Scope = json_text scope,
                    fm_CorruptSkipped = si_corruptSkipped idx, fm_EntryCount = length (si_byID idx)\<rparr> in
        (case io_write io of
           Some e \<Rightarrow> (fs, Some (wrapf ''crewai: writing meta.json: '' e))
         | None \<Rightarrow>
           (case io_rename io of
              Some e \<Rightarrow> (fs, Some (wrapf ''crewai: renaming meta.json: '' e))
            | None \<Rightarrow>
                (put_index scope (idx\<lparr>si_dirty := False\<rparr>)
                   (set_files d ((get_files fs d)\<lparr>sf_meta := Some meta\<rparr>) fs), None))))"

section \<open>Operations\<close>

definition scopeLocked :: "memoryScope \<Rightarrow> fileStore \<Rightarrow> fileStore \<times> scopeIndex" where
  "scopeLocked scope fs =
     (case map_of (fs_byScope fs) scope of
        Some idx \<Rightarrow> (fs, idx)
      | None \<Rightarrow> (put_index scope empty_index fs, empty_index))"

definition used_ids :: "fileStore \<Rightarrow> string set" where
  "used_ids fs = (\<Union>(sc, idx)\<in>set (fs_byScope fs). fst ` set (si_byID idx))"

text \<open>\<^verbatim>\<open>freshIDLocked\<close> is \<open>generateID\<close> over the ids of every scope.\<close>

definition freshIDLocked :: "(nat \<Rightarrow> string) \<Rightarrow> fileStore \<Rightarrow> (string \<times> nat) option" where
  "freshIDLocked rnd fs = generateID rnd (used_ids fs) (fs_draws fs)"

text \<open>The RAM mutation of \<^verbatim>\<open>Put\<close>: replace in place, or append.\<close>

definition upsert :: "memoryEntry \<Rightarrow> scopeIndex \<Rightarrow> scopeIndex" where
  "upsert e idx =
     (case map_of (si_byID idx) (me_ID e) of
        Some i \<Rightarrow> idx\<lparr>si_entries := (si_entries idx)[i := e]\<rparr>
      | None \<Rightarrow> idx\<lparr>si_byID := AList.update (me_ID e) (length (si_entries idx)) (si_byID idx),
                    si_entries := si_entries idx @ [e]\<rparr>)"

definition rollback :: "string \<Rightarrow> scopeIndex \<Rightarrow> scopeIndex" where
  "rollback i idx =
     (case map_of (si_byID idx) i of
        Some k \<Rightarrow> if int k = int (length (si_entries idx)) - 1
                  then idx\<lparr>si_entries := butlast (si_entries idx), si_byID := AList.delete i (si_byID idx)\<rparr>
                  else idx
      | None \<Rightarrow> idx)"

definition FileStore_Put ::
  "(nat \<Rightarrow> string) \<Rightarrow> (memoryEntry \<Rightarrow> nat) \<Rightarrow> err option \<Rightarrow> diskIO \<Rightarrow> time \<Rightarrow> memoryEntry
   \<Rightarrow> fileStore \<Rightarrow> (fileStore \<times> (err + memoryEntry)) option" where
  "FileStore_Put rnd rest ctxErr io now e fs =
     (case ctxErr of Some er \<Rightarrow> Some (fs, Inl er) | None \<Rightarrow>
      if length (me_Content e) > MaxMemoryEntryBytes
      then Some (fs, Inl (StoreSentinel ErrMemoryEntryTooLarge))
      else if fs_closed fs then Some (fs, Inl (StoreSentinel ErrFileStoreClosed))
      else
        let (fs, idx) = scopeLocked (me_Scope e) fs in
        case (if me_ID e = [] then freshIDLocked rnd fs else Some (me_ID e, fs_draws fs)) of
          None \<Rightarrow> None
        | Some (i, n) \<Rightarrow>
          let fs = fs\<lparr>fs_draws := n\<rparr>;
              e = e\<lparr>me_ID := i\<rparr>;
              e = e\<lparr>me_CreatedAt := (if me_CreatedAt e = 0 then now else me_CreatedAt e)\<rparr>;
              idx = (upsert e idx)\<lparr>si_dirty := True\<rparr>;
              fs = put_index (me_Scope e) idx fs;
              (fs, r) = appendLineLocked io (me_Scope e) (entry_line rest e) fs in
          (case r of
             Some er \<Rightarrow> Some (put_index (me_Scope e) (rollback (me_ID e) idx) fs, Inl er)
           | None \<Rightarrow>
             let (fs, r) = writeMetaLocked io (me_Scope e) idx fs in
             (case r of Some er \<Rightarrow> Some (fs, Inl er) | None \<Rightarrow> Some (fs, Inr e))))"

text \<open>The slots a query sees: those the id map still points to.\<close>

fun live_from :: "(string \<times> nat) list \<Rightarrow> nat \<Rightarrow> memoryEntry list \<Rightarrow> memoryEntry list" where
  "live_from byID k [] = []"
| "live_from byID k (e # es) =
     (if map_of byID (me_ID e) = Some k then e # live_from byID (Suc k) es
      else live_from byID (Suc k) es)"

definition FileStore_Query :: "err option \<Rightarrow> memoryQuery \<Rightarrow> fileStore \<Rightarrow> fileStore \<times> (err + memoryEntry list)" where
  "FileStore_Query ctxErr q fs =
     (case ctxErr of Some er \<Rightarrow> (fs, Inl er) | None \<Rightarrow>
      if fs_closed fs then (fs, Inl (StoreSentinel ErrFileStoreClosed))
      else case map_of (fs_byScope fs) (mq_Scope q) of
        None \<Rightarrow> (fs, Inr [])
      | Some idx \<Rightarrow>
          (fs, Inr (choose_hits q
             (filter (\<lambda>e. text_match q (me_Content e) (me_Task e))
                (live_from (si_byID idx) 0 (si_entries idx))))))"

definition FileStore_Delete ::
  "err option \<Rightarrow> diskIO \<Rightarrow> memoryScope \<Rightarrow> string \<Rightarrow> fileStore \<Rightarrow> fileStore \<times> err option" where
  "FileStore_Delete ctxErr io scope i fs =
     (case ctxErr of Some er \<Rightarrow> (fs, Some er) | None \<Rightarrow>
      if i = [] then (fs, None)
      else if fs_closed fs then (fs, Some (StoreSentinel ErrFileStoreClosed))
      else case map_of (fs_byScope fs) scope of
        None \<Rightarrow> (fs, None)
      | Some idx \<Rightarrow>
          (case map_of (si_byID idx) i of
             None \<Rightarrow> (fs, None)
           | Some k \<Rightarrow>
               let idx = idx\<lparr>si_byID := AList.delete i (si_byID idx), si_dirty := True\<rparr>;
                   fs = put_index scope idx fs;
                   (fs, r) = appendLineLocked io scope (tomb_line i) fs in
               (case r of
                  Some er \<Rightarrow>
                    (put_index scope (idx\<lparr>si_byID := AList.update i k (si_byID idx)\<rparr>) fs, Some er)
                | None \<Rightarrow> writeMetaLocked io scope idx fs)))"

text \<open>\<^verbatim>\<open>Close\<close> visits the scopes in the order \<open>fs_byScope\<close> has them; Go's map order is arbitrary.\<close>

fun close_scopes ::
  "(memoryScope \<Rightarrow> diskIO) \<Rightarrow> (memoryScope \<times> scopeIndex) list \<Rightarrow> fileStore \<Rightarrow> err option
   \<Rightarrow> fileStore \<times> err option" where
  "close_scopes io [] fs first = (fs, first)"
| "close_scopes io ((scope, idx) # rest) fs first =
     (if \<not> si_dirty idx then close_scopes io rest fs first
      else let (fs, r) = writeMetaLocked (io scope) scope idx fs in
        close_scopes io rest fs (if r \<noteq> None \<and> first = None then r else first))"

definition FileStore_Close :: "(memoryScope \<Rightarrow> diskIO) \<Rightarrow> fileStore \<Rightarrow> fileStore \<times> err option" where
  "FileStore_Close io fs =
     (if fs_closed fs then (fs, None)
      else let (fs, first) = close_scopes io (fs_byScope fs) fs None in
        (fs\<lparr>fs_closed := True\<rparr>, first))"

definition CorruptSkipped :: "fileStore \<Rightarrow> nat" where
  "CorruptSkipped fs = sum_list (map (\<lambda>(sc, idx). si_corruptSkipped idx) (fs_byScope fs))"

section \<open>Loading\<close>

definition as_tomb :: "jbody \<Rightarrow> (string \<times> bool) option" where
  "as_tomb b = (case b of JEntry e \<Rightarrow> Some (me_ID e, False) | JTomb i d \<Rightarrow> Some (i, d) | _ \<Rightarrow> None)"

definition as_entry :: "jbody \<Rightarrow> memoryEntry option" where
  "as_entry b = (case b of JEntry e \<Rightarrow> Some e | JTomb i d \<Rightarrow> Some (zero_entry\<lparr>me_ID := i\<rparr>) | _ \<Rightarrow> None)"

definition load_line :: "memoryScope \<Rightarrow> jbody \<Rightarrow> scopeIndex \<Rightarrow> scopeIndex" where
  "load_line scope b idx =
     (if b = JBlank then idx
      else case as_tomb b of
        Some (i, d) \<Rightarrow>
          if d \<and> i \<noteq> [] then idx\<lparr>si_byID := AList.delete i (si_byID idx)\<rparr>
          else (case as_entry b of
                  Some e \<Rightarrow> if me_ID e = [] then idx\<lparr>si_corruptSkipped := Suc (si_corruptSkipped idx), si_dirty := True\<rparr>
                            else upsert (e\<lparr>me_Scope := scope\<rparr>) idx
                | None \<Rightarrow> idx\<lparr>si_corruptSkipped := Suc (si_corruptSkipped idx), si_dirty := True\<rparr>)
      | None \<Rightarrow> idx\<lparr>si_corruptSkipped := Suc (si_corruptSkipped idx), si_dirty := True\<rparr>)"

text \<open>The scan loop stops at the first line that does not fit the buffer.\<close>

fun load_lines :: "memoryScope \<Rightarrow> jline list \<Rightarrow> scopeIndex \<Rightarrow> err + scopeIndex" where
  "load_lines scope [] idx = Inr idx"
| "load_lines scope (l # ls) idx =
     (if jl_len l \<ge> scan_limit then Inl (Plain ''bufio.Scanner: token too long'')
      else load_lines scope ls (load_line scope (jl_body l) idx))"

definition loadScope ::
  "(memoryScope \<Rightarrow> diskIO) \<Rightarrow> memoryScope \<Rightarrow> string \<Rightarrow> fileStore \<Rightarrow> fileStore \<times> err option" where
  "loadScope io scope dir fs =
     (let f = get_files fs dir;
          idx = empty_index\<lparr>si_corruptSkipped :=
                  (case sf_meta f of None \<Rightarrow> 0 | Some m \<Rightarrow> fm_CorruptSkipped m)\<rparr>
      in case io_open (io scope) of
           Some e \<Rightarrow> (fs, Some (wrapf ''crewai: opening entries.jsonl: '' e))
         | None \<Rightarrow>
           (case sf_entries f of
              None \<Rightarrow> (put_index scope idx fs, None)
            | Some ls \<Rightarrow>
                (case load_lines scope ls idx of
                   Inl e \<Rightarrow> (fs, Some (wrapf ''crewai: scanning entries.jsonl: '' e))
                 | Inr idx \<Rightarrow>
                     let fs = put_index scope idx fs in
                     if si_dirty idx then writeMetaLocked (io scope) scope idx fs else (fs, None))))"

definition load_scope_name :: "string \<Rightarrow> scopeFiles \<Rightarrow> memoryScope" where
  "load_scope_name name f =
     (let scope = (if name = defaultScopeDir then [] else name) in
      case sf_meta f of
        None \<Rightarrow> scope
      | Some m \<Rightarrow> if fm_Scope m \<noteq> [] \<or> name = defaultScopeDir then fm_Scope m else scope)"

fun load_dirs :: "(memoryScope \<Rightarrow> diskIO) \<Rightarrow> string list \<Rightarrow> fileStore \<Rightarrow> fileStore \<times> err option" where
  "load_dirs io [] fs = (fs, None)"
| "load_dirs io (name # names) fs =
     (case loadScope io (load_scope_name name (get_files fs name)) name fs of
        (fs, Some e) \<Rightarrow> (fs, Some e)
      | (fs, None) \<Rightarrow> load_dirs io names fs)"

text \<open>\<^verbatim>\<open>os.ReadDir\<close> lists the scope directories sorted by name; a missing \<^verbatim>\<open>scopes\<close> is an empty list.\<close>

definition loadAll :: "(memoryScope \<Rightarrow> diskIO) \<Rightarrow> fileStore \<Rightarrow> fileStore \<times> err option" where
  "loadAll io fs = load_dirs io (sort (map fst (fs_disk fs))) fs"

text \<open>
  \<open>cwd\<close> is what \<^verbatim>\<open>filepath.Abs\<close> resolves a relative path against (or its error), \<open>disk\<close> the scope
  directories below the root.
\<close>

definition OpenFileStore ::
  "(err + string) \<Rightarrow> err option \<Rightarrow> err option \<Rightarrow> (memoryScope \<Rightarrow> diskIO) \<Rightarrow> nat
   \<Rightarrow> string \<Rightarrow> (string \<times> scopeFiles) list \<Rightarrow> err + fileStore" where
  "OpenFileStore cwd mkdirErr readDirErr io draws dir disk =
     (let dir = trim_space dir in
      if dir = [] then Inl (StoreSentinel ErrFileStoreRoot)
      else let p = path_clean dir in
        case (if has_prefix p ''/'' then Inr p
              else case cwd of Inl e \<Rightarrow> Inl (Wrap [] (StoreSentinel ErrFileStoreRoot) ('': '' @ error_text e))
                   | Inr w \<Rightarrow> Inr (path_clean (w @ ''/'' @ p))) of
          Inl e \<Rightarrow> Inl e
        | Inr abs_dir \<Rightarrow>
            (case mkdirErr of
               Some e \<Rightarrow> Inl (wrapf ''crewai: creating file store root: '' e)
             | None \<Rightarrow>
               let fs = \<lparr>fs_root = abs_dir, fs_closed = False, fs_byScope = [], fs_disk = disk, fs_draws = draws\<rparr> in
               (case readDirErr of
                  Some e \<Rightarrow> Inl (wrapf ''crewai: reading file store scopes: '' e)
                | None \<Rightarrow>
                    (case loadAll io fs of (fs, Some e) \<Rightarrow> Inl e | (fs, None) \<Rightarrow> Inr fs))))"

section \<open>Lemmas on the index\<close>

definition idx_ok :: "scopeIndex \<Rightarrow> bool" where
  "idx_ok idx \<longleftrightarrow> (\<forall>i k. map_of (si_byID idx) i = Some k \<longrightarrow>
     i \<noteq> [] \<and> k < length (si_entries idx) \<and> me_ID (si_entries idx ! k) = i)"

definition live :: "scopeIndex \<Rightarrow> memoryEntry list" where
  "live idx = live_from (si_byID idx) 0 (si_entries idx)"

lemma idx_okD:
  "idx_ok idx \<Longrightarrow> map_of (si_byID idx) i = Some k \<Longrightarrow>
   i \<noteq> [] \<and> k < length (si_entries idx) \<and> me_ID (si_entries idx ! k) = i"
  by (simp add: idx_ok_def)

lemma live_from_append:
  "live_from b k (xs @ ys) = live_from b k xs @ live_from b (k + length xs) ys"
  by (induction xs arbitrary: k) auto

lemma live_from_cong:
  "(\<forall>j < length es. (map_of b (me_ID (es ! j)) = Some (k + j)) = (map_of b' (me_ID (es ! j)) = Some (k + j)))
   \<Longrightarrow> live_from b k es = live_from b' k es"
proof (induction es arbitrary: k)
  case (Cons e es)
  have "(map_of b (me_ID e) = Some k) = (map_of b' (me_ID e) = Some k)"
    using Cons.prems by (metis add_0_right length_greater_0_conv list.discI nth_Cons_0)
  moreover have "live_from b (Suc k) es = live_from b' (Suc k) es"
    by (rule Cons.IH) (use Cons.prems in auto)
  ultimately show ?case by simp
qed simp

lemma live_from_ids: "x \<in> set (live_from b k es) \<Longrightarrow> \<exists>j. map_of b (me_ID x) = Some j"
  by (induction es arbitrary: k) (auto split: if_splits)

lemma live_ids: "x \<in> set (live idx) \<Longrightarrow> map_of (si_byID idx) (me_ID x) \<noteq> None"
  using live_from_ids by (fastforce simp: live_def)

lemma live_mem:
  assumes "k < length (si_entries idx)" "map_of (si_byID idx) (me_ID (si_entries idx ! k)) = Some k"
  shows "si_entries idx ! k \<in> set (live idx)"
proof -
  have "es ! k \<in> set (live_from b j es)" if "k < length es" "map_of b (me_ID (es ! k)) = Some (j + k)"
    for b j k es
    using that
  proof (induction es arbitrary: j k)
    case (Cons e es)
    then show ?case by (cases k) auto
  qed simp
  from this [of k "si_entries idx" _ 0] assms show ?thesis by (simp add: live_def)
qed

lemma empty_index_ok [simp]: "idx_ok empty_index" "live empty_index = []"
  by (simp_all add: idx_ok_def empty_index_def live_def)

lemma upsert_ok: "idx_ok idx \<Longrightarrow> me_ID e \<noteq> [] \<Longrightarrow> idx_ok (upsert e idx)"
  by (auto simp: idx_ok_def upsert_def update_conv' nth_append nth_list_update split: option.splits)
    (metis less_Suc_eq)+

lemma live_upsert_new:
  assumes "idx_ok idx" "map_of (si_byID idx) (me_ID e) = None"
  shows "live (upsert e idx) = live idx @ [e]"
proof -
  let ?b = "AList.update (me_ID e) (length (si_entries idx)) (si_byID idx)"
  have "live_from ?b 0 (si_entries idx) = live_from (si_byID idx) 0 (si_entries idx)"
    by (rule live_from_cong) (use assms(2) in \<open>auto simp: update_conv'\<close>)
  then show ?thesis
    using assms by (simp add: live_def upsert_def live_from_append update_conv')
qed

lemma live_upsert_old:
  assumes "idx_ok idx" "map_of (si_byID idx) (me_ID e) = Some k"
  shows "live (upsert e idx) = map (\<lambda>x. if me_ID x = me_ID e then e else x) (live idx)"
proof -
  have *: "live_from b j (es[n := e]) = map (\<lambda>x. if me_ID x = me_ID e then e else x) (live_from b j es)"
    if "n < length es" "me_ID (es ! n) = me_ID e" "map_of b (me_ID e) = Some (j + n)" for b j es n
    using that
  proof (induction es arbitrary: j n)
    case (Cons x xs)
    have tl: "live_from b j ys = map (\<lambda>x. if me_ID x = me_ID e then e else x) (live_from b j ys)"
      if "map_of b (me_ID e) = Some i" "i < j" for i j ys
      using that by (induction ys arbitrary: j) auto
    show ?case
    proof (cases n)
      case 0
      then show ?thesis using Cons.prems tl [of j "Suc j" xs] by auto
    next
      case (Suc n')
      then show ?thesis using Cons by auto
    qed
  qed simp
  from idx_okD [OF assms] show ?thesis
    using assms(2) * [of k "si_entries idx" "si_byID idx" 0] by (simp add: live_def upsert_def)
qed

lemma delete_ok: "idx_ok idx \<Longrightarrow> idx_ok (idx\<lparr>si_byID := AList.delete i (si_byID idx)\<rparr>)"
  by (auto simp: idx_ok_def delete_conv')

lemma live_delete:
  "live (idx\<lparr>si_byID := AList.delete i (si_byID idx)\<rparr>) = filter (\<lambda>e. me_ID e \<noteq> i) (live idx)"
proof -
  have "live_from (AList.delete i b) k es = filter (\<lambda>e. me_ID e \<noteq> i) (live_from b k es)" for b k es
    by (induction es arbitrary: k) (auto simp: delete_conv')
  then show ?thesis by (simp add: live_def)
qed

lemma idx_ok_flags [simp]:
  "idx_ok (idx\<lparr>si_dirty := d\<rparr>) = idx_ok idx" "live (idx\<lparr>si_dirty := d\<rparr>) = live idx"
  "idx_ok (idx\<lparr>si_corruptSkipped := c\<rparr>) = idx_ok idx" "live (idx\<lparr>si_corruptSkipped := c\<rparr>) = live idx"
  by (simp_all add: idx_ok_def live_def)

lemma upsert_flags:
  "upsert e (idx\<lparr>si_dirty := d\<rparr>) = (upsert e idx)\<lparr>si_dirty := d\<rparr>"
  "si_corruptSkipped (upsert e idx) = si_corruptSkipped idx" "si_dirty (upsert e idx) = si_dirty idx"
  by (simp_all add: upsert_def split: option.splits)

section \<open>Lemmas on the disk operations\<close>

lemma get_set_files [simp]:
  "get_files (set_files d f fs) d' = (if d' = d then f else get_files fs d')"
  by (simp add: get_files_def set_files_def update_conv')

lemma get_put_index [simp]: "get_files (put_index sc idx fs) d = get_files fs d"
  by (simp add: get_files_def put_index_def)

lemma set_files_simps [simp]:
  "fs_byScope (set_files d f fs) = fs_byScope fs" "fs_closed (set_files d f fs) = fs_closed fs"
  "fs_draws (set_files d f fs) = fs_draws fs"
  by (simp_all add: set_files_def)

lemma put_index_simps [simp]:
  "map_of (fs_byScope (put_index sc idx fs)) = (map_of (fs_byScope fs))(sc \<mapsto> idx)"
  "fs_closed (put_index sc idx fs) = fs_closed fs" "fs_draws (put_index sc idx fs) = fs_draws fs"
  "fs_disk (put_index sc idx fs) = fs_disk fs"
  by (auto simp: put_index_def update_conv')

lemma get_files_draws [simp]: "get_files (fs\<lparr>fs_draws := n\<rparr>) d = get_files fs d"
  by (simp add: get_files_def)

definition disk_keys :: "fileStore \<Rightarrow> string set" where
  "disk_keys fs = fst ` set (fs_disk fs)"

lemma disk_keys_simps [simp]:
  "disk_keys (set_files d f fs) = insert d (disk_keys fs)" "disk_keys (put_index sc idx fs) = disk_keys fs"
  "disk_keys (fs\<lparr>fs_draws := n\<rparr>) = disk_keys fs"
  by (auto simp: disk_keys_def set_files_def dom_update)

lemma appendLine_ok:
  "\<exists>fs'. appendLineLocked no_faults sc l fs = (fs', None) \<and> fs_byScope fs' = fs_byScope fs
     \<and> fs_closed fs' = fs_closed fs \<and> fs_draws fs' = fs_draws fs
     \<and> disk_keys fs' = insert (scopeDirName sc) (disk_keys fs)
     \<and> get_files fs' = (get_files fs)(scopeDirName sc := (get_files fs (scopeDirName sc))
          \<lparr>sf_entries := Some (file_lines (get_files fs (scopeDirName sc)) @ [l])\<rparr>)"
  by (auto simp: appendLineLocked_def no_faults_def Let_def file_lines_def)

lemma writeMeta_ok:
  "\<exists>fs'. writeMetaLocked no_faults sc idx fs = (fs', None)
     \<and> map_of (fs_byScope fs') = (map_of (fs_byScope fs))(sc \<mapsto> idx\<lparr>si_dirty := False\<rparr>)
     \<and> fs_closed fs' = fs_closed fs \<and> fs_draws fs' = fs_draws fs
     \<and> disk_keys fs' = insert (scopeDirName sc) (disk_keys fs)
     \<and> get_files fs' = (get_files fs)(scopeDirName sc := (get_files fs (scopeDirName sc))
          \<lparr>sf_meta := Some \<lparr>fm_Version = fileStoreSchemaVersion, fm_Scope = json_text sc,
             fm_CorruptSkipped = si_corruptSkipped idx, fm_EntryCount = length (si_byID idx)\<rparr>\<rparr>)"
  by (auto simp: writeMetaLocked_def no_faults_def Let_def)

section \<open>Lemmas on the operations\<close>

definition cur_index :: "fileStore \<Rightarrow> memoryScope \<Rightarrow> scopeIndex" where
  "cur_index fs sc = (case map_of (fs_byScope fs) sc of None \<Rightarrow> empty_index | Some idx \<Rightarrow> idx)"

definition fs_entries :: "fileStore \<Rightarrow> memoryScope \<Rightarrow> memoryEntry list" where
  "fs_entries fs sc = live (cur_index fs sc)"

definition log_of :: "fileStore \<Rightarrow> memoryScope \<Rightarrow> jline list" where
  "log_of fs sc = file_lines (get_files fs (scopeDirName sc))"

text \<open>How a store changes when an operation wrote \<open>l\<close> to the log of \<open>sc\<close> and left \<open>idx\<close> there.\<close>

definition advanced :: "memoryScope \<Rightarrow> jline \<Rightarrow> scopeIndex \<Rightarrow> fileStore \<Rightarrow> fileStore \<Rightarrow> bool" where
  "advanced sc l idx fs fs' \<longleftrightarrow>
     map_of (fs_byScope fs') = (map_of (fs_byScope fs))(sc \<mapsto> idx\<lparr>si_dirty := False\<rparr>)
     \<and> fs_closed fs' = fs_closed fs
     \<and> disk_keys fs' = insert (scopeDirName sc) (disk_keys fs)
     \<and> get_files fs' = (get_files fs)(scopeDirName sc :=
         \<lparr>sf_entries = Some (log_of fs sc @ [l]),
          sf_meta = Some \<lparr>fm_Version = fileStoreSchemaVersion, fm_Scope = json_text sc,
            fm_CorruptSkipped = si_corruptSkipped idx, fm_EntryCount = length (si_byID idx)\<rparr>\<rparr>)"

lemma append_meta:
  assumes "appendLineLocked no_faults sc l (put_index sc idx fs) = (fs1, r1)"
  shows "r1 = None \<and> (\<exists>fs2. writeMetaLocked no_faults sc idx fs1 = (fs2, None)
     \<and> advanced sc l idx fs fs2 \<and> fs_draws fs2 = fs_draws fs)"
proof -
  have 1: "r1 = None" "fs_byScope fs1 = fs_byScope (put_index sc idx fs)" "fs_closed fs1 = fs_closed fs"
    "fs_draws fs1 = fs_draws fs" "disk_keys fs1 = insert (scopeDirName sc) (disk_keys fs)"
    "get_files fs1 = (get_files fs)(scopeDirName sc := (get_files fs (scopeDirName sc))
          \<lparr>sf_entries := Some (log_of fs sc @ [l])\<rparr>)"
    using appendLine_ok [of sc l "put_index sc idx fs"] assms by (auto simp: log_of_def)
  obtain fs2 where 2: "writeMetaLocked no_faults sc idx fs1 = (fs2, None)"
    "map_of (fs_byScope fs2) = (map_of (fs_byScope fs1))(sc \<mapsto> idx\<lparr>si_dirty := False\<rparr>)"
    "fs_closed fs2 = fs_closed fs1" "fs_draws fs2 = fs_draws fs1"
    "disk_keys fs2 = insert (scopeDirName sc) (disk_keys fs1)"
    "get_files fs2 = (get_files fs1)(scopeDirName sc := (get_files fs1 (scopeDirName sc))
          \<lparr>sf_meta := Some \<lparr>fm_Version = fileStoreSchemaVersion, fm_Scope = json_text sc,
             fm_CorruptSkipped = si_corruptSkipped idx, fm_EntryCount = length (si_byID idx)\<rparr>\<rparr>)"
    using writeMeta_ok [of sc idx fs1] by auto
  show ?thesis using 1 2 by (auto simp: advanced_def)
qed

lemma advanced_dirty [simp]: "advanced sc l (idx\<lparr>si_dirty := d\<rparr>) fs fs' = advanced sc l idx fs fs'"
  by (simp add: advanced_def)

lemma scopeLocked_cur:
  "scopeLocked sc fs = (fs', idx) \<Longrightarrow> idx = cur_index fs sc \<and> fs_closed fs' = fs_closed fs
     \<and> fs_draws fs' = fs_draws fs \<and> used_ids fs' = used_ids fs
     \<and> (\<forall>idx'. advanced sc l idx' (fs'\<lparr>fs_draws := n\<rparr>) fs'' = advanced sc l idx' fs fs'')"
proof (cases "map_of (fs_byScope fs) sc")
  case None
  assume a: "scopeLocked sc fs = (fs', idx)"
  have "AList.update sc empty_index al = al @ [(sc, empty_index)]" if "map_of al sc = None" for al
    using that by (induction al) (auto split: if_splits)
  with a None have "fs' = fs\<lparr>fs_byScope := fs_byScope fs @ [(sc, empty_index)]\<rparr>"
    by (simp add: scopeLocked_def put_index_def)
  then have "used_ids fs' = used_ids fs" by (simp add: used_ids_def empty_index_def)
  then show ?thesis
    using a None by (auto simp: scopeLocked_def cur_index_def advanced_def log_of_def)
next
  case (Some i)
  moreover assume "scopeLocked sc fs = (fs', idx)"
  ultimately show ?thesis by (auto simp: scopeLocked_def cur_index_def advanced_def log_of_def disk_keys_def)
qed

lemma Put_ok:
  assumes put: "FileStore_Put rnd rest None no_faults now e fs = Some (fs', r)"
    and ok: "length (me_Content e) \<le> MaxMemoryEntryBytes" "\<not> fs_closed fs"
  shows "\<exists>i n e'. (if me_ID e = [] then freshIDLocked rnd fs = Some (i, n) else i = me_ID e \<and> n = fs_draws fs)
    \<and> e' = e\<lparr>me_ID := i, me_CreatedAt := (if me_CreatedAt e = 0 then now else me_CreatedAt e)\<rparr>
    \<and> r = Inr e' \<and> fs_draws fs' = n
    \<and> advanced (me_Scope e) (entry_line rest e') (upsert e' (cur_index fs (me_Scope e))) fs fs'"
proof -
  let ?sc = "me_Scope e"
  obtain fs1 idx where sl: "scopeLocked ?sc fs = (fs1, idx)" by fastforce
  note c = scopeLocked_cur [OF sl]
  then have fresh: "freshIDLocked rnd fs1 = freshIDLocked rnd fs"
    by (simp add: freshIDLocked_def)
  obtain i n where id: "(if me_ID e = [] then freshIDLocked rnd fs1 else Some (me_ID e, fs_draws fs1)) = Some (i, n)"
    using put ok sl by (auto simp: FileStore_Put_def split: option.splits)
  let ?e = "e\<lparr>me_ID := i, me_CreatedAt := (if me_CreatedAt e = 0 then now else me_CreatedAt e)\<rparr>"
  let ?idx = "(upsert ?e idx)\<lparr>si_dirty := True\<rparr>"
  obtain fs2 r2 where ap: "appendLineLocked no_faults ?sc (entry_line rest ?e)
      (put_index ?sc ?idx (fs1\<lparr>fs_draws := n\<rparr>)) = (fs2, r2)" by fastforce
  obtain fs3 where fs3: "r2 = None" "writeMetaLocked no_faults ?sc ?idx fs2 = (fs3, None)"
    "advanced ?sc (entry_line rest ?e) ?idx (fs1\<lparr>fs_draws := n\<rparr>) fs3" "fs_draws fs3 = n"
    using append_meta [OF ap] by auto
  have "fs' = fs3" "r = Inr ?e"
    using put ok sl id ap fs3(1,2) by (simp_all add: FileStore_Put_def Let_def cong: if_cong)
  moreover have "advanced ?sc (entry_line rest ?e) (upsert ?e (cur_index fs ?sc)) fs fs3"
    using fs3(3) c by simp
  moreover have "if me_ID e = [] then freshIDLocked rnd fs = Some (i, n) else i = me_ID e \<and> n = fs_draws fs"
    using id c fresh by (auto split: if_splits)
  ultimately show ?thesis using fs3(4) by (intro exI [of _ i] exI [of _ n] exI [of _ ?e]) simp
qed

lemma Delete_ok:
  assumes "\<not> fs_closed fs" "i \<noteq> []"
  shows "\<exists>fs'. FileStore_Delete None no_faults sc i fs = (fs', None)
    \<and> (if map_of (si_byID (cur_index fs sc)) i = None then fs' = fs
       else fs_draws fs' = fs_draws fs \<and> advanced sc (tomb_line i)
              ((cur_index fs sc)\<lparr>si_byID := AList.delete i (si_byID (cur_index fs sc))\<rparr>) fs fs')"
proof (cases "map_of (si_byID (cur_index fs sc)) i")
  case None
  then show ?thesis
    using assms by (auto simp: FileStore_Delete_def cur_index_def empty_index_def split: option.splits)
next
  case (Some k)
  then obtain idx where idx: "map_of (fs_byScope fs) sc = Some idx" "cur_index fs sc = idx"
    by (cases "map_of (fs_byScope fs) sc") (auto simp: cur_index_def empty_index_def)
  let ?idx = "idx\<lparr>si_byID := AList.delete i (si_byID idx), si_dirty := True\<rparr>"
  obtain fs1 r1 where ap: "appendLineLocked no_faults sc (tomb_line i) (put_index sc ?idx fs) = (fs1, r1)"
    by fastforce
  from append_meta [OF ap] obtain fs2 where fs2: "r1 = None"
    "writeMetaLocked no_faults sc ?idx fs1 = (fs2, None)"
    "advanced sc (tomb_line i) ?idx fs fs2" "fs_draws fs2 = fs_draws fs"
    by blast
  have "FileStore_Delete None no_faults sc i fs = (fs2, None)"
    using assms idx Some ap fs2(1,2) by (simp add: FileStore_Delete_def Let_def)
  then show ?thesis using fs2(3,4) idx Some by (auto simp: advanced_def)
qed

lemma advanced_cur:
  "advanced sc l idx fs fs' \<Longrightarrow> cur_index fs' sc' = (if sc' = sc then idx\<lparr>si_dirty := False\<rparr> else cur_index fs sc')"
  by (simp add: advanced_def cur_index_def)

lemma advanced_entries:
  "advanced sc l idx fs fs' \<Longrightarrow> fs_entries fs' = (fs_entries fs)(sc := live idx)"
  by (auto simp: fs_entries_def advanced_cur)

section \<open>The store interface\<close>

definition fs_ok :: "fileStore \<Rightarrow> bool" where
  "fs_ok fs \<longleftrightarrow> (\<forall>sc. idx_ok (cur_index fs sc))"

definition fs_valid :: "(nat \<Rightarrow> string) \<Rightarrow> fileStore \<Rightarrow> bool" where
  "fs_valid rnd fs \<longleftrightarrow> fs_ok fs \<and> \<not> fs_closed fs \<and> (\<forall>k\<ge>fs_draws fs. rnd k \<noteq> [])"

lemma advanced_ok: "advanced sc l idx fs fs' \<Longrightarrow> fs_ok fs \<Longrightarrow> idx_ok idx \<Longrightarrow> fs_ok fs'"
  by (simp add: fs_ok_def advanced_cur)

lemma used_ids_dom: "map_of (si_byID (cur_index fs sc)) i \<noteq> None \<Longrightarrow> i \<in> used_ids fs"
proof -
  assume a: "map_of (si_byID (cur_index fs sc)) i \<noteq> None"
  then obtain idx k where "map_of (fs_byScope fs) sc = Some idx" "map_of (si_byID idx) i = Some k"
    by (cases "map_of (fs_byScope fs) sc") (auto simp: cur_index_def empty_index_def)
  then have "(sc, idx) \<in> set (fs_byScope fs)" "(i, k) \<in> set (si_byID idx)"
    by (auto dest: map_of_SomeD)
  then show ?thesis by (force simp: used_ids_def)
qed

lemma FileStore_Put_new:
  assumes "length (me_Content e) \<le> MaxMemoryEntryBytes" "me_ID e = []" "fs_valid rnd fs"
    "FileStore_Put rnd rest None no_faults now e fs = Some (fs', r)"
  shows "\<exists>e' x. r = Inr e' \<and> fs_valid rnd fs' \<and> same_note e e' \<and> same_note e x \<and> me_ID x = me_ID e'
    \<and> me_ID x \<noteq> [] \<and> me_ID x \<notin> me_ID ` set (fs_entries fs (me_Scope e))
    \<and> fs_entries fs' = (fs_entries fs)(me_Scope e := fs_entries fs (me_Scope e) @ [x])"
proof -
  have open_fs: "\<not> fs_closed fs" "fs_ok fs" using assms(3) by (simp_all add: fs_valid_def)
  let ?idx = "cur_index fs (me_Scope e)"
  obtain i n e' where p: "freshIDLocked rnd fs = Some (i, n)" "r = Inr e'" "fs_draws fs' = n"
    "e' = e\<lparr>me_ID := i, me_CreatedAt := (if me_CreatedAt e = 0 then now else me_CreatedAt e)\<rparr>"
    "advanced (me_Scope e) (entry_line rest e') (upsert e' ?idx) fs fs'"
    using Put_ok [OF assms(4,1) open_fs(1)] assms(2) by auto
  obtain k where k: "i \<notin> used_ids fs" "k \<ge> fs_draws fs" "i = rnd k" "n = Suc k"
    using generateID_result p(1) by (fastforce simp: freshIDLocked_def)
  have id: "me_ID e' = i" "i \<noteq> []" using p(4) k assms(3) by (auto simp: fs_valid_def)
  have none: "map_of (si_byID ?idx) (me_ID e') = None" using used_ids_dom k(1) id(1) by blast
  have ok: "idx_ok ?idx" using open_fs(2) by (simp add: fs_ok_def)
  have "fs_valid rnd fs'"
    using advanced_ok [OF p(5) open_fs(2) upsert_ok [OF ok]] id p(3,5) k assms(3)
    by (auto simp: fs_valid_def advanced_def)
  moreover have "fs_entries fs' = (fs_entries fs)(me_Scope e := fs_entries fs (me_Scope e) @ [e'])"
    using advanced_entries [OF p(5)] live_upsert_new [OF ok none] by (simp add: fs_entries_def)
  moreover have "me_ID e' \<notin> me_ID ` set (fs_entries fs (me_Scope e))"
    using live_ids none by (fastforce simp: fs_entries_def)
  moreover have "same_note e e'" by (simp add: p(4) same_note_def)
  ultimately show ?thesis using id p(2) by (intro exI [of _ e'] conjI) auto
qed

lemma FileStore_Query_entries:
  assumes "\<not> fs_closed fs"
  shows "FileStore_Query None q fs = (fs, Inr (select_hits q (fs_entries fs (mq_Scope q))))"
proof (cases "map_of (fs_byScope fs) (mq_Scope q)")
  case None
  have "choose_hits q [] = []"
    by (simp add: choose_hits_def takeLatestN_def rankByEmbedding_def split: prod.splits)
  with None assms show ?thesis
    by (simp add: FileStore_Query_def fs_entries_def cur_index_def select_hits_def)
qed (use assms in \<open>simp add: FileStore_Query_def fs_entries_def cur_index_def select_hits_def live_def\<close>)

lemma FileStore_Delete_entries:
  assumes "fs_valid rnd fs" "i \<noteq> []"
  shows "\<exists>fs'. FileStore_Delete None no_faults sc i fs = (fs', None) \<and> fs_valid rnd fs'
    \<and> fs_entries fs' = (fs_entries fs)(sc := filter (\<lambda>e. me_ID e \<noteq> i) (fs_entries fs sc))"
proof -
  have open_fs: "\<not> fs_closed fs" "fs_ok fs" using assms(1) by (simp_all add: fs_valid_def)
  let ?idx = "cur_index fs sc"
  let ?idx' = "?idx\<lparr>si_byID := AList.delete i (si_byID ?idx)\<rparr>"
  obtain fs' where d: "FileStore_Delete None no_faults sc i fs = (fs', None)"
    "if map_of (si_byID ?idx) i = None then fs' = fs
     else fs_draws fs' = fs_draws fs \<and> advanced sc (tomb_line i) ?idx' fs fs'"
    using Delete_ok [OF open_fs(1) assms(2)] by blast
  show ?thesis
  proof (cases "map_of (si_byID ?idx) i = None")
    case True
    then have "filter (\<lambda>e. me_ID e \<noteq> i) (fs_entries fs sc) = fs_entries fs sc"
      using live_ids by (fastforce simp: fs_entries_def intro: filter_True)
    with d True assms(1) show ?thesis by auto
  next
    case False
    then have adv: "advanced sc (tomb_line i) ?idx' fs fs'" "fs_draws fs' = fs_draws fs" using d(2) by auto
    have "idx_ok ?idx'" using open_fs(2) by (simp add: delete_ok fs_ok_def)
    then have "fs_valid rnd fs'"
      using advanced_ok [OF adv(1) open_fs(2)] adv assms(1) by (auto simp: fs_valid_def advanced_def)
    then show ?thesis using d(1) advanced_entries [OF adv(1)] by (auto simp: live_delete fs_entries_def)
  qed
qed

interpretation filestore: memory_store fs_entries "fs_valid rnd" "FileStore_Put rnd rest None no_faults"
  "FileStore_Query None" "FileStore_Delete None no_faults" for rnd rest
proof (unfold_locales, goal_cases)
  case (1 e s now)
  then show ?case by (simp add: FileStore_Put_def)
next
  case (2 e s now s' r)
  then show ?case by (rule FileStore_Put_new)
next
  case (3 s q)
  then show ?case by (simp add: fs_valid_def FileStore_Query_entries)
next
  case (4 s i sc)
  then show ?case by (rule FileStore_Delete_entries)
qed

section \<open>Properties\<close>

text \<open>
  C27. Storing under an id that exists in the scope replaces that entry where it stands and
  leaves every other entry and every other scope alone; a new id goes to the end. For an open store whose index
  is consistent (\<open>fs_ok\<close>), an entry within the size limit that comes with an id, and a disk that does not fail:
  without an id one is drawn, and a disk error is the subject of \<open>put_rollback_upsert\<close> in FileLog.
\<close>
theorem FileStore_put_upserts:
  assumes "fs_ok fs" "\<not> fs_closed fs" "me_ID e \<noteq> []" "length (me_Content e) \<le> MaxMemoryEntryBytes"
    "FileStore_Put rnd rest None no_faults now e fs = Some (fs', r)"
  shows "\<exists>e'. r = Inr e' \<and> same_note e e' \<and> me_ID e' = me_ID e \<and>
    fs_entries fs' = (fs_entries fs)(me_Scope e :=
      (if me_ID e \<in> me_ID ` set (fs_entries fs (me_Scope e))
       then map (\<lambda>x. if me_ID x = me_ID e then e' else x) (fs_entries fs (me_Scope e))
       else fs_entries fs (me_Scope e) @ [e']))"
proof -
  let ?idx = "cur_index fs (me_Scope e)"
  obtain e' where e': "e' = e\<lparr>me_CreatedAt := (if me_CreatedAt e = 0 then now else me_CreatedAt e)\<rparr>"
    "r = Inr e'" "advanced (me_Scope e) (entry_line rest e') (upsert e' ?idx) fs fs'"
    using Put_ok [OF assms(5,4,2)] assms(3) by (cases e) auto
  have id: "me_ID e' = me_ID e" by (simp add: e'(1))
  have ok: "idx_ok ?idx" using assms(1) by (simp add: fs_ok_def)
  show ?thesis
  proof (cases "map_of (si_byID ?idx) (me_ID e)")
    case None
    then have "me_ID e \<notin> me_ID ` set (fs_entries fs (me_Scope e))"
      using live_ids by (fastforce simp: fs_entries_def)
    moreover have "live (upsert e' ?idx) = live ?idx @ [e']"
      using live_upsert_new [OF ok] None id by simp
    ultimately show ?thesis
      using e' id advanced_entries [OF e'(3)] by (auto simp: same_note_def fs_entries_def)
  next
    case (Some k)
    have "k < length (si_entries ?idx)" "me_ID (si_entries ?idx ! k) = me_ID e"
      using idx_okD [OF ok Some] by auto
    then have "si_entries ?idx ! k \<in> set (live ?idx)"
      using live_mem [of k ?idx] Some by simp
    then have "me_ID e \<in> me_ID ` set (fs_entries fs (me_Scope e))"
      using \<open>me_ID (si_entries ?idx ! k) = me_ID e\<close> unfolding fs_entries_def by (metis image_eqI)
    moreover have "live (upsert e' ?idx) = map (\<lambda>x. if me_ID x = me_ID e then e' else x) (live ?idx)"
      using live_upsert_old [OF ok] Some id by simp
    ultimately show ?thesis
      using e' id advanced_entries [OF e'(3)] by (auto simp: same_note_def fs_entries_def)
  qed
qed

lemmas fs_eval = FileStore_Put_def scopeLocked_def put_index_def set_files_def get_files_def upsert_def
  appendLineLocked_def writeMetaLocked_def no_faults_def empty_index_def empty_files_def file_lines_def
  entry_line_def tomb_line_def Let_def zero_entry_def MaxMemoryEntryBytes_def fs_entries_def cur_index_def
  live_def rollback_def json_entry_def json_map_def

definition one_entry :: fileStore where
  "one_entry = \<lparr>fs_root = ''/d'', fs_closed = False,
     fs_byScope = [(''a'', \<lparr>si_entries = [zero_entry\<lparr>me_ID := ''k'', me_Scope := ''a'', me_Content := ''old''\<rparr>],
                          si_byID = [(''k'', 0)], si_corruptSkipped = 0, si_dirty = False\<rparr>)],
     fs_disk = [], fs_draws = 0\<rparr>"

lemma one_entry_ok: "fs_ok one_entry"
  by (simp add: fs_ok_def one_entry_def cur_index_def idx_ok_def empty_index_def zero_entry_def)

lemma FileStore_put_upserts_witness:
  "fs_ok one_entry \<and> (\<exists>fs' e'.
     FileStore_Put (\<lambda>_. ''r'') (\<lambda>_. 60) None no_faults 9
       (zero_entry\<lparr>me_ID := ''k'', me_Scope := ''a'', me_Content := ''new''\<rparr>) one_entry = Some (fs', Inr e')
     \<and> fs_entries fs' ''a'' = [e'] \<and> me_Content e' = ''new'')"
proof -
  let ?e = "zero_entry\<lparr>me_ID := ''k'', me_Scope := ''a'', me_Content := ''new''\<rparr>"
  obtain fs' r where p: "FileStore_Put (\<lambda>_. ''r'') (\<lambda>_. 60) None no_faults 9 ?e one_entry = Some (fs', r)"
    by (simp add: fs_eval one_entry_def)
  have "fs_entries one_entry ''a'' = [zero_entry\<lparr>me_ID := ''k'', me_Scope := ''a'', me_Content := ''old''\<rparr>]"
    by (simp add: fs_eval one_entry_def)
  moreover have e: "me_Scope ?e = ''a''" "me_ID ?e = ''k''" "me_Content ?e = ''new''"
    by simp_all
  moreover have "length (me_Content ?e) \<le> MaxMemoryEntryBytes" "\<not> fs_closed one_entry" "me_ID ?e \<noteq> []"
    by (simp_all add: MaxMemoryEntryBytes_def one_entry_def)
  from FileStore_put_upserts [OF one_entry_ok this(2,3,1) p]
  obtain e' where "r = Inr e'" "same_note ?e e'" "fs_entries fs' = (fs_entries one_entry)(me_Scope ?e :=
      (if me_ID ?e \<in> me_ID ` set (fs_entries one_entry (me_Scope ?e))
       then map (\<lambda>x. if me_ID x = me_ID ?e then e' else x) (fs_entries one_entry (me_Scope ?e))
       else fs_entries one_entry (me_Scope ?e) @ [e']))" by blast
  ultimately have "fs_entries fs' ''a'' = [e']" "me_Content e' = ''new''" "r = Inr e'"
    by (simp_all add: same_note_def)
  then show ?thesis using p one_entry_ok by blast
qed

text \<open>The characters \<^verbatim>\<open>scopeDirName\<close> lets through: letters, digits, \<^verbatim>\<open>-\<close>, \<^verbatim>\<open>_\<close> and \<^verbatim>\<open>.\<close>.\<close>

definition path_char :: "char \<Rightarrow> bool" where
  "path_char c = (let n = (of_char c :: nat) in
     (97 \<le> n \<and> n \<le> 122) \<or> (65 \<le> n \<and> n \<le> 90) \<or> (48 \<le> n \<and> n \<le> 57) \<or> n = 45 \<or> n = 95 \<or> n = 46)"

lemma path_char_hex: "n < 16 \<Longrightarrow> path_char (hex_upper n)"
  by (auto simp: path_char_def hex_upper_def Let_def)

lemma path_char_hex4: "list_all path_char (hex4 n)"
proof -
  have "list_all path_char (hex_digits n)"
    by (induction n rule: hex_digits.induct) (subst hex_digits.simps, simp add: path_char_hex)
  moreover have "path_char (CHR ''0'')" by code_simp
  ultimately show ?thesis by (auto simp: hex4_def Let_def list_all_iff)
qed

lemma scope_rune_chars: "list_all path_char (scope_rune r)"
proof -
  have "path_char (CHR ''_'')" "path_char (CHR ''u'')" by code_simp+
  moreover have "path_char (char_of r)"
    if "(97 \<le> r \<and> r \<le> 122) \<or> (65 \<le> r \<and> r \<le> 90) \<or> (48 \<le> r \<and> r \<le> 57) \<or> r = 45 \<or> r = 95 \<or> r = 46"
    using that by (auto simp: path_char_def Let_def)
  ultimately show ?thesis using path_char_hex4 by (simp add: scope_rune_def)
qed

text \<open>
  The directory name of a scope is one safe path segment, whatever the scope: not empty,
  not \<^verbatim>\<open>.\<close> or \<^verbatim>\<open>..\<close>, and made of letters, digits, \<^verbatim>\<open>-\<close>, \<^verbatim>\<open>_\<close> and \<^verbatim>\<open>.\<close> only, so it cannot
  leave the \<^verbatim>\<open>scopes\<close> directory.
\<close>
theorem scopeDirName_safe:
  "scopeDirName scope \<noteq> [] \<and> scopeDirName scope \<noteq> ''.'' \<and> scopeDirName scope \<noteq> ''..''
   \<and> list_all path_char (scopeDirName scope) \<and> CHR ''/'' \<notin> set (scopeDirName scope)"
proof -
  have "list_all path_char (concat (map scope_rune rs))" for rs
    using scope_rune_chars by (auto simp: list_all_iff)
  moreover have "list_all path_char defaultScopeDir" by code_simp
  ultimately have all: "list_all path_char (scopeDirName scope)"
    by (simp add: scopeDirName_def Let_def)
  moreover have "\<not> path_char (CHR ''/'')" by code_simp
  ultimately have "CHR ''/'' \<notin> set (scopeDirName scope)" by (auto simp: list_all_iff)
  with all show ?thesis
    by (auto simp: scopeDirName_def Let_def defaultScopeDir_def)
qed

end
