(* ===== verification/FileLog.thy ===== *)
theory FileLog
  imports FileStore
begin

text \<open>
  Durability of \<^verbatim>\<open>FileStore\<close>: runs of operations keep the files of every scope in step with its
  index (\<open>durable\<close>), so opening them again (\<^verbatim>\<open>OpenFileStore\<close>, \<^verbatim>\<open>loadAll\<close>, \<^verbatim>\<open>loadScope\<close>)
  rebuilds the store up to what JSON makes of texts that are not UTF-8; and the cases where it does
  not: scopes that share a directory, a scope that is not UTF-8, a failed append, a line longer than the
  scan buffer, and corrupt lines counted again at each open.
\<close>

section \<open>Durability\<close>

datatype fs_op = OpPut time memoryEntry | OpDelete memoryScope string

fun op_scope :: "fs_op \<Rightarrow> memoryScope" where
  "op_scope (OpPut now e) = me_Scope e"
| "op_scope (OpDelete sc i) = sc"

text \<open>A run of operations without disk faults; \<^const>\<open>None\<close> if one of them never returns.\<close>

fun run_ops :: "(nat \<Rightarrow> string) \<Rightarrow> (memoryEntry \<Rightarrow> nat) \<Rightarrow> fs_op list \<Rightarrow> fileStore \<Rightarrow> fileStore option" where
  "run_ops rnd rest [] fs = Some fs"
| "run_ops rnd rest (OpPut now e # ops) fs =
     (case FileStore_Put rnd rest None no_faults now e fs of
        None \<Rightarrow> None | Some (fs, _) \<Rightarrow> run_ops rnd rest ops fs)"
| "run_ops rnd rest (OpDelete sc i # ops) fs =
     run_ops rnd rest ops (fst (FileStore_Delete None no_faults sc i fs))"

definition fresh_store :: "string \<Rightarrow> nat \<Rightarrow> fileStore" where
  "fresh_store dir n = \<lparr>fs_root = dir, fs_closed = False, fs_byScope = [], fs_disk = [], fs_draws = n\<rparr>"

definition replay :: "memoryScope \<Rightarrow> jline list \<Rightarrow> scopeIndex" where
  "replay sc ls = fold (\<lambda>l. load_line sc (jl_body l)) ls empty_index"

definition meta_for :: "memoryScope \<Rightarrow> scopeFiles \<Rightarrow> bool" where
  "meta_for sc f \<longleftrightarrow> sf_entries f \<noteq> None \<and>
     (case sf_meta f of None \<Rightarrow> False | Some m \<Rightarrow> fm_Scope m = sc \<and> fm_CorruptSkipped m = 0)"

text \<open>An index as the files keep it, and ids they keep as they are.\<close>

definition json_index :: "scopeIndex \<Rightarrow> scopeIndex" where
  "json_index idx = idx\<lparr>si_entries := map json_entry (si_entries idx)\<rparr>"

definition text_ids :: "scopeIndex \<Rightarrow> bool" where
  "text_ids idx \<longleftrightarrow> (\<forall>e\<in>set (si_entries idx). valid_text (me_ID e))"

lemma valid_json [simp]: "valid_text s \<Longrightarrow> json_text s = s"
  by (simp add: valid_text_def json_text_def)

lemma json_index_simps [simp]:
  "si_byID (json_index idx) = si_byID idx" "si_corruptSkipped (json_index idx) = si_corruptSkipped idx"
  "si_dirty (json_index idx) = si_dirty idx"
  "json_index (idx\<lparr>si_byID := b\<rparr>) = (json_index idx)\<lparr>si_byID := b\<rparr>"
  "json_index (idx\<lparr>si_dirty := x\<rparr>) = (json_index idx)\<lparr>si_dirty := x\<rparr>"
  "json_index empty_index = empty_index"
  by (simp_all add: json_index_def empty_index_def)

lemma json_index_upsert: "valid_text (me_ID e) \<Longrightarrow> json_index (upsert e idx) = upsert (json_entry e) (json_index idx)"
  by (simp add: upsert_def json_index_def json_entry_def map_update split: option.split)

lemma text_ids_upsert: "text_ids idx \<Longrightarrow> valid_text (me_ID e) \<Longrightarrow> text_ids (upsert e idx)"
  by (auto simp: text_ids_def upsert_def split: option.split dest!: subsetD [OF set_update_subset_insert])

lemma live_json_index: "text_ids idx \<Longrightarrow> live (json_index idx) = map json_entry (live idx)"
proof -
  have "live_from b k (map json_entry es) = map json_entry (live_from b k es)" if "\<forall>e\<in>set es. valid_text (me_ID e)" for b k es
    using that by (induction es arbitrary: k) (simp_all add: json_entry_def)
  then show "text_ids idx \<Longrightarrow> live (json_index idx) = map json_entry (live idx)"
    by (simp add: live_def text_ids_def) (simp add: json_index_def)
qed

text \<open>An entry all of whose texts are UTF-8 is kept as it is.\<close>

definition text_entry :: "memoryEntry \<Rightarrow> bool" where
  "text_entry e \<longleftrightarrow> valid_text (me_ID e) \<and> valid_text (me_Scope e) \<and> valid_text (me_Agent e) \<and> valid_text (me_Task e)
     \<and> valid_text (me_Content e) \<and> (\<forall>k v. me_Metadata e k = Some v \<longrightarrow> valid_text k \<and> valid_text v)"

lemma json_map_text:
  assumes "\<forall>k v. m k = Some v \<longrightarrow> valid_text k \<and> valid_text v"
  shows "json_map m = m"
proof (rule ext)
  fix k
  have ks: "{k' \<in> dom m. json_text k' = k} = (if m k = None then {} else {k})"
  proof -
    have "k' \<in> dom m \<and> json_text k' = k \<longleftrightarrow> k' = k \<and> m k \<noteq> None" for k'
      using assms by (cases "m k'") (auto simp: dom_def)
    then show ?thesis by auto
  qed
  show "json_map m k = m k"
  proof (cases "m k")
    case (Some v)
    then have "valid_text v" using assms by blast
    then show ?thesis unfolding json_map_def Let_def ks by (simp add: Some)
  qed (simp only: json_map_def Let_def ks, simp)
qed

lemma json_entry_text: "text_entry e \<Longrightarrow> json_entry e = e"
  by (simp add: json_entry_def text_entry_def json_map_text)

text \<open>
  The disk mirrors the index of every scope of \<open>S\<close>: the log replays to it as JSON keeps it, and the
  directory's meta names the scope.
\<close>

definition durable :: "(nat \<Rightarrow> string) \<Rightarrow> memoryScope set \<Rightarrow> fileStore \<Rightarrow> bool" where
  "durable rnd S fs \<longleftrightarrow> fs_valid rnd fs
     \<and> (\<forall>d\<in>disk_keys fs. \<exists>sc\<in>S. d = scopeDirName sc \<and> meta_for sc (get_files fs d))
     \<and> (\<forall>sc\<in>S. replay sc (log_of fs sc) = json_index (cur_index fs sc) \<and> \<not> si_dirty (cur_index fs sc)
          \<and> si_corruptSkipped (cur_index fs sc) = 0 \<and> text_ids (cur_index fs sc))"

lemma load_line_entry:
  "me_Scope e = sc \<Longrightarrow> me_ID e \<noteq> [] \<Longrightarrow> load_line sc (JEntry e) idx = upsert e idx"
  by (cases e) (simp add: load_line_def as_tomb_def as_entry_def)

lemma load_line_tomb:
  "i \<noteq> [] \<Longrightarrow> load_line sc (JTomb i True) idx = idx\<lparr>si_byID := AList.delete i (si_byID idx)\<rparr>"
  by (simp add: load_line_def as_tomb_def)

lemma load_lines_replay:
  "\<forall>l\<in>set ls. jl_len l < scan_limit \<Longrightarrow>
   load_lines sc ls idx = Inr (fold (\<lambda>l. load_line sc (jl_body l)) ls idx)"
  by (induction ls arbitrary: idx) auto

lemma get_files_missing: "d \<notin> disk_keys fs \<Longrightarrow> get_files fs d = empty_files"
  by (auto simp: get_files_def disk_keys_def map_of_eq_None_iff [symmetric])

lemma advanced_log:
  "advanced sc l idx fs fs' \<Longrightarrow> log_of fs' sc' =
     (if scopeDirName sc' = scopeDirName sc then log_of fs sc @ [l] else log_of fs sc')"
  by (simp add: advanced_def log_of_def file_lines_def)

lemma durable_advanced:
  assumes "durable rnd S fs" "inj_on scopeDirName S" "sc \<in> S" "advanced sc l idx fs fs'"
    "fs_valid rnd fs'" "load_line sc (jl_body l) (json_index (cur_index fs sc)) = json_index idx"
    "\<not> si_dirty idx" "si_corruptSkipped idx = 0" "text_ids idx" "valid_text sc"
  shows "durable rnd S fs'"
proof -
  have dirs: "\<forall>d\<in>disk_keys fs'. \<exists>sc\<in>S. d = scopeDirName sc \<and> meta_for sc (get_files fs' d)"
    using assms(1,3,4,8,10) by (auto simp: durable_def advanced_def meta_for_def)
  have "replay sc' (log_of fs' sc') = json_index (cur_index fs' sc') \<and> \<not> si_dirty (cur_index fs' sc')
      \<and> si_corruptSkipped (cur_index fs' sc') = 0 \<and> text_ids (cur_index fs' sc')" if "sc' \<in> S" for sc'
  proof (cases "sc' = sc")
    case True
    then show ?thesis
      using assms advanced_log [OF assms(4)] advanced_cur [OF assms(4)]
      by (simp add: durable_def replay_def text_ids_def)
  next
    case False
    then have "scopeDirName sc' \<noteq> scopeDirName sc" using that assms(2,3) by (auto dest: inj_onD)
    then show ?thesis
      using False that assms(1) advanced_log [OF assms(4)] advanced_cur [OF assms(4)]
      by (simp add: durable_def)
  qed
  then show ?thesis using dirs assms(5) by (simp add: durable_def)
qed

lemma durable_put:
  assumes "durable rnd S fs" "inj_on scopeDirName S" "me_Scope e \<in> S"
    "FileStore_Put rnd rest None no_faults now e fs = Some (fs', r)"
    "valid_text (me_Scope e)" "valid_text (me_ID e)" "\<forall>k. valid_text (rnd k)"
  shows "durable rnd S fs'"
proof (cases "length (me_Content e) \<le> MaxMemoryEntryBytes")
  case False
  then have "fs' = fs" using assms(4) by (simp add: FileStore_Put_def)
  then show ?thesis using assms(1) by simp
next
  case True
  let ?idx = "cur_index fs (me_Scope e)"
  have v: "fs_valid rnd fs" "\<not> fs_closed fs" "fs_ok fs"
    using assms(1) by (simp_all add: durable_def fs_valid_def)
  obtain i n e' where p:
    "if me_ID e = [] then freshIDLocked rnd fs = Some (i, n) else i = me_ID e \<and> n = fs_draws fs"
    "e' = e\<lparr>me_ID := i, me_CreatedAt := (if me_CreatedAt e = 0 then now else me_CreatedAt e)\<rparr>"
    "fs_draws fs' = n" "advanced (me_Scope e) (entry_line rest e') (upsert e' ?idx) fs fs'"
    using Put_ok [OF assms(4) True v(2)] by blast
  have n: "n \<ge> fs_draws fs \<and> i \<noteq> [] \<and> valid_text i"
  proof (cases "me_ID e = []")
    case True
    then obtain k where "k \<ge> fs_draws fs" "i = rnd k" "n = Suc k"
      using p(1) generateID_result by (fastforce simp: freshIDLocked_def)
    then show ?thesis using v(1) assms(7) by (simp add: fs_valid_def)
  qed (use p(1) assms(6) in auto)
  have id: "me_ID e' = i" "me_Scope e' = me_Scope e" by (simp_all add: p(2))
  have "idx_ok (upsert e' ?idx)" using v(3) id(1) n by (simp add: upsert_ok fs_ok_def)
  then have "fs_valid rnd fs'"
    using v(1) n p(3,4) advanced_ok [OF p(4) v(3)] by (auto simp: fs_valid_def advanced_def)
  moreover have "load_line (me_Scope e) (jl_body (entry_line rest e')) (json_index ?idx) = json_index (upsert e' ?idx)"
    using id n assms(5) by (simp add: entry_line_def load_line_entry json_index_upsert) (simp add: json_entry_def load_line_entry)
  moreover have "text_ids (upsert e' ?idx)"
    using assms(1,3) id n by (auto simp: durable_def intro: text_ids_upsert)
  ultimately show ?thesis
    using durable_advanced [OF assms(1-3) p(4)] assms(1,3,5) by (simp add: upsert_flags durable_def)
qed

lemma durable_delete:
  assumes "durable rnd S fs" "inj_on scopeDirName S" "sc \<in> S" "valid_text sc" "valid_text i"
  shows "durable rnd S (fst (FileStore_Delete None no_faults sc i fs))"
proof (cases "i = []")
  case True
  then show ?thesis using assms(1) by (simp add: FileStore_Delete_def)
next
  case False
  let ?idx = "cur_index fs sc"
  let ?idx' = "?idx\<lparr>si_byID := AList.delete i (si_byID ?idx)\<rparr>"
  have v: "fs_valid rnd fs" "\<not> fs_closed fs" "fs_ok fs"
    using assms(1) by (simp_all add: durable_def fs_valid_def)
  obtain fs' where d: "FileStore_Delete None no_faults sc i fs = (fs', None)"
    "if map_of (si_byID ?idx) i = None then fs' = fs
     else fs_draws fs' = fs_draws fs \<and> advanced sc (tomb_line i) ?idx' fs fs'"
    using Delete_ok [OF v(2) False] by blast
  show ?thesis
  proof (cases "map_of (si_byID ?idx) i = None")
    case True
    with d assms(1) show ?thesis by simp
  next
    case nn: False
    then have adv: "fs_draws fs' = fs_draws fs" "advanced sc (tomb_line i) ?idx' fs fs'" using d(2) by auto
    have "fs_valid rnd fs'"
      using v(1) adv advanced_ok [OF adv(2) v(3)] v(3)
      by (auto simp: fs_valid_def advanced_def fs_ok_def delete_ok)
    then show ?thesis
      using durable_advanced [OF assms(1-3) adv(2)] assms(1,3-5) False d(1)
      by (simp add: tomb_line_def load_line_tomb durable_def text_ids_def)
  qed
qed

text \<open>The id an operation is given.\<close>

fun op_id :: "fs_op \<Rightarrow> string" where
  "op_id (OpPut now e) = me_ID e"
| "op_id (OpDelete sc i) = i"

lemma durable_run:
  assumes "inj_on scopeDirName S" "\<forall>sc\<in>S. valid_text sc" "\<forall>k. valid_text (rnd k)"
  shows "durable rnd S fs \<Longrightarrow> op_scope ` set ops \<subseteq> S \<Longrightarrow> \<forall>op\<in>set ops. valid_text (op_id op) \<Longrightarrow> run_ops rnd rest ops fs = Some fs'
    \<Longrightarrow> durable rnd S fs'"
proof (induction ops arbitrary: fs)
  case (Cons op ops)
  show ?case
  proof (cases op)
    case (OpPut now e)
    with Cons.prems obtain fs1 r where 1: "FileStore_Put rnd rest None no_faults now e fs = Some (fs1, r)"
      "run_ops rnd rest ops fs1 = Some fs'"
      by (auto split: option.splits)
    from durable_put [OF Cons.prems(1) assms(1) _ 1(1) _ _ assms(3)] Cons.prems(2,3) assms(2) OpPut have "durable rnd S fs1" by simp
    with Cons.IH [OF this _ _ 1(2)] Cons.prems(2,3) show ?thesis by simp
  next
    case (OpDelete sc i)
    have "durable rnd S (fst (FileStore_Delete None no_faults sc i fs))"
      using durable_delete [OF Cons.prems(1) assms(1)] Cons.prems(2,3) assms(2) OpDelete by simp
    from Cons.IH [OF this] Cons.prems(2-4) OpDelete show ?thesis by simp
  qed
qed simp

lemma durable_fresh: "\<forall>k\<ge>n. rnd k \<noteq> [] \<Longrightarrow> durable rnd S (fresh_store dir n)"
  by (simp add: durable_def fresh_store_def fs_valid_def fs_ok_def cur_index_def disk_keys_def log_of_def
      get_files_def file_lines_def empty_files_def replay_def)
    (simp add: empty_index_def text_ids_def)

section \<open>Opening what was written\<close>

lemma loadScope_durable:
  assumes "durable rnd S fs" "inj_on scopeDirName S" "d \<in> disk_keys fs" "fs_disk fs' = fs_disk fs"
    "\<forall>l\<in>set (file_lines (get_files fs d)). jl_len l < scan_limit"
  shows "\<exists>sc\<in>S. d = scopeDirName sc \<and> load_scope_name d (get_files fs' d) = sc
    \<and> loadScope (\<lambda>_. no_faults) sc d fs' = (put_index sc (json_index (cur_index fs sc)) fs', None)"
proof -
  have get: "get_files fs' = get_files fs" using assms(4) by (auto simp: get_files_def)
  obtain sc where sc: "sc \<in> S" "d = scopeDirName sc" "meta_for sc (get_files fs d)"
    using assms(1,3) by (auto simp: durable_def)
  then obtain ls m where f: "sf_entries (get_files fs d) = Some ls" "sf_meta (get_files fs d) = Some m"
    "fm_Scope m = sc" "fm_CorruptSkipped m = 0"
    by (auto simp: meta_for_def split: option.splits)
  have ls: "log_of fs sc = ls" using f(1) sc(2) by (simp add: log_of_def file_lines_def)
  have "load_lines sc ls empty_index = Inr (json_index (cur_index fs sc))"
    using load_lines_replay [of ls sc empty_index] assms(1,5) sc(1) ls f(1)
    by (auto simp: durable_def replay_def file_lines_def)
  moreover have "empty_index\<lparr>si_corruptSkipped := 0\<rparr> = empty_index" by (simp add: empty_index_def)
  moreover have "\<not> si_dirty (cur_index fs sc)" using assms(1) sc(1) by (simp add: durable_def)
  ultimately have "loadScope (\<lambda>_. no_faults) sc d fs' = (put_index sc (json_index (cur_index fs sc)) fs', None)"
    using f by (simp add: loadScope_def get no_faults_def)
  moreover have "load_scope_name d (get_files fs' d) = sc"
    using f(2,3) sc(2) by (auto simp: load_scope_name_def get Let_def scopeDirName_def)
  ultimately show ?thesis using sc by auto
qed

lemma load_dirs_durable:
  assumes "durable rnd S fs" "inj_on scopeDirName S"
    "\<forall>d\<in>disk_keys fs. \<forall>l\<in>set (file_lines (get_files fs d)). jl_len l < scan_limit"
  shows "set names \<subseteq> disk_keys fs \<Longrightarrow> fs_disk fs' = fs_disk fs \<Longrightarrow>
    \<exists>fs''. load_dirs (\<lambda>_. no_faults) names fs' = (fs'', None)
      \<and> (\<forall>sc\<in>S. map_of (fs_byScope fs'') sc =
           (if scopeDirName sc \<in> set names then Some (json_index (cur_index fs sc)) else map_of (fs_byScope fs') sc))"
proof (induction names arbitrary: fs')
  case (Cons d names)
  obtain sc where sc: "sc \<in> S" "d = scopeDirName sc" "load_scope_name d (get_files fs' d) = sc"
    "loadScope (\<lambda>_. no_faults) sc d fs' = (put_index sc (json_index (cur_index fs sc)) fs', None)"
    using loadScope_durable [OF assms(1,2), of d fs'] Cons.prems assms(3) by auto
  obtain fs'' where fs'': "load_dirs (\<lambda>_. no_faults) names (put_index sc (json_index (cur_index fs sc)) fs') = (fs'', None)"
    "\<forall>sc'\<in>S. map_of (fs_byScope fs'') sc' = (if scopeDirName sc' \<in> set names then Some (json_index (cur_index fs sc'))
        else map_of (fs_byScope (put_index sc (json_index (cur_index fs sc)) fs')) sc')"
    using Cons.IH [of "put_index sc (json_index (cur_index fs sc)) fs'"] Cons.prems by auto
  have "scopeDirName sc' = d \<longleftrightarrow> sc' = sc" if "sc' \<in> S" for sc'
    using that sc assms(2) by (auto dest: inj_onD)
  with fs'' sc show ?case by (intro exI [of _ fs'']) simp
qed simp

lemma reopen_durable:
  assumes "durable rnd S fs" "inj_on scopeDirName S"
    "\<forall>d\<in>disk_keys fs. \<forall>l\<in>set (file_lines (get_files fs d)). jl_len l < scan_limit"
    "trim_space dir \<noteq> []"
  shows "\<exists>fs'. OpenFileStore (Inr cwd) None None (\<lambda>_. no_faults) n dir (fs_disk fs) = Inr fs'
    \<and> (\<forall>sc\<in>S. fs_entries fs' sc = map json_entry (fs_entries fs sc))"
proof -
  let ?p = "path_clean (trim_space dir)"
  obtain p where p: "p = (if has_prefix ?p ''/'' then ?p else path_clean (cwd @ ''/'' @ ?p))" by simp
  let ?fs = "\<lparr>fs_root = p, fs_closed = False, fs_byScope = [], fs_disk = fs_disk fs, fs_draws = n\<rparr>"
  let ?names = "sort (map fst (fs_disk fs))"
  have names: "set ?names = disk_keys fs" by (simp add: disk_keys_def)
  obtain fs' where fs': "load_dirs (\<lambda>_. no_faults) ?names ?fs = (fs', None)"
    "\<forall>sc\<in>S. map_of (fs_byScope fs') sc = (if scopeDirName sc \<in> disk_keys fs then Some (json_index (cur_index fs sc)) else None)"
    using load_dirs_durable [OF assms(1-3), of ?names ?fs] names by auto
  have "fs_entries fs' sc = map json_entry (fs_entries fs sc)" if "sc \<in> S" for sc
  proof (cases "scopeDirName sc \<in> disk_keys fs")
    case True
    with fs'(2) that have "cur_index fs' sc = json_index (cur_index fs sc)" by (simp add: cur_index_def)
    moreover have "text_ids (cur_index fs sc)" using assms(1) that by (simp add: durable_def)
    ultimately show ?thesis by (simp add: fs_entries_def live_json_index)
  next
    case False
    then have "log_of fs sc = []" by (simp add: log_of_def get_files_missing file_lines_def empty_files_def)
    then have "json_index (cur_index fs sc) = empty_index" using assms(1) that by (auto simp: durable_def replay_def)
    then have "map json_entry (fs_entries fs sc) = []"
      using live_json_index [of "cur_index fs sc"] assms(1) that by (simp add: fs_entries_def durable_def)
    then show ?thesis using False fs'(2) that by (simp add: fs_entries_def cur_index_def)
  qed
  moreover have "OpenFileStore (Inr cwd) None None (\<lambda>_. no_faults) n dir (fs_disk fs) = Inr fs'"
    using assms(4) fs'(1) p
    by (cases "has_prefix ?p ''/''") (simp_all add: OpenFileStore_def Let_def loadAll_def)
  ultimately show ?thesis by auto
qed

section \<open>Properties\<close>

text \<open>
  C15. Durability: after any run of \<^verbatim>\<open>Put\<close>s and \<^verbatim>\<open>Delete\<close>s from an empty root, opening the files
  again gives every scope the live entries it had, in the same order, each as JSON keeps it: exactly the
  same where its texts are valid UTF-8, and with U+FFFD for every byte that is not. This holds under
  these conditions: no two of the scopes share a directory name, scopes and ids are valid UTF-8 and ids
  drawn are not empty, the disk does not fail, every line fits the scan buffer, and the root is not blank.
  Each is needed: \<open>scopes_share_directory\<close>, \<open>scope_not_text_lost\<close>, \<open>put_rollback_upsert\<close> and
  \<open>long_line_blocks_open\<close> show what happens otherwise.
\<close>
theorem FileStore_reopen:
  assumes "inj_on scopeDirName S" "op_scope ` set ops \<subseteq> S" "\<forall>k\<ge>n. rnd k \<noteq> []"
    "\<forall>sc\<in>S. valid_text sc" "\<forall>op\<in>set ops. valid_text (op_id op)" "\<forall>k. valid_text (rnd k)"
    "run_ops rnd rest ops (fresh_store dir0 n) = Some fs"
    "\<forall>d\<in>disk_keys fs. \<forall>l\<in>set (file_lines (get_files fs d)). jl_len l < scan_limit"
    "trim_space dir \<noteq> []"
  shows "\<exists>fs'. OpenFileStore (Inr cwd) None None (\<lambda>_. no_faults) n' dir (fs_disk fs) = Inr fs'
    \<and> (\<forall>sc\<in>S. fs_entries fs' sc = map json_entry (fs_entries fs sc)
         \<and> (list_all text_entry (fs_entries fs sc) \<longrightarrow> fs_entries fs' sc = fs_entries fs sc))"
proof -
  have "durable rnd S fs" by (rule durable_run [OF assms(1,4,6) durable_fresh [OF assms(3)] assms(2,5,7)])
  from reopen_durable [OF this assms(1,8,9)] obtain fs'
    where "OpenFileStore (Inr cwd) None None (\<lambda>_. no_faults) n' dir (fs_disk fs) = Inr fs'"
      "\<forall>sc\<in>S. fs_entries fs' sc = map json_entry (fs_entries fs sc)" by blast
  moreover have "map json_entry es = es" if "list_all text_entry es" for es
    using that json_entry_text by (auto simp: list_all_iff intro: map_idI)
  ultimately show ?thesis by auto
qed

definition demo_ops :: "fs_op list" where
  "demo_ops = [OpPut 1 (zero_entry\<lparr>me_ID := ''k'', me_Scope := ''a'', me_Content := ''x''\<rparr>),
     OpPut 2 (zero_entry\<lparr>me_ID := ''m'', me_Scope := ''a'', me_Content := ''y''\<rparr>),
     OpPut 3 (zero_entry\<lparr>me_ID := ''k'', me_Content := ''z''\<rparr>),
     OpPut 4 (zero_entry\<lparr>me_ID := ''k'', me_Scope := ''a'', me_Content := ''w''\<rparr>),
     OpDelete ''a'' ''m'']"

definition demo_store :: fileStore where
  "demo_store = the (run_ops (\<lambda>_. ''r'') (\<lambda>_. 60) demo_ops (fresh_store ''/d'' 0))"

lemma demo_names: "scopeDirName ''a'' = ''a''" "scopeDirName [] = ''_default''"
  by code_simp+

lemma demo_texts:
  "valid_text ''k''" "valid_text ''m''" "valid_text ''a''" "valid_text ''r''" "valid_text []"
  "valid_text ''x''" "valid_text ''y''" "valid_text ''z''" "valid_text ''w''" "valid_text ''1''" "valid_text ''2''"
  "valid_text ''a b''" "valid_text ''a:b''"
  by code_simp+

lemma demo_strings:
  "length (json_string ''x'') = 3" "length (json_string ''y'') = 3" "length (json_string ''z'') = 3"
  "length (json_string ''w'') = 3" "length (json_string ''m'') = 3"
  by code_simp+

lemma demo_run:
  "run_ops (\<lambda>_. ''r'') (\<lambda>_. 60) demo_ops (fresh_store ''/d'' 0) = Some demo_store"
  "map me_Content (fs_entries demo_store ''a'') = [''w'']"
  "map me_Content (fs_entries demo_store []) = [''z'']"
  "\<forall>d\<in>disk_keys demo_store. \<forall>l\<in>set (file_lines (get_files demo_store d)). jl_len l < scan_limit"
  by (simp_all add: demo_store_def demo_ops_def fs_eval demo_names fresh_store_def FileStore_Delete_def
      disk_keys_def scan_limit_def demo_strings demo_texts)

lemma FileStore_reopen_witness:
  "\<exists>fs'. OpenFileStore (Inr ''/'') None None (\<lambda>_. no_faults) 0 ''/d'' (fs_disk demo_store) = Inr fs'
     \<and> map me_Content (fs_entries fs' ''a'') = [''w''] \<and> map me_Content (fs_entries fs' []) = [''z'']"
proof -
  have inj: "inj_on scopeDirName {''a'', []}" by (simp add: inj_on_def demo_names)
  have scopes: "op_scope ` set demo_ops \<subseteq> {''a'', []}" by (simp add: demo_ops_def zero_entry_def)
  have ids: "\<forall>op\<in>set demo_ops. valid_text (op_id op)" by (simp add: demo_ops_def demo_texts)
  have texts: "\<forall>sc\<in>{''a'', []}. valid_text sc" "\<forall>k\<ge>0::nat. ''r'' \<noteq> []" "\<forall>k::nat. valid_text ''r''" by (simp_all add: demo_texts)
  have root: "trim_space ''/d'' \<noteq> []" by code_simp
  have "\<exists>fs'. OpenFileStore (Inr ''/'') None None (\<lambda>_. no_faults) 0 ''/d'' (fs_disk demo_store) = Inr fs'
    \<and> (\<forall>sc\<in>{''a'', []}. fs_entries fs' sc = map json_entry (fs_entries demo_store sc)
         \<and> (list_all text_entry (fs_entries demo_store sc) \<longrightarrow> fs_entries fs' sc = fs_entries demo_store sc))"
    by (rule FileStore_reopen [where rnd = "\<lambda>_. ''r''", OF inj scopes texts(2,1) ids texts(3) demo_run(1,4) root])
  then obtain fs'
    where fs': "OpenFileStore (Inr ''/'') None None (\<lambda>_. no_faults) 0 ''/d'' (fs_disk demo_store) = Inr fs'"
      "\<forall>sc\<in>{''a'', []}. fs_entries fs' sc = map json_entry (fs_entries demo_store sc)" by blast
  have m: "map me_Content (map json_entry es) = map json_text (map me_Content es)" for es by (simp add: json_entry_def)
  have "fs_entries fs' ''a'' = map json_entry (fs_entries demo_store ''a'')"
    "fs_entries fs' [] = map json_entry (fs_entries demo_store [])" using fs'(2) by (auto simp only: insert_iff)
  then have "map me_Content (fs_entries fs' ''a'') = [json_text ''w'']" "map me_Content (fs_entries fs' []) = [json_text ''z'']"
    by (simp_all only: m demo_run(2,3) list.map)
  then have "map me_Content (fs_entries fs' ''a'') = [''w'']" "map me_Content (fs_entries fs' []) = [''z'']"
    by (simp_all only: valid_json demo_texts)
  then show ?thesis by (intro exI [of _ fs'] conjI fs'(1))
qed

text \<open>
  Two scopes with one directory name do not stay apart: what was stored in \<^verbatim>\<open>a b\<close> is gone
  from it when the files are opened again and shows up in \<^verbatim>\<open>a:b\<close>, whose meta was written last.
\<close>
theorem scopes_share_directory:
  "let secret = zero_entry\<lparr>me_ID := ''1'', me_Scope := ''a b'', me_Content := ''x''\<rparr>;
       own = zero_entry\<lparr>me_ID := ''2'', me_Scope := ''a:b'', me_Content := ''y''\<rparr>
   in \<exists>fs fs'. run_ops rnd (\<lambda>_. 60) [OpPut 1 secret, OpPut 2 own] (fresh_store ''/d'' 0) = Some fs
     \<and> map me_Content (fs_entries fs ''a b'') = [''x''] \<and> map me_Content (fs_entries fs ''a:b'') = [''y'']
     \<and> OpenFileStore (Inr ''/'') None None (\<lambda>_. no_faults) 0 ''/d'' (fs_disk fs) = Inr fs'
     \<and> fs_entries fs' ''a b'' = [] \<and> map me_Content (fs_entries fs' ''a:b'') = [''x'', ''y'']"
proof -
  have n: "scopeDirName ''a b'' = ''a_b''" "scopeDirName ''a:b'' = ''a_b''"
    "trim_space ''/d'' = ''/d''" "path_clean ''/d'' = ''/d''" "has_prefix ''/d'' ''/''"
    by code_simp+
  show ?thesis
    by (simp add: fs_eval n fresh_store_def OpenFileStore_def loadAll_def loadScope_def load_scope_name_def
        scan_limit_def demo_strings demo_texts load_line_def as_tomb_def as_entry_def defaultScopeDir_def)
qed

section \<open>Further divergences\<close>

lemma scope_lost:
  assumes "scopeDirName sc = d" "json_text sc = sc'" "sc' \<noteq> sc" "sc \<noteq> []" "sc' \<noteq> []"
  shows "\<exists>fs fs'. run_ops rnd (\<lambda>_. 60) [OpPut 1 (zero_entry\<lparr>me_ID := ''1'', me_Scope := sc, me_Content := ''x''\<rparr>)]
       (fresh_store ''/d'' 0) = Some fs
     \<and> map me_Content (fs_entries fs sc) = [''x'']
     \<and> OpenFileStore (Inr ''/'') None None (\<lambda>_. no_faults) 0 ''/d'' (fs_disk fs) = Inr fs'
     \<and> fs_entries fs' sc = [] \<and> map me_Content (fs_entries fs' sc') = [''x'']"
proof -
  have n: "trim_space ''/d'' = ''/d''" "path_clean ''/d'' = ''/d''" "has_prefix ''/d'' ''/''"
    by code_simp+
  show ?thesis using assms(3-5)
    by (simp add: fs_eval n assms(1,2) fresh_store_def OpenFileStore_def loadAll_def loadScope_def load_scope_name_def
        scan_limit_def demo_strings demo_texts load_line_def as_tomb_def as_entry_def defaultScopeDir_def)
qed

text \<open>
  A scope that is not UTF-8 does not come back: its name is written to the meta as U+FFFD, and what was
  stored in it is found under that scope instead.
\<close>
lemma scope_not_text_lost:
  "let own = zero_entry\<lparr>me_ID := ''1'', me_Scope := [CHR 0xFF], me_Content := ''x''\<rparr>
   in \<exists>fs fs'. run_ops rnd (\<lambda>_. 60) [OpPut 1 own] (fresh_store ''/d'' 0) = Some fs
     \<and> map me_Content (fs_entries fs [CHR 0xFF]) = [''x'']
     \<and> OpenFileStore (Inr ''/'') None None (\<lambda>_. no_faults) 0 ''/d'' (fs_disk fs) = Inr fs'
     \<and> fs_entries fs' [CHR 0xFF] = [] \<and> map me_Content (fs_entries fs' ([CHR 0xEF, CHR 0xBF, CHR 0xBD])) = [''x'']"
proof -
  have "char_of (239::nat) = CHR 0xEF \<and> char_of (191::nat) = CHR 0xBF \<and> char_of (189::nat) = CHR 0xBD"
    by code_simp
  then have "json_text [CHR 0xFF] = [CHR 0xEF, CHR 0xBF, CHR 0xBD]"
    by (simp add: json_text_def runes_def decode_bytes_def rune_string_def encode_rune_def)
  then show ?thesis unfolding Let_def by (rule scope_lost [OF refl]) simp_all
qed

text \<open>
  A failed append rolls back too much and too little: replacing the last entry of a scope removes
  it from the index, replacing an earlier one keeps the value the caller was told was not stored.
\<close>
lemma put_rollback_upsert:
  "let io = no_faults\<lparr>io_open := Some (Plain ''disk'')\<rparr>;
       new = zero_entry\<lparr>me_ID := ''k'', me_Scope := ''a'', me_Content := ''new''\<rparr>;
       two = the (run_ops rnd (\<lambda>_. 60)
               [OpPut 1 (zero_entry\<lparr>me_ID := ''m'', me_Scope := ''a'', me_Content := ''other''\<rparr>)] one_entry)
   in (\<exists>fs e. FileStore_Put rnd (\<lambda>_. 60) None io 9 new one_entry = Some (fs, Inl e) \<and> fs_entries fs ''a'' = [])
    \<and> (\<exists>fs e. FileStore_Put rnd (\<lambda>_. 60) None io 9 new two = Some (fs, Inl e)
         \<and> map me_Content (fs_entries fs ''a'') = [''new'', ''other''])"
  by (simp add: fs_eval one_entry_def demo_names)

text \<open>Content within the cap that JSON escapes to six bytes each makes the file unreadable.\<close>

lemma json_string_angle: "length (json_string (replicate n (CHR ''<''))) = 6 * n + 2"
proof -
  have "json_char (char_of (60 :: nat)) = [CHR 0x5C] @ ''u003c''" by code_simp
  then have "length (json_from 0 (replicate n 60)) = 6 * n"
    by (induction n) (simp_all add: decode_bytes_def json_rune_def)
  then show ?thesis by (simp add: json_string_def)
qed

lemma long_line_blocks_open:
  "let e = zero_entry\<lparr>me_ID := ''1'', me_Scope := ''a'', me_Content := replicate MaxMemoryEntryBytes (CHR ''<'')\<rparr>
   in \<exists>fs er. FileStore_Put rnd rest None no_faults 1 e (fresh_store ''/d'' 0) = Some (fs, Inr (e\<lparr>me_CreatedAt := 1\<rparr>))
     \<and> OpenFileStore (Inr ''/'') None None (\<lambda>_. no_faults) 0 ''/d'' (fs_disk fs) = Inl er"
proof -
  have n: "trim_space ''/d'' = ''/d''" "path_clean ''/d'' = ''/d''" "has_prefix ''/d'' ''/''"
    by code_simp+
  show ?thesis
    using json_string_angle [of MaxMemoryEntryBytes]
    by (simp add: fs_eval n fresh_store_def OpenFileStore_def loadAll_def loadScope_def load_scope_name_def
        scan_limit_def demo_names defaultScopeDir_def)
qed

text \<open>One corrupt line is counted again by every open.\<close>
lemma corrupt_counted_again:
  "\<exists>fs1 fs2. OpenFileStore (Inr ''/'') None None (\<lambda>_. no_faults) 0 ''/d''
       [(''a'', \<lparr>sf_entries = Some [\<lparr>jl_len = 3, jl_body = JBad\<rparr>], sf_meta = None\<rparr>)] = Inr fs1
     \<and> CorruptSkipped fs1 = 1
     \<and> OpenFileStore (Inr ''/'') None None (\<lambda>_. no_faults) 0 ''/d'' (fs_disk fs1) = Inr fs2
     \<and> CorruptSkipped fs2 = 2"
proof -
  have n: "trim_space ''/d'' = ''/d''" "path_clean ''/d'' = ''/d''" "has_prefix ''/d'' ''/''"
    by code_simp+
  show ?thesis
    by (simp add: fs_eval n OpenFileStore_def loadAll_def loadScope_def load_scope_name_def CorruptSkipped_def
        scan_limit_def demo_names defaultScopeDir_def load_line_def as_tomb_def)
qed

end
