(* ===== verification/Redact.thy ===== *)
theory Redact
  imports GoStrings
begin

text \<open>
  Sanitising messages before they are logged or emitted (\<^verbatim>\<open>redact.go\<close>). The three regular
  expressions of \<^verbatim>\<open>redactString\<close> are written as scanners: their character classes are ASCII and
  a class is followed by a character outside it, so leftmost greedy matching is taking the longest
  run. The main lemma: after masking, no 20 consecutive token characters are left of any input.
\<close>

section \<open>Masking\<close>

text \<open>\<^verbatim>\<open>[A-Za-z0-9_\-.]\<close> and \<^verbatim>\<open>\s\<close>.\<close>

definition tok_char :: "char \<Rightarrow> bool" where
  "tok_char c = (let n = (of_char c :: nat) in
     (65 \<le> n \<and> n \<le> 90) \<or> (97 \<le> n \<and> n \<le> 122) \<or> (48 \<le> n \<and> n \<le> 57)
     \<or> n = 95 \<or> n = 45 \<or> n = 46)"

definition re_space :: "char \<Rightarrow> bool" where
  "re_space c \<longleftrightarrow> c \<in> {CHR 0x09, CHR 0x0A, CHR 0x0C, CHR 0x0D, CHR 0x20}"

definition ellipsis :: string where
  "ellipsis = [CHR 0xE2, CHR 0x80, CHR 0xA6]"

definition mask_token :: "string \<Rightarrow> string" where
  "mask_token m =
     (if length m \<ge> 24
      then take 4 m @ ellipsis @ ''[REDACTED]'' @ ellipsis @ drop (length m - 4) m
      else ''[REDACTED]'')"

function mask_long :: "string \<Rightarrow> string" where
  "mask_long [] = []"
| "mask_long (c # cs) =
     (if tok_char c
      then let run = takeWhile tok_char (c # cs) in
        (if length run \<ge> 20 then mask_token run else run) @ mask_long (dropWhile tok_char (c # cs))
      else c # mask_long cs)"
  by pat_completeness auto
termination
  by (relation "measure length") (auto simp: le_imp_less_Suc length_dropWhile_le)

text \<open>
  Replacing the token that follows a marker: \<open>start s\<close> is the marker found at the head of \<open>s\<close>.
  \<^verbatim>\<open>(Bearer\s+)\<close> and \<^verbatim>\<open>([?&](?:api_?key|token|key|secret)=)\<close> are the two markers.
\<close>

definition bearer_start :: "string \<Rightarrow> string option" where
  "bearer_start s =
     (let ws = takeWhile re_space (drop 6 s) in
      if prefix ''Bearer'' s \<and> ws \<noteq> [] then Some (''Bearer'' @ ws) else None)"

definition key_names :: "string list" where
  "key_names = [''api_key='', ''apikey='', ''token='', ''key='', ''secret='']"

definition key_start :: "string \<Rightarrow> string option" where
  "key_start s =
     (case s of
        [] \<Rightarrow> None
      | c # cs \<Rightarrow>
          if c = CHR ''?'' \<or> c = CHR ''&''
          then map_option (\<lambda>k. c # k) (find (\<lambda>k. prefix k cs) key_names)
          else None)"

definition good_start :: "(string \<Rightarrow> string option) \<Rightarrow> bool" where
  "good_start start \<longleftrightarrow> (\<forall>s m. start s = Some m \<longrightarrow> m \<noteq> [] \<and> prefix m s \<and> \<not> tok_char (last m))"

function mask_after :: "(string \<Rightarrow> string option) \<Rightarrow> string \<Rightarrow> string" where
  "mask_after start [] = []"
| "mask_after start (c # cs) =
     (case start (c # cs) of
        None \<Rightarrow> c # mask_after start cs
      | Some m \<Rightarrow>
          (let r = drop (length m - 1) cs in
           if r \<noteq> [] \<and> tok_char (hd r)
           then m @ ''[REDACTED]'' @ mask_after start (dropWhile tok_char r)
           else c # mask_after start cs))"
  by pat_completeness auto
termination
proof (relation "measure (\<lambda>(_, s). length s)", goal_cases)
  case (3 start c cs m r)
  then show ?case
    using length_dropWhile_le [of tok_char "drop (length m - 1) cs"] by simp
qed auto

definition mask_all :: "string \<Rightarrow> string" where
  "mask_all s = mask_after key_start (mask_after bearer_start (mask_long s))"

definition redactString :: "string \<Rightarrow> string" where
  "redactString s =
     (if s = [] then s
      else let s = mask_all s in if length s > 160 then take 157 s @ ''...'' else s)"

text \<open>\<^verbatim>\<open>redactError\<close> on a non-nil error; callers keep nil as it is.\<close>

definition redactError :: "err \<Rightarrow> err" where
  "redactError e =
     (let s = redactString (hd (split_on (CHR 0x0A) (error_text e)))
      in if s = [] then Plain ''[redacted]'' else Plain s)"

section \<open>The log handler\<close>

text \<open>Attributes of \<^verbatim>\<open>slog\<close>: strings, groups, errors, and values of other kinds.\<close>

datatype 'v attr =
    AStr string string
  | AGroup string "'v attr list"
  | AErr string err
  | AOther string 'v

fun redactAttr :: "'v attr \<Rightarrow> 'v attr" where
  "redactAttr (AStr k s) = AStr k (redactString s)"
| "redactAttr (AGroup k g) = (if g = [] then AGroup k g else AGroup k (map redactAttr g))"
| "redactAttr (AErr k e) = AErr k (redactError e)"
| "redactAttr (AOther k v) = AOther k v"

record 'v logRecord =
  lr_time :: nat
  lr_level :: int
  lr_message :: string
  lr_attrs :: "'v attr list"

text \<open>The inner handler's \<^verbatim>\<open>Handle\<close> and \<^verbatim>\<open>WithAttrs\<close> are arguments.\<close>

definition redactHandler_Handle :: "('v logRecord \<Rightarrow> 'r) \<Rightarrow> 'v logRecord \<Rightarrow> 'r" where
  "redactHandler_Handle inner r =
     inner (r\<lparr>lr_message := redactString (lr_message r), lr_attrs := map redactAttr (lr_attrs r)\<rparr>)"

definition redactHandler_WithAttrs :: "('v attr list \<Rightarrow> 'h) \<Rightarrow> 'v attr list \<Rightarrow> 'h" where
  "redactHandler_WithAttrs inner attrs = inner (map redactAttr attrs)"

section \<open>Lemmas\<close>

text \<open>\<open>runs_ok k s\<close>: no token run of 20, when \<open>k\<close> token characters precede \<open>s\<close>.\<close>

fun runs_ok :: "nat \<Rightarrow> string \<Rightarrow> bool" where
  "runs_ok k [] = True"
| "runs_ok k (c # cs) = (if tok_char c then Suc k < 20 \<and> runs_ok (Suc k) cs else runs_ok 0 cs)"

lemma runs_ok_mono: "runs_ok k s \<Longrightarrow> j \<le> k \<Longrightarrow> runs_ok j s"
  by (induction s arbitrary: j k) (auto split: if_splits)

lemma runs_ok_run:
  "list_all tok_char r \<Longrightarrow> k + length r < 20 \<Longrightarrow> runs_ok k (r @ s) = runs_ok (k + length r) s"
  by (induction r arbitrary: k) auto

lemma runs_ok_bound:
  "list_all tok_char r \<Longrightarrow> k < 20 \<Longrightarrow> runs_ok k (r @ s) \<Longrightarrow> k + length r < 20"
proof (induction r arbitrary: k)
  case (Cons c r)
  then have "Suc k + length r < 20" by (intro Cons.IH) auto
  then show ?case by simp
qed simp

lemma runs_ok_sub:
  "runs_ok k (xs @ zs @ ys) \<Longrightarrow> list_all tok_char zs \<Longrightarrow> length zs < 20"
proof (induction xs arbitrary: k)
  case Nil
  then have "runs_ok 0 (zs @ ys)" using runs_ok_mono by fastforce
  then show ?case using Nil runs_ok_bound [of zs 0 ys] by simp
next
  case (Cons x xs)
  then show ?case by (cases "tok_char x") auto
qed

lemma runs_ok_reset: "s = [] \<or> \<not> tok_char (hd s) \<Longrightarrow> runs_ok k s = runs_ok 0 s"
  by (cases s) auto

lemma runs_ok_suffix: "runs_ok k (r @ s) \<Longrightarrow> runs_ok 0 s"
  by (induction r arbitrary: k) (auto split: if_splits intro: runs_ok_mono)

lemma ellipsis_not_tok: "\<not> tok_char (CHR 0xE2)" "\<not> tok_char (CHR 0x80)" "\<not> tok_char (CHR 0xA6)"
  by code_simp+

lemma runs_ok_redacted: "k < 20 \<Longrightarrow> runs_ok k (''[REDACTED]'' @ s) = runs_ok 0 s"
proof -
  have "\<not> tok_char (CHR ''['')" "\<not> tok_char (CHR '']'')" "tok_char (CHR ''R'')" "tok_char (CHR ''E'')"
    "tok_char (CHR ''D'')" "tok_char (CHR ''A'')" "tok_char (CHR ''C'')" "tok_char (CHR ''T'')"
    by code_simp+
  then show ?thesis by simp
qed

lemma runs_ok_ellipsis: "runs_ok k (ellipsis @ s) = runs_ok 0 s"
  by (simp add: ellipsis_def ellipsis_not_tok)

lemma mask_token_runs:
  assumes "list_all tok_char r" "\<And>k. runs_ok k s"
  shows "runs_ok 0 (mask_token r @ s)"
proof (cases "24 \<le> length r")
  case True
  let ?a = "take 4 r" and ?z = "drop (length r - 4) r"
  have a: "list_all tok_char ?a" "list_all tok_char ?z"
    using assms(1) by (auto simp only: list_all_iff dest: in_set_takeD in_set_dropD)
  have l: "length ?a = 4" "length ?z = 4" using True by auto
  have "runs_ok 0 (?z @ s)" using runs_ok_run [OF a(2), of 0 s] l assms(2) by simp
  then have "runs_ok 4 (ellipsis @ ''[REDACTED]'' @ ellipsis @ ?z @ s)"
    by (simp only: runs_ok_ellipsis runs_ok_redacted zero_less_numeral)
  then have "runs_ok 0 (?a @ ellipsis @ ''[REDACTED]'' @ ellipsis @ ?z @ s)"
    using runs_ok_run [OF a(1), of 0] l by (simp only:) simp
  then show ?thesis using True by (simp only: mask_token_def if_True append_assoc)
next
  case False
  then show ?thesis
    using runs_ok_redacted [of 0 s] assms(2) by (simp only: mask_token_def if_False zero_less_numeral)
qed

lemma mask_long_runs: "runs_ok 0 (mask_long s)"
proof (induction s rule: mask_long.induct)
  case (2 c cs)
  show ?case
  proof (cases "tok_char c")
    case True
    let ?r = "takeWhile tok_char (c # cs)" and ?d = "dropWhile tok_char (c # cs)"
    have IH: "runs_ok 0 (mask_long ?d)" using 2 True by simp
    have all: "list_all tok_char ?r" by (auto simp: list_all_iff dest: set_takeWhileD)
    have "mask_long ?d = [] \<or> \<not> tok_char (hd (mask_long ?d))"
    proof (cases ?d)
      case (Cons x xs)
      then have "\<not> tok_char x" by (metis hd_dropWhile list.distinct(1) list.sel(1))
      then show ?thesis unfolding Cons by simp
    qed simp
    then have reset: "runs_ok k (mask_long ?d)" for k using IH runs_ok_reset by blast
    have "runs_ok 0 (mask_token ?r @ mask_long ?d)" if "20 \<le> length ?r"
      using mask_token_runs [OF all] IH reset by blast
    moreover have "runs_ok 0 (?r @ mask_long ?d)" if "length ?r < 20"
      using that all reset by (simp only: runs_ok_run)
    ultimately show ?thesis using True by (simp add: Let_def not_le)
  qed (use 2 in simp)
qed simp

lemma last_not_tok: "m \<noteq> [] \<Longrightarrow> \<not> tok_char (last m) \<Longrightarrow> runs_ok k m \<Longrightarrow> runs_ok k (m @ s) = runs_ok 0 s"
proof (induction m arbitrary: k)
  case (Cons c m)
  then show ?case by (cases "m = []") (auto split: if_splits)
qed simp

lemma runs_ok_prefix: "runs_ok k (m @ s) \<Longrightarrow> runs_ok k m"
  by (induction m arbitrary: k) (auto split: if_splits)

lemma mask_after_runs:
  assumes "good_start start"
  shows "runs_ok k s \<Longrightarrow> k < 20 \<Longrightarrow> runs_ok k (mask_after start s)"
proof (induction s arbitrary: k rule: length_induct)
  case (1 s)
  show ?case
  proof (cases s)
    case (Cons c cs)
    have keep: "runs_ok k (c # mask_after start cs)"
      using 1 Cons by (auto split: if_splits)
    show ?thesis
    proof (cases "start s")
      case None
      then show ?thesis using keep Cons by simp
    next
      case (Some m)
      let ?r = "drop (length m - 1) cs"
      show ?thesis
      proof (cases "?r \<noteq> [] \<and> tok_char (hd ?r)")
        case True
        have m: "m \<noteq> []" "prefix m s" "\<not> tok_char (last m)"
          using assms Some by (auto simp: good_start_def)
        then have s: "s = m @ ?r" using Cons by (cases m) (auto elim: prefixE)
        have "runs_ok k (m @ ?r)" using 1(2) s by simp
        then have r: "runs_ok k m" "runs_ok 0 ?r"
          by (rule runs_ok_prefix, rule runs_ok_suffix)
        have "?r = takeWhile tok_char ?r @ dropWhile tok_char ?r" by simp
        then have "runs_ok 0 (dropWhile tok_char ?r)" using r(2) runs_ok_suffix by metis
        moreover have "length (dropWhile tok_char ?r) < length s"
          using length_dropWhile_le [of tok_char ?r] Cons by simp
        ultimately have "runs_ok 0 (mask_after start (dropWhile tok_char ?r))"
          using 1(1) by auto
        then have "runs_ok k (m @ ''[REDACTED]'' @ mask_after start (dropWhile tok_char ?r))"
          using last_not_tok [OF m(1,3) r(1)] runs_ok_redacted [of 0] by (simp only: zero_less_numeral)
        then show ?thesis using Some True Cons by (simp add: Let_def)
      next
        case False
        then have "mask_after start s = c # mask_after start cs" using Some Cons by (auto simp: Let_def)
        then show ?thesis using keep by simp
      qed
    qed
  qed simp
qed

lemma bearer_good: "good_start bearer_start"
proof -
  have "\<not> tok_char (last (''Bearer'' @ takeWhile re_space t))" if "takeWhile re_space t \<noteq> []" for t
  proof -
    have "re_space (last (takeWhile re_space t))" using that by (meson last_in_set set_takeWhileD)
    moreover have "\<not> tok_char (CHR 0x09)" "\<not> tok_char (CHR 0x0A)" "\<not> tok_char (CHR 0x0C)"
      "\<not> tok_char (CHR 0x0D)" "\<not> tok_char (CHR 0x20)" by code_simp+
    ultimately show ?thesis using that by (auto simp: re_space_def)
  qed
  moreover have "prefix (''Bearer'' @ takeWhile re_space (drop 6 s)) s" if "prefix ''Bearer'' s" for s
  proof -
    from that obtain zs where zs: "s = ''Bearer'' @ zs" by (auto simp: prefix_def)
    have "s = (''Bearer'' @ takeWhile re_space zs) @ dropWhile re_space zs" by (simp add: zs)
    moreover have "drop 6 s = zs" by (simp add: zs)
    ultimately show ?thesis by (metis prefixI)
  qed
  ultimately show ?thesis by (auto simp: good_start_def bearer_start_def Let_def split: if_splits)
qed

lemma key_good: "good_start key_start"
proof -
  have "\<not> tok_char (CHR ''='')" by code_simp
  then have "\<forall>k\<in>set key_names. k \<noteq> [] \<and> \<not> tok_char (last k)" by (simp add: key_names_def)
  then show ?thesis
    by (auto simp: good_start_def key_start_def find_Some_iff split: list.splits if_splits)
qed

lemma mask_all_runs: "runs_ok 0 (mask_all s)"
  unfolding mask_all_def
  by (intro mask_after_runs key_good bearer_good mask_long_runs) simp_all

section \<open>Properties\<close>

text \<open>
  C28. No secret survives masking: whatever the message, the masked text has no 20 consecutive
  characters of the token alphabet (letters, digits, \<^verbatim>\<open>_\<close>, \<^verbatim>\<open>-\<close>, \<^verbatim>\<open>.\<close>), the redacted message
  is the masked text or its first 157 bytes with dots, and is at most 160 bytes long.
\<close>
theorem redactString_masks:
  "\<not> (\<exists>xs zs ys. mask_all s = xs @ zs @ ys \<and> list_all tok_char zs \<and> 20 \<le> length zs)
   \<and> length (redactString s) \<le> 160
   \<and> (redactString s = mask_all s \<or> redactString s = take 157 (mask_all s) @ ''...'')"
proof -
  have "length zs < 20" if "mask_all s = xs @ zs @ ys" "list_all tok_char zs" for xs zs ys
    using runs_ok_sub [of 0 xs zs ys] mask_all_runs [of s] that by simp
  then show ?thesis
    by (auto simp: redactString_def Let_def mask_all_def not_le)
qed

end
