(* ===== verification/Events.thy ===== *)
theory Events
  imports Redact
begin

text \<open>
  Lifecycle events, progress and stream chunks, and the values a \<^verbatim>\<open>context.Context\<close> carries
  (\<^verbatim>\<open>event.go\<close>, \<^verbatim>\<open>progress.go\<close>, the context keys of \<^verbatim>\<open>stream.go\<close>, \<^verbatim>\<open>task.go\<close>,
  \<^verbatim>\<open>delegation.go\<close> and \<^verbatim>\<open>trace.go\<close>). Everything outside the program (models, tools, stores,
  callbacks, the clock, the disk) is a state \<open>'w\<close> that external functions read and change; a
  callback is a function on it, its recovered panics included. Wall-clock fields (\<^verbatim>\<open>Time\<close>,
  \<^verbatim>\<open>DurationMs\<close>, \<^verbatim>\<open>Duration\<close>) are left out of the records.
\<close>

section \<open>Records\<close>

record crewEvent =
  ev_Type :: string
  ev_KickoffID :: string
  ev_Stage :: string
  ev_Task :: string
  ev_Agent :: string
  ev_Iteration :: nat
  ev_Phase :: string
  ev_Tool :: string
  ev_Err :: string
  ev_Attrs :: "(string \<times> string) list"

definition EventKickoffStarted :: string where "EventKickoffStarted = ''kickoff_started''"
definition EventKickoffCompleted :: string where "EventKickoffCompleted = ''kickoff_completed''"
definition EventWaveStarted :: string where "EventWaveStarted = ''wave_started''"
definition EventWaveCompleted :: string where "EventWaveCompleted = ''wave_completed''"
definition EventLLMCallStarted :: string where "EventLLMCallStarted = ''llm_call_started''"
definition EventLLMCallCompleted :: string where "EventLLMCallCompleted = ''llm_call_completed''"
definition EventReactIteration :: string where "EventReactIteration = ''react_iteration''"
definition EventStructuredRepair :: string where "EventStructuredRepair = ''structured_repair''"
definition EventLoopPhase :: string where "EventLoopPhase = ''loop_phase''"
definition EventGuardrailBlocked :: string where "EventGuardrailBlocked = ''guardrail_blocked''"
definition EventFlowStarted :: string where "EventFlowStarted = ''flow_started''"
definition EventFlowCompleted :: string where "EventFlowCompleted = ''flow_completed''"
definition EventFlowStepStarted :: string where "EventFlowStepStarted = ''flow_step_started''"
definition EventFlowStepCompleted :: string where "EventFlowStepCompleted = ''flow_step_completed''"

text \<open>The literal \<^verbatim>\<open>CrewEvent{Type: ty}\<close>.\<close>

definition event :: "string \<Rightarrow> crewEvent" where
  "event ty = \<lparr>ev_Type = ty, ev_KickoffID = [], ev_Stage = [], ev_Task = [], ev_Agent = [],
     ev_Iteration = 0, ev_Phase = [], ev_Tool = [], ev_Err = [], ev_Attrs = []\<rparr>"

record progress =
  pg_Stage :: string
  pg_Task :: string
  pg_Agent :: string
  pg_Event :: string
  pg_Tool :: string
  pg_Err :: "err option"

definition progress_of :: "string \<Rightarrow> progress" where
  "progress_of ev = \<lparr>pg_Stage = [], pg_Task = [], pg_Agent = [], pg_Event = ev, pg_Tool = [], pg_Err = None\<rparr>"

record streamChunk =
  sk_Delta :: string
  sk_Task :: string
  sk_Agent :: string
  sk_Done :: bool
  sk_Err :: "err option"

section \<open>Contexts\<close>

text \<open>
  \<open>cx_err\<close> is \<^verbatim>\<open>ctx.Err()\<close>: whether the context is cancelled is a matter of the outside state.
  \<open>cx_sink\<close> is the task attached as \<^verbatim>\<open>WarningSink\<close>. An absent key has the zero value.
\<close>

record 'w ctx =
  cx_err :: "'w \<Rightarrow> err option"
  cx_role :: string
  cx_delDepth :: nat
  cx_delStack :: "string list"
  cx_sink :: "tid option"
  cx_stream :: "(streamChunk \<Rightarrow> 'w \<Rightarrow> 'w) option"
  cx_events :: "(crewEvent \<Rightarrow> 'w \<Rightarrow> 'w) option"
  cx_progress :: "(progress \<Rightarrow> 'w \<Rightarrow> 'w) option"
  cx_kickoffID :: string
  cx_wave :: string

definition background :: "'w ctx" where
  "background = \<lparr>cx_err = (\<lambda>_. None), cx_role = [], cx_delDepth = 0, cx_delStack = [], cx_sink = None,
     cx_stream = None, cx_events = None, cx_progress = None, cx_kickoffID = [], cx_wave = []\<rparr>"

definition ContextWithEvents :: "'w ctx \<Rightarrow> (crewEvent \<Rightarrow> 'w \<Rightarrow> 'w) option \<Rightarrow> 'w ctx" where
  "ContextWithEvents ctx fn = (case fn of None \<Rightarrow> ctx | Some _ \<Rightarrow> ctx\<lparr>cx_events := fn\<rparr>)"

definition ContextWithKickoffID :: "'w ctx \<Rightarrow> string \<Rightarrow> 'w ctx" where
  "ContextWithKickoffID ctx i = (if i = [] then ctx else ctx\<lparr>cx_kickoffID := i\<rparr>)"

definition ContextWithProgress :: "'w ctx \<Rightarrow> (progress \<Rightarrow> 'w \<Rightarrow> 'w) option \<Rightarrow> 'w ctx" where
  "ContextWithProgress ctx fn = (case fn of None \<Rightarrow> ctx | Some _ \<Rightarrow> ctx\<lparr>cx_progress := fn\<rparr>)"

definition ContextWithStream :: "'w ctx \<Rightarrow> (streamChunk \<Rightarrow> 'w \<Rightarrow> 'w) option \<Rightarrow> 'w ctx" where
  "ContextWithStream ctx fn = (case fn of None \<Rightarrow> ctx | Some _ \<Rightarrow> ctx\<lparr>cx_stream := fn\<rparr>)"

definition ContextWithAgentRole :: "'w ctx \<Rightarrow> string \<Rightarrow> 'w ctx" where
  "ContextWithAgentRole ctx role = (if role = [] then ctx else ctx\<lparr>cx_role := role\<rparr>)"

definition contextWithTraceWave :: "'w ctx \<Rightarrow> string \<Rightarrow> 'w ctx" where
  "contextWithTraceWave ctx wave = (if wave = [] then ctx else ctx\<lparr>cx_wave := wave\<rparr>)"

definition ContextWithWarningSink :: "'w ctx \<Rightarrow> tid \<Rightarrow> 'w ctx" where
  "ContextWithWarningSink ctx t = ctx\<lparr>cx_sink := Some t\<rparr>"

section \<open>Emission\<close>

definition emitEvent :: "'w ctx \<Rightarrow> crewEvent \<Rightarrow> 'w \<Rightarrow> 'w" where
  "emitEvent ctx ev w =
     (case cx_events ctx of
        None \<Rightarrow> w
      | Some fn \<Rightarrow> fn (if ev_KickoffID ev = [] then ev\<lparr>ev_KickoffID := cx_kickoffID ctx\<rparr> else ev) w)"

definition emitEventErr :: "'w ctx \<Rightarrow> crewEvent \<Rightarrow> err option \<Rightarrow> 'w \<Rightarrow> 'w" where
  "emitEventErr ctx ev er w =
     emitEvent ctx (case er of None \<Rightarrow> ev | Some e \<Rightarrow> ev\<lparr>ev_Err := error_text (redactError e)\<rparr>) w"

definition progressToEvent :: "progress \<Rightarrow> crewEvent" where
  "progressToEvent p =
     (event (pg_Event p))
       \<lparr>ev_Stage := pg_Stage p, ev_Task := pg_Task p, ev_Agent := pg_Agent p, ev_Tool := pg_Tool p,
        ev_Err := (case pg_Err p of None \<Rightarrow> [] | Some e \<Rightarrow> error_text e)\<rparr>"

definition emitProgress :: "'w ctx \<Rightarrow> progress \<Rightarrow> 'w \<Rightarrow> 'w" where
  "emitProgress ctx p w =
     (let w = (case cx_progress ctx of None \<Rightarrow> w | Some fn \<Rightarrow> fn p w) in
      if cx_events ctx \<noteq> None then emitEvent ctx (progressToEvent p) w else w)"

definition ProgressAsEvents :: "(crewEvent \<Rightarrow> 'w \<Rightarrow> 'w) option \<Rightarrow> (progress \<Rightarrow> 'w \<Rightarrow> 'w) option" where
  "ProgressAsEvents fn = map_option (\<lambda>f p. f (progressToEvent p)) fn"

text \<open>\<open>silent\<close> contexts have no callback, so emitting leaves the outside state alone.\<close>

definition silent :: "'w ctx \<Rightarrow> bool" where
  "silent ctx \<longleftrightarrow> cx_events ctx = None \<and> cx_progress ctx = None \<and> cx_stream ctx = None"

lemma silent_emit [frame_simps]:
  "silent ctx \<Longrightarrow> emitEvent ctx ev w = w" "silent ctx \<Longrightarrow> emitEventErr ctx ev er w = w"
  "silent ctx \<Longrightarrow> emitProgress ctx p w = w"
  by (simp_all add: silent_def emitEvent_def emitEventErr_def emitProgress_def Let_def)

text \<open>What an error leaves in an event is never longer than the redaction cap.\<close>

lemma redactError_length: "length (error_text (redactError e)) \<le> 160"
  by (simp add: redactError_def Let_def redactString_def)

end
