(* ===== verification/Schedule.thy ===== *)
theory Schedule
  imports GoStrings
begin

text \<open>
  The wave scheduler of \<^verbatim>\<open>schedule.go\<close>: \<^verbatim>\<open>planWaves\<close> turns the dependency graph given by
  \<^verbatim>\<open>Task.Context\<close> into waves with Kahn's algorithm, and \<^verbatim>\<open>asyncWaves\<close> keeps the Async tasks of each
  wave. Tasks are addresses; the argument \<open>ctx\<close> gives the \<^verbatim>\<open>Context\<close> of a task. The theory proves
  that an accepted plan is a partition of the tasks in which every dependency lies in a strictly
  earlier wave and every task in the earliest such wave, and that a plan is refused exactly for a
  duplicate or a cycle. The counterpart in the comments, that a wave is in ascending order, fails.
\<close>

section \<open>The planner\<close>

record asyncPlan =
  waves :: "nat list list"

definition err_duplicate :: "nat \<Rightarrow> err" where
  "err_duplicate i = Wrap [] (Sentinel ErrTaskDependencyCycle) ('': task '' @ itoa (i + 1) @ '' appears twice'')"

definition err_self_dep :: "nat \<Rightarrow> err" where
  "err_self_dep i = Wrap [] (Sentinel ErrTaskDependencyCycle) ('': task '' @ itoa (i + 1) @ '' depends on itself'')"

definition err_cycle :: "nat \<Rightarrow> err" where
  "err_cycle i = Wrap [] (Sentinel ErrTaskDependencyCycle)
     ('': task '' @ itoa (i + 1) @ '' is part of a dependency cycle'')"

fun build_index :: "nat \<Rightarrow> tid list \<Rightarrow> (tid \<rightharpoonup> nat) \<Rightarrow> err + (tid \<rightharpoonup> nat)" where
  "build_index i [] m = Inr m"
| "build_index i (t # ts) m =
     (if m t \<noteq> None then Inl (err_duplicate i) else build_index (Suc i) ts (m(t \<mapsto> i)))"

type_synonym graph = "int list \<times> nat list list"

text \<open>The inner loop of the edge scan: the dependencies \<open>ds\<close> of task number \<open>i\<close>.\<close>

fun add_deps :: "(tid \<rightharpoonup> nat) \<Rightarrow> nat \<Rightarrow> tid list \<Rightarrow> graph \<Rightarrow> err + graph" where
  "add_deps index i [] g = Inr g"
| "add_deps index i (d # ds) (indegree, adjacent) =
     (case index d of
        None \<Rightarrow> add_deps index i ds (indegree, adjacent)
      | Some j \<Rightarrow>
          if j = i then Inl (err_self_dep i)
          else add_deps index i ds
                 (indegree[i := indegree ! i + 1], adjacent[j := adjacent ! j @ [i]]))"

fun add_edges :: "(tid \<Rightarrow> tid list) \<Rightarrow> (tid \<rightharpoonup> nat) \<Rightarrow> nat \<Rightarrow> tid list \<Rightarrow> graph \<Rightarrow> err + graph" where
  "add_edges ctx index i [] g = Inr g"
| "add_edges ctx index i (t # ts) g =
     (case add_deps index i (ctx t) g of
        Inl e \<Rightarrow> Inl e
      | Inr g' \<Rightarrow> add_edges ctx index (Suc i) ts g')"

text \<open>
  One pass over the dependents of a finished task. The bound test stands for Go's index check;
  every entry of \<open>adjacent\<close> is the number of a task, so it never fails.
\<close>

fun release :: "nat list \<Rightarrow> int list \<times> nat list \<Rightarrow> int list \<times> nat list" where
  "release [] st = st"
| "release (j # js) (indegree, next_ready) =
     (if j < length indegree
      then let indegree' = indegree[j := indegree ! j - 1]
           in release js (indegree', if indegree' ! j = 0 then next_ready @ [j] else next_ready)
      else release js (indegree, next_ready))"

fun release_wave :: "nat list list \<Rightarrow> nat list \<Rightarrow> int list \<times> nat list \<Rightarrow> int list \<times> nat list" where
  "release_wave adjacent [] st = st"
| "release_wave adjacent (i # is) st = release_wave adjacent is (release (adjacent ! i) st)"

definition positives :: "int list \<Rightarrow> nat" where
  "positives xs = length (filter (\<lambda>x. 0 < x) xs)"

lemma positives_update:
  "j < length xs \<Longrightarrow>
   positives (xs[j := v]) + (if 0 < xs ! j then 1 else 0) = positives xs + (if 0 < v then 1 else 0)"
proof (induction xs arbitrary: j)
  case (Cons x xs)
  show ?case
  proof (cases j)
    case (Suc k)
    then show ?thesis using Cons.IH [of k] Cons.prems by (auto simp: positives_def)
  qed (auto simp: positives_def)
qed simp

lemma release_positives:
  "positives (fst (release js (d, nx))) + length (snd (release js (d, nx))) \<le> positives d + length nx"
proof (induction js "(d, nx)" arbitrary: d nx rule: release.induct)
  case (2 j js d nx)
  let ?d = "d[j := d ! j - 1]"
  show ?case
  proof (cases "j < length d")
    case True
    let ?nx = "if ?d ! j = 0 then nx @ [j] else nx"
    have "positives ?d + length ?nx \<le> positives d + length nx"
      using positives_update [OF True, of "d ! j - 1"] True
      by (cases "d ! j = 1") (auto split: if_splits)
    then show ?thesis using 2(1) [OF True refl] True by (simp add: Let_def)
  next
    case False
    then show ?thesis using 2(2) by simp
  qed
qed simp

lemma release_wave_concat:
  "release_wave adj is st = release (concat (map ((!) adj) is)) st"
proof -
  have app: "release (xs @ ys) st = release ys (release xs st)" for xs ys st
    by (induction xs st rule: release.induct) (auto simp: Let_def)
  show ?thesis by (induction "is" arbitrary: st) (auto simp: app)
qed

function kahn :: "nat list list \<Rightarrow> int \<Rightarrow> nat list \<Rightarrow> int list \<Rightarrow> int list \<Rightarrow> nat list list
    \<Rightarrow> int list \<times> nat list list" where
  "kahn adjacent w ready indegree waveOf plan =
     (if ready = [] then (waveOf, plan)
      else let waveOf' = fold (\<lambda>i wo. wo[i := w]) ready waveOf;
               r = release_wave adjacent ready (indegree, [])
           in kahn adjacent (w + 1) (snd r) (fst r) waveOf' (plan @ [ready]))"
  by pat_completeness auto
termination
proof (relation "measure (\<lambda>(adj, w, ready, d, wo, plan). positives d + (if ready = [] then 0 else 1))",
    goal_cases)
  case (2 adj w ready d wo plan wo' r)
  have "positives (fst r) + length (snd r) \<le> positives d"
    using release_positives [of _ d "[]"] 2 by (simp add: release_wave_concat)
  then show ?case using 2(1) by (cases "snd r") auto
qed simp

declare kahn.simps [simp del]

text \<open>The first task that no wave reached, as the last loop looks for it.\<close>

fun unscheduled :: "nat \<Rightarrow> int list \<Rightarrow> nat option" where
  "unscheduled i [] = None"
| "unscheduled i (w # ws) = (if w = -1 then Some i else unscheduled (Suc i) ws)"

definition planWaves :: "(tid \<Rightarrow> tid list) \<Rightarrow> tid list \<Rightarrow> err + asyncPlan" where
  "planWaves ctx tasks =
     (let n = length tasks in
      if n = 0 then Inr \<lparr>waves = []\<rparr>
      else case build_index 0 tasks Map.empty of
             Inl e \<Rightarrow> Inl e
           | Inr index \<Rightarrow>
               (case add_edges ctx index 0 tasks (replicate n 0, replicate n []) of
                  Inl e \<Rightarrow> Inl e
                | Inr (indegree, adjacent) \<Rightarrow>
                    (let ready = filter (\<lambda>i. indegree ! i = 0) [0..<n];
                         r = kahn adjacent 0 ready indegree (replicate n (-1)) []
                     in case unscheduled 0 (fst r) of
                          Some i \<Rightarrow> Inl (err_cycle i)
                        | None \<Rightarrow> Inr \<lparr>waves = snd r\<rparr>)))"

definition asyncWaves :: "(tid \<Rightarrow> bool) \<Rightarrow> asyncPlan \<Rightarrow> tid list \<Rightarrow> nat list list" where
  "asyncWaves async plan tasks =
     map (\<lambda>wave. filter (\<lambda>i. async (tasks ! i)) wave) (waves plan)"

section \<open>The index and the edges\<close>

text \<open>The numbers of the dependencies that belong to the crew, with multiplicity.\<close>

fun resolved :: "(tid \<rightharpoonup> nat) \<Rightarrow> tid list \<Rightarrow> nat list" where
  "resolved index [] = []"
| "resolved index (d # ds) =
     (case index d of None \<Rightarrow> resolved index ds | Some j \<Rightarrow> j # resolved index ds)"

lemma set_resolved: "set (resolved index ds) = {j. \<exists>d\<in>set ds. index d = Some j}"
  by (induction ds) (auto split: option.splits)

lemma build_index_Inr:
  "build_index i ts m = Inr m' \<Longrightarrow>
   distinct ts \<and> set ts \<inter> dom m = {} \<and> (\<forall>k<length ts. m' (ts ! k) = Some (i + k)) \<and>
   (\<forall>t. t \<notin> set ts \<longrightarrow> m' t = m t)"
proof (induction ts arbitrary: i m)
  case (Cons t ts)
  then have free: "m t = None" and "build_index (Suc i) ts (m(t \<mapsto> i)) = Inr m'"
    by (auto split: if_splits)
  from Cons.IH [OF this(2)] free show ?case
    by (auto simp: nth_Cons split: nat.splits if_splits)
qed simp

lemma build_index_total:
  "distinct ts \<Longrightarrow> set ts \<inter> dom m = {} \<Longrightarrow> \<exists>m'. build_index i ts m = Inr m'"
  by (induction ts arbitrary: i m) (auto simp: domIff)

lemma build_index_Inl: "build_index i ts m = Inl e \<Longrightarrow> errors_is e ErrTaskDependencyCycle"
  by (induction ts arbitrary: i m) (auto simp: err_duplicate_def split: if_splits)

lemma build_index_start:
  assumes "build_index 0 ts Map.empty = Inr m"
  shows "distinct ts" "m t = Some k \<longleftrightarrow> k < length ts \<and> ts ! k = t"
  using build_index_Inr [OF assms] nth_eq_iff_index_eq [of ts]
  by (auto simp: in_set_conv_nth) (metis in_set_conv_nth option.inject option.distinct(1))+

lemma add_deps_Inr:
  assumes "add_deps index i ds (d, a) = Inr (d', a')"
    and "set (resolved index ds) \<subseteq> {..<length a}" and "i < length d"
  shows "i \<notin> set (resolved index ds)" "d' = d[i := d ! i + int (length (resolved index ds))]"
    "length a' = length a"
    "\<And>j k. j < length a \<Longrightarrow>
       count_list (a' ! j) k = count_list (a ! j) k + (if k = i then count_list (resolved index ds) j else 0)"
proof -
  have "i \<notin> set (resolved index ds) \<and> d' = d[i := d ! i + int (length (resolved index ds))] \<and>
    length a' = length a \<and> (\<forall>j<length a. \<forall>k.
       count_list (a' ! j) k = count_list (a ! j) k + (if k = i then count_list (resolved index ds) j else 0))"
    using assms
  proof (induction ds arbitrary: d a)
    case (Cons x ds)
    show ?case
    proof (cases "index x")
      case None
      then show ?thesis using Cons by simp
    next
      case (Some j)
      then have "j \<noteq> i" and
        step: "add_deps index i ds (d[i := d ! i + 1], a[j := a ! j @ [i]]) = Inr (d', a')"
        using Cons.prems(1) by (auto split: if_splits)
      with Cons.IH [OF step] Cons.prems Some show ?thesis
        by (auto simp: nth_list_update count_list_append add.assoc)
    qed
  qed simp
  then show "i \<notin> set (resolved index ds)" "d' = d[i := d ! i + int (length (resolved index ds))]"
    "length a' = length a"
    "\<And>j k. j < length a \<Longrightarrow>
       count_list (a' ! j) k = count_list (a ! j) k + (if k = i then count_list (resolved index ds) j else 0)"
    by blast+
qed

lemma add_deps_Inl:
  "add_deps index i ds g = Inl e \<Longrightarrow> i \<in> set (resolved index ds) \<and> errors_is e ErrTaskDependencyCycle"
proof (induction ds arbitrary: g)
  case (Cons x ds)
  then show ?case by (cases g) (auto simp: err_self_dep_def split: option.splits if_splits)
qed simp

definition block :: "nat \<Rightarrow> tid list \<Rightarrow> (tid \<Rightarrow> nat list) \<Rightarrow> nat \<Rightarrow> nat list" where
  "block i ts f k = (if i \<le> k \<and> k < i + length ts then f (ts ! (k - i)) else [])"

lemma block_Cons: "block i (t # ts) f k = (if k = i then f t else block (Suc i) ts f k)"
  by (auto simp: block_def nth_Cons' intro!: arg_cong [where f = "\<lambda>n. f (ts ! n)"])

lemma block_before [simp]: "block (Suc i) ts f i = []"
  by (simp add: block_def)

lemma add_edges_Inr:
  assumes "add_edges ctx index i ts (d, a) = Inr (d', a')"
    and "i + length ts = length d" and "length a = length d"
    and "\<And>x j. index x = Some j \<Longrightarrow> j < length a"
  shows "length d' = length d \<and> length a' = length a \<and>
    (\<forall>k<length d. d' ! k = d ! k + int (length (block i ts (\<lambda>t. resolved index (ctx t)) k))) \<and>
    (\<forall>j<length a. \<forall>k. count_list (a' ! j) k =
        count_list (a ! j) k + count_list (block i ts (\<lambda>t. resolved index (ctx t)) k) j) \<and>
    (\<forall>k. k \<notin> set (block i ts (\<lambda>t. resolved index (ctx t)) k))"
  using assms
proof (induction ts arbitrary: i d a)
  case Nil
  then show ?case by (simp add: block_def)
next
  case (Cons t ts)
  obtain d1 a1 where one: "add_deps index i (ctx t) (d, a) = Inr (d1, a1)"
    and rest: "add_edges ctx index (Suc i) ts (d1, a1) = Inr (d', a')"
    using Cons.prems(1) by (auto split: sum.splits)
  have "set (resolved index (ctx t)) \<subseteq> {..<length a}" "i < length d"
    using Cons.prems(2-) by (auto simp: set_resolved)
  note st = add_deps_Inr [OF one this]
  have len: "Suc i + length ts = length d1" "length a1 = length d1"
    "\<And>x j. index x = Some j \<Longrightarrow> j < length a1"
    using Cons.prems(2-) st(2,3) by auto
  from Cons.IH [OF rest len] st \<open>i < length d\<close> Cons.prems(3) show ?case
    by (simp add: block_Cons nth_list_update)
qed

lemma add_edges_Inl:
  "add_edges ctx index i ts g = Inl e \<Longrightarrow>
   errors_is e ErrTaskDependencyCycle \<and> (\<exists>k<length ts. i + k \<in> set (resolved index (ctx (ts ! k))))"
proof (induction ts arbitrary: i g)
  case (Cons t ts)
  show ?case
  proof (cases "add_deps index i (ctx t) g")
    case (Inl e')
    then show ?thesis using Cons.prems add_deps_Inl [OF Inl] by auto
  next
    case (Inr g')
    with Cons.prems have "add_edges ctx index (Suc i) ts g' = Inl e" by simp
    from Cons.IH [OF this] obtain k where "errors_is e ErrTaskDependencyCycle" "k < length ts"
      "Suc i + k \<in> set (resolved index (ctx (ts ! k)))"
      by auto
    then show ?thesis by (intro conjI exI [of _ "Suc k"]) auto
  qed
qed simp

section \<open>Kahn's algorithm\<close>

lemma release_spec:
  assumes "set js \<subseteq> {..<length d}"
  shows "length (fst (release js (d, nx))) = length d"
    and "k < length d \<Longrightarrow> fst (release js (d, nx)) ! k = d ! k - int (count_list js k)"
    and "\<exists>L. snd (release js (d, nx)) = nx @ L \<and> distinct L \<and>
           set L = {k \<in> set js. 0 < d ! k \<and> d ! k \<le> int (count_list js k)}"
proof -
  have "length (fst (release js (d, nx))) = length d \<and>
    (\<forall>k<length d. fst (release js (d, nx)) ! k = d ! k - int (count_list js k)) \<and>
    (\<exists>L. snd (release js (d, nx)) = nx @ L \<and> distinct L \<and>
       set L = {k \<in> set js. 0 < d ! k \<and> d ! k \<le> int (count_list js k)})"
    using assms
  proof (induction js arbitrary: d nx)
    case (Cons j js)
    let ?d = "d[j := d ! j - 1]"
    let ?nx = "if ?d ! j = 0 then nx @ [j] else nx"
    have j: "j < length d" and sub: "set js \<subseteq> {..<length ?d}" using Cons.prems by auto
    from Cons.IH [OF sub, of ?nx] obtain L where
      len: "length (fst (release js (?d, ?nx))) = length d" and
      nth: "\<forall>k<length d. fst (release js (?d, ?nx)) ! k = ?d ! k - int (count_list js k)" and
      L: "snd (release js (?d, ?nx)) = ?nx @ L" "distinct L"
        "set L = {k \<in> set js. 0 < ?d ! k \<and> ?d ! k \<le> int (count_list js k)}"
      by auto
    let ?L = "if d ! j = 1 then j # L else L"
    have jn: "?d ! j = d ! j - 1" using j by simp
    have cj: "j \<in> set js" if "0 < d ! j - 1" "d ! j - 1 \<le> int (count_list js j)"
    proof -
      have "count_list js j \<noteq> 0" using that by linarith
      then show ?thesis by (simp add: count_list_0_iff)
    qed
    have "set ?L = {k \<in> set (j # js). 0 < d ! k \<and> d ! k \<le> int (count_list (j # js) k)}"
    proof (rule set_eqI)
      fix k
      show "k \<in> set ?L \<longleftrightarrow> k \<in> {k \<in> set (j # js). 0 < d ! k \<and> d ! k \<le> int (count_list (j # js) k)}"
        using L(3) jn cj by (cases "k = j") auto
    qed
    moreover have "distinct ?L" using L(2,3) jn by auto
    moreover have "snd (release (j # js) (d, nx)) = nx @ ?L" using L(1) j jn by (simp add: Let_def)
    moreover have "length (fst (release (j # js) (d, nx))) = length d"
      using len j by (simp add: Let_def)
    moreover have "\<forall>k<length d. fst (release (j # js) (d, nx)) ! k = d ! k - int (count_list (j # js) k)"
      using nth j by (auto simp: Let_def nth_list_update)
    ultimately show ?case by (intro conjI exI [of _ ?L])
  qed simp
  then show "length (fst (release js (d, nx))) = length d"
    and "k < length d \<Longrightarrow> fst (release js (d, nx)) ! k = d ! k - int (count_list js k)"
    and "\<exists>L. snd (release js (d, nx)) = nx @ L \<and> distinct L \<and>
           set L = {k \<in> set js. 0 < d ! k \<and> d ! k \<le> int (count_list js k)}"
    by blast+
qed

lemma count_list_concat: "count_list (concat xss) k = (\<Sum>xs\<leftarrow>xss. count_list xs k)"
  by (induction xss) (auto simp: count_list_append)

lemma sum_count_list:
  "distinct xs \<Longrightarrow> (\<Sum>i\<leftarrow>xs. count_list ys i) = length (filter (\<lambda>j. j \<in> set xs) ys)"
proof (induction ys)
  case (Cons y ys)
  have "(\<Sum>i\<leftarrow>xs. count_list (y # ys) i) =
      (\<Sum>i\<leftarrow>xs. count_list ys i) + (\<Sum>i\<leftarrow>xs. if i = y then 1 else 0)"
    by (simp add: sum_list_addf [symmetric]) (metis (mono_tags, lifting) add.right_neutral)
  moreover have "(\<Sum>i\<leftarrow>xs. if i = y then 1 else 0) = (if y \<in> set xs then 1 else 0::nat)"
    using Cons.prems by (induction xs) auto
  ultimately show ?case using Cons by simp
qed simp

lemma filter_split_length:
  "(\<And>x. x \<in> set xs \<Longrightarrow> P x \<longleftrightarrow> Q x \<or> R x) \<Longrightarrow> (\<And>x. x \<in> set xs \<Longrightarrow> \<not> (Q x \<and> R x)) \<Longrightarrow>
   length (filter P xs) = length (filter Q xs) + length (filter R xs)"
  by (induction xs) auto

text \<open>
  The graph as the loops build it: \<open>R k\<close> lists the dependencies of task \<open>k\<close>, and \<open>adj\<close> inverts
  it with multiplicity.
\<close>

definition wave_graph :: "nat \<Rightarrow> (nat \<Rightarrow> nat list) \<Rightarrow> nat list list \<Rightarrow> bool" where
  "wave_graph n R adj \<longleftrightarrow> length adj = n \<and> (\<forall>k<n. set (R k) \<subseteq> {..<n}) \<and>
     (\<forall>j<n. set (adj ! j) \<subseteq> {..<n}) \<and> (\<forall>j<n. \<forall>k<n. count_list (adj ! j) k = count_list (R k) j)"

definition kahn_inv :: "nat \<Rightarrow> (nat \<Rightarrow> nat list) \<Rightarrow> nat list \<Rightarrow> int list \<Rightarrow> nat set \<Rightarrow> bool" where
  "kahn_inv n R ready d P \<longleftrightarrow> length d = n \<and> distinct ready \<and> P \<subseteq> {..<n} \<and>
     set ready = {k. k < n \<and> k \<notin> P \<and> set (R k) \<subseteq> P} \<and>
     (\<forall>k<n. d ! k = int (length (filter (\<lambda>j. j \<notin> P) (R k)))) \<and> (\<forall>k\<in>P. set (R k) \<subseteq> P)"

lemma kahn_inv_step:
  assumes g: "wave_graph n R adj" and inv: "kahn_inv n R ready d P"
  defines "r \<equiv> release_wave adj ready (d, [])"
  shows "kahn_inv n R (snd r) (fst r) (P \<union> set ready)"
    and "\<And>k. k \<in> set (snd r) \<Longrightarrow> set (R k) \<inter> set ready \<noteq> {}"
proof -
  let ?js = "concat (map ((!) adj) ready)" and ?P' = "P \<union> set ready"
  from inv have len: "length d = n" and rd: "distinct ready" "P \<subseteq> {..<n}"
    and ready: "set ready = {k. k < n \<and> k \<notin> P \<and> set (R k) \<subseteq> P}"
    and dk: "\<And>k. k < n \<Longrightarrow> d ! k = int (length (filter (\<lambda>j. j \<notin> P) (R k)))"
    and P: "\<And>k. k \<in> P \<Longrightarrow> set (R k) \<subseteq> P"
    unfolding kahn_inv_def by auto
  have sub: "set ?js \<subseteq> {..<length d}"
    using g len ready unfolding wave_graph_def by fastforce
  have count: "count_list ?js k = length (filter (\<lambda>j. j \<in> set ready) (R k))" if "k < n" for k
  proof -
    have "count_list ?js k = (\<Sum>i\<leftarrow>ready. count_list (adj ! i) k)"
      by (simp add: count_list_concat o_def)
    also have "\<dots> = (\<Sum>i\<leftarrow>ready. count_list (R k) i)"
      using g that ready unfolding wave_graph_def by (intro arg_cong [where f = sum_list] map_cong) auto
    finally show ?thesis using sum_count_list [OF rd(1)] by simp
  qed
  obtain L where L: "snd r = L" "distinct L"
    "set L = {k \<in> set ?js. 0 < d ! k \<and> d ! k \<le> int (count_list ?js k)}"
    using release_spec(3) [OF sub, of "[]"] by (auto simp: r_def release_wave_concat)
  have nth: "fst r ! k = d ! k - int (count_list ?js k)" if "k < n" for k
    using release_spec(2) [OF sub] that len by (simp add: r_def release_wave_concat)
  have d'k: "fst r ! k = int (length (filter (\<lambda>j. j \<notin> ?P') (R k)))" if "k < n" for k
  proof -
    have "length (filter (\<lambda>j. j \<notin> P) (R k)) =
        length (filter (\<lambda>j. j \<notin> ?P') (R k)) + length (filter (\<lambda>j. j \<in> set ready) (R k))"
      using ready by (intro filter_split_length) auto
    then show ?thesis using nth [OF that] dk [OF that] count [OF that] by simp
  qed
  have zero: "fst r ! k = 0 \<longleftrightarrow> set (R k) \<subseteq> ?P'" if "k < n" for k
    using d'k [OF that] by (auto simp: filter_empty_conv)
  have pos: "0 < d ! k \<longleftrightarrow> \<not> set (R k) \<subseteq> P" if "k < n" for k
    using dk [OF that] by (auto simp: filter_empty_conv)
  have mem: "k \<in> set ?js" if "k < n" "0 < d ! k" "d ! k \<le> int (count_list ?js k)" for k
  proof -
    have "count_list ?js k \<noteq> 0" using that by linarith
    then show ?thesis by (simp only: count_list_0_iff not_not)
  qed
  have "set L = {k. k < n \<and> k \<notin> ?P' \<and> set (R k) \<subseteq> ?P'}"
  proof (rule set_eqI, rule iffI)
    fix k
    assume "k \<in> set L"
    with L(3) sub len have k: "k < n" "0 < d ! k" "d ! k \<le> int (count_list ?js k)" by auto
    have "fst r ! k = 0" using nth [OF k(1)] d'k [OF k(1)] k(3) by linarith
    then have "set (R k) \<subseteq> ?P'" using zero k(1) by blast
    moreover have "k \<notin> P" "k \<notin> set ready" using pos [OF k(1)] k(2) P ready by blast+
    ultimately show "k \<in> {k. k < n \<and> k \<notin> ?P' \<and> set (R k) \<subseteq> ?P'}" using k(1) by blast
  next
    fix k
    assume "k \<in> {k. k < n \<and> k \<notin> ?P' \<and> set (R k) \<subseteq> ?P'}"
    then have k: "k < n" "k \<notin> P" "k \<notin> set ready" "fst r ! k = 0" using zero by auto
    then have "0 < d ! k" using pos ready by blast
    moreover have "d ! k \<le> int (count_list ?js k)" using nth [OF k(1)] k(4) by linarith
    ultimately show "k \<in> set L" using L(3) mem k(1) by blast
  qed
  moreover have "length (fst r) = n"
    using release_spec(1) [OF sub] len by (simp add: r_def release_wave_concat)
  moreover have "?P' \<subseteq> {..<n}" using rd(2) ready by auto
  moreover have "\<forall>k\<in>?P'. set (R k) \<subseteq> ?P'" using P ready by blast
  moreover have "\<forall>k<n. fst r ! k = int (length (filter (\<lambda>j. j \<notin> ?P') (R k)))" using d'k by blast
  ultimately show "kahn_inv n R (snd r) (fst r) ?P'"
    unfolding kahn_inv_def using L(1,2) by blast
  fix k
  assume "k \<in> set (snd r)"
  with L sub len have "k < n" "0 < d ! k" "d ! k \<le> int (count_list ?js k)" by auto
  with count have "length (filter (\<lambda>j. j \<in> set ready) (R k)) \<noteq> 0" by fastforce
  then show "set (R k) \<inter> set ready \<noteq> {}" by (auto simp: filter_empty_conv)
qed

text \<open>
  The layering of a plan: waves are non-empty and disjoint, the dependencies of a task lie in
  strictly earlier waves, and beyond the first wave one of them lies in the wave just before.
\<close>

definition layered :: "(nat \<Rightarrow> nat list) \<Rightarrow> nat list list \<Rightarrow> bool" where
  "layered R ws \<longleftrightarrow> distinct (concat ws) \<and> (\<forall>m<length ws. ws ! m \<noteq> [] \<and>
     (\<forall>k\<in>set (ws ! m). set (R k) \<subseteq> set (concat (take m ws)) \<and>
        (0 < m \<longrightarrow> set (R k) \<inter> set (ws ! (m - 1)) \<noteq> {})))"

lemma layered_snoc:
  "layered R (ws @ [w]) \<longleftrightarrow> layered R ws \<and> w \<noteq> [] \<and> distinct w \<and> set w \<inter> set (concat ws) = {} \<and>
     (\<forall>k\<in>set w. set (R k) \<subseteq> set (concat ws) \<and> (ws \<noteq> [] \<longrightarrow> set (R k) \<inter> set (last ws) \<noteq> {}))"
proof -
  define Q where "Q = (\<lambda>vs m. vs ! m \<noteq> [] \<and> (\<forall>k\<in>set (vs ! m). set (R k) \<subseteq> set (concat (take m vs)) \<and>
        (0 < m \<longrightarrow> set (R k) \<inter> set (vs ! (m - 1)) \<noteq> {})))"
  have lay: "layered R vs \<longleftrightarrow> distinct (concat vs) \<and> (\<forall>m<length vs. Q vs m)" for vs
    unfolding layered_def Q_def ..
  have old: "Q (ws @ [w]) m = Q ws m" if "m < length ws" for m
  proof -
    have "(ws @ [w]) ! m = ws ! m" "(ws @ [w]) ! (m - 1) = ws ! (m - 1)" "take m (ws @ [w]) = take m ws"
      using that by (auto simp: nth_append)
    then show ?thesis unfolding Q_def by (simp only:)
  qed
  have new: "Q (ws @ [w]) (length ws) \<longleftrightarrow> w \<noteq> [] \<and> (\<forall>k\<in>set w. set (R k) \<subseteq> set (concat ws) \<and>
      (ws \<noteq> [] \<longrightarrow> set (R k) \<inter> set (last ws) \<noteq> {}))"
    unfolding Q_def by (cases "ws = []") (simp_all add: nth_append last_conv_nth)
  have "distinct (concat (ws @ [w])) \<longleftrightarrow> distinct (concat ws) \<and> distinct w \<and> set w \<inter> set (concat ws) = {}"
    by (simp add: Int_commute)
  moreover have "(\<forall>m<length (ws @ [w]). Q (ws @ [w]) m) \<longleftrightarrow> (\<forall>m<length ws. Q ws m) \<and> Q (ws @ [w]) (length ws)"
    using old by (simp add: All_less_Suc conj_commute)
  ultimately show ?thesis unfolding lay new by (simp only: conj_ac)
qed

lemma kahn_correct:
  assumes "kahn adj w ready d wo acc = (wo', ws)" "wave_graph n R adj"
    "kahn_inv n R ready d (set (concat acc))" "layered R acc"
    "acc \<noteq> [] \<Longrightarrow> \<forall>k\<in>set ready. set (R k) \<inter> set (last acc) \<noteq> {}"
    "length wo = n" "0 \<le> w" "\<forall>k<n. wo ! k = -1 \<longleftrightarrow> k \<notin> set (concat acc)"
  shows "layered R ws \<and> length wo' = n \<and> (\<forall>k<n. wo' ! k = -1 \<longleftrightarrow> k \<notin> set (concat ws)) \<and>
    set (concat ws) \<subseteq> {..<n} \<and> (\<forall>k<n. k \<notin> set (concat ws) \<longrightarrow> \<not> set (R k) \<subseteq> set (concat ws))"
  using assms
proof (induction adj w ready d wo acc rule: kahn.induct)
  case (1 adj w ready d wo acc)
  show ?case
  proof (cases "ready = []")
    case True
    with "1.prems" show ?thesis by (auto simp: kahn.simps kahn_inv_def)
  next
    case False
    let ?r = "release_wave adj ready (d, [])"
    let ?wo = "fold (\<lambda>i wo. wo[i := w]) ready wo"
    have set': "set (concat (acc @ [ready])) = set (concat acc) \<union> set ready" by simp
    have run: "kahn adj (w + 1) (snd ?r) (fst ?r) ?wo (acc @ [ready]) = (wo', ws)"
      using "1.prems"(1) False by (simp add: kahn.simps [of adj w] Let_def)
    note step = kahn_inv_step [OF "1.prems"(2,3)]
    have lay: "layered R (acc @ [ready])"
      using "1.prems"(3-5) False unfolding layered_snoc kahn_inv_def by auto
    have wo: "\<forall>k<n. ?wo ! k = -1 \<longleftrightarrow> k \<notin> set (concat (acc @ [ready]))"
      using "1.prems"(6-8) by (auto simp: fold_update_nth)
    show ?thesis
    proof (rule "1.IH" [OF False refl refl run "1.prems"(2)])
      show "kahn_inv n R (snd ?r) (fst ?r) (set (concat (acc @ [ready])))"
        using step(1) by (simp only: set')
      show "\<forall>k\<in>set (snd ?r). set (R k) \<inter> set (last (acc @ [ready])) \<noteq> {}"
        using step(2) by simp
    qed (use lay wo "1.prems"(6,7) in auto)
  qed
qed

lemma unscheduled_None: "unscheduled i ws = None \<longleftrightarrow> -1 \<notin> set ws"
  by (induction ws arbitrary: i) auto

section \<open>Correctness of the planner\<close>

text \<open>Task \<open>k\<close> lists task \<open>j\<close> in its \<^verbatim>\<open>Context\<close>; tasks outside the crew are not vertices.\<close>

definition dep_edge :: "(tid \<Rightarrow> tid list) \<Rightarrow> tid list \<Rightarrow> nat \<Rightarrow> nat \<Rightarrow> bool" where
  "dep_edge ctx tasks j k \<longleftrightarrow>
     j < length tasks \<and> k < length tasks \<and> tasks ! j \<in> set (ctx (tasks ! k))"

abbreviation dep_rel :: "(tid \<Rightarrow> tid list) \<Rightarrow> tid list \<Rightarrow> (nat \<times> nat) set" where
  "dep_rel ctx tasks \<equiv> {(j, k). dep_edge ctx tasks j k}"

lemma planWaves_edges:
  fixes ctx :: "tid \<Rightarrow> tid list"
  assumes "build_index 0 tasks Map.empty = Inr m" and n: "n = length tasks"
  defines "R \<equiv> \<lambda>k. resolved m (ctx (tasks ! k))"
  shows "k < n \<Longrightarrow> set (R k) = {j. dep_edge ctx tasks j k}"
    and "add_edges ctx m 0 tasks (replicate n 0, replicate n []) = Inr (d, a) \<Longrightarrow>
         wave_graph n R a \<and> kahn_inv n R (filter (\<lambda>i. d ! i = 0) [0..<n]) d {} \<and> (\<forall>k<n. k \<notin> set (R k))"
proof -
  note idx = build_index_start [OF assms(1)]
  show R: "set (R k) = {j. dep_edge ctx tasks j k}" if "k < n" for k
    using that n idx(2) unfolding R_def set_resolved dep_edge_def by auto
  assume edges: "add_edges ctx m 0 tasks (replicate n 0, replicate n []) = Inr (d, a)"
  have b: "block 0 tasks (\<lambda>t. resolved m (ctx t)) k = R k" if "k < n" for k
    using that by (simp add: block_def R_def n)
  have b': "block 0 tasks (\<lambda>t. resolved m (ctx t)) k = []" if "\<not> k < n" for k
    using that by (simp add: block_def n)
  from add_edges_Inr [OF edges] n idx(2) have len: "length d = n" "length a = n"
    and d: "\<And>k. k < n \<Longrightarrow> d ! k = int (length (R k))"
    and a: "\<And>j k. j < n \<Longrightarrow> count_list (a ! j) k = count_list (block 0 tasks (\<lambda>t. resolved m (ctx t)) k) j"
    and self: "\<And>k. k < n \<Longrightarrow> k \<notin> set (R k)"
    by (auto simp: b) (metis b)
  have range: "set (a ! j) \<subseteq> {..<n}" if "j < n" for j
    using a [OF that] b' count_list_0_iff [of "a ! j"] by fastforce
  have Rn: "set (R k) \<subseteq> {..<n}" if "k < n" for k using R [OF that] n by (auto simp: dep_edge_def)
  have "wave_graph n R a" using len a b range Rn by (auto simp: wave_graph_def)
  moreover have "kahn_inv n R (filter (\<lambda>i. d ! i = 0) [0..<n]) d {}"
    using len d by (auto simp: kahn_inv_def)
  ultimately show "wave_graph n R a \<and> kahn_inv n R (filter (\<lambda>i. d ! i = 0) [0..<n]) d {} \<and> (\<forall>k<n. k \<notin> set (R k))"
    using self by blast
qed

lemma planWaves_cases:
  assumes "tasks \<noteq> []"
  obtains (dup) e where "planWaves ctx tasks = Inl e" "errors_is e ErrTaskDependencyCycle" "\<not> distinct tasks"
  | (self) e k where "planWaves ctx tasks = Inl e" "errors_is e ErrTaskDependencyCycle" "distinct tasks"
      "dep_edge ctx tasks k k"
  | (cyclic) e U where "planWaves ctx tasks = Inl e" "errors_is e ErrTaskDependencyCycle" "distinct tasks"
      "finite U" "U \<noteq> {}" "\<And>k. k \<in> U \<Longrightarrow> \<exists>j\<in>U. dep_edge ctx tasks j k"
  | (plan) ws R where "planWaves ctx tasks = Inr \<lparr>waves = ws\<rparr>" "distinct tasks" "layered R ws"
      "set (concat ws) = {..<length tasks}"
      "\<And>k. k < length tasks \<Longrightarrow> set (R k) = {j. dep_edge ctx tasks j k}"
proof (cases "build_index 0 tasks Map.empty")
  case (Inl e)
  then have "\<not> distinct tasks" using build_index_total [of tasks Map.empty 0] by auto
  then show ?thesis
    using dup [of e] Inl build_index_Inl [OF Inl] assms by (simp add: planWaves_def)
next
  case (Inr m)
  let ?n = "length tasks"
  define R where "R = (\<lambda>k. resolved m (ctx (tasks ! k)))"
  have R: "set (R k) = {j. dep_edge ctx tasks j k}" if "k < ?n" for k
    using planWaves_edges(1) [OF Inr refl that] by (simp add: R_def)
  note dist = build_index_start(1) [OF Inr]
  show ?thesis
  proof (cases "add_edges ctx m 0 tasks (replicate ?n 0, replicate ?n [])")
    case (Inl e)
    from add_edges_Inl [OF Inl] R obtain k where "dep_edge ctx tasks k k" "errors_is e ErrTaskDependencyCycle"
      by (auto simp: R_def)
    then show ?thesis using self [of e k] Inl Inr assms dist by (simp add: planWaves_def)
  next
    case edges: (Inr g)
    obtain d a where g: "g = (d, a)" by (cases g)
    have inv: "wave_graph ?n R a \<and> kahn_inv ?n R (filter (\<lambda>i. d ! i = 0) [0..<?n]) d {} \<and>
        (\<forall>k<?n. k \<notin> set (R k))"
      using planWaves_edges(2) [OF Inr refl edges [unfolded g]] by (simp add: R_def)
    let ?ready = "filter (\<lambda>i. d ! i = 0) [0..<?n]"
    obtain wo ws where k: "kahn a 0 ?ready d (replicate ?n (-1)) [] = (wo, ws)"
      by (cases "kahn a 0 ?ready d (replicate ?n (-1)) []")
    have base: "kahn_inv ?n R ?ready d (set (concat []))" "layered R []"
      using inv by (auto simp: layered_def)
    have fin: "layered R ws" "length wo = ?n" "\<forall>k<?n. wo ! k = -1 \<longleftrightarrow> k \<notin> set (concat ws)"
      "set (concat ws) \<subseteq> {..<?n}" "\<forall>k<?n. k \<notin> set (concat ws) \<longrightarrow> \<not> set (R k) \<subseteq> set (concat ws)"
      using kahn_correct [OF k conjunct1 [OF inv] base] by auto
    show ?thesis
    proof (cases "unscheduled 0 wo")
      case None
      then have all: "set (concat ws) = {..<?n}"
        using fin(2-4) by (auto simp: unscheduled_None) (metis nth_mem)
      have "planWaves ctx tasks = Inr \<lparr>waves = ws\<rparr>"
        using None k Inr edges g assms by (simp add: planWaves_def)
      then show ?thesis by (rule plan [OF _ dist fin(1) all]) (rule R)
    next
      case (Some i)
      let ?U = "{k. k < ?n \<and> k \<notin> set (concat ws)}"
      from Some have "-1 \<in> set wo" using unscheduled_None [of 0 wo] by auto
      then have "?U \<noteq> {}" using fin(2,3) by (auto simp: in_set_conv_nth)
      moreover have "\<exists>j\<in>?U. dep_edge ctx tasks j k" if "k \<in> ?U" for k
      proof -
        from that have k: "k < ?n" and "\<not> set (R k) \<subseteq> set (concat ws)" using fin(5) by auto
        then obtain j where "dep_edge ctx tasks j k" "j \<notin> set (concat ws)" using R [OF k] by auto
        then show ?thesis by (auto simp: dep_edge_def)
      qed
      moreover have "planWaves ctx tasks = Inl (err_cycle i)"
        using Some k Inr edges g assms by (simp add: planWaves_def)
      ultimately show ?thesis
        by (intro cyclic [of "err_cycle i" ?U] dist) (simp_all add: err_cycle_def)
    qed
  qed
qed

lemma planWaves_Inr:
  assumes "planWaves ctx tasks = Inr plan"
  obtains R where "layered R (waves plan)" "set (concat (waves plan)) = {..<length tasks}" "distinct tasks"
    "\<forall>k<length tasks. set (R k) = {j. dep_edge ctx tasks j k}"
proof (cases "tasks = []")
  case True
  with assms that [of "\<lambda>_. []"] show ?thesis by (auto simp: planWaves_def layered_def)
next
  case False
  show ?thesis
  proof (cases rule: planWaves_cases [OF False, of ctx, case_names dup self cyclic plan])
    case (plan ws R)
    then have "plan = \<lparr>waves = ws\<rparr>" using assms by simp
    with plan show ?thesis by (intro that [of R]) simp_all
  qed (use assms in simp_all)
qed

lemma layered_rank:
  assumes "layered R ws" "j \<in> set (R k)" "k \<in> set (ws ! m)" "m < length ws"
  shows "\<exists>m'<m. j \<in> set (ws ! m')"
proof -
  from assms have "j \<in> set (concat (take m ws))" unfolding layered_def by blast
  then show ?thesis by (auto simp: in_set_conv_nth) (metis assms(4) less_trans nth_mem nth_take)
qed

lemma wave_unique:
  "distinct (concat ws) \<Longrightarrow> m < length ws \<Longrightarrow> m' < length ws \<Longrightarrow> k \<in> set (ws ! m) \<Longrightarrow> k \<in> set (ws ! m') \<Longrightarrow> m = m'"
proof (induction ws arbitrary: m m')
  case (Cons w ws)
  have out: "k \<notin> set (ws ! i)" if "k \<in> set w" "i < length ws" for i
    using Cons.prems(1) that by (auto dest: nth_mem)
  show ?case
  proof (cases m; cases m')
    fix i i' assume "m = Suc i" "m' = Suc i'"
    then show ?thesis using Cons by auto
  qed (use Cons.prems out in auto)
qed simp

section \<open>Properties\<close>

text \<open>
  C2. An accepted plan is a partition of the task list into non-empty waves, and whenever task
  \<open>k\<close> names task \<open>j\<close> in its \<^verbatim>\<open>Context\<close>, \<open>j\<close> lies in a strictly earlier wave than \<open>k\<close>. So running
  the waves in order never starts a task before its dependencies have finished.
\<close>

theorem planWaves_sound:
  assumes "planWaves ctx tasks = Inr plan"
  shows "distinct (concat (waves plan)) \<and> set (concat (waves plan)) = {..<length tasks} \<and>
    [] \<notin> set (waves plan) \<and>
    (\<forall>m<length (waves plan). \<forall>k\<in>set (waves plan ! m). \<forall>j. dep_edge ctx tasks j k \<longrightarrow>
       (\<exists>m'<m. j \<in> set (waves plan ! m')))"
proof -
  from assms obtain R where
    R: "layered R (waves plan)" "set (concat (waves plan)) = {..<length tasks}" "distinct tasks"
      "\<forall>k<length tasks. set (R k) = {j. dep_edge ctx tasks j k}"
    by (rule planWaves_Inr)
  have "\<exists>m'<m. j \<in> set (waves plan ! m')"
    if "m < length (waves plan)" "k \<in> set (waves plan ! m)" "dep_edge ctx tasks j k" for m k j
    using layered_rank [OF R(1) _ that(2,1), of j] R(4) that(3) by (auto simp: dep_edge_def)
  with R(1,2) show ?thesis by (auto simp: layered_def in_set_conv_nth [of "[]"])
qed

theorem planWaves_sound_witness:
  "distinct (concat [[0, 1], [2 :: nat]]) \<and> (\<exists>m'<1. (0::nat) \<in> set ([[0, 1], [2]] ! m'))"
proof -
  have run: "planWaves (\<lambda>t. if t = 12 then [10, 11] else []) [10, 11, 12] = Inr \<lparr>waves = [[0, 1], [2]]\<rparr>"
    by code_simp
  have "dep_edge (\<lambda>t. if t = 12 then [10, 11] else []) [10, 11, 12] 0 2"
    by (simp add: dep_edge_def)
  with planWaves_sound [OF run] show ?thesis by (force simp: less_Suc_eq)
qed

text \<open>
  C20. A plan is accepted exactly when no task pointer occurs twice and the dependency relation
  of the crew's own tasks is acyclic; every refusal is an \<^verbatim>\<open>ErrTaskDependencyCycle\<close>.
\<close>

theorem planWaves_decides:
  "case planWaves ctx tasks of
     Inl e \<Rightarrow> errors_is e ErrTaskDependencyCycle \<and> \<not> (distinct tasks \<and> acyclic (dep_rel ctx tasks))
   | Inr plan \<Rightarrow> distinct tasks \<and> acyclic (dep_rel ctx tasks)"
proof (cases "tasks = []")
  case True
  then have "dep_rel ctx tasks = {}" by (auto simp: dep_edge_def)
  then have "acyclic (dep_rel ctx tasks)" by (simp only: acyclic_def trancl_empty) simp
  with True show ?thesis by (simp add: planWaves_def)
next
  case False
  show ?thesis
  proof (cases rule: planWaves_cases [OF False, of ctx, case_names dup self cyclic plan])
    case (self e k)
    then have "(k, k) \<in> (dep_rel ctx tasks)\<^sup>+" by auto
    with self show ?thesis by (auto simp: acyclic_def)
  next
    case (cyclic e U)
    then have "\<not> acyclic (dep_rel ctx tasks)" by (intro no_pred_cycle [of U]) auto
    with cyclic show ?thesis by simp
  next
    case (plan ws R)
    define rank where "rank = (\<lambda>k. LEAST m. m < length ws \<and> k \<in> set (ws ! m))"
    have rank: "rank k = m" if "m < length ws" "k \<in> set (ws ! m)" for k m
    proof -
      have "distinct (concat ws)" using plan(3) by (simp only: layered_def)
      note same = wave_unique [OF this that(1) _ that(2)]
      show ?thesis
        unfolding rank_def
      proof (rule Least_equality)
        show "m \<le> y" if "y < length ws \<and> k \<in> set (ws ! y)" for y
          using same [of y] that by simp
      qed (use that in simp)
    qed
    have "rank j < rank k" if "dep_edge ctx tasks j k" for j k
    proof -
      from that plan(4) have "k \<in> set (concat ws)" by (auto simp: dep_edge_def)
      then obtain w where "w \<in> set ws" "k \<in> set w" by auto
      then obtain m where m: "m < length ws" "k \<in> set (ws ! m)" by (auto simp: in_set_conv_nth [of w])
      with layered_rank [OF plan(3) _ m(2,1), of j] plan(5) that obtain m'
        where "m' < m" "j \<in> set (ws ! m')" by (auto simp: dep_edge_def)
      with rank m show ?thesis by (metis less_trans)
    qed
    then have "acyclic (dep_rel ctx tasks)" by (intro strict_rank_acyclic [of _ rank]) auto
    with plan show ?thesis by simp
  qed simp
qed

text \<open>
  C29. The plan is as parallel as the dependencies allow: in any assignment of steps to tasks
  that puts every dependency strictly before its dependent, task \<open>k\<close> comes no earlier than its
  wave in the plan.
\<close>

theorem planWaves_earliest:
  assumes "planWaves ctx tasks = Inr plan"
    and "\<And>j k. dep_edge ctx tasks j k \<Longrightarrow> step j < (step k :: nat)"
    and "m < length (waves plan)" and "k \<in> set (waves plan ! m)"
  shows "m \<le> step k"
proof -
  from assms(1) obtain R where
    R: "layered R (waves plan)" "set (concat (waves plan)) = {..<length tasks}" "distinct tasks"
      "\<forall>k<length tasks. set (R k) = {j. dep_edge ctx tasks j k}"
    by (rule planWaves_Inr)
  show ?thesis using assms(3,4)
  proof (induction m arbitrary: k)
    case (Suc m)
    have "k < length tasks" using R(2) Suc.prems by (auto dest: nth_mem)
    moreover obtain j where "j \<in> set (R k)" "j \<in> set (waves plan ! m)"
      using R(1) Suc.prems unfolding layered_def by (metis diff_Suc_1 disjoint_iff zero_less_Suc)
    ultimately have "step j < step k" "m \<le> step j" using Suc R(4) assms(2) by auto
    then show ?case by simp
  qed simp
qed

theorem planWaves_earliest_witness: "(1::nat) \<le> (\<lambda>k. if k = 2 then 5 else 3) (2::nat)"
proof -
  have run: "planWaves (\<lambda>t. if t = 12 then [10, 11] else []) [10, 11, 12] = Inr \<lparr>waves = [[0, 1], [2]]\<rparr>"
    by code_simp
  show ?thesis
    by (rule planWaves_earliest [OF run]) (auto simp: dep_edge_def nth_Cons' less_Suc_eq split: if_splits)
qed

text \<open>
  The comments of \<^verbatim>\<open>asyncPlan\<close> and \<^verbatim>\<open>planWaves\<close> promise that the indexes of a wave are ascending
  (declaration order). They are not: with four tasks where the third depends on the second and
  the fourth on the first, the second wave is released as \<open>[3, 2]\<close>.
\<close>

theorem planWaves_wave_not_ascending:
  "\<exists>ctx tasks plan. planWaves ctx tasks = Inr plan \<and> (\<exists>w\<in>set (waves plan). \<not> sorted w)"
proof -
  have "planWaves (\<lambda>t. if t = 2 then [1] else if t = 3 then [0] else []) [0, 1, 2, 3] =
      Inr \<lparr>waves = [[0, 1], [3, 2]]\<rparr>"
    by code_simp
  then show ?thesis by (intro exI conjI bexI [of _ "[3, 2]"]) auto
qed

end
