(* ===== verification/Flow.thy ===== *)
theory Flow
  imports Events Schedule
begin

text \<open>
  The event-driven workflow of \<^verbatim>\<open>flow.go\<close>: registration, validation, the rounds of \<^verbatim>\<open>Run\<close> with
  their ready and skipped steps, the parallel wave and the fold at its barrier. The user state
  \<open>'s\<close> and the outside state \<open>'w\<close> are threaded through the steps; the goroutines of a wave run
  one after the other in an arbitrary order \<open>ord\<close>, each step atomically. The lemmas show when a
  flow is accepted, that \<^verbatim>\<open>Run\<close> ends after at most one round per step, that no step runs twice,
  and that a step runs only when its dependencies have succeeded and their routers chose it.
\<close>

section \<open>Flows\<close>

datatype stepRet = StepRet "err option" "string list" | StepPanic string

datatype flowKind = kindListen | kindRouter

datatype flowStatus = stPending | stDone | stFailed | stSkipped

type_synonym ('s, 'w) flowFn = "'w ctx \<Rightarrow> 's \<Rightarrow> 'w \<Rightarrow> 's \<times> 'w \<times> stepRet"

record ('s, 'w) flowNode =
  fn_name :: string
  fn_deps :: "string list"
  fn_start :: bool
  fn_kind :: flowKind
  fn_step :: "('s, 'w) flowFn option"

record ('s, 'w) flow =
  fl_nodes :: "('s, 'w) flowNode list"
  fl_continueOnError :: bool
  fl_events :: "(crewEvent \<Rightarrow> 'w \<Rightarrow> 'w) option"

record flowStepTrace =
  ft_Name :: string
  ft_Err :: string
  ft_Skipped :: bool

record 's flowResult =
  fr_State :: 's
  fr_Steps :: "flowStepTrace list"
  fr_Errors :: "string \<rightharpoonup> err"

definition NewFlow :: "('s, 'w) flow" where
  "NewFlow = \<lparr>fl_nodes = [], fl_continueOnError = False, fl_events = None\<rparr>"

definition flow_Start :: "string \<Rightarrow> ('s, 'w) flowFn option \<Rightarrow> ('s, 'w) flow \<Rightarrow> ('s, 'w) flow" where
  "flow_Start name fn f = f\<lparr>fl_nodes := fl_nodes f @
     [\<lparr>fn_name = name, fn_deps = [], fn_start = True, fn_kind = kindListen, fn_step = fn\<rparr>]\<rparr>"

definition flow_Listen :: "string \<Rightarrow> ('s, 'w) flowFn option \<Rightarrow> string list \<Rightarrow> ('s, 'w) flow \<Rightarrow> ('s, 'w) flow" where
  "flow_Listen name fn deps f = f\<lparr>fl_nodes := fl_nodes f @
     [\<lparr>fn_name = name, fn_deps = deps, fn_start = False, fn_kind = kindListen, fn_step = fn\<rparr>]\<rparr>"

definition flow_Router :: "string \<Rightarrow> ('s, 'w) flowFn option \<Rightarrow> string list \<Rightarrow> ('s, 'w) flow \<Rightarrow> ('s, 'w) flow" where
  "flow_Router name fn deps f = f\<lparr>fl_nodes := fl_nodes f @
     [\<lparr>fn_name = name, fn_deps = deps, fn_start = False, fn_kind = kindRouter, fn_step = fn\<rparr>]\<rparr>"

definition WithFlowContinueOnError :: "('s, 'w) flow \<Rightarrow> ('s, 'w) flow" where
  "WithFlowContinueOnError f = f\<lparr>fl_continueOnError := True\<rparr>"

section \<open>Validation\<close>

fun validate_nodes ::
  "nat \<Rightarrow> ('s, 'w) flowNode list \<Rightarrow> (string \<rightharpoonup> nat) \<Rightarrow> bool \<Rightarrow> err + (string \<rightharpoonup> nat) \<times> bool" where
  "validate_nodes i [] index hasStart = Inr (index, hasStart)"
| "validate_nodes i (n # ns) index hasStart =
     (if fn_name n = [] then Inl (Wrap [] (Sentinel ErrFlowUnknownStep) '': empty name'')
      else if index (fn_name n) \<noteq> None
      then Inl (Wrap [] (Sentinel ErrFlowDuplicateStep) ('': '' @ fn_name n))
      else let index = index(fn_name n \<mapsto> i) in
        if fn_start n \<and> fn_deps n \<noteq> [] then Inl (Wrap [] (Sentinel ErrFlowStartDeps) ('': '' @ fn_name n))
        else if fn_kind n = kindListen \<and> fn_step n = None
        then Inl (Plain (''crewai: flow step '' @ go_quote (fn_name n) @ '': nil function''))
        else if fn_kind n = kindRouter \<and> fn_step n = None
        then Inl (Plain (''crewai: flow router '' @ go_quote (fn_name n) @ '': nil function''))
        else validate_nodes (Suc i) ns index (if fn_deps n = [] then True else hasStart))"

fun validate_deps :: "(string \<rightharpoonup> nat) \<Rightarrow> string \<Rightarrow> string list \<Rightarrow> err option" where
  "validate_deps index name [] = None"
| "validate_deps index name (d # ds) =
     (if d = name then Some (Wrap [] (Sentinel ErrFlowCycle) ('': '' @ name @ '' depends on itself''))
      else if index d = None
      then Some (Wrap [] (Sentinel ErrFlowUnknownStep) ('': '' @ name @ '' depends on '' @ d))
      else validate_deps index name ds)"

fun validate_edges :: "(string \<rightharpoonup> nat) \<Rightarrow> ('s, 'w) flowNode list \<Rightarrow> err option" where
  "validate_edges index [] = None"
| "validate_edges index (n # ns) =
     (case validate_deps index (fn_name n) (fn_deps n) of
        Some e \<Rightarrow> Some e
      | None \<Rightarrow> validate_edges index ns)"

text \<open>
  Kahn's algorithm with a queue. \<open>adj ! j\<close> lists the dependents of \<open>j\<close>, \<open>release\<close> (of the wave
  scheduler, the same loop) decrements their in-degrees and queues those that reach zero.
\<close>

definition dep_indices :: "(string \<rightharpoonup> nat) \<Rightarrow> ('s, 'w) flowNode \<Rightarrow> nat list" where
  "dep_indices index n = map (\<lambda>d. case index d of None \<Rightarrow> 0 | Some j \<Rightarrow> j) (fn_deps n)"

fun cycle_edges :: "(string \<rightharpoonup> nat) \<Rightarrow> nat \<Rightarrow> ('s, 'w) flowNode list \<Rightarrow> graph \<Rightarrow> graph" where
  "cycle_edges index i [] g = g"
| "cycle_edges index i (n # ns) g =
     cycle_edges index (Suc i) ns
       (fold (\<lambda>j (indeg, adj). (indeg[i := indeg ! i + 1], adj[j := adj ! j @ [i]])) (dep_indices index n) g)"

function cycle_queue :: "nat list list \<Rightarrow> nat list \<Rightarrow> int list \<Rightarrow> nat \<Rightarrow> nat" where
  "cycle_queue adj [] indeg seen = seen"
| "cycle_queue adj (i # ready) indeg seen =
     (let (indeg, ready) = release (adj ! i) (indeg, ready) in cycle_queue adj ready indeg (Suc seen))"
  by pat_completeness auto
termination
proof (relation "measure (\<lambda>(adj, ready, indeg, seen). positives indeg + length ready)", goal_cases)
  case (2 adj i ready indeg seen r d q)
  then have "release (adj ! i) (indeg, ready) = (d, q)" by simp
  then show ?case using release_positives [of "adj ! i" indeg ready] by simp
qed simp

definition detectCycle :: "(string \<rightharpoonup> nat) \<Rightarrow> ('s, 'w) flow \<Rightarrow> err option" where
  "detectCycle index f =
     (let n = length (fl_nodes f);
          (indeg, adj) = cycle_edges index 0 (fl_nodes f) (replicate n 0, replicate n []);
          ready = filter (\<lambda>i. indeg ! i = 0) [0..<n]
      in if cycle_queue adj ready indeg 0 \<noteq> n then Some (Sentinel ErrFlowCycle) else None)"

definition flow_validate :: "('s, 'w) flow \<Rightarrow> err + (string \<rightharpoonup> nat)" where
  "flow_validate f =
     (case validate_nodes 0 (fl_nodes f) Map.empty False of
        Inl e \<Rightarrow> Inl e
      | Inr (index, hasStart) \<Rightarrow>
          if \<not> hasStart then Inl (Sentinel ErrFlowNoStart)
          else (case validate_edges index (fl_nodes f) of
                  Some e \<Rightarrow> Inl e
                | None \<Rightarrow> (case detectCycle index f of Some e \<Rightarrow> Inl e | None \<Rightarrow> Inr index)))"

section \<open>Rounds\<close>

type_synonym selection = "string list option"

fun depsState ::
  "('s, 'w) flow \<Rightarrow> (string \<rightharpoonup> nat) \<Rightarrow> flowStatus list \<Rightarrow> selection list \<Rightarrow> string \<Rightarrow> string list
   \<Rightarrow> bool \<Rightarrow> bool \<Rightarrow> bool \<times> bool \<times> bool" where
  "depsState f index status sel name [] ok gated = (True, ok, gated)"
| "depsState f index status sel name (d # ds) ok gated =
     (let j = (case index d of None \<Rightarrow> 0 | Some j \<Rightarrow> j) in
      case status ! j of
        stPending \<Rightarrow> (False, False, False)
      | stFailed \<Rightarrow> depsState f index status sel name ds False gated
      | stSkipped \<Rightarrow> depsState f index status sel name ds False gated
      | stDone \<Rightarrow>
          depsState f index status sel name ds ok
            (if fn_kind (fl_nodes f ! j) = kindRouter
                \<and> (case sel ! j of None \<Rightarrow> True | Some names \<Rightarrow> name \<notin> set names)
             then False else gated))"

fun collect_from ::
  "('s, 'w) flow \<Rightarrow> (string \<rightharpoonup> nat) \<Rightarrow> flowStatus list \<Rightarrow> selection list \<Rightarrow> nat
   \<Rightarrow> ('s, 'w) flowNode list \<Rightarrow> nat list \<times> nat list" where
  "collect_from f index status sel i [] = ([], [])"
| "collect_from f index status sel i (n # ns) =
     (let (ready, skip) = collect_from f index status sel (Suc i) ns in
      if status ! i \<noteq> stPending then (ready, skip)
      else let (finished, ok, gated) = depsState f index status sel (fn_name n) (fn_deps n) True True in
        if \<not> finished then (ready, skip)
        else if \<not> ok \<or> \<not> gated then (ready, i # skip)
        else (i # ready, skip))"

definition collectReady ::
  "('s, 'w) flow \<Rightarrow> (string \<rightharpoonup> nat) \<Rightarrow> flowStatus list \<Rightarrow> selection list \<Rightarrow> nat list \<times> nat list" where
  "collectReady f index status sel = collect_from f index status sel 0 (fl_nodes f)"

record flowStepOut =
  so_err :: "err option"
  so_route :: "string list"

definition run_step ::
  "'w ctx \<Rightarrow> ('s, 'w) flowNode \<Rightarrow> 's \<times> 'w \<Rightarrow> 's \<times> 'w \<times> flowStepOut" where
  "run_step ctx n sw =
     (let (s, w) = sw; w = emitEvent ctx ((event EventFlowStepStarted)\<lparr>ev_Task := fn_name n\<rparr>) w in
      case fn_step n of
        None \<Rightarrow> (s, w, \<lparr>so_err = Some (Plain ''panic: runtime error: invalid memory address or nil pointer dereference''), so_route = []\<rparr>)
      | Some fn \<Rightarrow>
          (case fn ctx s w of
             (s, w, StepPanic r) \<Rightarrow> (s, w, \<lparr>so_err = Some (Plain (''panic: '' @ r)), so_route = []\<rparr>)
           | (s, w, StepRet e route) \<Rightarrow>
               (s, w, \<lparr>so_err = e, so_route = (if fn_kind n = kindRouter then route else [])\<rparr>)))"

fun run_steps ::
  "'w ctx \<Rightarrow> ('s, 'w) flow \<Rightarrow> nat list \<Rightarrow> nat list \<Rightarrow> 's \<times> 'w \<Rightarrow> flowStepOut list \<Rightarrow> 's \<times> 'w \<times> flowStepOut list" where
  "run_steps ctx f ready [] sw out = (fst sw, snd sw, out)"
| "run_steps ctx f ready (k # ks) sw out =
     (let (s, w, o1) = run_step ctx (fl_nodes f ! (ready ! k)) sw
      in run_steps ctx f ready ks (s, w) (out[k := o1]))"

definition flow_runWave ::
  "'w ctx \<Rightarrow> ('s, 'w) flow \<Rightarrow> nat list \<Rightarrow> nat list \<Rightarrow> 's \<times> 'w \<Rightarrow> 's \<times> 'w \<times> flowStepOut list" where
  "flow_runWave ctx f ord ready sw =
     run_steps ctx f ready (wave_order ord (length ready)) sw
       (replicate (length ready) \<lparr>so_err = None, so_route = []\<rparr>)"

text \<open>The names a router returned, checked one by one against the registered listeners.\<close>

fun check_route ::
  "('s, 'w) flow \<Rightarrow> (string \<rightharpoonup> nat) \<Rightarrow> string \<Rightarrow> string list \<Rightarrow> string list \<Rightarrow> err + string list" where
  "check_route f index router [] sel = Inr sel"
| "check_route f index router (name # names) sel =
     (case index name of
        None \<Rightarrow> Inl (Wrap [] (Sentinel ErrFlowUnknownStep) ('': '' @ name))
      | Some j \<Rightarrow>
          if router \<notin> set (fn_deps (fl_nodes f ! j))
          then Inl (Wrap [] (Sentinel ErrFlowUnknownStep) ('': '' @ name @ '' is not a listener of '' @ router))
          else check_route f index router names (name # sel))"

record 'w foldState =
  fs_status :: "flowStatus list"
  fs_sel :: "selection list"
  fs_traces :: "flowStepTrace list"
  fs_errs :: "string \<rightharpoonup> err"
  fs_first :: "err option"
  fs_world :: 'w

definition fold_failed :: "nat \<Rightarrow> string \<Rightarrow> err \<Rightarrow> err \<Rightarrow> 'w foldState \<Rightarrow> 'w foldState" where
  "fold_failed i name e first st =
     st\<lparr>fs_status := (fs_status st)[i := stFailed], fs_errs := (fs_errs st)(name \<mapsto> e),
        fs_first := (if fs_first st = None then Some first else fs_first st)\<rparr>"

definition fold_step ::
  "'w ctx \<Rightarrow> ('s, 'w) flow \<Rightarrow> (string \<rightharpoonup> nat) \<Rightarrow> nat list \<Rightarrow> nat list \<Rightarrow> flowStepOut list \<Rightarrow> nat
   \<Rightarrow> 'w foldState \<Rightarrow> 'w foldState" where
  "fold_step ctx f index ready skip out i st =
     (let n = fl_nodes f ! i; name = fn_name n in
      if i \<in> set skip
      then st\<lparr>fs_traces := fs_traces st @ [\<lparr>ft_Name = name, ft_Err = [], ft_Skipped = True\<rparr>]\<rparr>
      else
        let o1 = out ! length (takeWhile (\<lambda>j. j \<noteq> i) ready);
            (st, msg) =
              (case so_err o1 of
                 Some e \<Rightarrow>
                   (fold_failed i name e (wrapf (''crewai: flow step '' @ go_quote name @ '': '') e) st,
                    redactString (error_text e))
               | None \<Rightarrow>
                   let st = st\<lparr>fs_status := (fs_status st)[i := stDone]\<rparr> in
                   if fn_kind n = kindRouter
                   then (case check_route f index name (so_route o1) [] of
                           Inl e \<Rightarrow> ((fold_failed i name e e st)\<lparr>fs_sel := (fs_sel st)[i := None]\<rparr>,
                                     redactString (error_text e))
                         | Inr sel \<Rightarrow> (st\<lparr>fs_sel := (fs_sel st)[i := Some sel]\<rparr>, []))
                   else (st, []))
        in st\<lparr>fs_traces := fs_traces st @ [\<lparr>ft_Name = name, ft_Err = msg, ft_Skipped = False\<rparr>],
              fs_world := emitEvent ctx ((event EventFlowStepCompleted)\<lparr>ev_Task := name, ev_Err := msg\<rparr>)
                (fs_world st)\<rparr>)"

definition foldWave ::
  "'w ctx \<Rightarrow> ('s, 'w) flow \<Rightarrow> (string \<rightharpoonup> nat) \<Rightarrow> nat list \<Rightarrow> nat list \<Rightarrow> flowStepOut list
   \<Rightarrow> 'w foldState \<Rightarrow> 'w foldState" where
  "foldWave ctx f index ready skip out st =
     fold (fold_step ctx f index ready skip out) (sort (skip @ ready)) (st\<lparr>fs_first := None\<rparr>)"

text \<open>
  The loop of \<^verbatim>\<open>Run\<close>, with fuel; \<^const>\<open>None\<close> is fuel exhausted. \<open>ords\<close> gives the order of each round.
\<close>

fun flow_rounds ::
  "'w ctx \<Rightarrow> ('s, 'w) flow \<Rightarrow> (string \<rightharpoonup> nat) \<Rightarrow> (nat \<Rightarrow> nat list) \<Rightarrow> nat \<Rightarrow> 's \<Rightarrow> 'w foldState \<Rightarrow> err option
   \<Rightarrow> ('s \<times> 'w foldState \<times> err option) option" where
  "flow_rounds ctx f index ords fuel s st runErr =
     (case fuel of
        0 \<Rightarrow> None
      | Suc fuel \<Rightarrow>
          (case cx_err ctx (fs_world st) of
             Some e \<Rightarrow> Some (s, st, Some e)
           | None \<Rightarrow>
               let (ready, skip) = collectReady f index (fs_status st) (fs_sel st) in
               if ready = [] \<and> skip = [] then Some (s, st, runErr)
               else
                 let st = st\<lparr>fs_status := fold (\<lambda>i xs. xs[i := stSkipped]) skip (fs_status st)\<rparr>;
                     (s, w, out) = (if ready = [] then (s, fs_world st, [])
                                    else flow_runWave ctx f (ords fuel) ready (s, fs_world st));
                     st = foldWave ctx f index ready skip out (st\<lparr>fs_world := w\<rparr>)
                 in if fs_first st \<noteq> None \<and> \<not> fl_continueOnError f then Some (s, st, fs_first st)
                    else flow_rounds ctx f index ords fuel s st
                           (if fs_first st \<noteq> None \<and> runErr = None then fs_first st else runErr)))"

declare flow_rounds.simps [simp del]

definition flow_init :: "('s, 'w) flow \<Rightarrow> 'w \<Rightarrow> 'w foldState" where
  "flow_init f w =
     (let n = length (fl_nodes f) in
      \<lparr>fs_status = replicate n stPending, fs_sel = replicate n None, fs_traces = [],
       fs_errs = Map.empty, fs_first = None, fs_world = w\<rparr>)"

text \<open>
  \<^verbatim>\<open>Run\<close>. \<open>running\<close> is whether the run lock is taken; \<open>kid\<close> is the fresh kickoff id; one round per
  step and one to find nothing left is fuel enough. The result carries the outside state.
\<close>

definition flow_Run ::
  "bool \<Rightarrow> string \<Rightarrow> (nat \<Rightarrow> nat list) \<Rightarrow> 'w ctx \<Rightarrow> ('s, 'w) flow \<Rightarrow> 's \<Rightarrow> 'w
   \<Rightarrow> ('w \<times> 's flowResult option \<times> err option) option" where
  "flow_Run running kid ords ctx f initial w =
     (if running then Some (w, None, Some (Sentinel ErrFlowRunning))
      else case flow_validate f of
        Inl e \<Rightarrow> Some (w, None, Some e)
      | Inr index \<Rightarrow>
          (let ctx = ContextWithEvents (ContextWithKickoffID ctx kid) (fl_events f);
               w = emitEvent ctx ((event EventFlowStarted)\<lparr>ev_KickoffID := kid\<rparr>) w
           in case flow_rounds ctx f index ords (Suc (length (fl_nodes f))) initial (flow_init f w) None of
                None \<Rightarrow> None
              | Some (s, st, runErr) \<Rightarrow>
                  (let res = \<lparr>fr_State = s, fr_Steps = fs_traces st, fr_Errors = fs_errs st\<rparr>;
                       ev = (event EventFlowCompleted)\<lparr>ev_KickoffID := kid\<rparr>;
                       ev = (case runErr of
                               Some e \<Rightarrow> if \<not> fl_continueOnError f
                                          then ev\<lparr>ev_Err := redactString (error_text e)\<rparr> else ev
                             | None \<Rightarrow> ev);
                       w = emitEvent ctx ev (fs_world st)
                   in Some (w, Some res, if fl_continueOnError f then None else runErr))))"

section \<open>Lemmas on validation\<close>

lemma dom_upd_disjoint: "X \<inter> dom (m(x \<mapsto> i)) = {} \<longleftrightarrow> x \<notin> X \<and> X \<inter> dom m = {}"
  by auto

lemma validate_nodes_Inr:
  "validate_nodes i ns index hs = Inr (index', hs') \<Longrightarrow>
   distinct (map fn_name ns) \<and> [] \<notin> fn_name ` set ns \<and> fn_name ` set ns \<inter> dom index = {}
   \<and> (\<forall>k<length ns. index' (fn_name (ns ! k)) = Some (i + k))
   \<and> (\<forall>x. x \<notin> fn_name ` set ns \<longrightarrow> index' x = index x)
   \<and> (\<forall>n\<in>set ns. fn_step n \<noteq> None \<and> (fn_start n \<longrightarrow> fn_deps n = []))
   \<and> hs' = (hs \<or> (\<exists>n\<in>set ns. fn_deps n = []))"
proof (induction ns arbitrary: i index hs)
  case (Cons n ns)
  have c: "fn_name n \<noteq> []" "index (fn_name n) = None" "fn_start n \<longrightarrow> fn_deps n = []" "fn_step n \<noteq> None"
    "validate_nodes (Suc i) ns (index(fn_name n \<mapsto> i)) (if fn_deps n = [] then True else hs) = Inr (index', hs')"
    using Cons.prems by (cases "fn_kind n"; auto simp: Let_def split: if_splits)+
  note IH = Cons.IH [OF c(5)]
  have nn: "fn_name n \<notin> fn_name ` set ns" "fn_name ` set ns \<inter> dom index = {}"
    using IH dom_upd_disjoint [of "fn_name ` set ns" index "fn_name n" i] by blast+
  moreover have "index' (fn_name n) = Some i" using IH nn(1) by simp
  moreover have "\<forall>k<length (n # ns). index' (fn_name ((n # ns) ! k)) = Some (i + k)"
    using IH calculation(3) by (simp add: nth_Cons split: nat.splits)
  moreover have "hs' = (hs \<or> (\<exists>m\<in>set (n # ns). fn_deps m = []))" using IH by auto
  ultimately show ?case using IH c(1-4) by auto
qed simp

lemma validate_nodes_total:
  "distinct (map fn_name ns) \<Longrightarrow> [] \<notin> fn_name ` set ns \<Longrightarrow> fn_name ` set ns \<inter> dom index = {} \<Longrightarrow>
   (\<forall>n\<in>set ns. fn_step n \<noteq> None \<and> (fn_start n \<longrightarrow> fn_deps n = [])) \<Longrightarrow>
   \<exists>index' hs'. validate_nodes i ns index hs = Inr (index', hs')"
proof (induction ns arbitrary: i index hs)
  case (Cons n ns)
  have "fn_name n \<notin> fn_name ` set ns" "fn_name ` set ns \<inter> dom index = {}" using Cons.prems(1,3) by auto
  then have disj: "fn_name ` set ns \<inter> dom (index(fn_name n \<mapsto> i)) = {}"
    using dom_upd_disjoint [of "fn_name ` set ns" index "fn_name n" i] by blast
  have "\<exists>index' hs'.
      validate_nodes (Suc i) ns (index(fn_name n \<mapsto> i)) (if fn_deps n = [] then True else hs) = Inr (index', hs')"
    by (rule Cons.IH [OF _ _ disj]) (use Cons.prems in auto)
  moreover have "index (fn_name n) = None" using Cons.prems(3) by auto
  ultimately show ?case using Cons.prems by (auto simp: Let_def)
qed simp

lemma validate_deps_None:
  "validate_deps index name ds = None \<longleftrightarrow> (\<forall>d\<in>set ds. d \<noteq> name \<and> index d \<noteq> None)"
  by (induction ds) auto

lemma validate_edges_None:
  "validate_edges index ns = None \<longleftrightarrow> (\<forall>n\<in>set ns. \<forall>d\<in>set (fn_deps n). d \<noteq> fn_name n \<and> index d \<noteq> None)"
proof (induction ns)
  case (Cons n ns)
  then show ?case
    using validate_deps_None [of index "fn_name n" "fn_deps n"]
    by (cases "validate_deps index (fn_name n) (fn_deps n)") auto
qed simp

lemma edge_fold:
  assumes "i < length d" "set js \<subseteq> {..<length a}"
  shows "\<exists>a'. fold (\<lambda>j (indeg, adj). (indeg[i := indeg ! i + 1], adj[j := adj ! j @ [i]])) js (d, a)
      = (d[i := d ! i + int (length js)], a') \<and> length a' = length a
    \<and> (\<forall>j<length a. \<forall>k. count_list (a' ! j) k = count_list (a ! j) k + (if k = i then count_list js j else 0))"
  using assms
proof (induction js arbitrary: d a)
  case (Cons j js)
  have "\<exists>a'. fold (\<lambda>j (indeg, adj). (indeg[i := indeg ! i + 1], adj[j := adj ! j @ [i]])) js
       (d[i := d ! i + 1], a[j := a ! j @ [i]])
      = ((d[i := d ! i + 1])[i := (d[i := d ! i + 1]) ! i + int (length js)], a')
    \<and> length a' = length (a[j := a ! j @ [i]])
    \<and> (\<forall>j'<length (a[j := a ! j @ [i]]). \<forall>k. count_list (a' ! j') k
         = count_list ((a[j := a ! j @ [i]]) ! j') k + (if k = i then count_list js j' else 0))"
    by (rule Cons.IH) (use Cons.prems in auto)
  then show ?case
    using Cons.prems by (auto simp: nth_list_update count_list_append add.assoc)
qed simp

lemma cycle_edges_spec:
  assumes "i + length ns = length d" "length a = length d"
    "\<forall>n\<in>set ns. set (dep_indices index n) \<subseteq> {..<length a}"
  shows "\<exists>d' a'. cycle_edges index i ns (d, a) = (d', a') \<and> length d' = length d \<and> length a' = length a
    \<and> (\<forall>k<length d. d' ! k = d ! k + (if i \<le> k then int (length (dep_indices index (ns ! (k - i)))) else 0))
    \<and> (\<forall>j<length a. \<forall>k. count_list (a' ! j) k = count_list (a ! j) k
         + (if i \<le> k \<and> k < length d then count_list (dep_indices index (ns ! (k - i))) j else 0))"
  using assms
proof (induction ns arbitrary: i d a)
  case (Cons n ns)
  obtain a1 where 1: "fold (\<lambda>j (indeg, adj). (indeg[i := indeg ! i + 1], adj[j := adj ! j @ [i]]))
      (dep_indices index n) (d, a) = (d[i := d ! i + int (length (dep_indices index n))], a1)"
    "length a1 = length a"
    "\<forall>j<length a. \<forall>k. count_list (a1 ! j) k = count_list (a ! j) k
       + (if k = i then count_list (dep_indices index n) j else 0)"
    using edge_fold [of i d "dep_indices index n" a] Cons.prems by auto
  let ?d = "d[i := d ! i + int (length (dep_indices index n))]"
  have "\<exists>d' a'. cycle_edges index (Suc i) ns (?d, a1) = (d', a') \<and> length d' = length ?d \<and> length a' = length a1
    \<and> (\<forall>k<length ?d. d' ! k = ?d ! k + (if Suc i \<le> k then int (length (dep_indices index (ns ! (k - Suc i)))) else 0))
    \<and> (\<forall>j<length a1. \<forall>k. count_list (a' ! j) k = count_list (a1 ! j) k
         + (if Suc i \<le> k \<and> k < length ?d then count_list (dep_indices index (ns ! (k - Suc i))) j else 0))"
    by (rule Cons.IH) (use Cons.prems 1(2) in auto)
  then obtain d' a' where 2: "cycle_edges index (Suc i) ns (?d, a1) = (d', a')" "length d' = length d" "length a' = length a"
    "\<forall>k<length d. d' ! k = ?d ! k + (if Suc i \<le> k then int (length (dep_indices index (ns ! (k - Suc i)))) else 0)"
    "\<forall>j<length a. \<forall>k. count_list (a' ! j) k = count_list (a1 ! j) k
         + (if Suc i \<le> k \<and> k < length d then count_list (dep_indices index (ns ! (k - Suc i))) j else 0)"
    using 1(2) by auto
  have sel: "(n # ns) ! (k - i) = (if k = i then n else ns ! (k - Suc i))" if "i \<le> k" for k
    using that by (auto simp: nth_Cons' Suc_diff_le)
  have "\<forall>k<length d. d' ! k = d ! k + (if i \<le> k then int (length (dep_indices index ((n # ns) ! (k - i)))) else 0)"
    using 2(4) Cons.prems(1) by (auto simp: sel nth_list_update not_less_eq_eq dest: le_antisym)
  moreover have "\<forall>j<length a. \<forall>k. count_list (a' ! j) k = count_list (a ! j) k
       + (if i \<le> k \<and> k < length d then count_list (dep_indices index ((n # ns) ! (k - i))) j else 0)"
    using 1(3) 2(5) Cons.prems(1) by (auto simp: sel not_less_eq_eq dest: le_antisym)
  ultimately show ?case using 1(1) 2(1-3) by (intro exI [of _ d'] exI [of _ a']) simp
qed simp

lemma kahn_inv_pop:
  assumes g: "wave_graph n R adj" and inv: "kahn_inv n R (i # rs) d P"
  shows "\<exists>d' rs'. release (adj ! i) (d, rs) = (d', rs') \<and> kahn_inv n R rs' d' (insert i P)"
proof -
  let ?js = "adj ! i" and ?P' = "insert i P"
  obtain d' rs' where r: "release ?js (d, rs) = (d', rs')" by fastforce
  from inv have len: "length d = n" and rd: "distinct rs" "i \<notin> set rs" "P \<subseteq> {..<n}" "i < n" "i \<notin> P" "set (R i) \<subseteq> P"
    and ready: "set rs = {k. k < n \<and> k \<notin> P \<and> set (R k) \<subseteq> P} - {i}"
    and dk: "\<And>k. k < n \<Longrightarrow> d ! k = int (length (filter (\<lambda>j. j \<notin> P) (R k)))"
    and P: "\<And>k. k \<in> P \<Longrightarrow> set (R k) \<subseteq> P"
    unfolding kahn_inv_def by auto
  have sub: "set ?js \<subseteq> {..<length d}" using g len rd(4) unfolding wave_graph_def by auto
  have count: "count_list ?js k = count_list (R k) i" if "k < n" for k
    using g that rd(4) unfolding wave_graph_def by auto
  obtain L where L: "rs' = rs @ L" "distinct L" "set L = {k \<in> set ?js. 0 < d ! k \<and> d ! k \<le> int (count_list ?js k)}"
    using release_spec(3) [OF sub, of rs] r by auto
  have nth: "d' ! k = d ! k - int (count_list ?js k)" if "k < n" for k
    using release_spec(2) [OF sub, of k rs] that len r by simp
  have "length (filter (\<lambda>j. j \<notin> P) (R k)) = length (filter (\<lambda>j. j \<notin> ?P') (R k)) + count_list (R k) i" for k
  proof -
    have "length (filter (\<lambda>j. j \<notin> P) (R k)) = length (filter (\<lambda>j. j \<notin> ?P') (R k)) + length (filter (\<lambda>j. i = j) (R k))"
      using rd(5) by (intro filter_split_length) auto
    then show ?thesis by (simp add: count_list_eq_length_filter)
  qed
  then have d'k: "d' ! k = int (length (filter (\<lambda>j. j \<notin> ?P') (R k)))" if "k < n" for k
    using nth [OF that] dk [OF that] count [OF that] by simp
  have zero: "d' ! k = 0 \<longleftrightarrow> set (R k) \<subseteq> ?P'" if "k < n" for k
    using d'k [OF that] by (auto simp: filter_empty_conv)
  have pos: "0 < d ! k \<longleftrightarrow> \<not> set (R k) \<subseteq> P" if "k < n" for k
    using dk [OF that] by (auto simp: filter_empty_conv)
  have nonneg: "0 \<le> d' ! k" if "k < n" for k using d'k [OF that] by simp
  have L': "set L = {k. k < n \<and> k \<notin> P \<and> \<not> set (R k) \<subseteq> P \<and> set (R k) \<subseteq> ?P'}"
  proof (rule set_eqI, rule iffI)
    fix k assume "k \<in> set L"
    with L(3) sub len have k: "k < n" "0 < d ! k" "d ! k \<le> int (count_list ?js k)" by auto
    then have "d' ! k = 0" using nth nonneg by fastforce
    then show "k \<in> {k. k < n \<and> k \<notin> P \<and> \<not> set (R k) \<subseteq> P \<and> set (R k) \<subseteq> ?P'}"
      using k pos [OF k(1)] zero [OF k(1)] P by auto
  next
    fix k assume "k \<in> {k. k < n \<and> k \<notin> P \<and> \<not> set (R k) \<subseteq> P \<and> set (R k) \<subseteq> ?P'}"
    then have k: "k < n" "0 < d ! k" "d' ! k = 0" using pos zero by auto
    then have "0 < int (count_list ?js k)" using nth by fastforce
    then have "k \<in> set ?js" by (metis count_notin of_nat_0 less_irrefl)
    then show "k \<in> set L" using L(3) k nth by auto
  qed
  have "set rs' = {k. k < n \<and> k \<notin> ?P' \<and> set (R k) \<subseteq> ?P'}"
    using ready L' rd(5,6) by (auto simp: L(1))
  moreover have "distinct rs'" using rd(1) L(2) ready L' by (auto simp: L(1))
  moreover have "length d' = n" using release_spec(1) [OF sub, of rs] len r by simp
  moreover have "\<forall>k<n. d' ! k = int (length (filter (\<lambda>j. j \<notin> ?P') (R k)))" using d'k by blast
  moreover have "?P' \<subseteq> {..<n}" using rd(3,4) by auto
  moreover have "\<forall>k\<in>?P'. set (R k) \<subseteq> ?P'" using P rd(6) by auto
  ultimately show ?thesis using r unfolding kahn_inv_def by blast
qed

lemma cycle_queue_correct:
  "wave_graph n R adj \<Longrightarrow> kahn_inv n R ready d P \<Longrightarrow> seen = card P \<Longrightarrow>
    (\<forall>k\<in>P. rank k < seen \<and> (\<forall>j\<in>set (R k). rank j < rank k)) \<Longrightarrow>
    \<exists>P' rank'. cycle_queue adj ready d seen = card P' \<and> P' \<subseteq> {..<n}
      \<and> {k. k < n \<and> k \<notin> P' \<and> set (R k) \<subseteq> P'} = {}
      \<and> (\<forall>k\<in>P'. \<forall>j\<in>set (R k). rank' j < (rank' k :: nat))"
proof (induction adj ready d seen arbitrary: P rank rule: cycle_queue.induct)
  case (1 adj d seen)
  then have "P \<subseteq> {..<n}" "{k. k < n \<and> k \<notin> P \<and> set (R k) \<subseteq> P} = {}" by (simp_all add: kahn_inv_def)
  then show ?case using 1 by (intro exI [of _ P] exI [of _ rank]) auto
next
  case (2 adj i rs d seen)
  obtain d' rs' where pop: "release (adj ! i) (d, rs) = (d', rs')" "kahn_inv n R rs' d' (insert i P)"
    using kahn_inv_pop [OF 2(2,3)] by blast
  have i: "i < n" "i \<notin> P" "set (R i) \<subseteq> P" "finite P" "\<forall>k\<in>P. set (R k) \<subseteq> P"
    using 2(3) by (auto simp: kahn_inv_def intro: finite_subset)
  let ?rank = "rank(i := seen)"
  have card: "Suc seen = card (insert i P)" using i 2(4) by simp
  have "\<forall>k\<in>insert i P. ?rank k < Suc seen \<and> (\<forall>j\<in>set (R k). ?rank j < ?rank k)"
  proof
    fix k assume "k \<in> insert i P"
    then show "?rank k < Suc seen \<and> (\<forall>j\<in>set (R k). ?rank j < ?rank k)"
      using 2(5) i by (cases "k = i") (auto simp: less_Suc_eq)
  qed
  from "2.IH" [OF pop(1) [symmetric] refl 2(2) pop(2) card this] pop(1) show ?case by simp
qed

definition flow_edge :: "('s, 'w) flow \<Rightarrow> nat \<Rightarrow> nat \<Rightarrow> bool" where
  "flow_edge f j k \<longleftrightarrow> j < length (fl_nodes f) \<and> k < length (fl_nodes f)
     \<and> fn_name (fl_nodes f ! j) \<in> set (fn_deps (fl_nodes f ! k))"

text \<open>\<open>index\<close> maps every step name to its position and knows every dependency.\<close>

definition flow_index :: "('s, 'w) flow \<Rightarrow> (string \<rightharpoonup> nat) \<Rightarrow> bool" where
  "flow_index f index \<longleftrightarrow>
     (\<forall>x j. index x = Some j \<longleftrightarrow> j < length (fl_nodes f) \<and> fn_name (fl_nodes f ! j) = x)
     \<and> (\<forall>n\<in>set (fl_nodes f). \<forall>d\<in>set (fn_deps n). index d \<noteq> None)"

lemma flow_index_known:
  assumes "flow_index f index" "m \<in> set (fl_nodes f)" "d \<in> set (fn_deps m)"
  obtains j where "index d = Some j" "j < length (fl_nodes f)" "fn_name (fl_nodes f ! j) = d"
proof -
  have "index d \<noteq> None" using assms unfolding flow_index_def by blast
  then obtain j where "index d = Some j" by auto
  with assms(1) that show thesis unfolding flow_index_def by blast
qed

lemma dep_indices_edges:
  assumes "flow_index f index" "k < length (fl_nodes f)"
  shows "set (dep_indices index (fl_nodes f ! k)) = {j. flow_edge f j k}"
proof -
  have "\<forall>d\<in>set (fn_deps (fl_nodes f ! k)). index d \<noteq> None"
    using flow_index_known [OF assms(1)] assms(2) by (metis nth_mem option.distinct(1))
  then have "j \<in> set (dep_indices index (fl_nodes f ! k)) \<longleftrightarrow> (\<exists>d\<in>set (fn_deps (fl_nodes f ! k)). index d = Some j)" for j
    by (force simp: dep_indices_def)
  then show ?thesis using assms by (auto simp: flow_index_def flow_edge_def)
qed

lemma detectCycle_None:
  assumes ix: "flow_index f index"
  shows "detectCycle index f = None \<longleftrightarrow> acyclic {(j, k). flow_edge f j k}"
proof -
  let ?n = "length (fl_nodes f)" and ?ns = "fl_nodes f"
  define R where "R = (\<lambda>k. dep_indices index (?ns ! k))"
  have R: "set (R k) = {j. flow_edge f j k}" if "k < ?n" for k
    using dep_indices_edges [OF ix that] by (simp add: R_def)
  have sub: "\<forall>n\<in>set ?ns. set (dep_indices index n) \<subseteq> {..<?n}"
  proof
    fix m assume "m \<in> set ?ns"
    then obtain k where "k < ?n" "?ns ! k = m" by (metis in_set_conv_nth)
    then show "set (dep_indices index m) \<subseteq> {..<?n}" using R [of k] by (auto simp: R_def flow_edge_def)
  qed
  obtain d a where e: "cycle_edges index 0 ?ns (replicate ?n 0, replicate ?n []) = (d, a)"
    "length d = ?n" "length a = ?n" "\<forall>k<?n. d ! k = int (length (R k))"
    "\<forall>j<?n. \<forall>k. count_list (a ! j) k = (if k < ?n then count_list (R k) j else 0)"
    using cycle_edges_spec [of 0 ?ns "replicate ?n 0" "replicate ?n []" index] sub
    by (auto simp: R_def)
  have range: "set (a ! j) \<subseteq> {..<?n}" if "j < ?n" for j
    using e(5) that count_list_0_iff [of "a ! j"] by (metis lessThan_iff subsetI)
  have g: "wave_graph ?n R a"
    using e range R by (auto simp: wave_graph_def flow_edge_def)
  let ?ready = "filter (\<lambda>i. d ! i = 0) [0..<?n]"
  have inv: "kahn_inv ?n R ?ready d {}" using e by (auto simp: kahn_inv_def)
  obtain P rank where P: "cycle_queue a ?ready d 0 = card P" "P \<subseteq> {..<?n}"
    "{k. k < ?n \<and> k \<notin> P \<and> set (R k) \<subseteq> P} = {}"
    "\<forall>k\<in>P. \<forall>j\<in>set (R k). rank j < (rank k :: nat)"
    using cycle_queue_correct [OF g inv, of 0 "\<lambda>_. 0"] by auto
  have "card P = ?n \<longleftrightarrow> P = {..<?n}"
    using P(2) card_subset_eq [of "{..<?n}" P] by auto
  then have "detectCycle index f = None \<longleftrightarrow> P = {..<?n}"
    using P(1) e(1) by (simp add: detectCycle_def Let_def)
  also have "\<dots> \<longleftrightarrow> acyclic {(j, k). flow_edge f j k}"
  proof
    assume "P = {..<?n}"
    then have "rank j < rank k" if "(j, k) \<in> {(j, k). flow_edge f j k}" for j k
      using P(4) R that by (auto simp: flow_edge_def)
    then show "acyclic {(j, k). flow_edge f j k}" by (rule strict_rank_acyclic)
  next
    assume ac: "acyclic {(j, k). flow_edge f j k}"
    show "P = {..<?n}"
    proof (rule ccontr)
      assume "P \<noteq> {..<?n}"
      then have U: "{..<?n} - P \<noteq> {}" using P(2) by auto
      have "\<exists>j\<in>{..<?n} - P. (j, k) \<in> {(j, k). flow_edge f j k}" if "k \<in> {..<?n} - P" for k
      proof -
        from that P(3) have "\<not> set (R k) \<subseteq> P" by blast
        then show ?thesis using R that by (auto simp: flow_edge_def)
      qed
      from no_pred_cycle [OF _ U this] ac show False by simp
    qed
  qed
  finally show ?thesis .
qed

definition flow_valid :: "('s, 'w) flow \<Rightarrow> bool" where
  "flow_valid f \<longleftrightarrow>
     distinct (map fn_name (fl_nodes f)) \<and> [] \<notin> fn_name ` set (fl_nodes f)
     \<and> (\<forall>n\<in>set (fl_nodes f). fn_step n \<noteq> None \<and> (fn_start n \<longrightarrow> fn_deps n = [])
          \<and> set (fn_deps n) \<subseteq> fn_name ` set (fl_nodes f))
     \<and> (\<exists>n\<in>set (fl_nodes f). fn_deps n = [])
     \<and> acyclic {(j, k). flow_edge f j k}"

lemma flow_index_of_nodes:
  assumes "validate_nodes 0 (fl_nodes f) Map.empty hs = Inr (index, hs')"
  shows "\<forall>x j. index x = Some j \<longleftrightarrow> j < length (fl_nodes f) \<and> fn_name (fl_nodes f ! j) = x"
proof (intro allI)
  fix x j
  note v = validate_nodes_Inr [OF assms]
  show "index x = Some j \<longleftrightarrow> j < length (fl_nodes f) \<and> fn_name (fl_nodes f ! j) = x"
  proof (cases "x \<in> fn_name ` set (fl_nodes f)")
    case True
    then obtain k where k: "k < length (fl_nodes f)" "fn_name (fl_nodes f ! k) = x"
      by (auto simp: in_set_conv_nth)
    then have "index x = Some k" using v by auto
    moreover have "k = j" if "j < length (fl_nodes f)" "fn_name (fl_nodes f ! j) = x"
      using v k that nth_eq_iff_index_eq [of "map fn_name (fl_nodes f)" k j] by simp
    ultimately show ?thesis using k by auto
  next
    case False
    then have "index x = None" using v by auto
    then show ?thesis using False by auto
  qed
qed

lemma flow_validate_Inr:
  assumes "flow_validate f = Inr index"
  shows "flow_index f index \<and> flow_valid f"
proof -
  obtain hs where v: "validate_nodes 0 (fl_nodes f) Map.empty False = Inr (index, hs)" "hs"
    "validate_edges index (fl_nodes f) = None" "detectCycle index f = None"
    using assms by (auto simp: flow_validate_def split: sum.splits option.splits if_splits prod.splits)
  note n = validate_nodes_Inr [OF v(1)]
  have ix: "flow_index f index"
    using flow_index_of_nodes [OF v(1)] v(3) by (auto simp: flow_index_def validate_edges_None)
  have "set (fn_deps m) \<subseteq> fn_name ` set (fl_nodes f)" if "m \<in> set (fl_nodes f)" for m
  proof
    fix d assume "d \<in> set (fn_deps m)"
    with ix that obtain j where "j < length (fl_nodes f)" "fn_name (fl_nodes f ! j) = d"
      by (rule flow_index_known)
    then show "d \<in> fn_name ` set (fl_nodes f)" by auto
  qed
  then show ?thesis
    using ix n v(2) detectCycle_None [OF ix] v(4) by (auto simp: flow_valid_def)
qed

lemma flow_validate_total:
  assumes "flow_valid f"
  shows "\<exists>index. flow_validate f = Inr index"
proof -
  obtain index hs where v: "validate_nodes 0 (fl_nodes f) Map.empty False = Inr (index, hs)"
    using validate_nodes_total [of "fl_nodes f" Map.empty 0 False] assms by (auto simp: flow_valid_def)
  note n = validate_nodes_Inr [OF v]
  have hs: hs using n assms by (auto simp: flow_valid_def)
  have known: "\<forall>m\<in>set (fl_nodes f). \<forall>d\<in>set (fn_deps m). index d \<noteq> None"
  proof (intro ballI)
    fix m d assume "m \<in> set (fl_nodes f)" "d \<in> set (fn_deps m)"
    then have "d \<in> fn_name ` set (fl_nodes f)" using assms by (auto simp: flow_valid_def)
    then obtain k where "k < length (fl_nodes f)" "fn_name (fl_nodes f ! k) = d"
      by (metis imageE in_set_conv_nth)
    moreover have "\<forall>k<length (fl_nodes f). index (fn_name (fl_nodes f ! k)) = Some (0 + k)" using n by blast
    ultimately show "index d \<noteq> None" by auto
  qed
  then have ix: "flow_index f index" using flow_index_of_nodes [OF v] by (auto simp: flow_index_def)
  have "fn_name m \<notin> set (fn_deps m)" if mem: "m \<in> set (fl_nodes f)" for m
  proof
    assume "fn_name m \<in> set (fn_deps m)"
    moreover obtain k where "k < length (fl_nodes f)" "fl_nodes f ! k = m" using mem by (metis in_set_conv_nth)
    ultimately have "(k, k) \<in> {(j, k). flow_edge f j k}" by (simp add: flow_edge_def)
    then show False using assms by (auto simp: flow_valid_def acyclic_def)
  qed
  then have "validate_edges index (fl_nodes f) = None"
    using known by (auto simp: validate_edges_None)
  moreover have "detectCycle index f = None"
    using detectCycle_None [OF ix] assms unfolding flow_valid_def by blast
  ultimately show ?thesis using v hs by (simp add: flow_validate_def)
qed

section \<open>Lemmas on rounds\<close>

definition at_name :: "(string \<rightharpoonup> nat) \<Rightarrow> string \<Rightarrow> nat" where
  "at_name index d = (case index d of None \<Rightarrow> 0 | Some j \<Rightarrow> j)"

text \<open>Dependency \<open>d\<close> has succeeded and, if it is a router, chose the step \<open>name\<close>.\<close>

definition dep_ok ::
  "('s, 'w) flow \<Rightarrow> (string \<rightharpoonup> nat) \<Rightarrow> flowStatus list \<Rightarrow> selection list \<Rightarrow> string \<Rightarrow> string \<Rightarrow> bool" where
  "dep_ok f index status sel name d \<longleftrightarrow> status ! at_name index d = stDone
     \<and> (fn_kind (fl_nodes f ! at_name index d) = kindRouter
          \<longrightarrow> (case sel ! at_name index d of None \<Rightarrow> False | Some names \<Rightarrow> name \<in> set names))"

definition enabled ::
  "('s, 'w) flow \<Rightarrow> (string \<rightharpoonup> nat) \<Rightarrow> flowStatus list \<Rightarrow> selection list \<Rightarrow> ('s, 'w) flowNode \<Rightarrow> bool" where
  "enabled f index status sel n \<longleftrightarrow> (\<forall>d\<in>set (fn_deps n). dep_ok f index status sel (fn_name n) d)"

definition finished :: "(string \<rightharpoonup> nat) \<Rightarrow> flowStatus list \<Rightarrow> ('s, 'w) flowNode \<Rightarrow> bool" where
  "finished index status n \<longleftrightarrow> (\<forall>d\<in>set (fn_deps n). status ! at_name index d \<noteq> stPending)"

lemma depsState_spec:
  "depsState f index status sel name ds ok gated =
     (if \<exists>d\<in>set ds. status ! at_name index d = stPending then (False, False, False)
      else (True, ok \<and> (\<forall>d\<in>set ds. status ! at_name index d = stDone),
            gated \<and> (\<forall>d\<in>set ds. status ! at_name index d = stDone \<longrightarrow> dep_ok f index status sel name d)))"
proof (induction ds arbitrary: ok gated)
  case (Cons d ds)
  show ?case
    by (cases "status ! at_name index d")
      (auto simp: Cons Let_def at_name_def [symmetric] dep_ok_def split: option.splits)
qed simp

lemma depsState_node:
  "depsState f index status sel (fn_name n) (fn_deps n) True True = (fin, ok, gated) \<Longrightarrow>
   fin = finished index status n \<and> (fin \<longrightarrow> (ok \<and> gated) = enabled f index status sel n)"
proof -
  assume "depsState f index status sel (fn_name n) (fn_deps n) True True = (fin, ok, gated)"
  note eq = this [unfolded depsState_spec]
  have enabled: "enabled f index status sel n \<longleftrightarrow> (\<forall>d\<in>set (fn_deps n). status ! at_name index d = stDone)
      \<and> (\<forall>d\<in>set (fn_deps n). status ! at_name index d = stDone \<longrightarrow> dep_ok f index status sel (fn_name n) d)"
    unfolding enabled_def using dep_ok_def by blast
  show ?thesis
  proof (cases "finished index status n")
    case True
    then have no: "\<not> (\<exists>d\<in>set (fn_deps n). status ! at_name index d = stPending)" unfolding finished_def by blast
    from eq [unfolded if_not_P [OF no]] True enabled show ?thesis by simp
  next
    case False
    then have ex: "\<exists>d\<in>set (fn_deps n). status ! at_name index d = stPending" unfolding finished_def by blast
    from eq [unfolded if_P [OF ex]] False show ?thesis by simp
  qed
qed

lemma collect_from_spec:
  "collect_from f index status sel i ns = (ready, skip) \<Longrightarrow>
   distinct ready \<and> distinct skip
   \<and> (\<forall>k. k \<in> set ready \<longleftrightarrow> i \<le> k \<and> k < i + length ns \<and> status ! k = stPending
        \<and> finished index status (ns ! (k - i)) \<and> enabled f index status sel (ns ! (k - i)))
   \<and> (\<forall>k. k \<in> set skip \<longleftrightarrow> i \<le> k \<and> k < i + length ns \<and> status ! k = stPending
        \<and> finished index status (ns ! (k - i)) \<and> \<not> enabled f index status sel (ns ! (k - i)))"
proof (induction ns arbitrary: i ready skip)
  case (Cons n ns)
  obtain r s where rs: "collect_from f index status sel (Suc i) ns = (r, s)" by fastforce
  obtain fin ok gated where d: "depsState f index status sel (fn_name n) (fn_deps n) True True = (fin, ok, gated)"
    using prod_cases3 by blast
  note IH = Cons.IH [OF rs] and dn = depsState_node [OF d]
  have sel: "(n # ns) ! (k - i) = (if k = i then n else ns ! (k - Suc i))" if "i \<le> k" for k
    using that by (auto simp: nth_Cons' Suc_diff_le)
  have range: "i \<le> k \<and> k < i + length (n # ns) \<longleftrightarrow> k = i \<or> Suc i \<le> k \<and> k < Suc i + length ns" for k
    by auto
  have out: "ready = (if status ! i = stPending \<and> fin \<and> ok \<and> gated then i # r else r)"
    "skip = (if status ! i = stPending \<and> fin \<and> \<not> (ok \<and> gated) then i # s else s)"
    using Cons.prems
    by (cases "status ! i = stPending"; cases fin; cases ok; cases gated; simp add: rs d Let_def)+
  have fin: "fin = finished index status n" and en: "fin \<Longrightarrow> (ok \<and> gated) = enabled f index status sel n"
    using dn by simp_all
  have ready: "k \<in> set ready \<longleftrightarrow> i \<le> k \<and> k < i + length (n # ns) \<and> status ! k = stPending
      \<and> finished index status ((n # ns) ! (k - i)) \<and> enabled f index status sel ((n # ns) ! (k - i))" for k
    using IH range [of k] sel [of k] en unfolding out fin by (cases "k = i"; cases "Suc i \<le> k"; simp; blast)
  have skip: "k \<in> set skip \<longleftrightarrow> i \<le> k \<and> k < i + length (n # ns) \<and> status ! k = stPending
      \<and> finished index status ((n # ns) ! (k - i)) \<and> \<not> enabled f index status sel ((n # ns) ! (k - i))" for k
    using IH range [of k] sel [of k] en unfolding out fin by (cases "k = i"; cases "Suc i \<le> k"; simp; blast)
  have "distinct ready" "distinct skip" using IH out by auto
  with ready skip show ?case by blast
qed auto

lemma collectReady_spec:
  assumes "collectReady f index status sel = (ready, skip)"
  shows "distinct ready" "distinct skip"
    "k \<in> set ready \<longleftrightarrow> k < length (fl_nodes f) \<and> status ! k = stPending
       \<and> finished index status (fl_nodes f ! k) \<and> enabled f index status sel (fl_nodes f ! k)"
    "k \<in> set skip \<longleftrightarrow> k < length (fl_nodes f) \<and> status ! k = stPending
       \<and> finished index status (fl_nodes f ! k) \<and> \<not> enabled f index status sel (fl_nodes f ! k)"
  using collect_from_spec [OF assms [unfolded collectReady_def]] by auto

text \<open>
  The invariant of the rounds. \<open>L\<close> lists the steps in the order they were traced.
\<close>

definition deps_before ::
  "('s, 'w) flow \<Rightarrow> (string \<rightharpoonup> nat) \<Rightarrow> flowStatus list \<Rightarrow> selection list \<Rightarrow> nat list \<Rightarrow> nat \<Rightarrow> bool" where
  "deps_before f index status sel L i \<longleftrightarrow>
     (status ! i \<noteq> stSkipped \<longrightarrow> (\<forall>d\<in>set (fn_deps (fl_nodes f ! i)). at_name index d \<in> set L
        \<and> dep_ok f index status sel (fn_name (fl_nodes f ! i)) d))"

definition flow_inv ::
  "('s, 'w) flow \<Rightarrow> (string \<rightharpoonup> nat) \<Rightarrow> 'w foldState \<Rightarrow> nat list \<Rightarrow> bool" where
  "flow_inv f index st L \<longleftrightarrow>
     length (fs_status st) = length (fl_nodes f) \<and> length (fs_sel st) = length (fl_nodes f)
     \<and> map ft_Name (fs_traces st) = map (\<lambda>i. fn_name (fl_nodes f ! i)) L
     \<and> map ft_Skipped (fs_traces st) = map (\<lambda>i. fs_status st ! i = stSkipped) L
     \<and> distinct L \<and> set L \<subseteq> {..<length (fl_nodes f)}
     \<and> (\<forall>i\<in>set L. fs_status st ! i \<noteq> stPending)
     \<and> (\<forall>k<length L. deps_before f index (fs_status st) (fs_sel st) (take k L) (L ! k))
     \<and> (\<forall>i<length (fl_nodes f). (fs_errs st (fn_name (fl_nodes f ! i)) \<noteq> None) = (fs_status st ! i = stFailed))"

lemma all_prefix_append:
  "(\<forall>k<length (L @ [i]). P (take k (L @ [i])) ((L @ [i]) ! k)) \<longleftrightarrow> (\<forall>k<length L. P (take k L) (L ! k)) \<and> P L i"
  by (simp add: All_less_Suc nth_append) auto

lemma dep_ok_other:
  "at_name index d \<noteq> i \<Longrightarrow> dep_ok f index (status[i := x]) (sel[i := y]) name d = dep_ok f index status sel name d"
  by (simp add: dep_ok_def)

lemma deps_before_other:
  "i \<notin> set L \<Longrightarrow> j \<noteq> i \<Longrightarrow> deps_before f index status sel L j \<Longrightarrow>
   deps_before f index (status[i := x]) (sel[i := y]) L j"
  unfolding deps_before_def by (metis dep_ok_other nth_list_update_neq)

text \<open>What one iteration of the fold does to the state.\<close>

lemma fold_step_skip:
  "i \<in> set skip \<Longrightarrow> fold_step ctx f index ready skip out i st =
     st\<lparr>fs_traces := fs_traces st @ [\<lparr>ft_Name = fn_name (fl_nodes f ! i), ft_Err = [], ft_Skipped = True\<rparr>]\<rparr>"
  by (simp add: fold_step_def Let_def)

lemma fold_step_run:
  assumes "i \<notin> set skip"
  shows "\<exists>x y msg e. (x = stDone \<and> fs_errs (fold_step ctx f index ready skip out i st) = fs_errs st
         \<or> x = stFailed \<and> fs_errs (fold_step ctx f index ready skip out i st) = (fs_errs st)(fn_name (fl_nodes f ! i) \<mapsto> e)
           \<and> fs_first (fold_step ctx f index ready skip out i st) \<noteq> None)
     \<and> fs_status (fold_step ctx f index ready skip out i st) = (fs_status st)[i := x]
     \<and> fs_sel (fold_step ctx f index ready skip out i st) = (fs_sel st)[i := y]
     \<and> fs_traces (fold_step ctx f index ready skip out i st)
         = fs_traces st @ [\<lparr>ft_Name = fn_name (fl_nodes f ! i), ft_Err = msg, ft_Skipped = False\<rparr>]"
proof -
  let ?n = "fl_nodes f ! i"
  let ?o = "out ! length (takeWhile (\<lambda>j. j \<noteq> i) ready)"
  show ?thesis
  proof (cases "so_err ?o")
    case (Some e)
    then show ?thesis using assms
      by (intro exI [of _ stFailed] exI [of _ "fs_sel st ! i"] exI [of _ "redactString (error_text e)"] exI [of _ e])
        (simp add: fold_step_def Let_def fold_failed_def)
  next
    case None
    show ?thesis
    proof (cases "fn_kind ?n = kindRouter")
      case False
      then show ?thesis using assms None
        by (intro exI [of _ stDone] exI [of _ "fs_sel st ! i"] exI [of _ "[]"]) (simp add: fold_step_def Let_def)
    next
      case True
      show ?thesis
      proof (cases "check_route f index (fn_name ?n) (so_route ?o) []")
        case (Inl e)
        then show ?thesis using assms None True
          by (intro exI [of _ stFailed] exI [of _ None] exI [of _ "redactString (error_text e)"] exI [of _ e])
            (simp add: fold_step_def Let_def fold_failed_def)
      next
        case (Inr sel)
        then show ?thesis using assms None True
          by (intro exI [of _ stDone] exI [of _ "Some sel"] exI [of _ "[]"]) (simp add: fold_step_def Let_def)
      qed
    qed
  qed
qed

lemma fold_step_first: "fs_first st \<noteq> None \<Longrightarrow> fs_first (fold_step ctx f index ready skip out i st) \<noteq> None"
  by (simp add: fold_step_def Let_def fold_failed_def split: option.splits sum.splits)

lemma fold_step_status:
  "k \<noteq> i \<Longrightarrow> fs_status (fold_step ctx f index ready skip out i st) ! k = fs_status st ! k"
  by (cases "i \<in> set skip") (use fold_step_run [of i skip ctx f index ready out st] in \<open>auto simp: fold_step_skip\<close>)

lemma fold_steps_status:
  "k \<notin> set xs \<Longrightarrow> fs_status (fold (fold_step ctx f index ready skip out) xs st) ! k = fs_status st ! k"
  by (induction xs arbitrary: st) (simp_all add: fold_step_status)

lemma fold_steps_first:
  "fs_first st \<noteq> None \<Longrightarrow> fs_first (fold (fold_step ctx f index ready skip out) xs st) \<noteq> None"
proof (induction xs arbitrary: st)
  case (Cons x xs)
  show ?case using Cons.IH [OF fold_step_first [OF Cons.prems]] by simp
qed simp

text \<open>\<open>traceable st L i\<close>: step \<open>i\<close> may be traced after the steps \<open>L\<close>.\<close>

definition traceable ::
  "('s, 'w) flow \<Rightarrow> (string \<rightharpoonup> nat) \<Rightarrow> nat list \<Rightarrow> 'w foldState \<Rightarrow> nat list \<Rightarrow> nat \<Rightarrow> bool" where
  "traceable f index skip st L i \<longleftrightarrow>
     i < length (fl_nodes f)
     \<and> (if i \<in> set skip then fs_status st ! i = stSkipped
        else fs_status st ! i = stPending
          \<and> (\<forall>d\<in>set (fn_deps (fl_nodes f ! i)). at_name index d \<in> set L
               \<and> dep_ok f index (fs_status st) (fs_sel st) (fn_name (fl_nodes f ! i)) d))"

lemma flow_inv_skip:
  assumes inv: "flow_inv f index st L" and new: "i \<notin> set L" "i \<in> set skip" "traceable f index skip st L i"
  shows "flow_inv f index (fold_step ctx f index ready skip out i st) (L @ [i])"
proof -
  have st: "i < length (fl_nodes f)" "fs_status st ! i = stSkipped" using new by (auto simp: traceable_def)
  then have "deps_before f index (fs_status st) (fs_sel st) L i" by (simp add: deps_before_def)
  with inv st new(1) show ?thesis
    unfolding flow_inv_def all_prefix_append fold_step_skip [OF new(2)] by simp
qed

lemma flow_inv_run:
  assumes names: "distinct (map fn_name (fl_nodes f))"
    and inv: "flow_inv f index st L" and new: "i \<notin> set L" "i \<notin> set skip" "traceable f index skip st L i"
  shows "flow_inv f index (fold_step ctx f index ready skip out i st) (L @ [i])"
proof -
  let ?st = "fold_step ctx f index ready skip out i st"
  obtain x y msg e where x: "x = stDone \<and> fs_errs ?st = fs_errs st
       \<or> x = stFailed \<and> fs_errs ?st = (fs_errs st)(fn_name (fl_nodes f ! i) \<mapsto> e)"
    and eq: "fs_status ?st = (fs_status st)[i := x]" "fs_sel ?st = (fs_sel st)[i := y]"
      "fs_traces ?st = fs_traces st @ [\<lparr>ft_Name = fn_name (fl_nodes f ! i), ft_Err = msg, ft_Skipped = False\<rparr>]"
    using fold_step_run [OF new(2), of ctx f index ready out st] by blast
  have st: "i < length (fl_nodes f)" "fs_status st ! i = stPending"
    "\<forall>d\<in>set (fn_deps (fl_nodes f ! i)). at_name index d \<in> set L
       \<and> dep_ok f index (fs_status st) (fs_sel st) (fn_name (fl_nodes f ! i)) d"
    using new(2,3) by (auto simp: traceable_def)
  have len: "length (fs_status st) = length (fl_nodes f)" using inv by (simp add: flow_inv_def)
  have other: "\<forall>j\<in>set L. (fs_status st)[i := x] ! j = fs_status st ! j" using new(1) by (metis nth_list_update_neq)
  have self: "(fs_status st)[i := x] ! i = x" using st(1) len by simp
  have xs: "x \<noteq> stPending" "x \<noteq> stSkipped" using x by auto
  have "deps_before f index ((fs_status st)[i := x]) ((fs_sel st)[i := y]) L i"
    using st(3) new(1) unfolding deps_before_def by (metis dep_ok_other)
  moreover have "\<forall>k<length L. deps_before f index ((fs_status st)[i := x]) ((fs_sel st)[i := y]) (take k L) (L ! k)"
  proof (intro allI impI)
    fix k assume k: "k < length L"
    have "i \<notin> set (take k L)" using new(1) by (meson in_set_takeD)
    moreover have "L ! k \<noteq> i" using new(1) k by auto
    ultimately show "deps_before f index ((fs_status st)[i := x]) ((fs_sel st)[i := y]) (take k L) (L ! k)"
      using inv k by (intro deps_before_other) (simp_all add: flow_inv_def)
  qed
  ultimately have deps: "\<forall>k<length (L @ [i]).
      deps_before f index ((fs_status st)[i := x]) ((fs_sel st)[i := y]) (take k (L @ [i])) ((L @ [i]) ! k)"
    unfolding all_prefix_append by blast
  have errs: "(fs_errs ?st (fn_name (fl_nodes f ! j)) \<noteq> None) = ((fs_status st)[i := x] ! j = stFailed)"
    if j: "j < length (fl_nodes f)" for j
  proof (cases "j = i")
    case True
    have "(fs_errs st (fn_name (fl_nodes f ! i)) \<noteq> None) = (fs_status st ! i = stFailed)"
      using inv st(1) by (simp add: flow_inv_def)
    then show ?thesis using True x self st(2) by auto
  next
    case False
    then have "fn_name (fl_nodes f ! j) \<noteq> fn_name (fl_nodes f ! i)"
      using names j st(1) nth_eq_iff_index_eq [of "map fn_name (fl_nodes f)" j i] by simp
    then show ?thesis using inv j x False by (auto simp: flow_inv_def)
  qed
  have "map ft_Name (fs_traces ?st) = map (\<lambda>i. fn_name (fl_nodes f ! i)) (L @ [i])"
    "map ft_Skipped (fs_traces ?st) = map (\<lambda>j. (fs_status st)[i := x] ! j = stSkipped) (L @ [i])"
    using inv eq other self xs by (simp_all add: flow_inv_def cong: map_cong)
  with deps errs inv eq(1,2) other self xs st(1) new(1) show ?thesis
    unfolding flow_inv_def by simp
qed

lemma fold_steps_inv:
  assumes "distinct (map fn_name (fl_nodes f))" "flow_inv f index st L" "distinct xs" "set xs \<inter> set L = {}"
    "\<forall>i\<in>set xs. traceable f index skip st L i"
  shows "flow_inv f index (fold (fold_step ctx f index ready skip out) xs st) (L @ xs)"
  using assms(2-)
proof (induction xs arbitrary: st L)
  case (Cons i xs)
  let ?st = "fold_step ctx f index ready skip out i st"
  have new: "i \<notin> set L" "traceable f index skip st L i" using Cons.prems by auto
  have inv: "flow_inv f index ?st (L @ [i])"
    using flow_inv_skip [OF Cons.prems(1) new(1) _ new(2)] flow_inv_run [OF assms(1) Cons.prems(1) new(1) _ new(2)]
    by (cases "i \<in> set skip") auto
  have "traceable f index skip ?st (L @ [i]) j" if j: "j \<in> set xs" for j
  proof -
    have "j \<noteq> i" "traceable f index skip st L j" using Cons.prems j by auto
    moreover have "dep_ok f index (fs_status ?st) (fs_sel ?st) name d"
      if "at_name index d \<in> set L" "dep_ok f index (fs_status st) (fs_sel st) name d" for name d
    proof (cases "i \<in> set skip")
      case True then show ?thesis using that by (simp add: fold_step_skip)
    next
      case False
      have "at_name index d \<noteq> i" using that(1) new(1) by auto
      then show ?thesis using that(2) fold_step_run [OF False, of ctx f index ready out st]
        by (auto simp: dep_ok_def)
    qed
    ultimately show ?thesis by (simp add: traceable_def fold_step_status)
  qed
  then have "\<forall>j\<in>set xs. traceable f index skip ?st (L @ [i]) j" by blast
  then have "flow_inv f index (fold (fold_step ctx f index ready skip out) xs ?st) ((L @ [i]) @ xs)"
    by (intro Cons.IH [OF inv]) (use Cons.prems in auto)
  then show ?case by simp
qed simp

lemma flow_inv_upd [simp]:
  "flow_inv f index (st\<lparr>fs_world := w\<rparr>) L = flow_inv f index st L"
  "flow_inv f index (st\<lparr>fs_first := e\<rparr>) L = flow_inv f index st L"
  by (simp_all add: flow_inv_def)

lemma traceable_upd [simp]:
  "traceable f index skip (st\<lparr>fs_world := w\<rparr>) L i = traceable f index skip st L i"
  "traceable f index skip (st\<lparr>fs_first := e\<rparr>) L i = traceable f index skip st L i"
  by (simp_all add: traceable_def)

lemma nth_mark:
  "fold (\<lambda>i xs. xs[i := v]) js xs ! k = (if k \<in> set js \<and> k < length xs then v else xs ! k)"
proof (induction js arbitrary: xs)
  case (Cons j js)
  then show ?case by (cases "j = k"; cases "k < length xs") (simp_all add: list_update_beyond)
qed simp

lemma length_mark [simp]: "length (fold (\<lambda>i xs. xs[i := v]) js xs) = length xs"
  by (induction js arbitrary: xs) simp_all

lemma flow_inv_mark:
  assumes "flow_inv f index st L" "set skip \<subseteq> {k. k < length (fl_nodes f) \<and> fs_status st ! k = stPending}"
  shows "flow_inv f index (st\<lparr>fs_status := fold (\<lambda>i xs. xs[i := stSkipped]) skip (fs_status st)\<rparr>) L"
proof -
  let ?s = "fold (\<lambda>i xs. xs[i := stSkipped]) skip (fs_status st)"
  have disj: "k \<notin> set skip" if "k \<in> set L" for k using assms that by (auto simp: flow_inv_def)
  then have same: "\<forall>k\<in>set L. ?s ! k = fs_status st ! k" by (simp add: nth_mark)
  have "deps_before f index ?s (fs_sel st) (take k L) (L ! k)" if k: "k < length L" for k
  proof -
    have "\<forall>j\<in>set (take k L). ?s ! j = fs_status st ! j" using same in_set_takeD by fast
    then show ?thesis using assms(1) k same unfolding flow_inv_def deps_before_def dep_ok_def by simp
  qed
  moreover have "(fs_errs st (fn_name (fl_nodes f ! i)) \<noteq> None) = (?s ! i = stFailed)"
    if "i < length (fl_nodes f)" for i
    using assms that by (auto simp: flow_inv_def nth_mark)
  ultimately show ?thesis using assms(1) same by (simp add: flow_inv_def cong: map_cong)
qed

text \<open>Every step that is settled has been traced: the state between two rounds.\<close>

definition settled :: "('s, 'w) flow \<Rightarrow> 'w foldState \<Rightarrow> nat list \<Rightarrow> bool" where
  "settled f st L \<longleftrightarrow> (\<forall>k<length (fl_nodes f). fs_status st ! k \<noteq> stPending \<longrightarrow> k \<in> set L)"

lemma at_name_less:
  assumes "flow_index f index" "n \<in> set (fl_nodes f)" "d \<in> set (fn_deps n)"
  shows "at_name index d < length (fl_nodes f) \<and> fn_name (fl_nodes f ! at_name index d) = d"
  using flow_index_known [OF assms] by (metis assms(1) at_name_def flow_index_def option.simps(5))

lemma flow_round:
  assumes ix: "flow_index f index" and names: "distinct (map fn_name (fl_nodes f))"
    and inv: "flow_inv f index st L" and set: "settled f st L"
    and c: "collectReady f index (fs_status st) (fs_sel st) = (ready, skip)"
  shows "flow_inv f index (foldWave ctx f index ready skip out
           (st\<lparr>fs_status := fold (\<lambda>i xs. xs[i := stSkipped]) skip (fs_status st), fs_world := w\<rparr>))
           (L @ sort (skip @ ready))
     \<and> settled f (foldWave ctx f index ready skip out
           (st\<lparr>fs_status := fold (\<lambda>i xs. xs[i := stSkipped]) skip (fs_status st), fs_world := w\<rparr>))
           (L @ sort (skip @ ready))"
proof -
  note spec = collectReady_spec [OF c]
  let ?s = "fold (\<lambda>i xs. xs[i := stSkipped]) skip (fs_status st)"
  let ?st = "st\<lparr>fs_status := ?s, fs_world := w\<rparr>"
  have len: "length (fs_status st) = length (fl_nodes f)" using inv by (simp add: flow_inv_def)
  have disj: "set skip \<inter> set ready = {}" using spec(3,4) by blast
  have notL: "k \<notin> set L" if "k \<in> set (skip @ ready)" for k
    using that spec(3,4) inv by (auto simp: flow_inv_def)
  have "flow_inv f index (st\<lparr>fs_status := ?s\<rparr>) L" using flow_inv_mark [OF inv] spec(4) by blast
  then have inv1: "flow_inv f index (?st\<lparr>fs_first := None\<rparr>) L" by simp
  have tr: "traceable f index skip (?st\<lparr>fs_first := None\<rparr>) L i" if i: "i \<in> set (skip @ ready)" for i
  proof (cases "i \<in> set skip")
    case True then show ?thesis using spec(4) [of i] len by (simp add: traceable_def nth_mark)
  next
    case False
    then have r: "i \<in> set ready" using i by simp
    then have i: "i < length (fl_nodes f)" "fs_status st ! i = stPending" "finished index (fs_status st) (fl_nodes f ! i)"
      "enabled f index (fs_status st) (fs_sel st) (fl_nodes f ! i)" using spec(3) by blast+
    have "at_name index d \<in> set L \<and> dep_ok f index ?s (fs_sel st) (fn_name (fl_nodes f ! i)) d"
      if d: "d \<in> set (fn_deps (fl_nodes f ! i))" for d
    proof -
      have "at_name index d \<in> set L"
        using at_name_less [OF ix _ d] i(1,3) d set unfolding finished_def settled_def by auto
      moreover then have "at_name index d \<notin> set skip" using notL by auto
      moreover have "dep_ok f index (fs_status st) (fs_sel st) (fn_name (fl_nodes f ! i)) d"
        using i(4) d by (simp add: enabled_def)
      ultimately show ?thesis by (simp add: dep_ok_def nth_mark)
    qed
    then show ?thesis using i False by (simp add: traceable_def nth_mark)
  qed
  have "flow_inv f index (foldWave ctx f index ready skip out ?st) (L @ sort (skip @ ready))"
    unfolding foldWave_def
  proof (rule fold_steps_inv [OF names inv1])
    show "distinct (sort (skip @ ready))" using spec(1,2) disj by simp
  qed (use notL tr in \<open>simp_all, blast\<close>)
  moreover have "settled f (foldWave ctx f index ready skip out ?st) (L @ sort (skip @ ready))"
    unfolding settled_def
  proof (intro allI impI)
    fix k assume k: "k < length (fl_nodes f)" and p: "fs_status (foldWave ctx f index ready skip out ?st) ! k \<noteq> stPending"
    show "k \<in> set (L @ sort (skip @ ready))"
    proof (cases "k \<in> set (skip @ ready)")
      case False
      then have "fs_status (foldWave ctx f index ready skip out ?st) ! k = ?s ! k"
        by (simp add: foldWave_def fold_steps_status)
      then have "fs_status st ! k \<noteq> stPending" using p False by (simp add: nth_mark)
      then show ?thesis using set k by (simp add: settled_def)
    qed simp
  qed
  ultimately show ?thesis by blast
qed

definition failed :: "'w foldState \<Rightarrow> nat set" where
  "failed st = {k. k < length (fs_status st) \<and> fs_status st ! k = stFailed}"

lemma failed_done: "k < length xs \<Longrightarrow> xs[i := stDone] ! k = stFailed \<Longrightarrow> xs ! k = stFailed"
  by (cases "k = i") simp_all

lemma fold_steps_no_failure:
  "fs_first (fold (fold_step ctx f index ready skip out) xs st) = None \<Longrightarrow>
   failed (fold (fold_step ctx f index ready skip out) xs st) \<subseteq> failed st"
proof (induction xs arbitrary: st)
  case (Cons i xs)
  let ?st = "fold_step ctx f index ready skip out i st"
  have "failed (fold (fold_step ctx f index ready skip out) xs ?st) \<subseteq> failed ?st"
    using Cons.IH [of ?st] Cons.prems by simp
  moreover have "failed ?st \<subseteq> failed st"
  proof (cases "i \<in> set skip")
    case True then show ?thesis by (simp add: fold_step_skip failed_def)
  next
    case False
    have first: "fs_first ?st = None" using fold_steps_first [of ?st ctx f index ready skip out xs] Cons.prems by fastforce
    show ?thesis
      using fold_step_run [OF False, of ctx f index ready out st] first
        failed_done [of _ "fs_status st" i] by (auto simp: failed_def)
  qed
  ultimately show ?case by simp
qed simp

text \<open>A round with nothing to run and nothing to skip means that no step is left.\<close>

lemma nothing_left:
  assumes ix: "flow_index f index" and ac: "acyclic {(j, k). flow_edge f j k}"
    and c: "collectReady f index (fs_status st) (fs_sel st) = ([], [])"
  shows "\<forall>k<length (fl_nodes f). fs_status st ! k \<noteq> stPending"
proof (rule ccontr)
  let ?U = "{k. k < length (fl_nodes f) \<and> fs_status st ! k = stPending}"
  assume "\<not> (\<forall>k<length (fl_nodes f). fs_status st ! k \<noteq> stPending)"
  then have U: "?U \<noteq> {}" by auto
  have "\<exists>j\<in>?U. (j, k) \<in> {(j, k). flow_edge f j k}" if k: "k \<in> ?U" for k
  proof -
    have "\<not> finished index (fs_status st) (fl_nodes f ! k)"
      using collectReady_spec(3,4) [OF c, of k] k by auto
    then obtain d where d: "d \<in> set (fn_deps (fl_nodes f ! k))" "fs_status st ! at_name index d = stPending"
      by (auto simp: finished_def)
    then show ?thesis using at_name_less [OF ix _ d(1)] k
      by (intro bexI [of _ "at_name index d"]) (simp_all add: flow_edge_def)
  qed
  from no_pred_cycle [OF _ U this] ac show False by simp
qed

definition all_traced :: "('s, 'w) flow \<Rightarrow> nat list \<Rightarrow> bool" where
  "all_traced f L \<longleftrightarrow> set L = {..<length (fl_nodes f)}"

lemma flow_rounds_spec:
  assumes ix: "flow_index f index" and val: "flow_valid f"
  shows "flow_inv f index st L \<Longrightarrow> settled f st L \<Longrightarrow> length (fl_nodes f) < fuel + length L \<Longrightarrow>
    \<exists>s' st' e L'. flow_rounds ctx f index ords fuel s st runErr = Some (s', st', e)
      \<and> flow_inv f index st' L'
      \<and> (\<not> fl_continueOnError f \<and> e = None \<longrightarrow> all_traced f L' \<and> failed st' \<subseteq> failed st)
      \<and> (fl_continueOnError f \<and> (\<forall>w. cx_err ctx w = None) \<longrightarrow> all_traced f L')"
proof (induction fuel arbitrary: s st runErr L)
  case 0
  then have "card (set L) \<le> card {..<length (fl_nodes f)}" "distinct L"
    unfolding flow_inv_def by (blast intro: card_mono)+
  then show ?case using 0(3) by (simp add: distinct_card)
next
  case (Suc fuel)
  note unfold = flow_rounds.simps [of ctx f index ords "Suc fuel" s st runErr]
  show ?case
  proof (cases "cx_err ctx (fs_world st)")
    case (Some e)
    then show ?thesis using Suc.prems(1) by (auto simp: unfold)
  next
    case None
    obtain ready skip where c: "collectReady f index (fs_status st) (fs_sel st) = (ready, skip)" by fastforce
    show ?thesis
    proof (cases "ready = [] \<and> skip = []")
      case True
      have "\<forall>k<length (fl_nodes f). fs_status st ! k \<noteq> stPending"
        using nothing_left [OF ix] val c True by (simp add: flow_valid_def)
      then have "all_traced f L"
        using Suc.prems(1,2) unfolding flow_inv_def settled_def all_traced_def by auto
      then show ?thesis using Suc.prems(1) True None c by (auto simp: unfold)
    next
      case False
      define st1 where "st1 = st\<lparr>fs_status := fold (\<lambda>i xs. xs[i := stSkipped]) skip (fs_status st)\<rparr>"
      obtain s2 w out where run: "(if ready = [] then (s, fs_world st1, [])
          else flow_runWave ctx f (ords fuel) ready (s, fs_world st1)) = (s2, w, out)" using prod_cases3 by blast
      define st2 where "st2 = foldWave ctx f index ready skip out (st1\<lparr>fs_world := w\<rparr>)"
      have step: "flow_rounds ctx f index ords (Suc fuel) s st runErr =
          (if fs_first st2 \<noteq> None \<and> \<not> fl_continueOnError f then Some (s2, st2, fs_first st2)
           else flow_rounds ctx f index ords fuel s2 st2
             (if fs_first st2 \<noteq> None \<and> runErr = None then fs_first st2 else runErr))"
        by (simp only: unfold nat.case option.case None c prod.case if_not_P [OF False] Let_def
            run [unfolded st1_def] st1_def st2_def)
      have inv: "flow_inv f index st2 (L @ sort (skip @ ready))" "settled f st2 (L @ sort (skip @ ready))"
        using flow_round [OF ix _ Suc.prems(1,2) c, of ctx out w] val
        by (simp_all add: st2_def st1_def flow_valid_def)
      have mark: "failed (st1\<lparr>fs_world := w, fs_first := None\<rparr>) \<subseteq> failed st"
        by (auto simp: failed_def st1_def nth_mark split: if_splits)
      have fl: "failed st2 \<subseteq> failed st" if "fs_first st2 = None"
        using that unfolding st2_def foldWave_def by (rule order_trans [OF fold_steps_no_failure mark])
      have "length (fl_nodes f) < fuel + length (L @ sort (skip @ ready))"
        using Suc.prems(3) False by (cases ready; cases skip) auto
      from Suc.IH [OF inv this] obtain s' st' e L' where IH:
        "flow_rounds ctx f index ords fuel s2 st2
           (if fs_first st2 \<noteq> None \<and> runErr = None then fs_first st2 else runErr) = Some (s', st', e)"
        "flow_inv f index st' L'"
        "\<not> fl_continueOnError f \<and> e = None \<longrightarrow> all_traced f L' \<and> failed st' \<subseteq> failed st2"
        "fl_continueOnError f \<and> (\<forall>w. cx_err ctx w = None) \<longrightarrow> all_traced f L'"
        by blast
      show ?thesis
      proof (cases "fs_first st2 \<noteq> None \<and> \<not> fl_continueOnError f")
        case True then show ?thesis using step inv(1) by auto
      next
        case go: False
        then show ?thesis using step IH fl
          by (intro exI [of _ s'] exI [of _ st'] exI [of _ e] exI [of _ L']) auto
      qed
    qed
  qed
qed

section \<open>Properties\<close>

lemma cx_err_flow [simp]: "cx_err (ContextWithEvents (ContextWithKickoffID ctx kid) ev) = cx_err ctx"
  by (simp add: ContextWithEvents_def ContextWithKickoffID_def split: option.split)

lemma flow_init_inv: "flow_inv f index (flow_init f w) []" "settled f (flow_init f w) []" "failed (flow_init f w) = {}"
  by (auto simp: flow_init_def flow_inv_def settled_def failed_def Let_def)

text \<open>The rounds of a run, with everything the properties need.\<close>

lemma flow_Run_rounds:
  assumes run: "flow_Run running kid ords ctx f s w = Some (w', Some res, e)"
  obtains index st L e' where "flow_index f index" "flow_valid f" "flow_inv f index st L"
    "fr_Steps res = fs_traces st" "fr_Errors res = fs_errs st" "e = (if fl_continueOnError f then None else e')"
    "\<not> fl_continueOnError f \<and> e' = None \<longrightarrow> all_traced f L \<and> failed st = {}"
    "fl_continueOnError f \<and> (\<forall>w. cx_err ctx w = None) \<longrightarrow> all_traced f L"
proof -
  obtain index where v: "flow_validate f = Inr index"
    using run by (cases "flow_validate f") (auto simp: flow_Run_def split: if_splits)
  note ix = flow_validate_Inr [OF v]
  let ?ctx = "ContextWithEvents (ContextWithKickoffID ctx kid) (fl_events f)"
  let ?w = "emitEvent ?ctx ((event EventFlowStarted)\<lparr>ev_KickoffID := kid\<rparr>) w"
  obtain s' st e' L where r: "flow_rounds ?ctx f index ords (Suc (length (fl_nodes f))) s (flow_init f ?w) None = Some (s', st, e')"
    "flow_inv f index st L" "\<not> fl_continueOnError f \<and> e' = None \<longrightarrow> all_traced f L \<and> failed st \<subseteq> failed (flow_init f ?w)"
    "fl_continueOnError f \<and> (\<forall>w. cx_err ?ctx w = None) \<longrightarrow> all_traced f L"
    using flow_rounds_spec [OF conjunct1 [OF ix] conjunct2 [OF ix] flow_init_inv(1,2), of "Suc (length (fl_nodes f))" ?ctx]
    by fastforce
  show thesis
  proof (rule that [of index st L e'])
    show "fr_Steps res = fs_traces st" "fr_Errors res = fs_errs st" "e = (if fl_continueOnError f then None else e')"
      using run r(1) v unfolding flow_Run_def by (cases running; simp add: Let_def; auto)+
    show "\<not> fl_continueOnError f \<and> e' = None \<longrightarrow> all_traced f L \<and> failed st = {}"
      using r(3) flow_init_inv(3) [of f ?w] by (metis subset_empty)
    show "fl_continueOnError f \<and> (\<forall>w. cx_err ctx w = None) \<longrightarrow> all_traced f L" using r(4) by simp
    show "flow_index f index" "flow_valid f" "flow_inv f index st L" using ix r(2) by blast+
  qed
qed

text \<open>
  Validation decides exactly the well-formed flows: unique non-empty step names, every step
  with its function, starts without dependencies and at least one step without any, every
  dependency registered, and no cycle of dependencies.
\<close>
theorem flow_validate_decides: "(\<exists>index. flow_validate f = Inr index) = flow_valid f"
  using flow_validate_Inr flow_validate_total by blast

text \<open>
  C30. A run always ends, whatever the steps do and in whatever order the goroutines of a wave run:
  every round settles at least one step, so one round per step and one more is fuel enough.
\<close>
theorem flow_Run_returns: "flow_Run running kid ords ctx f s w \<noteq> None"
proof (cases "flow_validate f")
  case (Inr index)
  note ix = flow_validate_Inr [OF Inr]
  let ?ctx = "ContextWithEvents (ContextWithKickoffID ctx kid) (fl_events f)"
  let ?w = "emitEvent ?ctx ((event EventFlowStarted)\<lparr>ev_KickoffID := kid\<rparr>) w"
  obtain s' st e' where "flow_rounds ?ctx f index ords (Suc (length (fl_nodes f))) s (flow_init f ?w) None = Some (s', st, e')"
    using flow_rounds_spec [OF conjunct1 [OF ix] conjunct2 [OF ix] flow_init_inv(1,2), of "Suc (length (fl_nodes f))" ?ctx]
    by fastforce
  then show ?thesis using Inr by (simp add: flow_Run_def Let_def)
qed (simp add: flow_Run_def)

lemma fold_step_of_trace:
  assumes "flow_inv f index st L" "k < length (fs_traces st)"
  shows "k < length L \<and> ft_Name (fs_traces st ! k) = fn_name (fl_nodes f ! (L ! k))
    \<and> ft_Skipped (fs_traces st ! k) = (fs_status st ! (L ! k) = stSkipped) \<and> L ! k < length (fl_nodes f)"
proof -
  have maps: "map ft_Name (fs_traces st) = map (\<lambda>i. fn_name (fl_nodes f ! i)) L"
    "map ft_Skipped (fs_traces st) = map (\<lambda>i. fs_status st ! i = stSkipped) L" "set L \<subseteq> {..<length (fl_nodes f)}"
    using assms(1) by (simp_all add: flow_inv_def)
  then have len: "length (fs_traces st) = length L" by (metis length_map)
  then have k: "k < length L" using assms(2) by simp
  have "map ft_Name (fs_traces st) ! k = fn_name (fl_nodes f ! (L ! k))"
    "map ft_Skipped (fs_traces st) ! k = (fs_status st ! (L ! k) = stSkipped)"
    using maps k by simp_all
  moreover have "L ! k < length (fl_nodes f)" using maps(3) nth_mem [OF k] by blast
  ultimately show ?thesis using assms(2) k by simp
qed

text \<open>
  C5. Steps run in dependency order: no step is traced twice, only registered steps are, and a
  step that was not skipped is traced after each of its dependencies, which ran and did not fail.
\<close>
theorem flow_Run_sound:
  assumes "flow_Run running kid ords ctx f s w = Some (w', Some res, e)"
  shows "distinct (map ft_Name (fr_Steps res)) \<and> ft_Name ` set (fr_Steps res) \<subseteq> fn_name ` set (fl_nodes f)
    \<and> (\<forall>k<length (fr_Steps res). \<forall>n\<in>set (fl_nodes f).
         fn_name n = ft_Name (fr_Steps res ! k) \<and> \<not> ft_Skipped (fr_Steps res ! k) \<longrightarrow>
         (\<forall>d\<in>set (fn_deps n). fr_Errors res d = None
            \<and> (\<exists>j<k. ft_Name (fr_Steps res ! j) = d \<and> \<not> ft_Skipped (fr_Steps res ! j))))"
proof -
  obtain index st L e' where ix: "flow_index f index" and val: "flow_valid f" and inv: "flow_inv f index st L"
    and eq: "fr_Steps res = fs_traces st" "fr_Errors res = fs_errs st"
    by (rule flow_Run_rounds [OF assms])
  have names: "distinct (map fn_name (fl_nodes f))" using val by (simp add: flow_valid_def)
  have L: "map ft_Name (fs_traces st) = map (\<lambda>i. fn_name (fl_nodes f ! i)) L" "distinct L"
    "set L \<subseteq> {..<length (fl_nodes f)}" using inv by (simp_all add: flow_inv_def)
  have "inj_on (\<lambda>i. fn_name (fl_nodes f ! i)) (set L)"
    using names L(3) by (auto simp: inj_on_def distinct_conv_nth subset_iff)
  then have "distinct (map ft_Name (fs_traces st))" using L by (simp add: distinct_map)
  moreover have "ft_Name ` set (fs_traces st) \<subseteq> fn_name ` set (fl_nodes f)"
    using L(3) arg_cong [OF L(1), of set] by auto
  moreover have "fs_errs st d = None \<and> (\<exists>j<k. ft_Name (fs_traces st ! j) = d \<and> \<not> ft_Skipped (fs_traces st ! j))"
    if k: "k < length (fs_traces st)" and n: "n \<in> set (fl_nodes f)" "fn_name n = ft_Name (fs_traces st ! k)"
      and ran: "\<not> ft_Skipped (fs_traces st ! k)" and d: "d \<in> set (fn_deps n)" for k n d
  proof -
    note t = fold_step_of_trace [OF inv k]
    have "n = fl_nodes f ! (L ! k)"
      using t n names by (metis distinct_map inj_onD nth_mem)
    moreover have "deps_before f index (fs_status st) (fs_sel st) (take k L) (L ! k)"
      using inv t by (simp add: flow_inv_def)
    ultimately have j: "at_name index d \<in> set (take k L)" "fs_status st ! at_name index d = stDone"
      using t ran d by (auto simp: deps_before_def dep_ok_def)
    obtain m where m: "m < k" "m < length L" "L ! m = at_name index d"
      using j(1) by (auto simp: in_set_conv_nth)
    have d': "at_name index d < length (fl_nodes f)" "fn_name (fl_nodes f ! at_name index d) = d"
      using at_name_less [OF ix n(1) d] by simp_all
    have "fs_errs st d = None" using inv d' j(2) unfolding flow_inv_def by (metis flowStatus.distinct(7))
    moreover have "ft_Name (fs_traces st ! m) = d \<and> \<not> ft_Skipped (fs_traces st ! m)"
      using fold_step_of_trace [OF inv, of m] m k d'(2) j(2) by auto
    ultimately show ?thesis using m(1) by blast
  qed
  ultimately show ?thesis unfolding eq by blast
qed

text \<open>
  C19. A run loses no step: a fail-fast run that returns no error, and a continue-on-error run
  that is never cancelled, trace every registered step exactly once; in the first case no step failed.
\<close>
theorem flow_Run_complete:
  assumes "flow_Run running kid ords ctx f s w = Some (w', Some res, e)"
    and "if fl_continueOnError f then \<forall>w. cx_err ctx w = None else e = None"
  shows "ft_Name ` set (fr_Steps res) = fn_name ` set (fl_nodes f)
    \<and> length (fr_Steps res) = length (fl_nodes f)
    \<and> (\<not> fl_continueOnError f \<longrightarrow> (\<forall>n\<in>set (fl_nodes f). fr_Errors res (fn_name n) = None))"
proof -
  obtain index st L e' where inv: "flow_inv f index st L"
    and eq: "fr_Steps res = fs_traces st" "fr_Errors res = fs_errs st" "e = (if fl_continueOnError f then None else e')"
    and ends: "\<not> fl_continueOnError f \<and> e' = None \<longrightarrow> all_traced f L \<and> failed st = {}"
      "fl_continueOnError f \<and> (\<forall>w. cx_err ctx w = None) \<longrightarrow> all_traced f L"
    by (rule flow_Run_rounds [OF assms(1)])
  have all: "set L = {..<length (fl_nodes f)}" and nofail: "\<not> fl_continueOnError f \<Longrightarrow> failed st = {}"
    using ends assms(2) eq(3) by (auto simp: all_traced_def split: if_splits)
  have L: "map ft_Name (fs_traces st) = map (\<lambda>i. fn_name (fl_nodes f ! i)) L" "distinct L"
    using inv by (simp_all add: flow_inv_def)
  have "ft_Name ` set (fs_traces st) = (\<lambda>i. fn_name (fl_nodes f ! i)) ` {..<length (fl_nodes f)}"
    using arg_cong [OF L(1), of set] all by simp
  also have "\<dots> = fn_name ` set (fl_nodes f)" by (auto simp: set_conv_nth)
  finally have "ft_Name ` set (fr_Steps res) = fn_name ` set (fl_nodes f)" using eq by simp
  moreover have "length (fr_Steps res) = length (fl_nodes f)"
    using arg_cong [OF L(1), of length] distinct_card [OF L(2)] all eq by simp
  moreover have "fr_Errors res (fn_name n) = None" if nf: "\<not> fl_continueOnError f" and n: "n \<in> set (fl_nodes f)" for n
  proof -
    obtain i where i: "i < length (fl_nodes f)" "fl_nodes f ! i = n" using n by (metis in_set_conv_nth)
    then have "fs_status st ! i \<noteq> stFailed" using nofail [OF nf] inv by (auto simp: failed_def flow_inv_def)
    then show ?thesis using i inv eq by (auto simp: flow_inv_def)
  qed
  ultimately show ?thesis by blast
qed

section \<open>Witnesses\<close>

text \<open>A start, a router choosing the first of two listeners, and the two listeners.\<close>

definition flow_demo :: "(nat, unit) flow" where
  "flow_demo =
     flow_Listen ''right'' (Some (\<lambda>ctx s w. (s + 4, w, StepRet None []))) [''route'']
       (flow_Listen ''left'' (Some (\<lambda>ctx s w. (s + 2, w, StepRet None []))) [''route'']
         (flow_Router ''route'' (Some (\<lambda>ctx s w. (s + 1, w, StepRet None [''left'']))) [''begin'']
           (flow_Start ''begin'' (Some (\<lambda>ctx s w. (s, w, StepRet None []))) NewFlow)))"

lemma flow_demo_run:
  "map_option (\<lambda>(w, r, e). (map_option (\<lambda>r. (fr_State r, map ft_Name (fr_Steps r), map ft_Skipped (fr_Steps r))) r, e))
     (flow_Run False ''k'' (\<lambda>_. []) background flow_demo 0 ())
   = Some (Some (3, [''begin'', ''route'', ''left'', ''right''], [False, False, False, True]), None)"
  by code_simp

lemma flow_demo_result:
  obtains w' res where "flow_Run False ''k'' (\<lambda>_. []) background flow_demo 0 () = Some (w', Some res, None)"
    "map ft_Name (fr_Steps res) = [''begin'', ''route'', ''left'', ''right'']"
    "map ft_Skipped (fr_Steps res) = [False, False, False, True]"
proof (cases "flow_Run False ''k'' (\<lambda>_. []) background flow_demo 0 ()")
  case (Some x)
  obtain w' r e where x: "x = (w', r, e)" using prod_cases3 by blast
  show thesis using flow_demo_run that unfolding Some x by (cases r) auto
qed (use flow_demo_run in simp)

lemma flow_Run_sound_witness:
  "\<exists>w' res. flow_Run False ''k'' (\<lambda>_. []) background flow_demo 0 () = Some (w', Some res, None)
     \<and> distinct (map ft_Name (fr_Steps res)) \<and> ft_Name ` set (fr_Steps res) \<subseteq> fn_name ` set (fl_nodes flow_demo)"
proof -
  obtain w' res where run: "flow_Run False ''k'' (\<lambda>_. []) background flow_demo 0 () = Some (w', Some res, None)"
    by (rule flow_demo_result)
  show ?thesis using run flow_Run_sound [OF run] by blast
qed

lemma flow_Run_complete_witness:
  "\<exists>w' res. flow_Run False ''k'' (\<lambda>_. []) background flow_demo 0 () = Some (w', Some res, None)
     \<and> ft_Name ` set (fr_Steps res) = {''begin'', ''route'', ''left'', ''right''} \<and> length (fr_Steps res) = 4"
proof -
  obtain w' res where run: "flow_Run False ''k'' (\<lambda>_. []) background flow_demo 0 () = Some (w', Some res, None)"
    by (rule flow_demo_result)
  have demo: "\<not> fl_continueOnError flow_demo" "map fn_name (fl_nodes flow_demo) = [''begin'', ''route'', ''left'', ''right'']"
    by (simp_all add: flow_demo_def flow_Listen_def flow_Router_def flow_Start_def NewFlow_def)
  have "fn_name ` set (fl_nodes flow_demo) = {''begin'', ''route'', ''left'', ''right''}" "length (fl_nodes flow_demo) = 4"
    using arg_cong [OF demo(2), of set] arg_cong [OF demo(2), of length] by simp_all
  then show ?thesis using run flow_Run_complete [OF run] demo(1) by auto
qed

end
