(* ===== verification/Types.thy ===== *)
theory Types
  imports Events Facts Memory
begin

text \<open>
  The data of a crew run: messages and tool specs (\<^verbatim>\<open>llm.go\<close>, \<^verbatim>\<open>toolcall.go\<close>), tools
  (\<^verbatim>\<open>tool.go\<close>, \<^verbatim>\<open>schemaprovider.go\<close>), agents (\<^verbatim>\<open>agent.go\<close>), tasks (\<^verbatim>\<open>task.go\<close>), the structured and
  loop configurations, the recorder of \<^verbatim>\<open>trace.go\<close>, and the run state: agents and tasks are
  objects at addresses, because the program shares and mutates them through pointers. Models,
  application tools, loops, guardrails, stores and embedders are functions on the outside state \<open>'w\<close>.
\<close>

section \<open>Messages and models\<close>

datatype role = RoleSystem | RoleUser | RoleAssistant | RoleTool

record toolCall =
  tc_ID :: string
  tc_Name :: string
  tc_Arguments :: string

record message =
  msg_Role :: role
  msg_Content :: string
  msg_ToolCalls :: "toolCall list"
  msg_ToolName :: string
  msg_ToolCallID :: string

definition SystemMessage :: "string \<Rightarrow> message" where
  "SystemMessage content = \<lparr>msg_Role = RoleSystem, msg_Content = content, msg_ToolCalls = [],
     msg_ToolName = [], msg_ToolCallID = []\<rparr>"

definition UserMessage :: "string \<Rightarrow> message" where
  "UserMessage content = \<lparr>msg_Role = RoleUser, msg_Content = content, msg_ToolCalls = [],
     msg_ToolName = [], msg_ToolCallID = []\<rparr>"

definition AssistantMessage :: "string \<Rightarrow> message" where
  "AssistantMessage content = \<lparr>msg_Role = RoleAssistant, msg_Content = content, msg_ToolCalls = [],
     msg_ToolName = [], msg_ToolCallID = []\<rparr>"

record toolFunction =
  tf_Name :: string
  tf_Description :: string
  tf_Parameters :: string

record toolSpec =
  ts_Type :: string
  ts_Function :: toolFunction

record toolCallResponse =
  tr_Content :: string
  tr_ToolCalls :: "toolCall list"

record toolTrace =
  tt_Tool :: string
  tt_Args :: string
  tt_Output :: string
  tt_Failed :: bool

text \<open>
  What the receiver of a stream observes at one \<^verbatim>\<open>select\<close>: the next chunk, or that the context is
  done; the end of the list is the closed channel, \<^const>\<open>None\<close> the nil channel.
\<close>

datatype recv = RecvChunk streamChunk | RecvDone

text \<open>
  A model: \<^verbatim>\<open>Call\<close>, and the optional capabilities \<^verbatim>\<open>CallWithTools\<close> (\<^verbatim>\<open>ToolCallingLLM\<close>) and
  \<^verbatim>\<open>CallStream\<close> (\<^verbatim>\<open>StreamingLLM\<close>) that the program finds by type assertion.
\<close>

record 'w llm =
  llm_Model :: string
  llm_Call :: "'w ctx \<Rightarrow> message list \<Rightarrow> 'w \<Rightarrow> 'w \<times> (err + string)"
  llm_CallWithTools :: "('w ctx \<Rightarrow> message list \<Rightarrow> toolSpec list \<Rightarrow> 'w \<Rightarrow> 'w \<times> (err + toolCallResponse)) option"
  llm_CallStream :: "('w ctx \<Rightarrow> message list \<Rightarrow> 'w \<Rightarrow> 'w \<times> recv list option) option"

section \<open>Tools\<close>

text \<open>
  An application tool; its function also returns the warnings it recorded on the sink of its
  context. \<open>xt_Facts\<close> is present for a \<^verbatim>\<open>FactSource\<close>, \<open>xt_Schema\<close> for a \<^verbatim>\<open>SchemaProvider\<close>.
\<close>

record 'w extTool =
  xt_Name :: string
  xt_Description :: string
  xt_Call :: "'w ctx \<Rightarrow> string \<Rightarrow> 'w \<Rightarrow> 'w \<times> (err + string) \<times> string list"
  xt_Facts :: "('w \<Rightarrow> fact list) option"
  xt_Schema :: "string option"

datatype 'w tool =
    ExtTool "'w extTool"
  | DelegationTool "aid list option" \<comment> \<open>the roster; \<^const>\<open>None\<close> is the nil roster\<close>
  | RecallTool bool \<comment> \<open>whether its crew is set\<close>
  | RememberTool bool

text \<open>\<^verbatim>\<open>NewTool\<close>: a \<^verbatim>\<open>FunctionTool\<close>, whose function may be nil.\<close>

definition NewTool ::
  "string \<Rightarrow> string \<Rightarrow> ('w ctx \<Rightarrow> string \<Rightarrow> 'w \<Rightarrow> 'w \<times> (err + string) \<times> string list) option \<Rightarrow> 'w tool" where
  "NewTool name description fn =
     ExtTool \<lparr>xt_Name = name, xt_Description = description,
       xt_Call = (case fn of
                    None \<Rightarrow> (\<lambda>ctx input w. (w, Inl (Plain (''tool '' @ go_quote name @ '': nil function'')), []))
                  | Some f \<Rightarrow> f),
       xt_Facts = None, xt_Schema = None\<rparr>"

section \<open>Structured output, loops, agents, tasks\<close>

record structuredOutput =
  so_Schema :: string
  so_RepairMax :: int
  so_ToolCall :: bool
  so_AllowTools :: bool
  so_StrictSchema :: bool

record agenticLoop =
  al_MaxRefinements :: int
  al_Evaluator :: "aid option"
  al_EvaluationPrompt :: string
  al_PassThreshold :: int
  al_SkipPlan :: bool
  al_RefineRewriteOnly :: bool

text \<open>What the executors return: the answer, the collected facts, the error.\<close>

type_synonym xres = "string \<times> fact list \<times> err option"

datatype 'w taskLoop =
    Agentic agenticLoop
  | OtherLoop "'w ctx \<Rightarrow> aid \<Rightarrow> tid \<Rightarrow> string \<Rightarrow> 'w \<Rightarrow> 'w \<times> xres"

record 'w agent =
  ag_Role :: string
  ag_Goal :: string
  ag_Backstory :: string
  ag_LLM :: "'w llm option"
  ag_Tools :: "'w tool list"
  ag_MaxIterations :: int
  ag_AllowDelegation :: bool
  ag_ToolMode :: string
  ag_Loop :: "'w taskLoop option"

definition NewAgent :: "string \<Rightarrow> string \<Rightarrow> string \<Rightarrow> 'w llm option \<Rightarrow> 'w agent" where
  "NewAgent role goal backstory model =
     \<lparr>ag_Role = role, ag_Goal = goal, ag_Backstory = backstory, ag_LLM = model, ag_Tools = [],
      ag_MaxIterations = 0, ag_AllowDelegation = False, ag_ToolMode = [], ag_Loop = None\<rparr>"

definition WithTools :: "'w tool list \<Rightarrow> 'w agent \<Rightarrow> 'w agent" where
  "WithTools tools a = a\<lparr>ag_Tools := ag_Tools a @ tools\<rparr>"

record taskOutput =
  to_Task :: string
  to_Agent :: string
  to_Output :: string
  to_Facts :: "fact list"
  to_ToolTraces :: "toolTrace list"
  to_Warnings :: "string list"

record crewOutput =
  co_Final :: string
  co_TasksOutput :: "taskOutput list"
  co_Facts :: "fact list"
  co_Warnings :: "string list"

type_synonym 'w guardrail = "'w ctx \<Rightarrow> crewOutput \<Rightarrow> 'w \<Rightarrow> 'w \<times> err option"

record 'w task =
  tk_Name :: string
  tk_Description :: string
  tk_ExpectedOutput :: string
  tk_Agent :: "aid option"
  tk_Tools :: "'w tool list"
  tk_Context :: "tid list"
  tk_OutputFile :: string
  tk_OutputDir :: string
  tk_Structured :: "structuredOutput option"
  tk_Guardrail :: "'w guardrail option"
  tk_Loop :: "'w taskLoop option"
  tk_Async :: bool
  tk_output :: string
  tk_done :: bool
  tk_toolTraces :: "toolTrace list"
  tk_warnings :: "string list"

definition NewTask :: "string \<Rightarrow> string \<Rightarrow> aid option \<Rightarrow> 'w task" where
  "NewTask description expectedOutput agent =
     \<lparr>tk_Name = [], tk_Description = description, tk_ExpectedOutput = expectedOutput, tk_Agent = agent,
      tk_Tools = [], tk_Context = [], tk_OutputFile = [], tk_OutputDir = [], tk_Structured = None,
      tk_Guardrail = None, tk_Loop = None, tk_Async = False, tk_output = [], tk_done = False,
      tk_toolTraces = [], tk_warnings = []\<rparr>"

definition WithContext :: "tid list \<Rightarrow> 'w task \<Rightarrow> 'w task" where
  "WithContext tasks t = t\<lparr>tk_Context := tk_Context t @ tasks\<rparr>"

definition WithAsync :: "'w task \<Rightarrow> 'w task" where
  "WithAsync t = t\<lparr>tk_Async := True\<rparr>"

definition WithGuardrail :: "'w guardrail \<Rightarrow> 'w task \<Rightarrow> 'w task" where
  "WithGuardrail g t = t\<lparr>tk_Guardrail := Some g\<rparr>"

definition WithOutputDir :: "string \<Rightarrow> 'w task \<Rightarrow> 'w task" where
  "WithOutputDir dir t = t\<lparr>tk_OutputDir := dir\<rparr>"

text \<open>\<^verbatim>\<open>AddWarning\<close> on a task value.\<close>

definition add_warning :: "string \<Rightarrow> 'w task \<Rightarrow> 'w task" where
  "add_warning m t = (if m = [] then t else t\<lparr>tk_warnings := tk_warnings t @ [m]\<rparr>)"

definition taskLabel :: "'w task \<Rightarrow> nat \<Rightarrow> string" where
  "taskLabel t i = (if tk_Name t \<noteq> [] then tk_Name t else ''Task '' @ itoa (i + 1))"

section \<open>Stores, policies, traces\<close>

text \<open>The \<^verbatim>\<open>MemoryStore\<close> interface as the crew uses it.\<close>

record 'w store =
  st_Put :: "'w ctx \<Rightarrow> memoryEntry \<Rightarrow> 'w \<Rightarrow> 'w \<times> (err + memoryEntry)"
  st_Query :: "'w ctx \<Rightarrow> memoryQuery \<Rightarrow> 'w \<Rightarrow> 'w \<times> (err + memoryEntry list)"

type_synonym 'w embedder = "'w ctx \<Rightarrow> string list \<Rightarrow> 'w \<Rightarrow> 'w \<times> (err + real list list)"

record memoryPolicy =
  mp_AutoSave :: bool
  mp_AutoEmbed :: bool
  mp_InjectWhenEmptyContext :: bool
  mp_DefaultLimit :: int
  mp_DefaultMaxChars :: int
  mp_Scope :: memoryScope

record promptSnapshot =
  ps_Description :: string
  ps_Context :: string

record taskTraceRecord =
  rc_KickoffID :: string
  rc_Wave :: string
  rc_Task :: string
  rc_Agent :: string
  rc_Prompt :: "promptSnapshot option"
  rc_Output :: string
  rc_Facts :: "fact list"
  rc_Tools :: "toolTrace list"
  rc_Err :: string

record traceRecorder =
  rec_pending :: "tid \<rightharpoonup> taskTraceRecord"
  rec_records :: "taskTraceRecord list"
  rec_bodies :: bool
  rec_filter :: "(taskTraceRecord \<Rightarrow> bool) option"

section \<open>The crew and the run state\<close>

record stage =
  sg_Name :: string
  sg_Tasks :: "tid list"
  sg_Optional :: bool

text \<open>
  \<^verbatim>\<open>Crew\<close>: the configuration of the application, and the fields \<^verbatim>\<open>Kickoff\<close> resolves
  (\<open>cr_store\<close>, \<open>cr_policy\<close>); its mutable bookkeeping is in the run state.
\<close>

record 'w crew =
  cr_Agents :: "aid list"
  cr_Tasks :: "tid list"
  cr_Stages :: "stage list"
  cr_Process :: string
  cr_Name :: string
  cr_Memory :: bool
  cr_MemoryStore :: "'w store option"
  cr_MemoryPolicy :: "memoryPolicy option"
  cr_Embed :: "'w embedder option"
  cr_ManagerLLM :: "'w llm option"
  cr_ManagerAgent :: "aid option"
  cr_Guardrails :: "'w guardrail list"
  cr_OutputDir :: string
  cr_EnableDelegationTool :: bool
  cr_EnableMemoryTools :: bool
  cr_AsyncMaxWorkers :: int
  cr_AsyncFailFast :: bool
  cr_progress :: "(progress \<Rightarrow> 'w \<Rightarrow> 'w) option"
  cr_stream :: "(streamChunk \<Rightarrow> 'w \<Rightarrow> 'w) option"
  cr_events :: "(crewEvent \<Rightarrow> 'w \<Rightarrow> 'w) option"
  cr_store :: "'w store option"
  cr_policy :: "memoryPolicy option"

text \<open>
  The run state: the outside state, the heap of agents and tasks with its next free address, and
  the fields of the crew that a run changes.
\<close>

record 'w rt =
  rt_w :: 'w
  rt_agents :: "aid \<Rightarrow> 'w agent"
  rt_tasks :: "tid \<Rightarrow> 'w task"
  rt_next :: tid
  rt_failed :: "tid \<rightharpoonup> err"
  rt_memBuf :: "(tid \<times> memoryEntry) list"
  rt_buffering :: bool
  rt_tracer :: "traceRecorder option"

definition set_task :: "tid \<Rightarrow> ('w task \<Rightarrow> 'w task) \<Rightarrow> 'w rt \<Rightarrow> 'w rt" where
  "set_task t f rt = rt\<lparr>rt_tasks := (rt_tasks rt)(t := f (rt_tasks rt t))\<rparr>"

definition AddWarning :: "tid \<Rightarrow> string \<Rightarrow> 'w rt \<Rightarrow> 'w rt" where
  "AddWarning t m rt = set_task t (add_warning m) rt"

text \<open>\<^verbatim>\<open>AddWarningFromCtx\<close>: to the sink of the context, if there is one.\<close>

definition AddWarningFromCtx :: "'w ctx \<Rightarrow> string \<Rightarrow> 'w rt \<Rightarrow> 'w rt" where
  "AddWarningFromCtx ctx m rt = (case cx_sink ctx of None \<Rightarrow> rt | Some t \<Rightarrow> AddWarning t m rt)"

definition setToolTraces :: "tid \<Rightarrow> toolTrace list \<Rightarrow> 'w rt \<Rightarrow> 'w rt" where
  "setToolTraces t traces rt = set_task t (\<lambda>k. k\<lparr>tk_toolTraces := traces\<rparr>) rt"

text \<open>An operation of the outside world, as an operation on the run state.\<close>

definition outside :: "('w \<Rightarrow> 'w \<times> 'a) \<Rightarrow> 'w rt \<Rightarrow> 'w rt \<times> 'a" where
  "outside f rt = (case f (rt_w rt) of (w, x) \<Rightarrow> (rt\<lparr>rt_w := w\<rparr>, x))"

definition on_world :: "('w \<Rightarrow> 'w) \<Rightarrow> 'w rt \<Rightarrow> 'w rt" where
  "on_world f rt = rt\<lparr>rt_w := f (rt_w rt)\<rparr>"

text \<open>
  Decoders and system calls: \<^verbatim>\<open>encoding/json\<close> on the shapes the program decodes, the schema
  validator, the clock, the random ids, the file system, and the order in which \<^verbatim>\<open>range\<close> visits
  the entries of a map (a permutation of them).
\<close>

record 'w env =
  en_delegation :: "string \<Rightarrow> err + string \<times> string \<times> string"
  en_object :: "string \<Rightarrow> (string \<rightharpoonup> string) option"
  en_string :: "string \<Rightarrow> string option"
  en_json :: "string \<Rightarrow> err option"
  en_schema :: "string \<Rightarrow> string \<Rightarrow> err option"
  en_canonical :: "string \<Rightarrow> err + string"
  en_evaluation :: "string \<Rightarrow> err + int option \<times> string"
  en_now :: "'w \<Rightarrow> time"
  en_kickoffID :: "'w \<Rightarrow> 'w \<times> string"
  en_resolve :: "string \<Rightarrow> string \<Rightarrow> 'w \<Rightarrow> err + string"
  en_writeFile :: "string \<Rightarrow> string \<Rightarrow> 'w \<Rightarrow> 'w \<times> err option"
  en_range :: "(string \<times> string) list \<Rightarrow> (string \<times> string) list"
  en_newMemory :: "'w \<Rightarrow> 'w \<times> 'w store"

text \<open>A fresh run state, with blank agents and tasks.\<close>

definition new_rt :: "'w \<Rightarrow> 'w rt" where
  "new_rt w = \<lparr>rt_w = w, rt_agents = (\<lambda>_. NewAgent [] [] [] None), rt_tasks = (\<lambda>_. NewTask [] [] None), rt_next = 100,
     rt_failed = Map.empty, rt_memBuf = [], rt_buffering = False, rt_tracer = None\<rparr>"

section \<open>Frame lemmas\<close>

lemma outside_frame [frame_simps]:
  "outside f rt = (rt', x) \<Longrightarrow> rt_agents rt' = rt_agents rt \<and> rt_tasks rt' = rt_tasks rt
     \<and> rt_memBuf rt' = rt_memBuf rt \<and> rt_buffering rt' = rt_buffering rt \<and> rt_failed rt' = rt_failed rt
     \<and> rt_tracer rt' = rt_tracer rt \<and> rt_next rt' = rt_next rt"
  by (auto simp: outside_def split: prod.splits)

lemma on_world_frame [simp]:
  "rt_agents (on_world f rt) = rt_agents rt" "rt_tasks (on_world f rt) = rt_tasks rt"
  "rt_memBuf (on_world f rt) = rt_memBuf rt" "rt_buffering (on_world f rt) = rt_buffering rt"
  "rt_failed (on_world f rt) = rt_failed rt" "rt_tracer (on_world f rt) = rt_tracer rt"
  "rt_next (on_world f rt) = rt_next rt"
  by (simp_all add: on_world_def)

lemma set_task_frame [simp]:
  "rt_w (set_task t f rt) = rt_w rt" "rt_agents (set_task t f rt) = rt_agents rt"
  "rt_memBuf (set_task t f rt) = rt_memBuf rt" "rt_buffering (set_task t f rt) = rt_buffering rt"
  "rt_failed (set_task t f rt) = rt_failed rt" "rt_tracer (set_task t f rt) = rt_tracer rt"
  "rt_next (set_task t f rt) = rt_next rt"
  "rt_tasks (set_task t f rt) k = (if k = t then f (rt_tasks rt t) else rt_tasks rt k)"
  by (simp_all add: set_task_def)

end
