(* ===== verification/Prompts.thy ===== *)
theory Prompts
  imports Types
begin

text \<open>
  The prompts of \<^verbatim>\<open>prompts.go\<close>, the text protocol of \<^verbatim>\<open>executor.go\<close> (\<^verbatim>\<open>parseAction\<close>,
  \<^verbatim>\<open>parseFinalAnswer\<close>), the extraction of a fenced JSON payload, and the size limits on tool
  arguments and outputs of \<^verbatim>\<open>toolcall.go\<close>. All functions are pure.
\<close>

section \<open>Prompts\<close>

abbreviation NL :: string where "NL \<equiv> [CHR 0x0A]"

definition buildSystemPrompt :: "'w agent \<Rightarrow> string" where
  "buildSystemPrompt a = trim_space
     (''You are '' @ ag_Role a @ ''.'' @ NL
      @ (if ag_Backstory a \<noteq> [] then ag_Backstory a @ NL else [])
      @ (if ag_Goal a \<noteq> [] then NL @ ''Your personal goal is: '' @ ag_Goal a @ NL else []))"

definition delegationToolName :: string where "delegationToolName = ''delegate_to_coworker''"
definition recallMemoryToolName :: string where "recallMemoryToolName = ''recall_memory''"
definition rememberToolName :: string where "rememberToolName = ''remember''"

definition recallMemorySchema :: string where
  \<open>recallMemorySchema = ''{"type":"object","properties":{"query":{"type":"string","description":"Search text. Empty returns the latest committed entries."}}}''\<close>

definition rememberSchema :: string where
  \<open>rememberSchema = ''{"type":"object","properties":{"content":{"type":"string","description":"Text to store in long-term memory immediately."}},"required":["content"]}''\<close>

fun tool_Name :: "'w tool \<Rightarrow> string" where
  "tool_Name (ExtTool x) = xt_Name x"
| "tool_Name (DelegationTool _) = delegationToolName"
| "tool_Name (RecallTool _) = recallMemoryToolName"
| "tool_Name (RememberTool _) = rememberToolName"

fun tool_Description :: "'w tool \<Rightarrow> string" where
  "tool_Description (ExtTool x) = xt_Description x"
| \<open>tool_Description (DelegationTool _) =
     ''Delegate a sub-question to a coworker agent by exact role name. ''
     @ ''Input JSON: {"coworker":"<role>","request":"<text>","context":"<optional>"}. ''
     @ ''The coworker must have AllowDelegation enabled.''\<close>
| \<open>tool_Description (RecallTool _) =
     ''Recall entries from long-term memory. Input: a search query, or JSON ''
     @ ''{"query":"<text>"}. Empty query returns the latest entries. ''
     @ ''Use this when you need facts stored earlier that are not already in context.''\<close>
| \<open>tool_Description (RememberTool _) =
     ''Store a note in long-term memory immediately (visible to later ''
     @ ''recall_memory calls in this run). Input: the text to remember, or JSON ''
     @ ''{"content":"<text>"}. Do not use this to merge parallel sibling outputs; ''
     @ ''use task context for that.''\<close>

fun tool_Schema :: "'w tool \<Rightarrow> string option" where
  "tool_Schema (ExtTool x) = xt_Schema x"
| "tool_Schema (DelegationTool _) = None"
| "tool_Schema (RecallTool _) = Some recallMemorySchema"
| "tool_Schema (RememberTool _) = Some rememberSchema"

definition toolNames :: "'w tool list \<Rightarrow> string list" where
  "toolNames tools = map tool_Name tools"

definition findTool :: "'w tool list \<Rightarrow> string \<Rightarrow> 'w tool option" where
  "findTool tools name = find (\<lambda>t. tool_Name t = name) tools"

definition hasToolNamed :: "'w tool list \<Rightarrow> string \<Rightarrow> bool" where
  "hasToolNamed tools name \<longleftrightarrow> (\<exists>t\<in>set tools. tool_Name t = name)"

definition buildToolInstructions :: "'w tool list \<Rightarrow> string" where
  "buildToolInstructions tools =
     (if tools = [] then []
      else NL @ ''You have access to the following tools:'' @ NL @ NL
        @ concat (map (\<lambda>t. ''- '' @ tool_Name t @ '': '' @ tool_Description t @ NL) tools)
        @ NL @ ''To use a tool, respond EXACTLY in this format:'' @ NL @ NL
        @ ''Thought: your reasoning about what to do'' @ NL
        @ ''Action: the tool name, exactly one of ['' @ str_join '', '' (toolNames tools) @ '']'' @ NL
        @ ''Action Input: the input for the tool'' @ NL @ NL
        @ ''The system will respond with:'' @ NL @ NL
        @ ''Observation: the tool'' @ [CHR 0x27] @ ''s result'' @ NL @ NL
        @ ''Repeat this cycle (Thought/Action/Action Input) as many times as needed. ''
        @ ''When you have the final answer, respond EXACTLY in this format:'' @ NL @ NL
        @ ''Thought: I now know the final answer'' @ NL
        @ ''Final Answer: the complete, final answer to the task'' @ NL)"

definition buildTaskPrompt :: "'w task \<Rightarrow> string \<Rightarrow> string" where
  "buildTaskPrompt t context = trim_space
     (''Current task:'' @ NL @ tk_Description t @ NL
      @ (if tk_ExpectedOutput t \<noteq> []
         then NL @ ''Expected format/goal of the answer:'' @ NL @ tk_ExpectedOutput t @ NL else [])
      @ (if trim_space context \<noteq> []
         then NL @ ''Context from previous tasks:'' @ NL @ context @ NL else []))"

definition noToolFinalInstruction :: string where
  "noToolFinalInstruction = NL @ ''Answer directly with the best possible answer for the task, with no preamble.''"

definition structuredSystemInstruction :: string where
  "structuredSystemInstruction = ''You MUST respond with a single, valid JSON object that satisfies the provided JSON Schema. Do NOT include any explanation, markdown, or surrounding text. Output ONLY the JSON.''"

definition toolCallStructuredInstruction :: string where
  "toolCallStructuredInstruction = ''To submit your final answer you MUST call the `emit_result` tool exactly once and pass your answer as the tool'' @ [CHR 0x27] @ ''s arguments. Do not return plain text, do not wrap the answer in markdown, and do not call any other tool.''"

definition buildStructuredPrompt :: "'w task \<Rightarrow> string \<Rightarrow> string \<Rightarrow> string" where
  "buildStructuredPrompt t context schema = trim_space
     (buildTaskPrompt t context @ NL @ NL
      @ ''You must reply ONLY with a JSON object that conforms to the following JSON Schema. No markdown, no prose, no surrounding text.'' @ NL @ NL
      @ ''JSON Schema:'' @ NL @ schema @ NL)"

definition buildPlanPrompt :: "'w task \<Rightarrow> string \<Rightarrow> string" where
  "buildPlanPrompt t context = trim_space
     (''You are about to work on the following task:'' @ NL @ NL @ tk_Description t @ NL
      @ (if tk_ExpectedOutput t \<noteq> [] then NL @ ''Expected output:'' @ NL @ tk_ExpectedOutput t @ NL else [])
      @ (if trim_space context \<noteq> [] then NL @ ''Context from previous tasks:'' @ NL @ context @ NL else [])
      @ NL @ ''Before acting, create a concise, numbered plan of the steps you will take. ''
      @ ''Consider which tools you have available and how to use them.'' @ NL @ NL
      @ ''Respond ONLY with the plan, numbered 1-N. No other text.'')"

definition buildEvaluationPrompt :: "'w task \<Rightarrow> string \<Rightarrow> string" where
  \<open>buildEvaluationPrompt t actualOutput = trim_space
     (''You are an evaluator. Your job is to assess whether the output meets the expected quality and completeness for the task.'' @ NL @ NL
      @ ''Task:'' @ NL @ tk_Description t @ NL
      @ (if tk_ExpectedOutput t \<noteq> [] then NL @ ''Expected output:'' @ NL @ tk_ExpectedOutput t @ NL else [])
      @ NL @ ''Actual output:'' @ NL @ actualOutput @ NL @ NL
      @ ''Evaluate the actual output against the expected output. Respond ONLY with a JSON object:'' @ NL
      @ ''{'' @ NL @ ''  "score": <integer 0-100>,'' @ NL
      @ ''  "feedback": "<brief explanation of issues or confirmation of quality>"'' @ NL @ ''}'' @ NL @ NL
      @ ''Scoring guide:'' @ NL
      @ ''- 90-100: excellent, fully meets expectations'' @ NL
      @ ''- 70-89: good, minor issues'' @ NL
      @ ''- 50-69: partial, significant gaps'' @ NL
      @ ''- 0-49: poor, major problems'')\<close>

definition buildRefinePrompt :: "string \<Rightarrow> int \<Rightarrow> int \<Rightarrow> string" where
  "buildRefinePrompt feedback score threshold = trim_space
     (''The evaluator provided the following feedback on your previous output:'' @ NL @ NL
      @ feedback @ NL @ NL
      @ ''Score: '' @ itoa_int score @ ''/'' @ itoa_int threshold @ NL @ NL
      @ ''Please revise your output to address the feedback. Re-execute the task with the improvements in mind.'')"

definition buildEvalRepairPrompt :: "string \<Rightarrow> string" where
  \<open>buildEvalRepairPrompt raw = trim_space
     (''Your previous evaluation response was not valid JSON with a "score" field.'' @ NL @ NL
      @ ''Your previous response was:'' @ NL @ raw @ NL @ NL
      @ ''Respond ONLY with a JSON object:'' @ NL
      @ ''{'' @ NL @ ''  "score": <integer 0-100>,'' @ NL @ ''  "feedback": "<brief explanation>"'' @ NL @ ''}'')\<close>

definition buildRepairPrompt :: "string \<Rightarrow> err \<Rightarrow> string \<Rightarrow> string" where
  "buildRepairPrompt previousOutput valErr schema =
     ''Your previous response did not validate against the JSON Schema.'' @ NL @ NL
     @ ''Your previous response was:'' @ NL @ previousOutput
     @ NL @ NL @ ''Validation errors:'' @ NL @ error_text valErr
     @ NL @ NL @ ''The JSON Schema is:'' @ NL @ schema
     @ NL @ NL @ ''Fix the issues and reply ONLY with the corrected JSON. No markdown, no prose, no surrounding text.''"

definition buildToolCallRepairPrompt :: "string \<Rightarrow> string \<Rightarrow> string" where
  "buildToolCallRepairPrompt feedback schema =
     feedback @ NL @ NL
     @ ''Call the `emit_result` tool exactly once with your corrected answer as arguments. The tool'' @ [CHR 0x27] @ ''s parameters must conform to the following JSON Schema:'' @ NL @ NL
     @ schema @ NL"

section \<open>The ReAct text protocol\<close>

text \<open>
  \<^verbatim>\<open>strings.Index\<close> runs on the lowered text and its result slices the text itself, which may be
  shorter than the lowered one: a slice from beyond the end panics, the value \<^const>\<open>None\<close> of the
  outer option.
\<close>

definition markerStart :: "string \<Rightarrow> string \<Rightarrow> nat option" where
  "markerStart s marker = str_index (to_lower s) marker"

definition indexMarker :: "string \<Rightarrow> string \<Rightarrow> nat option" where
  "indexMarker s marker = map_option (\<lambda>i. i + length marker) (markerStart s marker)"

definition slice_from :: "nat \<Rightarrow> string \<Rightarrow> string option" where
  "slice_from i s = (if i \<le> length s then Some (drop i s) else None)"

definition slice_to :: "nat \<Rightarrow> string \<Rightarrow> string option" where
  "slice_to i s = (if i \<le> length s then Some (take i s) else None)"

definition parseFinalAnswer :: "string \<Rightarrow> string option option" where
  "parseFinalAnswer s =
     (case indexMarker s ''final answer:'' of
        None \<Rightarrow> Some None
      | Some i \<Rightarrow> map_option Some (slice_from i s))"

definition stripFinalAnswer :: "string \<Rightarrow> string option" where
  "stripFinalAnswer s =
     (case parseFinalAnswer s of None \<Rightarrow> None | Some None \<Rightarrow> Some s | Some (Some ans) \<Rightarrow> Some ans)"

definition firstLine :: "string \<Rightarrow> string" where
  "firstLine s =
     (case find (\<lambda>line. trim_space line \<noteq> []) (split_on (CHR 0x0A) s) of None \<Rightarrow> [] | Some line \<Rightarrow> line)"

text \<open>The action and its input; the inner option is the \<^verbatim>\<open>ok\<close> of the code.\<close>

definition named_action :: "string \<Rightarrow> string \<Rightarrow> (string \<times> string) option" where
  "named_action action input = (if action \<noteq> [] then Some (action, input) else None)"

definition parseAction :: "string \<Rightarrow> (string \<times> string) option option" where
  "parseAction s =
     (case indexMarker s ''action:'' of
        None \<Rightarrow> Some None
      | Some actIdx \<Rightarrow>
          (case slice_from actIdx s of
             None \<Rightarrow> None
           | Some rest \<Rightarrow>
               (case indexMarker rest ''action input:'' of
                  None \<Rightarrow> Some (named_action (trim_space (firstLine rest)) [])
                | Some inputIdx \<Rightarrow>
                    (case (slice_to (inputIdx - length ''action input:'') rest, slice_from inputIdx rest) of
                       (Some actionPart, Some inputPart) \<Rightarrow>
                         let action = trim_space (firstLine actionPart) in
                         (case markerStart inputPart ''observation:'' of
                            None \<Rightarrow> Some (named_action action (trim_space inputPart))
                          | Some obs \<Rightarrow>
                              map_option (\<lambda>p. named_action action (trim_space p)) (slice_to obs inputPart))
                     | _ \<Rightarrow> None))))"

section \<open>Fenced JSON\<close>

fun byte_index :: "char \<Rightarrow> string \<Rightarrow> nat option" where
  "byte_index d [] = None"
| "byte_index d (c # cs) = (if c = d then Some 0 else map_option Suc (byte_index d cs))"

definition strip_fence :: "string \<Rightarrow> string" where
  "strip_fence s = trim_space (if has_suffix s ''```'' then trim_space (take (length s - 3) s) else s)"

definition extractJSON :: "string \<Rightarrow> string" where
  "extractJSON s0 =
     (let s = trim_space s0 in
      if has_prefix s ''```''
      then (case byte_index (CHR 0x0A) s of
              None \<Rightarrow> s
            | Some i \<Rightarrow> strip_fence (trim_space (drop (i + 1) s)))
      else strip_fence s)"

section \<open>Limits on tool calls\<close>

definition MaxToolArgsBytes :: nat where "MaxToolArgsBytes = 1048576"
definition MaxToolArgsDepth :: int where "MaxToolArgsDepth = 100"
definition MaxToolOutputBytes :: nat where "MaxToolOutputBytes = 1048576"

text \<open>The loop of \<^verbatim>\<open>jsonDepth\<close>; the depth goes below zero on unbalanced text, as in the code.\<close>

fun depth_scan :: "bool \<Rightarrow> int \<Rightarrow> int \<Rightarrow> string \<Rightarrow> int" where
  "depth_scan inString depth mx [] = mx"
| "depth_scan True depth mx (b # bs) =
     (if b = CHR 0x5C \<and> bs \<noteq> [] then depth_scan True depth mx (tl bs)
      else if b = CHR 0x22 then depth_scan False depth mx bs
      else depth_scan True depth mx bs)"
| "depth_scan False depth mx (b # bs) =
     (if b = CHR 0x22 then depth_scan True depth mx bs
      else if b = CHR ''{'' \<or> b = CHR ''['' then depth_scan False (depth + 1) (max mx (depth + 1)) bs
      else if b = CHR ''}'' \<or> b = CHR '']'' then depth_scan False (depth - 1) mx bs
      else depth_scan False depth mx bs)"

definition jsonDepth :: "string \<Rightarrow> int" where
  "jsonDepth data = depth_scan False 0 0 data"

definition validateToolArgs :: "string \<Rightarrow> err option" where
  "validateToolArgs args =
     (if length args > MaxToolArgsBytes
      then Some (Plain (''tool arguments exceed '' @ itoa MaxToolArgsBytes @ '' bytes''))
      else if jsonDepth args > MaxToolArgsDepth
      then Some (Plain (''tool arguments nesting depth '' @ itoa_int (jsonDepth args) @ '' exceeds limit ''
                        @ itoa_int MaxToolArgsDepth))
      else None)"

definition truncateToolOutput :: "string \<Rightarrow> string" where
  "truncateToolOutput s =
     (if length s \<le> MaxToolOutputBytes then s
      else take MaxToolOutputBytes s @ NL @ ''... [output truncated, exceeded 1 MiB]'')"

definition truncateForGather :: "string \<Rightarrow> string" where
  "truncateForGather s = (if length s \<le> 512 then s else take 512 s @ [CHR 0xE2, CHR 0x80, CHR 0xA6])"

definition toToolSpecs :: "'w tool list \<Rightarrow> toolSpec list" where
  \<open>toToolSpecs tools = map (\<lambda>t.
     \<lparr>ts_Type = ''function'',
      ts_Function = \<lparr>tf_Name = tool_Name t, tf_Description = tool_Description t,
        tf_Parameters = (case tool_Schema t of
                           Some schema \<Rightarrow> if schema \<noteq> [] then schema else ''{"type":"object","properties":{}}''
                         | None \<Rightarrow> ''{"type":"object","properties":{}}'')\<rparr>\<rparr>) tools\<close>

end
