(* ===== verification/Stream.thy ===== *)
theory Stream
  imports Types
begin

text \<open>
  Streaming completions (\<^verbatim>\<open>stream.go\<close>): delivery of chunks to the application's sink, the two
  receivers of a chunk channel, and the choice between streaming and a plain call. A channel, closed at its end, is
  the list of what its receiver observes (\<^typ>\<open>recv\<close>); a sink is a function on the outside
  state, its recovered panics included.
\<close>

section \<open>Delivery\<close>

definition chunk_delta :: "string \<Rightarrow> streamChunk" where
  "chunk_delta d = \<lparr>sk_Delta = d, sk_Task = [], sk_Agent = [], sk_Done = False, sk_Err = None\<rparr>"

definition chunk_err :: "err \<Rightarrow> streamChunk" where
  "chunk_err e = \<lparr>sk_Delta = [], sk_Task = [], sk_Agent = [], sk_Done = False, sk_Err = Some e\<rparr>"

definition chunk_done :: "string \<Rightarrow> streamChunk" where
  "chunk_done d = \<lparr>sk_Delta = d, sk_Task = [], sk_Agent = [], sk_Done = True, sk_Err = None\<rparr>"

definition emitStream :: "(streamChunk \<Rightarrow> 'w \<Rightarrow> 'w) option \<Rightarrow> streamChunk \<Rightarrow> 'w \<Rightarrow> 'w" where
  "emitStream sink chunk w =
     (case sink of
        None \<Rightarrow> w
      | Some f \<Rightarrow> f (chunk\<lparr>sk_Err := map_option redactError (sk_Err chunk)\<rparr>) w)"

definition withTaskAgent ::
  "(streamChunk \<Rightarrow> 'w \<Rightarrow> 'w) option \<Rightarrow> string \<Rightarrow> string \<Rightarrow> (streamChunk \<Rightarrow> 'w \<Rightarrow> 'w) option" where
  "withTaskAgent sink task agent =
     map_option (\<lambda>f chunk. f (chunk\<lparr>sk_Task := (if sk_Task chunk = [] then task else sk_Task chunk),
                                    sk_Agent := (if sk_Agent chunk = [] then agent else sk_Agent chunk)\<rparr>)) sink"

section \<open>Receivers\<close>

text \<open>
  The result is the text so far and the error. The context can be seen done only when it is; a
  \<^const>\<open>RecvDone\<close> before that is no choice of the \<^verbatim>\<open>select\<close>.
\<close>

fun collect_loop :: "'w ctx \<Rightarrow> recv list \<Rightarrow> string \<Rightarrow> 'w \<Rightarrow> string \<times> err option" where
  "collect_loop ctx [] b w =
     (case cx_err ctx w of Some e \<Rightarrow> (b, Some e) | None \<Rightarrow> (b, Some (Sentinel ErrStreamIncomplete)))"
| "collect_loop ctx (RecvDone # rs) b w =
     (case cx_err ctx w of Some e \<Rightarrow> (b, Some e) | None \<Rightarrow> collect_loop ctx rs b w)"
| "collect_loop ctx (RecvChunk chunk # rs) b w =
     (case sk_Err chunk of
        Some e \<Rightarrow> (b, Some e)
      | None \<Rightarrow>
          let b = (if sk_Delta chunk \<noteq> [] then b @ sk_Delta chunk else b) in
          if sk_Done chunk then (b, None) else collect_loop ctx rs b w)"

definition CollectStream :: "'w ctx \<Rightarrow> recv list option \<Rightarrow> 'w \<Rightarrow> string \<times> err option" where
  "CollectStream ctx ch w =
     (case ch of None \<Rightarrow> ([], Some (Sentinel ErrStreamIncomplete)) | Some rs \<Rightarrow> collect_loop ctx rs [] w)"

fun drain_loop ::
  "'w ctx \<Rightarrow> (streamChunk \<Rightarrow> 'w \<Rightarrow> 'w) option \<Rightarrow> recv list \<Rightarrow> string \<Rightarrow> 'w \<Rightarrow> 'w \<times> string \<times> err option" where
  "drain_loop ctx sink [] b w =
     (case cx_err ctx w of
        Some e \<Rightarrow> (emitStream sink (chunk_err e) w, b, Some e)
      | None \<Rightarrow> (emitStream sink (chunk_err (Sentinel ErrStreamIncomplete)) w, b, Some (Sentinel ErrStreamIncomplete)))"
| "drain_loop ctx sink (RecvDone # rs) b w =
     (case cx_err ctx w of
        Some e \<Rightarrow> (emitStream sink (chunk_err e) w, b, Some e)
      | None \<Rightarrow> drain_loop ctx sink rs b w)"
| "drain_loop ctx sink (RecvChunk chunk # rs) b w =
     (let b = (if sk_Delta chunk \<noteq> [] then b @ sk_Delta chunk else b);
          w = (if sk_Err chunk \<noteq> None \<or> sk_Done chunk \<or> sk_Delta chunk \<noteq> [] then emitStream sink chunk w else w)
      in case sk_Err chunk of
           Some e \<Rightarrow> (w, b, Some e)
         | None \<Rightarrow> if sk_Done chunk then (w, b, None) else drain_loop ctx sink rs b w)"

definition drainToSink ::
  "'w ctx \<Rightarrow> recv list option \<Rightarrow> (streamChunk \<Rightarrow> 'w \<Rightarrow> 'w) option \<Rightarrow> 'w \<Rightarrow> 'w \<times> string \<times> err option" where
  "drainToSink ctx ch sink w =
     (case ch of
        None \<Rightarrow> (emitStream sink (chunk_err (Sentinel ErrStreamIncomplete)) w, [], Some (Sentinel ErrStreamIncomplete))
      | Some rs \<Rightarrow> drain_loop ctx sink rs [] w)"

section \<open>Calls\<close>

text \<open>As in the code, the text returned beside an error is not empty on the streaming path.\<close>

definition CallOrStream ::
  "'w ctx \<Rightarrow> 'w llm option \<Rightarrow> message list \<Rightarrow> (streamChunk \<Rightarrow> 'w \<Rightarrow> 'w) option \<Rightarrow> 'w \<Rightarrow> 'w \<times> string \<times> err option" where
  "CallOrStream ctx model messages sink w =
     (case model of
        None \<Rightarrow> (w, [], Some (Sentinel ErrNoLLM))
      | Some m \<Rightarrow>
          (case (sink, llm_CallStream m) of
             (Some _, Some call) \<Rightarrow> (case call ctx messages w of (w, ch) \<Rightarrow> drainToSink ctx ch sink w)
           | _ \<Rightarrow>
               (case llm_Call m ctx messages w of
                  (w, Inl e) \<Rightarrow> (emitStream sink (chunk_err e) w, [], Some e)
                | (w, Inr out) \<Rightarrow> (emitStream sink (chunk_done out) w, out, None))))"

definition callLLMText ::
  "'w ctx \<Rightarrow> 'w llm option \<Rightarrow> message list \<Rightarrow> 'w task \<Rightarrow> 'w agent \<Rightarrow> 'w \<Rightarrow> 'w \<times> string \<times> err option" where
  "callLLMText ctx model messages task agent w =
     CallOrStream ctx model messages (withTaskAgent (cx_stream ctx) (taskLabel task 0) (ag_Role agent)) w"

section \<open>Properties\<close>

definition terminal :: "streamChunk \<Rightarrow> bool" where
  "terminal c \<longleftrightarrow> sk_Done c \<or> sk_Err c \<noteq> None"

definition err_chunks_empty :: "recv list \<Rightarrow> bool" where
  "err_chunks_empty rs \<longleftrightarrow> (\<forall>c. RecvChunk c \<in> set rs \<and> sk_Err c \<noteq> None \<longrightarrow> sk_Delta c = [])"

lemma drain_loop_collect:
  assumes st: "cx_err ctx = (\<lambda>_. st)"
  shows "err_chunks_empty rs \<Longrightarrow> snd (drain_loop ctx sink rs b w) = collect_loop ctx rs b w0"
proof (induction rs arbitrary: b w)
  case (Cons r rs)
  then have rs: "err_chunks_empty rs" by (auto simp: err_chunks_empty_def)
  show ?case
  proof (cases r)
    case RecvDone
    then show ?thesis using Cons.IH [OF rs] by (simp add: st split: option.split)
  next
    case (RecvChunk c)
    then have "sk_Err c \<noteq> None \<Longrightarrow> sk_Delta c = []" using Cons.prems by (auto simp: err_chunks_empty_def)
    then show ?thesis using Cons.IH [OF rs] RecvChunk by (auto simp: Let_def split: option.splits)
  qed
qed (simp add: st split: option.split)

text \<open>
  What a receiver makes of a prefix of the channel: the chunks that carry text, the reception that ends the
  loop, and the chunk that the sink is given last. A world is what the sink made of the chunks so far.
\<close>

fun passed :: "recv list \<Rightarrow> streamChunk list" where
  "passed [] = []"
| "passed (RecvDone # rs) = passed rs"
| "passed (RecvChunk c # rs) = (if sk_Delta c = [] then passed rs else c # passed rs)"

definition stops :: "'w ctx \<Rightarrow> 'w \<Rightarrow> recv \<Rightarrow> bool" where
  "stops ctx w r = (case r of RecvDone \<Rightarrow> cx_err ctx w \<noteq> None | RecvChunk c \<Rightarrow> terminal c)"

definition ending :: "'w ctx \<Rightarrow> 'w \<Rightarrow> recv list \<Rightarrow> streamChunk" where
  "ending ctx w rs =
     (case rs of
        RecvChunk c # _ \<Rightarrow> c
      | _ \<Rightarrow> chunk_err (case cx_err ctx w of Some e \<Rightarrow> e | None \<Rightarrow> Sentinel ErrStreamIncomplete))"

definition shown :: "streamChunk \<Rightarrow> streamChunk" where
  "shown c = c\<lparr>sk_Err := map_option redactError (sk_Err c)\<rparr>"

definition given :: "(streamChunk \<Rightarrow> 'w \<Rightarrow> 'w) \<Rightarrow> streamChunk list \<Rightarrow> 'w \<Rightarrow> 'w" where
  "given f cs = fold (\<lambda>c. f (shown c)) cs"

text \<open>The length of the prefix that is received before the loop ends.\<close>

definition heard :: "'w ctx \<Rightarrow> (streamChunk \<Rightarrow> 'w \<Rightarrow> 'w) \<Rightarrow> recv list \<Rightarrow> 'w \<Rightarrow> nat \<Rightarrow> bool" where
  "heard ctx f rs w n \<longleftrightarrow>
     n \<le> length rs \<and> list_all (\<lambda>i. \<not> stops ctx (given f (passed (take i rs)) w) (rs ! i)) [0..<n]
     \<and> (n = length rs \<or> stops ctx (given f (passed (take n rs)) w) (rs ! n))"

lemma heard_0: "rs = [] \<or> stops ctx w (hd rs) \<Longrightarrow> heard ctx f rs w 0"
  by (cases rs) (auto simp: heard_def given_def)

lemma heard_Cons:
  assumes "\<not> stops ctx w r" "heard ctx f rs (given f (passed [r]) w) n"
  shows "heard ctx f (r # rs) w (Suc n)"
proof -
  have g: "given f (passed (r # xs)) w = given f (passed xs) (given f (passed [r]) w)" for xs
    by (cases r) (simp_all add: given_def)
  have "\<not> stops ctx (given f (passed (take i (r # rs))) w) ((r # rs) ! i)" if "i < Suc n" for i
  proof (cases i)
    case 0
    then show ?thesis using assms(1) by (simp add: given_def)
  next
    case (Suc j)
    then show ?thesis using assms(2) that g [of "take j rs"] by (simp add: heard_def list_all_iff)
  qed
  then show ?thesis using assms(2) g [of "take n rs"] by (simp add: heard_def list_all_iff)
qed

lemma not_terminal_shown: "\<not> terminal c \<Longrightarrow> shown c = c"
  by (simp add: terminal_def shown_def)

lemma emit_given: "emitStream (Some f) c w = given f [c] w"
  by (simp add: emitStream_def given_def shown_def)

definition delivers :: "'w ctx \<Rightarrow> (streamChunk \<Rightarrow> 'w \<Rightarrow> 'w) \<Rightarrow> recv list \<Rightarrow> 'w \<Rightarrow> nat \<Rightarrow> 'w \<times> string \<times> err option \<Rightarrow> bool" where
  "delivers ctx f rs w n res \<longleftrightarrow>
     (let got = passed (take n rs); c = ending ctx (given f got w) (drop n rs)
      in terminal c \<and> list_all (\<lambda>d. \<not> terminal d) got
       \<and> res = (given f (got @ [c]) w, concat (map sk_Delta (got @ [c])), sk_Err c))"

lemma delivers_0: "terminal (ending ctx w rs) \<Longrightarrow> res = (given f [ending ctx w rs] w, sk_Delta (ending ctx w rs), sk_Err (ending ctx w rs)) \<Longrightarrow> delivers ctx f rs w 0 res"
  by (simp add: delivers_def given_def)

lemma delivers_Cons:
  assumes "\<not> stops ctx w r" "delivers ctx f rs (given f (passed [r]) w) n (w', str, e)"
  shows "delivers ctx f (r # rs) w (Suc n) (w', concat (map sk_Delta (passed [r])) @ str, e)"
  using assms by (cases r) (auto simp: delivers_def given_def Let_def stops_def)

lemma drain_loop_text:
  "drain_loop ctx sink rs b w = (case drain_loop ctx sink rs [] w of (w', str, e) \<Rightarrow> (w', b @ str, e))"
proof (induction rs arbitrary: b w)
  case (Cons r rs)
  show ?case
  proof (cases r)
    case RecvDone
    then show ?thesis using Cons.IH [of b w] by (simp split: option.split)
  next
    case (RecvChunk c)
    have "drain_loop ctx sink rs (b @ x) w' = (case drain_loop ctx sink rs x w' of (w', str, e) \<Rightarrow> (w', b @ str, e))" for x w'
      using Cons.IH [of "b @ x" w'] Cons.IH [of x w'] by (simp split: prod.split)
    moreover have "drain_loop ctx sink rs b w' = (case drain_loop ctx sink rs [] w' of (w', str, e) \<Rightarrow> (w', b @ str, e))" for w'
      using Cons.IH by blast
    ultimately show ?thesis using RecvChunk by (simp add: Let_def split: option.split)
  qed
qed (simp split: option.split)

lemma drain_loop_delivers:
  "\<exists>n. heard ctx f rs w n \<and> delivers ctx f rs w n (drain_loop ctx (Some f) rs [] w)"
proof (induction rs arbitrary: w)
  case Nil
  have "delivers ctx f [] w 0 (drain_loop ctx (Some f) [] [] w)"
    by (cases "cx_err ctx w"; rule delivers_0) (simp_all add: ending_def terminal_def chunk_err_def emit_given)
  then show ?case using heard_0 [of "[]" ctx w f] by auto
next
  case (Cons r rs)
  show ?case
  proof (cases "stops ctx w r")
    case True
    then have "delivers ctx f (r # rs) w 0 (drain_loop ctx (Some f) (r # rs) [] w)"
      by (intro delivers_0)
        (auto simp: ending_def terminal_def chunk_err_def emit_given stops_def Let_def split: recv.splits option.splits)
    then show ?thesis using True heard_0 [of "r # rs" ctx w f] by auto
  next
    case False
    let ?d = "concat (map sk_Delta (passed [r]))" and ?w = "given f (passed [r]) w"
    have "drain_loop ctx (Some f) (r # rs) [] w = drain_loop ctx (Some f) rs ?d ?w"
      using False by (cases r) (auto simp: stops_def terminal_def emit_given Let_def given_def)
    then have run: "drain_loop ctx (Some f) (r # rs) [] w = (case drain_loop ctx (Some f) rs [] ?w of (w', str, e) \<Rightarrow> (w', ?d @ str, e))"
      using drain_loop_text [of ctx "Some f" rs ?d ?w] by simp
    obtain n where n: "heard ctx f rs ?w n" "delivers ctx f rs ?w n (drain_loop ctx (Some f) rs [] ?w)"
      using Cons.IH by blast
    obtain w' str e where res: "drain_loop ctx (Some f) rs [] ?w = (w', str, e)" using prod_cases3 by blast
    show ?thesis using heard_Cons [OF False n(1)] delivers_Cons [OF False n(2) [unfolded res]]
      unfolding run res by auto
  qed
qed

text \<open>
  C22. A sink is given what the channel carried, and is told when it ends. The receptions up to the first
  terminal chunk, the first done context or the close of the channel are read (\<open>heard\<close>); the sink is given the
  chunks among them that carry text, all of them and in their order, and then one terminal chunk, the last:
  the channel's own, or the error of the context, or \<^verbatim>\<open>ErrStreamIncomplete\<close>, with its error redacted. The text
  returned is that of the chunks given, the error that of the last. A nil channel gives the sink one incomplete
  chunk. A channel here is a finite list that ends by closing: one that neither sends nor closes blocks the code
  until its context is done, and has no value in the model.
\<close>
theorem drainToSink_delivers:
  "(\<exists>n. heard ctx f rs w n
      \<and> (let got = passed (take n rs); c = ending ctx (given f got w) (drop n rs)
         in terminal c \<and> list_all (\<lambda>d. \<not> terminal d) got
          \<and> drainToSink ctx (Some rs) (Some f) w
              = (given f (got @ [c]) w, concat (map sk_Delta (got @ [c])), sk_Err c)))
   \<and> drainToSink ctx None (Some f) w
       = (given f [chunk_err (Sentinel ErrStreamIncomplete)] w, [], Some (Sentinel ErrStreamIncomplete))"
  using drain_loop_delivers [of ctx f rs w]
  by (auto simp: drainToSink_def delivers_def emit_given)

text \<open>
  Streaming to a sink and collecting without one agree: same text and same error, for a context
  whose state does not change meanwhile and a provider whose error chunks carry no text.
\<close>
theorem drainToSink_collects:
  assumes "cx_err ctx = (\<lambda>_. st)" and "\<forall>rs. ch = Some rs \<longrightarrow> err_chunks_empty rs"
  shows "snd (drainToSink ctx ch sink w) = CollectStream ctx ch w"
  using assms drain_loop_collect [OF assms(1)]
  by (auto simp: drainToSink_def CollectStream_def split: option.split)

section \<open>Witnesses\<close>

lemma drainToSink_delivers_witness:
  "drainToSink background (Some [RecvChunk (chunk_delta ''a''), RecvDone, RecvChunk (chunk_delta []), RecvChunk (chunk_delta ''b''),
       RecvChunk (chunk_done []), RecvChunk (chunk_delta ''c'')]) (Some (\<lambda>c cs. cs @ [c])) []
   = ([chunk_delta ''a'', chunk_delta ''b'', chunk_done []], ''ab'', None)"
proof -
  let ?f = "\<lambda>c cs. cs @ [c]" and ?rs = "[RecvChunk (chunk_delta ''a''), RecvDone, RecvChunk (chunk_delta []),
    RecvChunk (chunk_delta ''b''), RecvChunk (chunk_done []), RecvChunk (chunk_delta ''c'')]"
  obtain n where n: "heard background ?f ?rs [] n"
    and res: "let got = passed (take n ?rs); c = ending background (given ?f got []) (drop n ?rs)
         in terminal c \<and> list_all (\<lambda>d. \<not> terminal d) got
          \<and> drainToSink background (Some ?rs) (Some ?f) []
              = (given ?f (got @ [c]) [], concat (map sk_Delta (got @ [c])), sk_Err c)"
    using drainToSink_delivers [of background ?f ?rs "[]"] by blast
  have quiet: "\<not> stops background w' r \<longleftrightarrow> (case r of RecvDone \<Rightarrow> True | RecvChunk c \<Rightarrow> \<not> terminal c)" for w' :: "streamChunk list" and r
    by (cases r) (simp_all add: stops_def background_def)
  have "n = 4"
  proof (rule ccontr)
    assume "n \<noteq> 4"
    then consider "n < 4" | "4 < n" by linarith
    then show False
    proof cases
      case 1
      then have "n = 0 \<or> n = 1 \<or> n = 2 \<or> n = 3" by linarith
      then show False using n quiet
        by (elim disjE) (simp_all add: heard_def stops_def background_def terminal_def chunk_delta_def)
    next
      case 2
      then have "4 \<in> set [0..<n]" by simp
      then have "\<not> stops background (given ?f (passed (take 4 ?rs)) []) (?rs ! 4)"
        using n unfolding heard_def list_all_iff by blast
      then show False by (simp add: quiet terminal_def chunk_done_def)
    qed
  qed
  then show ?thesis using res
    by (simp add: Let_def given_def shown_def ending_def chunk_delta_def chunk_done_def)
qed

lemma drainToSink_collects_witness:
  "snd (drainToSink background (Some [RecvChunk (chunk_delta ''a'')]) (Some (\<lambda>c w. w @ [c])) [])
   = (''a'', Some (Sentinel ErrStreamIncomplete))"
  by (subst drainToSink_collects [of background None])
    (simp_all add: background_def err_chunks_empty_def chunk_delta_def CollectStream_def)

end
