(* ===== verification/Executor.thy ===== *)
theory Executor
  imports Prompts Stream
begin

text \<open>
  The default executor: model calls with their events (\<^verbatim>\<open>executor.go\<close>), the ReAct loop, and the
  native tool-calling loop (\<^verbatim>\<open>toolcall.go\<close>). \<^verbatim>\<open>tool.Call\<close> is the parameter \<open>call\<close>, because the
  delegation tool runs an executor again; the knot is tied where that tool is modelled. A runtime
  panic (a slice out of range, a nil model) is an error value here.
\<close>

type_synonym 'w toolCaller = "'w ctx \<Rightarrow> 'w tool \<Rightarrow> string \<Rightarrow> 'w rt \<Rightarrow> 'w rt \<times> (err + string)"

definition panic_bounds :: err where
  "panic_bounds = Plain ''panic: runtime error: slice bounds out of range''"

definition panic_nil :: err where
  "panic_nil = Plain ''panic: runtime error: invalid memory address or nil pointer dereference''"

definition defaultMaxIterations :: int where "defaultMaxIterations = 15"
definition ToolModeNative :: string where "ToolModeNative = ''native''"

definition max_iterations :: "'w agent \<Rightarrow> int" where
  "max_iterations a = (if ag_MaxIterations a \<le> 0 then defaultMaxIterations else ag_MaxIterations a)"

definition effectiveTools :: "'w agent \<Rightarrow> 'w task \<Rightarrow> 'w tool list" where
  "effectiveTools a t = (if tk_Tools t \<noteq> [] then tk_Tools t else ag_Tools a)"

definition agent_wrap :: "'w agent \<Rightarrow> string \<Rightarrow> err \<Rightarrow> err" where
  "agent_wrap a phase e = wrapf (''agent '' @ go_quote (ag_Role a) @ phase @ '': '') e"

section \<open>Model calls with events\<close>

definition llm_event :: "string \<Rightarrow> 'w agent \<Rightarrow> 'w task \<Rightarrow> nat \<Rightarrow> crewEvent" where
  "llm_event ty a t i = (event ty)\<lparr>ev_Task := taskLabel t 0, ev_Agent := ag_Role a, ev_Iteration := i,
     ev_Attrs := (case ag_LLM a of
                    Some m \<Rightarrow> if llm_Model m \<noteq> [] then [(''model'', llm_Model m)] else []
                  | None \<Rightarrow> [])\<rparr>"

definition completed :: "'w ctx \<Rightarrow> crewEvent \<Rightarrow> err + string \<Rightarrow> 'w rt \<Rightarrow> 'w rt \<times> (err + string)" where
  "completed ctx ev r rt =
     (case r of
        Inl e \<Rightarrow> (on_world (emitEventErr ctx ev (Some e)) rt, Inl e)
      | Inr out \<Rightarrow> (on_world (emitEvent ctx ev) rt, Inr out))"

definition callLLMTextEvent ::
  "'w ctx \<Rightarrow> 'w agent \<Rightarrow> tid \<Rightarrow> message list \<Rightarrow> nat \<Rightarrow> 'w rt \<Rightarrow> 'w rt \<times> (err + string)" where
  "callLLMTextEvent ctx a t messages i rt =
     (let k = rt_tasks rt t;
          rt = on_world (emitEvent ctx (llm_event EventLLMCallStarted a k i)) rt;
          (rt, out, er) = outside (callLLMText ctx (ag_LLM a) messages k a) rt
      in completed ctx (llm_event EventLLMCallCompleted a k i)
           (case er of Some e \<Rightarrow> Inl e | None \<Rightarrow> Inr out) rt)"

definition callLLMPlainEvent ::
  "'w ctx \<Rightarrow> 'w agent \<Rightarrow> tid \<Rightarrow> message list \<Rightarrow> nat \<Rightarrow> 'w rt \<Rightarrow> 'w rt \<times> (err + string)" where
  "callLLMPlainEvent ctx a t messages i rt =
     (let k = rt_tasks rt t;
          rt = on_world (emitEvent ctx (llm_event EventLLMCallStarted a k i)) rt;
          done_ev = llm_event EventLLMCallCompleted a k i
      in case ag_LLM a of
           None \<Rightarrow> completed ctx done_ev (Inl (Sentinel ErrNoLLM)) rt
         | Some m \<Rightarrow> (case outside (llm_Call m ctx messages) rt of (rt, r) \<Rightarrow> completed ctx done_ev r rt))"

section \<open>Running one tool\<close>

text \<open>The facts of a \<^verbatim>\<open>FactSource\<close>, read after a successful call.\<close>

definition tool_facts :: "'w tool \<Rightarrow> 'w rt \<Rightarrow> fact list option" where
  "tool_facts tool rt =
     (case tool of ExtTool x \<Rightarrow> map_option (\<lambda>f. f (rt_w rt)) (xt_Facts x) | _ \<Rightarrow> None)"

definition collect_facts :: "'w tool \<Rightarrow> 'w rt \<Rightarrow> fact list \<Rightarrow> fact list" where
  "collect_facts tool rt facts =
     (case tool_facts tool rt of None \<Rightarrow> facts | Some fs \<Rightarrow> dedupFacts facts fs)"

text \<open>Call, observation and facts, as all four tool loops do it; the flag says the call failed.\<close>

definition run_tool ::
  "'w toolCaller \<Rightarrow> 'w ctx \<Rightarrow> 'w tool \<Rightarrow> string \<Rightarrow> string \<Rightarrow> fact list \<Rightarrow> 'w rt
   \<Rightarrow> 'w rt \<times> bool \<times> string \<times> fact list" where
  "run_tool call ctx tool name input facts rt =
     (case call ctx tool input rt of
        (rt, Inl e) \<Rightarrow> (rt, True, ''Error running tool '' @ go_quote name @ '': '' @ error_text e, facts)
      | (rt, Inr result) \<Rightarrow> (rt, False, truncateToolOutput result, collect_facts tool rt facts))"

definition unknown_tool :: "string \<Rightarrow> string" where
  "unknown_tool name = ''Error: tool '' @ go_quote name @ '' does not exist.''"

definition unknown_tool_listing :: "'w tool list \<Rightarrow> string \<Rightarrow> string" where
  "unknown_tool_listing tools name =
     unknown_tool name @ '' Available tools: '' @ str_join '', '' (toolNames tools) @ ''.''"

definition tool_invoked :: "'w ctx \<Rightarrow> 'w agent \<Rightarrow> string \<Rightarrow> 'w rt \<Rightarrow> 'w rt" where
  "tool_invoked ctx a name rt =
     on_world (emitProgress ctx ((progress_of ''tool_invoked'')\<lparr>pg_Agent := ag_Role a, pg_Tool := name\<rparr>)) rt"

section \<open>ReAct\<close>

definition react_observe ::
  "'w toolCaller \<Rightarrow> 'w ctx \<Rightarrow> 'w agent \<Rightarrow> 'w tool list \<Rightarrow> string \<Rightarrow> string \<Rightarrow> fact list \<Rightarrow> 'w rt
   \<Rightarrow> 'w rt \<times> string \<times> fact list" where
  "react_observe call ctx a tools action input facts rt =
     (case findTool tools action of
        None \<Rightarrow> (rt, unknown_tool_listing tools action, facts)
      | Some tool \<Rightarrow>
          (case run_tool call ctx tool action input facts rt of
             (rt, _, observation, facts) \<Rightarrow> (tool_invoked ctx a action rt, observation, facts)))"

fun react_loop ::
  "'w toolCaller \<Rightarrow> 'w ctx \<Rightarrow> 'w agent \<Rightarrow> tid \<Rightarrow> 'w tool list \<Rightarrow> nat \<Rightarrow> nat \<Rightarrow> message list \<Rightarrow> fact list \<Rightarrow> 'w rt
   \<Rightarrow> 'w rt \<times> xres" where
  "react_loop call ctx a t tools 0 i messages facts rt =
     (rt, [], facts, Some (Wrap (''agent '' @ go_quote (ag_Role a) @ '': '') (Sentinel ErrMaxIterations)
        ('' ('' @ itoa_int (max_iterations a) @ '' iterations)'')))"
| "react_loop call ctx a t tools (Suc n) i messages facts rt =
     (case cx_err ctx (rt_w rt) of
        Some e \<Rightarrow> (rt, [], facts, Some e)
      | None \<Rightarrow>
          (let rt = on_world (emitEvent ctx ((event EventReactIteration)
                      \<lparr>ev_Task := taskLabel (rt_tasks rt t) 0, ev_Agent := ag_Role a, ev_Iteration := i\<rparr>)) rt in
           case callLLMPlainEvent ctx a t messages i rt of
             (rt, Inl e) \<Rightarrow> (rt, [], facts, Some (agent_wrap a [] e))
           | (rt, Inr out) \<Rightarrow>
               (let out = trim_space out in
                case parseFinalAnswer out of
                  None \<Rightarrow> (rt, [], facts, Some panic_bounds)
                | Some (Some answer) \<Rightarrow> (rt, trim_space answer, facts, None)
                | Some None \<Rightarrow>
                    (case parseAction out of
                       None \<Rightarrow> (rt, [], facts, Some panic_bounds)
                     | Some None \<Rightarrow> (rt, trim_space out, facts, None)
                     | Some (Some (action, input)) \<Rightarrow>
                         (let (rt, observation, facts) = react_observe call ctx a tools action input facts rt
                          in react_loop call ctx a t tools n (Suc i)
                               (messages @ [AssistantMessage out, UserMessage (''Observation: '' @ observation)])
                               facts rt)))))"

text \<open>The answer of a single call without tools.\<close>

definition direct_answer :: "string \<Rightarrow> err + string" where
  "direct_answer out =
     (case stripFinalAnswer out of None \<Rightarrow> Inl panic_bounds | Some s \<Rightarrow> Inr (trim_space s))"

section \<open>Native tool calling\<close>

text \<open>One requested call: the trace it leaves and the facts it adds.\<close>

definition native_call ::
  "'w toolCaller \<Rightarrow> 'w ctx \<Rightarrow> 'w agent \<Rightarrow> 'w tool list \<Rightarrow> toolCall \<Rightarrow> fact list \<Rightarrow> 'w rt
   \<Rightarrow> 'w rt \<times> toolTrace \<times> fact list" where
  "native_call call ctx a tools tc facts rt =
     (let trace = \<lparr>tt_Tool = tc_Name tc, tt_Args = tc_Arguments tc, tt_Output = [], tt_Failed = False\<rparr> in
      case validateToolArgs (tc_Arguments tc) of
        Some e \<Rightarrow> (rt, trace\<lparr>tt_Failed := True, tt_Output := ''Error: '' @ error_text e\<rparr>, facts)
      | None \<Rightarrow>
          (case findTool tools (tc_Name tc) of
             None \<Rightarrow> (rt, trace\<lparr>tt_Failed := True, tt_Output := unknown_tool_listing tools (tc_Name tc)\<rparr>, facts)
           | Some tool \<Rightarrow>
               (case run_tool call ctx tool (tc_Name tc) (tc_Arguments tc) facts rt of
                  (rt, failed, output, facts) \<Rightarrow>
                    (tool_invoked ctx a (tc_Name tc) rt, trace\<lparr>tt_Failed := failed, tt_Output := output\<rparr>, facts))))"

definition tool_message :: "toolCall \<Rightarrow> string \<Rightarrow> message" where
  "tool_message tc content = \<lparr>msg_Role = RoleTool, msg_Content = content, msg_ToolCalls = [],
     msg_ToolName = tc_Name tc, msg_ToolCallID = tc_ID tc\<rparr>"

definition assistant_calls :: "toolCallResponse \<Rightarrow> message" where
  "assistant_calls resp = (AssistantMessage (tr_Content resp))\<lparr>msg_ToolCalls := tr_ToolCalls resp\<rparr>"

fun native_calls ::
  "'w toolCaller \<Rightarrow> 'w ctx \<Rightarrow> 'w agent \<Rightarrow> 'w tool list \<Rightarrow> toolCall list \<Rightarrow> message list \<Rightarrow> toolTrace list \<Rightarrow> fact list
   \<Rightarrow> 'w rt \<Rightarrow> 'w rt \<times> message list \<times> toolTrace list \<times> fact list" where
  "native_calls call ctx a tools [] messages traces facts rt = (rt, messages, traces, facts)"
| "native_calls call ctx a tools (tc # tcs) messages traces facts rt =
     (let (rt, trace, facts) = native_call call ctx a tools tc facts rt
      in native_calls call ctx a tools tcs (messages @ [tool_message tc (tt_Output trace)]) (traces @ [trace]) facts rt)"

fun native_loop ::
  "'w toolCaller \<Rightarrow> 'w ctx \<Rightarrow> 'w agent \<Rightarrow> 'w tool list
   \<Rightarrow> ('w ctx \<Rightarrow> message list \<Rightarrow> toolSpec list \<Rightarrow> 'w \<Rightarrow> 'w \<times> (err + toolCallResponse))
   \<Rightarrow> nat \<Rightarrow> message list \<Rightarrow> toolTrace list \<Rightarrow> fact list \<Rightarrow> 'w rt
   \<Rightarrow> 'w rt \<times> string \<times> toolTrace list \<times> fact list \<times> err option" where
  "native_loop call ctx a tools tcll 0 messages traces facts rt =
     (rt, [], traces, facts, Some (Wrap (''agent '' @ go_quote (ag_Role a) @ '': '') (Sentinel ErrMaxIterations)
        ('' ('' @ itoa_int (max_iterations a) @ '' iterations)'')))"
| "native_loop call ctx a tools tcll (Suc n) messages traces facts rt =
     (case cx_err ctx (rt_w rt) of
        Some e \<Rightarrow> (rt, [], traces, facts, Some e)
      | None \<Rightarrow>
          (case outside (tcll ctx messages (toToolSpecs tools)) rt of
             (rt, Inl e) \<Rightarrow> (rt, [], traces, facts, Some (agent_wrap a [] e))
           | (rt, Inr resp) \<Rightarrow>
               if tr_ToolCalls resp = [] then (rt, trim_space (tr_Content resp), traces, facts, None)
               else
                 (let (rt, messages, traces, facts) =
                        native_calls call ctx a tools (tr_ToolCalls resp) (messages @ [assistant_calls resp]) traces facts rt
                  in native_loop call ctx a tools tcll n messages traces facts rt)))"

definition executeTaskWithTools ::
  "'w toolCaller \<Rightarrow> 'w ctx \<Rightarrow> 'w agent \<Rightarrow> tid \<Rightarrow> string \<Rightarrow> 'w rt
   \<Rightarrow> 'w rt \<times> string \<times> toolTrace list \<times> fact list \<times> err option" where
  "executeTaskWithTools call ctx a t contextText rt =
     (case Option.bind (ag_LLM a) llm_CallWithTools of
        None \<Rightarrow> (rt, [], [], [], Some (Sentinel ErrNativeToolsUnsupported))
      | Some tcll \<Rightarrow>
          (let k = rt_tasks rt t; tools = effectiveTools a k;
               messages = [SystemMessage (buildSystemPrompt a), UserMessage (buildTaskPrompt k contextText)]
           in if tools = []
              then (case callLLMTextEvent ctx a t messages 0 rt of
                      (rt, Inl e) \<Rightarrow> (rt, [], [], [], Some e)
                    | (rt, Inr out) \<Rightarrow>
                        (case direct_answer out of
                           Inl e \<Rightarrow> (rt, [], [], [], Some e)
                         | Inr s \<Rightarrow> (rt, s, [], [], None)))
              else native_loop call ctx a tools tcll (nat (max_iterations a)) messages [] [] rt))"

section \<open>Well-paired conversations\<close>

text \<open>
  What the providers with native tool calling require: a tool message answers a call, and the
  message that requests calls is followed by the answers to all of them, in order and with their ids.
\<close>

definition answers :: "toolCall \<Rightarrow> message \<Rightarrow> bool" where
  "answers tc m \<longleftrightarrow> msg_Role m = RoleTool \<and> msg_ToolCallID m = tc_ID tc \<and> msg_ToolName m = tc_Name tc
     \<and> msg_ToolCalls m = []"

function paired :: "message list \<Rightarrow> bool" where
  "paired [] = True"
| "paired (m # ms) =
     (if msg_ToolCalls m = [] then msg_Role m \<noteq> RoleTool \<and> paired ms
      else msg_Role m = RoleAssistant
        \<and> list_all2 answers (msg_ToolCalls m) (take (length (msg_ToolCalls m)) ms)
        \<and> paired (drop (length (msg_ToolCalls m)) ms))"
  by pat_completeness auto
termination by (relation "measure length") auto

lemma paired_append: "paired xs \<Longrightarrow> paired ys \<Longrightarrow> paired (xs @ ys)"
proof (induction xs rule: paired.induct)
  case (2 m ms)
  show ?case
  proof (cases "msg_ToolCalls m = []")
    case False
    have "list_all2 answers (msg_ToolCalls m) (take (length (msg_ToolCalls m)) ms)" using 2 False by simp
    then have "length (msg_ToolCalls m) \<le> length ms" by (auto dest: list_all2_lengthD)
    then show ?thesis using 2 False by simp
  qed (use 2 in simp)
qed simp

lemma native_calls_answered:
  "native_calls call ctx a tools tcs messages traces facts rt = (rt', messages', traces', facts') \<Longrightarrow>
   \<exists>ts. traces' = traces @ ts \<and> length ts = length tcs
     \<and> messages' = messages @ map2 (\<lambda>tc tr. tool_message tc (tt_Output tr)) tcs ts
     \<and> (dedup_wf facts \<longrightarrow> dedup_wf facts')"
proof (induction tcs arbitrary: messages traces facts rt)
  case (Cons tc tcs)
  obtain rt1 tr facts1 where 1: "native_call call ctx a tools tc facts rt = (rt1, tr, facts1)"
    using prod_cases3 by blast
  have wf: "dedup_wf facts \<longrightarrow> dedup_wf facts1"
    using 1 by (auto simp: native_call_def run_tool_def collect_facts_def Let_def dedupFacts_wf
        split: option.splits prod.splits sum.splits)
  have "native_calls call ctx a tools tcs (messages @ [tool_message tc (tt_Output tr)]) (traces @ [tr]) facts1 rt1
      = (rt', messages', traces', facts')" using Cons.prems 1 by simp
  from Cons.IH [OF this] obtain ts where
    "traces' = (traces @ [tr]) @ ts" "length ts = length tcs"
    "messages' = (messages @ [tool_message tc (tt_Output tr)]) @ map2 (\<lambda>tc tr. tool_message tc (tt_Output tr)) tcs ts"
    "dedup_wf facts1 \<longrightarrow> dedup_wf facts'" by blast
  then show ?case using wf by (intro exI [of _ "tr # ts"]) auto
qed simp

lemma answers_map2: "length ts = length tcs \<Longrightarrow>
   list_all2 answers tcs (map2 (\<lambda>tc tr. tool_message tc (tt_Output tr)) tcs ts)"
  by (induction tcs ts rule: list_induct2') (simp_all add: answers_def tool_message_def)

lemma native_turn_paired:
  assumes "paired messages" "tr_ToolCalls resp \<noteq> []" "length ts = length (tr_ToolCalls resp)"
  shows "paired (messages @ [assistant_calls resp]
    @ map2 (\<lambda>tc tr. tool_message tc (tt_Output tr)) (tr_ToolCalls resp) ts)"
proof -
  have "paired (assistant_calls resp # map2 (\<lambda>tc tr. tool_message tc (tt_Output tr)) (tr_ToolCalls resp) ts)"
    using assms(2,3) answers_map2 [OF assms(3)] by (simp add: assistant_calls_def AssistantMessage_def)
  then show ?thesis using paired_append [OF assms(1)] by simp
qed

lemma native_calls_limits:
  assumes "\<And>tool input rt. validateToolArgs input = None \<Longrightarrow> call ctx tool input rt = call' ctx tool input rt"
  shows "native_calls call ctx a tools tcs messages traces facts rt
       = native_calls call' ctx a tools tcs messages traces facts rt"
proof (induction tcs arbitrary: messages traces facts rt)
  case (Cons tc tcs)
  have "native_call call ctx a tools tc facts rt = native_call call' ctx a tools tc facts rt"
    using assms by (simp add: native_call_def run_tool_def Let_def split: option.split)
  then show ?case using Cons by simp
qed simp

section \<open>Properties\<close>

lemma native_loop_agrees:
  assumes "\<And>msgs w. paired msgs \<Longrightarrow> tcll ctx msgs (toToolSpecs tools) w = tcll' ctx msgs (toToolSpecs tools) w"
    and "\<And>tool input rt. validateToolArgs input = None \<Longrightarrow> call ctx tool input rt = call' ctx tool input rt"
    and "paired messages"
  shows "native_loop call ctx a tools tcll n messages traces facts rt
       = native_loop call' ctx a tools tcll' n messages traces facts rt"
  using assms(3)
proof (induction n arbitrary: messages traces facts rt)
  case (Suc n)
  have same: "outside (tcll ctx messages (toToolSpecs tools)) rt = outside (tcll' ctx messages (toToolSpecs tools)) rt"
    using assms(1) [OF Suc.prems] by (simp add: outside_def)
  show ?case
  proof (cases "cx_err ctx (rt_w rt)")
    case None
    obtain rt1 r where r: "outside (tcll' ctx messages (toToolSpecs tools)) rt = (rt1, r)" by fastforce
    show ?thesis
    proof (cases r)
      case (Inl e) then show ?thesis using None same r by simp
    next
      case (Inr resp)
      show ?thesis
      proof (cases "tr_ToolCalls resp = []")
        case True then show ?thesis using None same r Inr by simp
      next
        case False
        obtain rt2 m2 t2 f2 where c:
          "native_calls call' ctx a tools (tr_ToolCalls resp) (messages @ [assistant_calls resp]) traces facts rt1
             = (rt2, m2, t2, f2)" using prod_cases4 by blast
        obtain ts :: "toolTrace list" where "length ts = length (tr_ToolCalls resp)"
          "m2 = (messages @ [assistant_calls resp]) @ map2 (\<lambda>tc tr. tool_message tc (tt_Output tr)) (tr_ToolCalls resp) ts"
          using native_calls_answered [OF c] by blast
        then have "paired m2" using native_turn_paired [OF Suc.prems False, of ts] by simp
        then show ?thesis using Suc.IH [of m2 t2 f2 rt2] None same r Inr False c
          native_calls_limits [of call ctx call', OF assms(2)] by simp
      qed
    qed
  qed simp
qed simp

text \<open>
  C11. The native loop keeps its promises to both sides: the provider is only ever sent well-paired
  conversations, and a tool only ever receives arguments within the size and depth limits. The
  loop behaves the same with any other provider and any other tools that agree on those.
\<close>
theorem native_loop_protocol:
  assumes "\<And>msgs w. paired msgs \<Longrightarrow> tcll ctx msgs (toToolSpecs tools) w = tcll' ctx msgs (toToolSpecs tools) w"
    and "\<And>tool input rt. validateToolArgs input = None \<Longrightarrow> call ctx tool input rt = call' ctx tool input rt"
    and "paired messages"
  shows "native_loop call ctx a tools tcll n messages traces facts rt
       = native_loop call' ctx a tools tcll' n messages traces facts rt"
  by (rule native_loop_agrees) (fact assms)+

lemma native_loop_wf:
  "native_loop call ctx a tools tcll n messages traces facts rt = (rt', s, traces', facts', e) \<Longrightarrow>
   dedup_wf facts \<Longrightarrow> dedup_wf facts'"
proof (induction n arbitrary: messages traces facts rt)
  case (Suc n)
  show ?case
  proof (cases "cx_err ctx (rt_w rt)")
    case None
    obtain rt1 r where r: "outside (tcll ctx messages (toToolSpecs tools)) rt = (rt1, r)" by fastforce
    show ?thesis
    proof (cases r)
      case (Inl e) then show ?thesis using Suc.prems None r by simp
    next
      case (Inr resp)
      obtain rt2 m2 t2 f2 where c:
        "native_calls call ctx a tools (tr_ToolCalls resp) (messages @ [assistant_calls resp]) traces facts rt1
           = (rt2, m2, t2, f2)" using prod_cases4 by blast
      show ?thesis
      proof (cases "tr_ToolCalls resp = []")
        case True then show ?thesis using Suc.prems None r Inr by simp
      next
        case False
        have "dedup_wf f2" using native_calls_answered [OF c] Suc.prems(2) by blast
        then show ?thesis using Suc.IH [of m2 t2 f2 rt2] Suc.prems(1) None r Inr False c by simp
      qed
    qed
  qed (use Suc.prems in simp)
qed simp

section \<open>Witnesses\<close>

text \<open>A provider that asks for one call of \<^verbatim>\<open>echo\<close> on a first message, and then answers.\<close>

definition echo_provider :: "'w ctx \<Rightarrow> message list \<Rightarrow> toolSpec list \<Rightarrow> 'w \<Rightarrow> 'w \<times> (err + toolCallResponse)" where
  "echo_provider ctx messages specs w = (w, Inr
     (if length messages \<le> 1
      then \<lparr>tr_Content = [], tr_ToolCalls = [\<lparr>tc_ID = ''1'', tc_Name = ''echo'', tc_Arguments = ''[]''\<rparr>]\<rparr>
      else \<lparr>tr_Content = msg_Content (last messages), tr_ToolCalls = []\<rparr>))"

definition echo_tool :: "'w tool" where
  "echo_tool = NewTool ''echo'' [] None"

definition echo_call :: "'w toolCaller" where
  "echo_call ctx tool input rt = (rt, Inr input)"

lemma native_loop_protocol_witness:
  "\<forall>rt. fst (snd (native_loop echo_call background (NewAgent ''a'' [] [] None) [echo_tool :: unit tool] echo_provider 2
     [UserMessage ''q''] [] [] rt)) = ''[]''"
proof
  fix rt :: "unit rt"
  let ?strict = "\<lambda>ctx messages specs w. if paired messages then echo_provider ctx messages specs w
    else ((), Inl panic_nil)"
  have u: "paired [UserMessage ''q'']" by (simp add: UserMessage_def)
  have t: "trim_space ''[]'' = ''[]''" by code_simp
  have v: "validateToolArgs ''[]'' = None"
    by (simp add: validateToolArgs_def MaxToolArgsBytes_def MaxToolArgsDepth_def jsonDepth_def)
  have "native_loop echo_call background (NewAgent ''a'' [] [] None) [echo_tool :: unit tool] echo_provider 2
      [UserMessage ''q''] [] [] rt
    = native_loop echo_call background (NewAgent ''a'' [] [] None) [echo_tool] ?strict 2 [UserMessage ''q''] [] [] rt"
    by (rule native_loop_protocol [OF _ _ u]) simp_all
  also have "fst (snd \<dots>) = ''[]''"
    using v by (simp add: numeral_2_eq_2 outside_def background_def echo_provider_def native_call_def echo_tool_def
        NewTool_def findTool_def run_tool_def echo_call_def collect_facts_def tool_facts_def tool_invoked_def
        on_world_def emitProgress_def Let_def UserMessage_def assistant_calls_def AssistantMessage_def tool_message_def
        truncateToolOutput_def MaxToolOutputBytes_def answers_def t)
  finally show "fst (snd (native_loop echo_call background (NewAgent ''a'' [] [] None) [echo_tool :: unit tool] echo_provider 2
     [UserMessage ''q''] [] [] rt)) = ''[]''" .
qed

end
