(* ===== verification/Loop.thy ===== *)
theory Loop
  imports Structured
begin

text \<open>
  The dispatch of \<^verbatim>\<open>executor.go\<close> (\<^verbatim>\<open>executeTaskDefault\<close>, \<^verbatim>\<open>executeTask\<close>) and the
  Plan-Execute-Evaluate-Refine strategy of \<^verbatim>\<open>loop.go\<close>. The lemmas show that an agentic loop only
  returns an output its evaluator scored at the threshold or above, and ends after its refinements.
\<close>

section \<open>The default executor\<close>

definition executeTaskDefault ::
  "'w env \<Rightarrow> 'w toolCaller \<Rightarrow> 'w ctx \<Rightarrow> 'w agent \<Rightarrow> tid \<Rightarrow> string \<Rightarrow> 'w rt \<Rightarrow> 'w rt \<times> xres" where
  "executeTaskDefault en call ctx a t contextText rt =
     (if ag_LLM a = None then (rt, [], [], Some (Sentinel ErrNoLLM))
      else case tk_Structured (rt_tasks rt t) of
        Some s \<Rightarrow> executeStructured en call ctx a t s contextText rt
      | None \<Rightarrow>
          if ag_ToolMode a = ToolModeNative then
            (case executeTaskWithTools call ctx a t contextText rt of
               (rt, result, traces, facts, Some e) \<Rightarrow> (rt, [], [], Some e)
             | (rt, result, traces, facts, None) \<Rightarrow> (setToolTraces t traces rt, result, facts, None))
          else
            (let k = rt_tasks rt t; tools = effectiveTools a k;
                 system = buildSystemPrompt a
                   @ (if tools \<noteq> [] then buildToolInstructions tools else noToolFinalInstruction);
                 messages = [SystemMessage system, UserMessage (buildTaskPrompt k contextText)]
             in if tools = [] then
                  (case callLLMTextEvent ctx a t messages 0 rt of
                     (rt, Inl e) \<Rightarrow> (rt, [], [], Some (agent_wrap a [] e))
                   | (rt, Inr out) \<Rightarrow>
                       (case direct_answer out of
                          Inl e \<Rightarrow> (rt, [], [], Some e)
                        | Inr s \<Rightarrow> (rt, s, [], None)))
                else react_loop call ctx a t tools (nat (max_iterations a)) 0 messages [] rt))"

section \<open>Evaluation\<close>

definition defaultMaxRefinements :: int where "defaultMaxRefinements = 2"
definition defaultPassThreshold :: int where "defaultPassThreshold = 70"

definition invalid_evaluation :: "string \<Rightarrow> err" where
  "invalid_evaluation s = Wrap [] (Sentinel ErrInvalidEvaluation) s"

definition parseEvaluation :: "'w env \<Rightarrow> string \<Rightarrow> err + int \<times> string" where
  "parseEvaluation en raw =
     (case en_evaluation en (extractJSON raw) of
        Inl e \<Rightarrow> Inl (invalid_evaluation ('': '' @ error_text e))
      | Inr (None, feedback) \<Rightarrow> Inl (invalid_evaluation '': missing score field'')
      | Inr (Some score, feedback) \<Rightarrow>
          if score < 0 \<or> score > 100 then Inl (invalid_evaluation '': score out of range (0-100)'')
          else Inr (score, feedback))"

definition interpolateEvaluationPrompt :: "'w env \<Rightarrow> string \<Rightarrow> 'w task \<Rightarrow> string \<Rightarrow> string" where
  "interpolateEvaluationPrompt en template t actualOutput =
     fold (\<lambda>(k, v) template. replace_all k v template)
       (en_range en [(''{task}'', tk_Description t), (''{expected_output}'', tk_ExpectedOutput t),
                     (''{actual_output}'', actualOutput)]) template"

definition evaluation_prompt :: "'w env \<Rightarrow> agenticLoop \<Rightarrow> 'w task \<Rightarrow> string \<Rightarrow> string" where
  "evaluation_prompt en l t actualOutput =
     (if al_EvaluationPrompt l = [] then buildEvaluationPrompt t actualOutput
      else interpolateEvaluationPrompt en (al_EvaluationPrompt l) t actualOutput)"

definition evaluator_wrap :: "'w agent \<Rightarrow> err \<Rightarrow> err" where
  "evaluator_wrap a e = wrapf (''evaluator '' @ go_quote (ag_Role a) @ '': '') e"

definition loop_evaluate ::
  "'w env \<Rightarrow> 'w ctx \<Rightarrow> agenticLoop \<Rightarrow> 'w agent \<Rightarrow> tid \<Rightarrow> string \<Rightarrow> 'w rt \<Rightarrow> 'w rt \<times> (err + int \<times> string)" where
  "loop_evaluate en ctx l a t actualOutput rt =
     (let ev = (case al_Evaluator l of None \<Rightarrow> a | Some i \<Rightarrow> rt_agents rt i);
          messages = [SystemMessage (buildSystemPrompt ev),
                      UserMessage (evaluation_prompt en l (rt_tasks rt t) actualOutput)]
      in case ag_LLM ev of
           None \<Rightarrow> (rt, Inl panic_nil)
         | Some m \<Rightarrow>
             (case outside (llm_Call m ctx messages) rt of
                (rt, Inl e) \<Rightarrow> (rt, Inl (evaluator_wrap ev e))
              | (rt, Inr raw) \<Rightarrow>
                  (case parseEvaluation en raw of
                     Inr r \<Rightarrow> (rt, Inr r)
                   | Inl _ \<Rightarrow>
                       (case outside (llm_Call m ctx
                               [SystemMessage (buildSystemPrompt ev), UserMessage (buildEvalRepairPrompt raw)]) rt of
                          (rt, Inl e) \<Rightarrow> (rt, Inl (evaluator_wrap ev e))
                        | (rt, Inr raw2) \<Rightarrow> (rt, parseEvaluation en raw2)))))"

section \<open>Plan and rewrite\<close>

definition loop_plan :: "'w ctx \<Rightarrow> 'w agent \<Rightarrow> tid \<Rightarrow> string \<Rightarrow> 'w rt \<Rightarrow> 'w rt \<times> (err + string)" where
  "loop_plan ctx a t contextText rt =
     (case ag_LLM a of
        None \<Rightarrow> (rt, Inl panic_nil)
      | Some m \<Rightarrow>
          (case outside (llm_Call m ctx [SystemMessage (buildSystemPrompt a),
                  UserMessage (buildPlanPrompt (rt_tasks rt t) contextText)]) rt of
             (rt, Inl e) \<Rightarrow> (rt, Inl (agent_wrap a '': plan'' e))
           | (rt, Inr out) \<Rightarrow> (rt, Inr (trim_space out))))"

definition loop_rewrite :: "'w ctx \<Rightarrow> 'w agent \<Rightarrow> tid \<Rightarrow> string \<Rightarrow> string \<Rightarrow> 'w rt \<Rightarrow> 'w rt \<times> (err + string)" where
  "loop_rewrite ctx a t previous refine rt =
     (case ag_LLM a of
        None \<Rightarrow> (rt, Inl panic_nil)
      | Some m \<Rightarrow>
          (case outside (llm_Call m ctx [SystemMessage (buildSystemPrompt a), UserMessage (buildTaskPrompt (rt_tasks rt t) []),
                  AssistantMessage previous, UserMessage refine]) rt of
             (rt, Inl e) \<Rightarrow> (rt, Inl (agent_wrap a '': refine'' e))
           | (rt, Inr out) \<Rightarrow> (rt, direct_answer out)))"

section \<open>The loop\<close>

definition loop_phase :: "'w ctx \<Rightarrow> 'w agent \<Rightarrow> tid \<Rightarrow> string \<Rightarrow> nat \<Rightarrow> 'w rt \<Rightarrow> 'w rt" where
  "loop_phase ctx a t phase i rt =
     on_world (emitEvent ctx ((event EventLoopPhase)\<lparr>ev_Task := taskLabel (rt_tasks rt t) 0,
       ev_Agent := ag_Role a, ev_Phase := phase, ev_Iteration := i\<rparr>)) rt"

definition loop_threshold :: "agenticLoop \<Rightarrow> int" where
  "loop_threshold l = (if al_PassThreshold l \<le> 0 then defaultPassThreshold else al_PassThreshold l)"

text \<open>
  The rounds. \<open>exec\<close> is \<^verbatim>\<open>executeTaskDefault\<close> with the context text as argument; \<open>left\<close> is
  \<^verbatim>\<open>maxRefinements - round\<close>.
\<close>

fun refine_rounds ::
  "'w env \<Rightarrow> 'w ctx \<Rightarrow> (string \<Rightarrow> 'w rt \<Rightarrow> 'w rt \<times> xres) \<Rightarrow> agenticLoop \<Rightarrow> 'w agent \<Rightarrow> tid \<Rightarrow> nat \<Rightarrow> nat \<Rightarrow> string
   \<Rightarrow> string \<Rightarrow> fact list \<Rightarrow> 'w rt \<Rightarrow> 'w rt \<times> xres" where
  "refine_rounds en ctx exec l a t left rnd contextText output allFacts rt =
     (case cx_err ctx (rt_w rt) of
        Some e \<Rightarrow> (rt, [], allFacts, Some e)
      | None \<Rightarrow>
          (case loop_evaluate en ctx l a t output (loop_phase ctx a t ''evaluate'' rnd rt) of
             (rt, Inl e) \<Rightarrow> (rt, [], allFacts, Some e)
           | (rt, Inr (score, feedback)) \<Rightarrow>
               if score \<ge> loop_threshold l then (rt, output, allFacts, None)
               else
                 (case left of
                    0 \<Rightarrow> (rt, [], allFacts, Some (Wrap [] (Sentinel ErrEvaluationFailed) ('': '' @ feedback)))
                  | Suc left \<Rightarrow>
                      (let refine = buildRefinePrompt feedback score (loop_threshold l) in
                       if al_RefineRewriteOnly l then
                         (case loop_rewrite ctx a t output refine (loop_phase ctx a t ''rewrite'' rnd rt) of
                            (rt, Inl e) \<Rightarrow> (rt, [], allFacts, Some e)
                          | (rt, Inr output) \<Rightarrow>
                              refine_rounds en ctx exec l a t left (Suc rnd) contextText output allFacts rt)
                       else
                         (let contextText = (if contextText \<noteq> [] then contextText @ NL @ NL @ refine else refine) in
                          case exec contextText (loop_phase ctx a t ''refine'' rnd rt) of
                            (rt, output, facts, Some e) \<Rightarrow> (rt, [], allFacts, Some e)
                          | (rt, output, facts, None) \<Rightarrow>
                              refine_rounds en ctx exec l a t left (Suc rnd) contextText output
                                (dedupFacts allFacts facts) rt)))))"

declare refine_rounds.simps [simp del]

definition agenticLoop_Run ::
  "'w env \<Rightarrow> 'w toolCaller \<Rightarrow> 'w ctx \<Rightarrow> agenticLoop \<Rightarrow> 'w agent \<Rightarrow> tid \<Rightarrow> string \<Rightarrow> 'w rt \<Rightarrow> 'w rt \<times> xres" where
  "agenticLoop_Run en call ctx l a t contextText rt =
     (let maxRefinements = nat (if al_MaxRefinements l \<le> 0 then defaultMaxRefinements else al_MaxRefinements l);
          exec = executeTaskDefault en call ctx a t;
          start = (\<lambda>contextText rt.
            case exec contextText (loop_phase ctx a t ''execute'' 0 rt) of
              (rt, output, facts, Some e) \<Rightarrow> (rt, [], [], Some e)
            | (rt, output, facts, None) \<Rightarrow>
                refine_rounds en ctx exec l a t maxRefinements 0 contextText output (dedupFacts [] facts) rt)
      in if \<not> al_SkipPlan l \<and> effectiveTools a (rt_tasks rt t) \<noteq> [] then
           (case loop_plan ctx a t contextText (loop_phase ctx a t ''plan'' 0 rt) of
              (rt, Inl e) \<Rightarrow> (rt, [], [], Some e)
            | (rt, Inr plan) \<Rightarrow>
                start (if trim_space plan = [] then contextText
                       else if contextText \<noteq> [] then plan @ NL @ NL @ contextText else plan) rt)
         else start contextText rt)"

text \<open>\<open>i\<close> is the address of the agent, \<open>a\<close> its value at the start of the task.\<close>

definition loop_Run ::
  "'w env \<Rightarrow> 'w toolCaller \<Rightarrow> 'w ctx \<Rightarrow> 'w taskLoop \<Rightarrow> aid \<Rightarrow> 'w agent \<Rightarrow> tid \<Rightarrow> string \<Rightarrow> 'w rt \<Rightarrow> 'w rt \<times> xres" where
  "loop_Run en call ctx l i a t contextText rt =
     (case l of
        Agentic al \<Rightarrow> agenticLoop_Run en call ctx al a t contextText rt
      | OtherLoop f \<Rightarrow> outside (f ctx i t contextText) rt)"

definition executeTask ::
  "'w env \<Rightarrow> 'w toolCaller \<Rightarrow> 'w ctx \<Rightarrow> aid \<Rightarrow> tid \<Rightarrow> string \<Rightarrow> 'w rt \<Rightarrow> 'w rt \<times> xres" where
  "executeTask en call ctx i t contextText rt =
     (let a = rt_agents rt i in
      if ag_LLM a = None then (rt, [], [], Some (Sentinel ErrNoLLM))
      else case tk_Loop (rt_tasks rt t) of
        Some l \<Rightarrow> loop_Run en call ctx l i a t contextText rt
      | None \<Rightarrow>
          (case ag_Loop a of
             Some l \<Rightarrow> loop_Run en call ctx l i a t contextText rt
           | None \<Rightarrow> executeTaskDefault en call ctx a t contextText rt))"

section \<open>Lemmas\<close>

lemma parseEvaluation_range: "parseEvaluation en raw = Inr (score, feedback) \<Longrightarrow> 0 \<le> score \<and> score \<le> 100"
  by (auto simp: parseEvaluation_def split: sum.splits option.splits if_splits)

section \<open>Passed evaluations\<close>

lemma refine_rounds_passed:
  "refine_rounds en ctx exec l a t left rnd c out facts rt = (rt', answer, facts', None) \<Longrightarrow>
   \<exists>rt1 rt2 score feedback. loop_evaluate en ctx l a t answer rt1 = (rt2, Inr (score, feedback)) \<and> score \<ge> loop_threshold l"
proof (induction left arbitrary: rnd c out facts rt)
  case 0
  then show ?case
    by (subst (asm) refine_rounds.simps) (auto split: option.splits prod.splits sum.splits if_splits)
next
  case (Suc left)
  then show ?case
    by (subst (asm) (2) refine_rounds.simps) (auto simp: Let_def split: option.splits prod.splits sum.splits if_splits)
qed

text \<open>
  C21. An agentic loop returns only what its evaluator passed: the answer is one the evaluator
  scored at or above the threshold, the score being a number from 0 to 100 that it stated; when
  the refinements are used up the loop fails instead.
\<close>
theorem agenticLoop_passed:
  assumes "agenticLoop_Run en call ctx l a t c rt = (rt', answer, facts, None)"
  shows "\<exists>rt1 rt2 score feedback. loop_evaluate en ctx l a t answer rt1 = (rt2, Inr (score, feedback))
    \<and> loop_threshold l \<le> score \<and> 0 \<le> score \<and> score \<le> 100"
proof -
  obtain rt1 rt2 score feedback where e: "loop_evaluate en ctx l a t answer rt1 = (rt2, Inr (score, feedback))"
    and s: "loop_threshold l \<le> score"
    using assms refine_rounds_passed
    by (auto simp: agenticLoop_Run_def Let_def split: if_splits prod.splits sum.splits option.splits) blast+
  have "\<exists>raw. parseEvaluation en raw = Inr (score, feedback)"
    using e by (auto simp: loop_evaluate_def Let_def split: option.splits prod.splits sum.splits)
  then show ?thesis using e s parseEvaluation_range by blast
qed

definition counting_llm :: "(nat \<Rightarrow> string) \<Rightarrow> nat llm" where
  "counting_llm f = \<lparr>llm_Model = [], llm_Call = (\<lambda>_ _ n. (Suc n, Inr (f n))), llm_CallWithTools = None, llm_CallStream = None\<rparr>"

text \<open>
  A rewrite escapes the schema: with \<^verbatim>\<open>RefineRewriteOnly\<close> a task with structured output returns
  the text of the rewrite, which nothing validates or canonicalises, as long as the evaluator likes it.
\<close>
theorem rewrite_unvalidated:
  "let a = NewAgent ''a'' [] [] (Some (counting_llm (\<lambda>n. [''good'', ''fail'', ''bad'', ''pass''] ! n)));
       so = \<lparr>so_Schema = ''{}'', so_RepairMax = 0, so_ToolCall = False, so_AllowTools = False, so_StrictSchema = False\<rparr>;
       l = \<lparr>al_MaxRefinements = 1, al_Evaluator = None, al_EvaluationPrompt = ''p'', al_PassThreshold = 50,
            al_SkipPlan = True, al_RefineRewriteOnly = True\<rparr>;
       rt = (new_rt (0::nat))\<lparr>rt_tasks := (\<lambda>_. (NewTask [] [] None)\<lparr>tk_Structured := Some so\<rparr>)\<rparr>
   in fst (snd (agenticLoop_Run schema_env echo_call background l a 1 [] rt)) = ''bad''
      \<and> snd (snd (snd (agenticLoop_Run schema_env echo_call background l a 1 [] rt))) = None
      \<and> en_schema (schema_env :: nat env) ''bad'' ''{}'' \<noteq> None"
  by code_simp

section \<open>Witnesses\<close>

lemma agenticLoop_passed_witness:
  "\<exists>rt' answer facts score. fst (agenticLoop_Run schema_env echo_call background
        \<lparr>al_MaxRefinements = 1, al_Evaluator = None, al_EvaluationPrompt = ''p'', al_PassThreshold = 50,
         al_SkipPlan = True, al_RefineRewriteOnly = True\<rparr>
        (NewAgent ''a'' [] [] (Some (counting_llm (\<lambda>n. [''x'', ''fail'', ''y'', ''pass''] ! n)))) 1 [] (new_rt (0::nat))) = rt'
     \<and> answer = ''y'' \<and> (50::int) \<le> score \<and> score \<le> 100 \<and> facts = ([] :: fact list)"
proof -
  let ?l = "\<lparr>al_MaxRefinements = 1, al_Evaluator = None, al_EvaluationPrompt = ''p'', al_PassThreshold = 50,
         al_SkipPlan = True, al_RefineRewriteOnly = True\<rparr>"
  let ?a = "NewAgent ''a'' [] [] (Some (counting_llm (\<lambda>n. [''x'', ''fail'', ''y'', ''pass''] ! n)))"
  let ?r = "agenticLoop_Run schema_env echo_call background ?l ?a 1 [] (new_rt (0::nat))"
  obtain rt' answer facts e where r: "?r = (rt', answer, facts, e)" using prod_cases4 by blast
  have "fst (snd ?r) = ''y'' \<and> fst (snd (snd ?r)) = [] \<and> snd (snd (snd ?r)) = None" by code_simp
  then have v: "answer = ''y''" "facts = []" "e = None" using r by simp_all
  have "loop_threshold ?l = 50" by (simp add: loop_threshold_def)
  then obtain score where "(50 :: int) \<le> score" "score \<le> 100"
    using agenticLoop_passed [of schema_env echo_call background ?l ?a 1 "[]" "new_rt (0::nat)" rt' answer facts] r v(3) by auto
  then show ?thesis using v by blast
qed

end
