(* ===== verification/MemoryPolicy.thy ===== *)
theory MemoryPolicy
  imports Types "HOL-Library.Multiset"
begin

text \<open>
  Automatic memory during a run (\<^verbatim>\<open>memory_policy.go\<close>): the policy and its defaults, the recalled
  block of a prompt, embedding, and the buffer of a wave or stage that is committed at the barrier.
  The lemmas show that what is committed, and in which order, does not depend on the order in which
  the workers finished.
\<close>

section \<open>Policy\<close>

definition NewMemoryPolicy :: memoryPolicy where
  "NewMemoryPolicy = \<lparr>mp_AutoSave = True, mp_AutoEmbed = False, mp_InjectWhenEmptyContext = True,
     mp_DefaultLimit = DefaultMemoryQueryLimit, mp_DefaultMaxChars = DefaultMemoryMaxChars, mp_Scope = []\<rparr>"

definition resolvePolicy :: "memoryPolicy option \<Rightarrow> memoryPolicy" where
  "resolvePolicy p = (case p of Some p \<Rightarrow> p | None \<Rightarrow> NewMemoryPolicy)"

definition effectiveScope :: "'w crew \<Rightarrow> memoryPolicy option \<Rightarrow> memoryScope" where
  "effectiveScope c p =
     (case p of
        Some p \<Rightarrow> if mp_Scope p \<noteq> [] then mp_Scope p else cr_Name c
      | None \<Rightarrow> cr_Name c)"

section \<open>Recall\<close>

definition hit_line :: "memoryEntry \<Rightarrow> string" where
  "hit_line e = ''- ['' @ me_Agent e @ (if me_Task e \<noteq> [] then '' | task='' @ me_Task e else [])
     @ ''] '' @ me_Content e @ [CHR 0x0A]"

definition formatMemoryHits :: "memoryEntry list \<Rightarrow> string" where
  "formatMemoryHits hits =
     (if hits = [] then []
      else trim_space (''## Memory (recalled)'' @ [CHR 0x0A] @ concat (map hit_line (rev hits))))"

definition queryCommitted :: "'w crew \<Rightarrow> 'w ctx \<Rightarrow> memoryPolicy option \<Rightarrow> 'w rt \<Rightarrow> 'w rt \<times> string" where
  "queryCommitted c ctx p rt =
     (case (cr_store c, p) of
        (Some s, Some p) \<Rightarrow>
          (case outside (st_Query s ctx (zero_query\<lparr>mq_Scope := effectiveScope c (Some p),
                  mq_Limit := mp_DefaultLimit p, mq_MaxChars := mp_DefaultMaxChars p\<rparr>)) rt of
             (rt, Inl e) \<Rightarrow> (rt, [])
           | (rt, Inr hits) \<Rightarrow> (rt, formatMemoryHits hits))
      | _ \<Rightarrow> (rt, []))"

section \<open>The buffer of a group\<close>

definition beginMemoryBuffer :: "'w rt \<Rightarrow> 'w rt" where
  "beginMemoryBuffer rt = rt\<lparr>rt_buffering := True, rt_memBuf := []\<rparr>"

definition discardMemoryBuffer :: "'w rt \<Rightarrow> 'w rt" where
  "discardMemoryBuffer rt = rt\<lparr>rt_buffering := False, rt_memBuf := []\<rparr>"

definition stashMemoryBuffer :: "tid \<Rightarrow> memoryEntry \<Rightarrow> 'w rt \<Rightarrow> 'w rt" where
  "stashMemoryBuffer t e rt = rt\<lparr>rt_memBuf := rt_memBuf rt @ [(t, e)]\<rparr>"

definition maybeEmbedEntry ::
  "'w crew \<Rightarrow> 'w ctx \<Rightarrow> memoryEntry \<Rightarrow> tid option \<Rightarrow> memoryPolicy option \<Rightarrow> 'w rt \<Rightarrow> 'w rt \<times> memoryEntry" where
  "maybeEmbedEntry c ctx e t p rt =
     (case (p, cr_Embed c) of
        (Some p, Some emb) \<Rightarrow>
          if \<not> mp_AutoEmbed p \<or> me_Content e = [] then (rt, e)
          else if cx_err ctx (rt_w rt) \<noteq> None then (rt, e)
          else (case outside (emb ctx [me_Content e]) rt of
                  (rt, Inl er) \<Rightarrow>
                    (case t of None \<Rightarrow> rt | Some t \<Rightarrow> AddWarning t (''memory AutoEmbed failed: '' @ error_text er) rt, e)
                | (rt, Inr vecs) \<Rightarrow>
                    (case vecs of
                       v # _ \<Rightarrow> if v = [] then (rt, e) else (rt, e\<lparr>me_Embedding := v\<rparr>)
                     | [] \<Rightarrow> (rt, e)))
      | _ \<Rightarrow> (rt, e))"

text \<open>One entry at the barrier, and the loop over the tasks of the group.\<close>

definition commit_entry ::
  "'w crew \<Rightarrow> 'w ctx \<Rightarrow> memoryPolicy option \<Rightarrow> 'w store \<Rightarrow> tid \<Rightarrow> memoryEntry \<Rightarrow> 'w rt \<Rightarrow> 'w rt" where
  "commit_entry c ctx p s t e rt =
     (case maybeEmbedEntry c ctx e (Some t) p rt of
        (rt, e) \<Rightarrow>
          (case outside (st_Put s ctx e) rt of
             (rt, Inl er) \<Rightarrow> AddWarning t (''memory AutoSave failed: '' @ error_text er) rt
           | (rt, Inr _) \<Rightarrow> rt))"

fun commit_loop ::
  "'w crew \<Rightarrow> 'w ctx \<Rightarrow> memoryPolicy option \<Rightarrow> 'w store \<Rightarrow> (tid \<rightharpoonup> memoryEntry) \<Rightarrow> tid list \<Rightarrow> 'w rt \<Rightarrow> 'w rt" where
  "commit_loop c ctx p s byTask [] rt = rt"
| "commit_loop c ctx p s byTask (t # ts) rt =
     (case byTask t of
        None \<Rightarrow> commit_loop c ctx p s byTask ts rt
      | Some e \<Rightarrow> commit_loop c ctx p s byTask ts (commit_entry c ctx p s t e rt))"

definition by_task :: "(tid \<times> memoryEntry) list \<Rightarrow> (tid \<rightharpoonup> memoryEntry)" where
  "by_task buf = fold (\<lambda>(t, e) m. m(t \<mapsto> e)) buf Map.empty"

definition commitMemoryBuffer :: "'w crew \<Rightarrow> 'w ctx \<Rightarrow> tid list \<Rightarrow> memoryPolicy option \<Rightarrow> 'w rt \<Rightarrow> 'w rt" where
  "commitMemoryBuffer c ctx tasks p rt =
     (let buf = rt_memBuf rt; rt = rt\<lparr>rt_memBuf := [], rt_buffering := False\<rparr> in
      case (cr_store c, p) of
        (Some s, Some pol) \<Rightarrow>
          if \<not> mp_AutoSave pol \<or> buf = [] then rt
          else commit_loop c ctx p s (by_task buf) tasks rt
      | _ \<Rightarrow> rt)"

definition autoSaveEntry ::
  "'w env \<Rightarrow> 'w crew \<Rightarrow> 'w agent \<Rightarrow> 'w task \<Rightarrow> string \<Rightarrow> memoryPolicy option \<Rightarrow> 'w rt \<Rightarrow> memoryEntry" where
  "autoSaveEntry en c agent task result p rt =
     zero_entry\<lparr>me_Scope := effectiveScope c p, me_Agent := ag_Role agent, me_Task := tk_Name task,
       me_Content := result, me_CreatedAt := en_now en (rt_w rt)\<rparr>"

section \<open>Lemmas\<close>

lemma by_task_rev: "by_task buf = map_of (rev buf)"
proof -
  have "fold (\<lambda>(t, e) m. m(t \<mapsto> e)) buf m = m ++ map_of (rev buf)" for m :: "tid \<rightharpoonup> memoryEntry"
    by (induction buf arbitrary: m) (auto simp: map_add_assoc)
  then show ?thesis by (simp add: by_task_def)
qed

lemma by_task_perm:
  assumes "distinct (map fst buf)" "mset buf = mset buf'"
  shows "by_task buf = by_task buf'"
proof -
  have "mset (map fst buf) = mset (map fst buf')" using assms(2) by simp
  then have "distinct (map fst buf')" using assms(1) by (metis mset_eq_imp_distinct_iff)
  moreover have "set (rev buf) = set (rev buf')" using assms(2) by (metis mset_eq_setD set_rev)
  ultimately show ?thesis
    using assms(1) by (simp add: by_task_rev map_of_inject_set rev_map [symmetric])
qed

section \<open>Properties\<close>

text \<open>
  What a barrier commits does not depend on the order in which the workers finished: stashing
  the same entries in any order leaves the same stores, warnings and buffer.
\<close>
theorem commitMemoryBuffer_order:
  assumes "distinct (map fst (rt_memBuf rt))" "mset (rt_memBuf rt) = mset buf"
  shows "commitMemoryBuffer c ctx tasks p rt = commitMemoryBuffer c ctx tasks p (rt\<lparr>rt_memBuf := buf\<rparr>)"
proof -
  have "by_task (rt_memBuf rt) = by_task buf" by (rule by_task_perm [OF assms])
  moreover have "(rt_memBuf rt = []) = (buf = [])" using assms(2) by (metis mset_zero_iff)
  ultimately show ?thesis by (simp add: commitMemoryBuffer_def Let_def split: option.split)
qed

text \<open>A store that records what it is given, and embeds nothing.\<close>

definition put_log :: "'w store \<Rightarrow> ('w \<Rightarrow> memoryEntry list) \<Rightarrow> bool" where
  "put_log s log_of \<longleftrightarrow> (\<forall>ctx e w. log_of (fst (st_Put s ctx e w)) = log_of w @ [e])"

lemma commit_entry_log:
  assumes "put_log s log_of" "\<not> mp_AutoEmbed pol"
  shows "log_of (rt_w (commit_entry c ctx (Some pol) s t e rt)) = log_of (rt_w rt) @ [e]"
proof -
  have "log_of (fst (st_Put s ctx e (rt_w rt))) = log_of (rt_w rt) @ [e]" using assms(1) by (simp add: put_log_def)
  then show ?thesis using assms(2)
    by (cases "st_Put s ctx e (rt_w rt)")
      (auto simp: commit_entry_def maybeEmbedEntry_def outside_def AddWarning_def split: option.splits sum.splits)
qed

lemma commit_loop_log:
  assumes "put_log s log_of" "\<not> mp_AutoEmbed pol"
  shows "log_of (rt_w (commit_loop c ctx (Some pol) s m ts rt)) = log_of (rt_w rt) @ List.map_filter m ts"
proof (induction ts arbitrary: rt)
  case (Cons t ts)
  then show ?case
    by (cases "m t") (simp_all add: commit_entry_log [OF assms] map_filter_simps)
qed (simp add: map_filter_simps)

text \<open>
  C26. A barrier commits in declaration order: with embedding off, the store receives the buffered
  entries of the group's tasks, each once, in the order the tasks are declared, and nothing else.
\<close>
theorem commitMemoryBuffer_declared:
  assumes "put_log s log_of" "cr_store c = Some s" "mp_AutoSave pol" "\<not> mp_AutoEmbed pol"
  shows "log_of (rt_w (commitMemoryBuffer c ctx tasks (Some pol) rt))
    = log_of (rt_w rt) @ List.map_filter (by_task (rt_memBuf rt)) tasks"
proof (cases "rt_memBuf rt = []")
  case True
  have "List.map_filter (by_task []) tasks = []" by (induction tasks) (simp_all add: by_task_def map_filter_simps)
  then show ?thesis using True assms(2) by (simp add: commitMemoryBuffer_def)
next
  case False
  then show ?thesis using assms(2,3) commit_loop_log [OF assms(1,4)] by (simp add: commitMemoryBuffer_def)
qed

section \<open>Witnesses\<close>

definition log_store :: "memoryEntry list store" where
  "log_store = \<lparr>st_Put = (\<lambda>ctx e w. (w @ [e], Inr e)), st_Query = (\<lambda>ctx q w. (w, Inr []))\<rparr>"

definition no_crew :: "'w crew" where
  "no_crew = \<lparr>cr_Agents = [], cr_Tasks = [], cr_Stages = [], cr_Process = [], cr_Name = [], cr_Memory = False,
     cr_MemoryStore = None, cr_MemoryPolicy = None, cr_Embed = None, cr_ManagerLLM = None, cr_ManagerAgent = None,
     cr_Guardrails = [], cr_OutputDir = [], cr_EnableDelegationTool = False, cr_EnableMemoryTools = False,
     cr_AsyncMaxWorkers = 0, cr_AsyncFailFast = False, cr_progress = None, cr_stream = None, cr_events = None,
     cr_store = None, cr_policy = None\<rparr>"

abbreviation memo :: "string \<Rightarrow> memoryEntry" where "memo s \<equiv> zero_entry\<lparr>me_Content := s\<rparr>"

lemma commitMemoryBuffer_order_witness:
  "commitMemoryBuffer (no_crew\<lparr>cr_store := Some log_store\<rparr>) background [1, 2] (Some NewMemoryPolicy)
     ((new_rt [])\<lparr>rt_memBuf := [(2, memo ''b''), (1, memo ''a'')]\<rparr>)
   = commitMemoryBuffer (no_crew\<lparr>cr_store := Some log_store\<rparr>) background [1, 2] (Some NewMemoryPolicy)
     ((new_rt [])\<lparr>rt_memBuf := [(1, memo ''a''), (2, memo ''b'')]\<rparr>)"
  using commitMemoryBuffer_order [of "(new_rt [])\<lparr>rt_memBuf := [(2, memo ''b''), (1, memo ''a'')]\<rparr>"
      "[(1, memo ''a''), (2, memo ''b'')]"] by simp

lemma commitMemoryBuffer_declared_witness:
  "map me_Content (rt_w (commitMemoryBuffer (no_crew\<lparr>cr_store := Some log_store\<rparr>) background [1, 2]
     (Some NewMemoryPolicy) ((new_rt [])\<lparr>rt_memBuf := [(2, memo ''b''), (1, memo ''a'')]\<rparr>)))
   = [''a'', ''b'']"
  by (subst commitMemoryBuffer_declared [of log_store "\<lambda>w. w"])
    (simp_all add: put_log_def log_store_def NewMemoryPolicy_def new_rt_def by_task_rev map_filter_simps)

end
