(* ===== verification/Delegation.thy ===== *)
theory Delegation
  imports Loop MemoryPolicy
begin

text \<open>
  The tools the package itself provides: \<^verbatim>\<open>recall_memory\<close> and \<^verbatim>\<open>remember\<close>
  (\<^verbatim>\<open>memory_tools.go\<close>) and \<^verbatim>\<open>delegate_to_coworker\<close> (\<^verbatim>\<open>delegation.go\<close>), and \<^verbatim>\<open>tool.Call\<close> for
  every kind of tool, which ties the knot between tools and executors. The recursion runs on a
  fuel; a context at delegation depth \<open>d\<close> needs \<open>2 - d\<close> of it, as the lemmas show, so
  \<open>DefaultMaxDelegationDepth\<close> is enough for every run.
\<close>

section \<open>Memory tools\<close>

definition parseMemoryToolArg :: "'w env \<Rightarrow> string \<Rightarrow> string \<Rightarrow> string \<times> bool" where
  "parseMemoryToolArg en input key =
     (let s = trim_space input in
      case s of
        [] \<Rightarrow> ([], False)
      | ch # _ \<Rightarrow>
          if ch \<noteq> CHR ''{'' then (s, False)
          else (case en_object en s of
                  None \<Rightarrow> (s, False)
                | Some obj \<Rightarrow>
                    (case obj key of
                       None \<Rightarrow> ([], True)
                     | Some raw \<Rightarrow> (case en_string en raw of None \<Rightarrow> ([], True) | Some str \<Rightarrow> (trim_space str, True)))))"

definition memoryToolStore :: "'w crew \<Rightarrow> 'w store option" where
  "memoryToolStore c = (case cr_store c of Some s \<Rightarrow> Some s | None \<Rightarrow> cr_MemoryStore c)"

definition memoryToolPolicy :: "'w crew \<Rightarrow> memoryPolicy" where
  "memoryToolPolicy c = (case cr_policy c of Some p \<Rightarrow> p | None \<Rightarrow> resolvePolicy (cr_MemoryPolicy c))"

definition no_store_text :: string where
  "no_store_text = ''Error: memory store is not configured. Set Crew.Memory or Crew.MemoryStore.''"

text \<open>The query vector of \<^verbatim>\<open>recallMemory\<close>: an observation text if the context is cancelled.\<close>

definition recall_embed ::
  "'w crew \<Rightarrow> 'w ctx \<Rightarrow> string \<Rightarrow> memoryQuery \<Rightarrow> 'w rt \<Rightarrow> 'w rt \<times> (string + memoryQuery)" where
  "recall_embed c ctx query q rt =
     (case cr_Embed c of
        None \<Rightarrow> (rt, Inr q)
      | Some emb \<Rightarrow>
          if trim_space query = [] then (rt, Inr q)
          else (case cx_err ctx (rt_w rt) of
                  Some e \<Rightarrow> (rt, Inl (''Error: memory recall cancelled: '' @ error_text (redactError e)))
                | None \<Rightarrow>
                    (case outside (emb ctx [query]) rt of
                       (rt, Inl e) \<Rightarrow> (rt, Inr q)
                     | (rt, Inr vecs) \<Rightarrow>
                         (case vecs of
                            v # _ \<Rightarrow> (rt, Inr (if v = [] then q else q\<lparr>mq_Embedding := v\<rparr>))
                          | [] \<Rightarrow> (rt, Inr q)))))"

definition recallMemory :: "'w crew \<Rightarrow> 'w ctx \<Rightarrow> string \<Rightarrow> 'w rt \<Rightarrow> 'w rt \<times> string" where
  "recallMemory c ctx query rt =
     (case memoryToolStore c of
        None \<Rightarrow> (rt, no_store_text)
      | Some s \<Rightarrow>
          (let p = memoryToolPolicy c;
               q = zero_query\<lparr>mq_Scope := effectiveScope c (Some p), mq_Text := query,
                     mq_Limit := mp_DefaultLimit p, mq_MaxChars := int MaxToolOutputBytes\<rparr>
           in case recall_embed c ctx query q rt of
                (rt, Inl observation) \<Rightarrow> (rt, observation)
              | (rt, Inr q) \<Rightarrow>
                  (case outside (st_Query s ctx q) rt of
                     (rt, Inl e) \<Rightarrow> (rt, ''Error: memory query failed: '' @ error_text (redactError e))
                   | (rt, Inr hits) \<Rightarrow>
                       (rt, if hits = [] then ''No matching memory entries.''
                            else truncateToolOutput (formatMemoryHits hits)))))"

definition rememberMemory :: "'w env \<Rightarrow> 'w crew \<Rightarrow> 'w ctx \<Rightarrow> string \<Rightarrow> 'w rt \<Rightarrow> 'w rt \<times> string" where
  "rememberMemory en c ctx content rt =
     (case memoryToolStore c of
        None \<Rightarrow> (rt, no_store_text)
      | Some s \<Rightarrow>
          (let p = memoryToolPolicy c;
               entry = zero_entry\<lparr>me_Scope := effectiveScope c (Some p), me_Agent := cx_role ctx,
                 me_Task := (case cx_sink ctx of None \<Rightarrow> [] | Some t \<Rightarrow> tk_Name (rt_tasks rt t)),
                 me_Content := content, me_CreatedAt := en_now en (rt_w rt)\<rparr>
           in case maybeEmbedEntry c ctx entry None (Some p) rt of
                (rt, entry) \<Rightarrow>
                  (case outside (st_Put s ctx entry) rt of
                     (rt, Inl e) \<Rightarrow> (rt, ''Error: memory remember failed: '' @ error_text (redactError e))
                   | (rt, Inr stored) \<Rightarrow>
                       (rt, ''Remembered id='' @ (if me_ID stored = [] then ''(assigned)'' else me_ID stored)))))"

definition recallTool_Call :: "'w env \<Rightarrow> 'w crew \<Rightarrow> bool \<Rightarrow> 'w ctx \<Rightarrow> string \<Rightarrow> 'w rt \<Rightarrow> 'w rt \<times> (err + string)" where
  "recallTool_Call en c present ctx input rt =
     (if length input > MaxToolArgsBytes then (rt, Inr ''Error: memory tool input exceeds size limit.'')
      else let (query, _) = parseMemoryToolArg en input ''query'' in
        if \<not> present then (rt, Inr ''Error: memory store is not configured.'')
        else (case recallMemory c ctx query rt of (rt, s) \<Rightarrow> (rt, Inr s)))"

definition rememberTool_Call :: "'w env \<Rightarrow> 'w crew \<Rightarrow> bool \<Rightarrow> 'w ctx \<Rightarrow> string \<Rightarrow> 'w rt \<Rightarrow> 'w rt \<times> (err + string)" where
  \<open>rememberTool_Call en c present ctx input rt =
     (if length input > MaxToolArgsBytes then (rt, Inr ''Error: memory tool input exceeds size limit.'')
      else let (content, isJSON) = parseMemoryToolArg en input ''content'' in
        if content = [] then
          (rt, Inr (if isJSON then ''Error: remember requires JSON {"content":"..."} or plain text.''
                    else ''Error: remember requires non-empty content.''))
        else if \<not> present then (rt, Inr ''Error: memory store is not configured.'')
        else (case rememberMemory en c ctx content rt of (rt, s) \<Rightarrow> (rt, Inr s)))\<close>

definition attach_tool :: "'w tool \<Rightarrow> 'w agent \<Rightarrow> 'w agent" where
  "attach_tool tool a = (if hasToolNamed (ag_Tools a) (tool_Name tool) then a
                         else a\<lparr>ag_Tools := ag_Tools a @ [tool]\<rparr>)"

definition update_agent :: "('w agent \<Rightarrow> 'w agent) \<Rightarrow> aid \<Rightarrow> 'w rt \<Rightarrow> 'w rt" where
  "update_agent f i rt = rt\<lparr>rt_agents := (rt_agents rt)(i := f (rt_agents rt i))\<rparr>"

definition crew_agents :: "'w crew \<Rightarrow> aid list" where
  "crew_agents c = cr_Agents c @ (case cr_ManagerAgent c of None \<Rightarrow> [] | Some i \<Rightarrow> [i])"

definition attachMemoryTools :: "'w crew \<Rightarrow> 'w rt \<Rightarrow> 'w rt" where
  "attachMemoryTools c rt =
     fold (update_agent (\<lambda>a. attach_tool (RememberTool True) (attach_tool (RecallTool True) a))) (crew_agents c) rt"

section \<open>Delegation\<close>

definition DefaultMaxDelegationDepth :: nat where "DefaultMaxDelegationDepth = 2"

definition findRosterAgent :: "'w rt \<Rightarrow> aid list \<Rightarrow> string \<Rightarrow> aid option" where
  "findRosterAgent rt agents role = find (\<lambda>i. equal_fold (trim_space (ag_Role (rt_agents rt i))) role) agents"

definition rosterRoles :: "'w rt \<Rightarrow> aid list \<Rightarrow> string list" where
  "rosterRoles rt agents = filter (\<lambda>r. r \<noteq> []) (map (\<lambda>i. ag_Role (rt_agents rt i)) agents)"

definition attachDelegationTools :: "'w crew \<Rightarrow> 'w rt \<Rightarrow> 'w rt" where
  "attachDelegationTools c rt = fold (update_agent (attach_tool (DelegationTool (Some (cr_Agents c))))) (crew_agents c) rt"

text \<open>The checks before anything runs: a refusal text, or the target with request and context.\<close>

definition delegation_check ::
  "'w env \<Rightarrow> aid list option \<Rightarrow> 'w ctx \<Rightarrow> string \<Rightarrow> 'w rt \<Rightarrow> string + aid \<times> string \<times> string" where
  \<open>delegation_check en roster ctx input rt =
     (case roster of
        None \<Rightarrow> Inl ''Error: delegation roster is not configured.''
      | Some agents \<Rightarrow>
          (let raw = trim_space input in
           if raw = [] then Inl ''Error: empty delegation input; expected JSON with coworker and request.''
           else case en_delegation en raw of
             Inl e \<Rightarrow> Inl (''Error: invalid delegation JSON: '' @ error_text e)
           | Inr (coworker0, request0, context) \<Rightarrow>
               (let coworker = trim_space coworker0; request = trim_space request0; caller = cx_role ctx in
                if coworker = [] \<or> request = []
                then Inl ''Error: delegation requires non-empty "coworker" and "request" fields.''
                else if cx_delDepth ctx \<ge> DefaultMaxDelegationDepth
                then Inl (''Error: delegation depth limit reached ('' @ itoa DefaultMaxDelegationDepth
                          @ ''). Finish the work yourself or simplify the request.'')
                else if caller \<noteq> [] \<and> equal_fold coworker caller then Inl ''Error: cannot delegate to yourself.''
                else if \<exists>r\<in>set (cx_delStack ctx). equal_fold r coworker
                then Inl (''Error: delegation cycle detected involving '' @ go_quote coworker @ ''.'')
                else case findRosterAgent rt agents coworker of
                  None \<Rightarrow> Inl (''Error: coworker '' @ go_quote coworker @ '' not found. Available: ''
                               @ str_join '', '' (rosterRoles rt agents) @ ''.'')
                | Some i \<Rightarrow>
                    if \<not> ag_AllowDelegation (rt_agents rt i)
                    then Inl (''Error: coworker '' @ go_quote (ag_Role (rt_agents rt i))
                              @ '' is not eligible for delegation (AllowDelegation=false).'')
                    else Inr (i, request, context))))\<close>

definition delegation_ctx :: "'w ctx \<Rightarrow> string \<Rightarrow> 'w ctx" where
  "delegation_ctx ctx role =
     (let nctx = ctx\<lparr>cx_delDepth := cx_delDepth ctx + 1\<rparr>;
          nctx = (if cx_role ctx \<noteq> [] then nctx\<lparr>cx_delStack := cx_delStack ctx @ [cx_role ctx]\<rparr> else nctx)
      in ContextWithAgentRole nctx role)"

definition new_task :: "'w task \<Rightarrow> 'w rt \<Rightarrow> 'w rt \<times> tid" where
  "new_task k rt = (rt\<lparr>rt_tasks := (rt_tasks rt)(rt_next rt := k), rt_next := Suc (rt_next rt)\<rparr>, rt_next rt)"

text \<open>\<^verbatim>\<open>Execute\<close> of an agent: \<open>exec\<close> is \<^verbatim>\<open>executeTask\<close>.\<close>

type_synonym 'w taskExecutor = "'w ctx \<Rightarrow> aid \<Rightarrow> tid \<Rightarrow> string \<Rightarrow> 'w rt \<Rightarrow> 'w rt \<times> xres"

definition agent_Execute :: "'w taskExecutor \<Rightarrow> 'w ctx \<Rightarrow> aid \<Rightarrow> tid \<Rightarrow> 'w rt \<Rightarrow> 'w rt \<times> string \<times> err option" where
  "agent_Execute exec ctx i t rt =
     (case exec (ContextWithAgentRole ctx (ag_Role (rt_agents rt i))) i t [] rt of (rt, out, _, e) \<Rightarrow> (rt, out, e))"

definition delegationTool_Call ::
  "'w env \<Rightarrow> 'w taskExecutor \<Rightarrow> aid list option \<Rightarrow> 'w ctx \<Rightarrow> string \<Rightarrow> 'w rt \<Rightarrow> 'w rt \<times> (err + string)" where
  "delegationTool_Call en exec roster ctx input rt =
     (case delegation_check en roster ctx input rt of
        Inl observation \<Rightarrow> (rt, Inr observation)
      | Inr (i, request, context) \<Rightarrow>
          (let role = ag_Role (rt_agents rt i);
               desc = (if trim_space context \<noteq> [] then request @ NL @ NL @ ''Additional context:'' @ NL @ context
                       else request);
               (rt, sub) = new_task (NewTask desc ''A concise answer to the delegated request.'' (Some i)) rt
           in case agent_Execute exec (delegation_ctx ctx role) i sub rt of
                (rt, out, Some e) \<Rightarrow> (rt, Inr (''Error: coworker '' @ go_quote role @ '' failed: '' @ error_text e))
              | (rt, out, None) \<Rightarrow>
                  (let out = trim_space out in
                   (rt, Inr (if out = [] then ''coworker '' @ go_quote role @ '' returned an empty answer.''
                             else truncateToolOutput out)))))"

section \<open>Calling a tool\<close>

definition extTool_Call :: "'w extTool \<Rightarrow> 'w ctx \<Rightarrow> string \<Rightarrow> 'w rt \<Rightarrow> 'w rt \<times> (err + string)" where
  "extTool_Call x ctx input rt =
     (case outside (xt_Call x ctx input) rt of
        (rt, r, warns) \<Rightarrow> (fold (AddWarningFromCtx ctx) warns rt, r))"

definition tool_step :: "'w env \<Rightarrow> 'w crew \<Rightarrow> 'w taskExecutor \<Rightarrow> 'w toolCaller" where
  "tool_step en c exec ctx tool input rt =
     (case tool of
        ExtTool x \<Rightarrow> extTool_Call x ctx input rt
      | DelegationTool roster \<Rightarrow> delegationTool_Call en exec roster ctx input rt
      | RecallTool present \<Rightarrow> recallTool_Call en c present ctx input rt
      | RememberTool present \<Rightarrow> rememberTool_Call en c present ctx input rt)"

text \<open>Out of fuel: no context of a run reaches it.\<close>

definition no_fuel :: "'w taskExecutor" where
  "no_fuel ctx i t contextText rt = (rt, [], [], Some (Plain ''delegation fuel exhausted''))"

primrec tool_Call :: "'w env \<Rightarrow> 'w crew \<Rightarrow> nat \<Rightarrow> 'w toolCaller" where
  "tool_Call en c 0 = tool_step en c no_fuel"
| "tool_Call en c (Suc n) = tool_step en c (executeTask en (tool_Call en c n))"

definition run_task :: "'w env \<Rightarrow> 'w crew \<Rightarrow> 'w taskExecutor" where
  "run_task en c = executeTask en (tool_Call en c DefaultMaxDelegationDepth)"

end
