(* ===== verification/TaskRun.thy ===== *)
theory TaskRun
  imports Delegation
begin

text \<open>
  What surrounds the execution of one task: the context assembled from its dependencies, its
  output and output file, interpolation of the inputs (\<^verbatim>\<open>task.go\<close>), guardrails
  (\<^verbatim>\<open>guardrail.go\<close>), the trace recorder (\<^verbatim>\<open>trace.go\<close>), and \<^verbatim>\<open>Crew.execute\<close>, which puts them
  together (\<^verbatim>\<open>crew.go\<close>).
\<close>

section \<open>Context and output\<close>

definition context_part :: "'w task \<Rightarrow> string" where
  "context_part dep =
     (if tk_output dep = [] then []
      else (if tk_Name dep \<noteq> [] then tk_Name dep @ '':'' @ NL else []) @ tk_output dep @ NL @ NL)"

definition contextText :: "'w rt \<Rightarrow> 'w task \<Rightarrow> string" where
  "contextText rt t = trim_space (concat (map (\<lambda>d. context_part (rt_tasks rt d)) (tk_Context t)))"

definition path_rejected :: "string \<Rightarrow> err" where
  "path_rejected s = Wrap [] (Sentinel ErrOutputPathRejected) ('': '' @ s)"

definition resolveOutputPathInJail :: "'w env \<Rightarrow> string \<Rightarrow> string \<Rightarrow> 'w \<Rightarrow> err + string" where
  "resolveOutputPathInJail en path jail w =
     (case en_resolve en path jail w of Inl e \<Rightarrow> Inl (path_rejected (error_text e)) | Inr p \<Rightarrow> Inr p)"

definition writeTaskOutputFile :: "'w env \<Rightarrow> string \<Rightarrow> string \<Rightarrow> string \<Rightarrow> 'w rt \<Rightarrow> 'w rt \<times> err option" where
  "writeTaskOutputFile en path0 jail data rt =
     (let path = path_clean (trim_space path0) in
      if path = [] \<or> path = ''.'' then (rt, Some (path_rejected ''empty path''))
      else case (if jail \<noteq> [] then resolveOutputPathInJail en path jail (rt_w rt) else Inr path) of
             Inl e \<Rightarrow> (rt, Some e)
           | Inr path \<Rightarrow> outside (en_writeFile en path data) rt)"

definition setOutputWithJail :: "'w env \<Rightarrow> tid \<Rightarrow> string \<Rightarrow> string \<Rightarrow> 'w rt \<Rightarrow> 'w rt \<times> err option" where
  "setOutputWithJail en t out jail rt =
     (let rt = set_task t (\<lambda>k. k\<lparr>tk_output := out, tk_done := True\<rparr>) rt;
          file = tk_OutputFile (rt_tasks rt t); taskJail = tk_OutputDir (rt_tasks rt t)
      in if trim_space file = [] then (rt, None)
         else writeTaskOutputFile en file (if jail = [] then taskJail else jail) out rt)"

definition interpolate_text :: "'w env \<Rightarrow> (string \<times> string) list \<Rightarrow> string \<Rightarrow> string" where
  "interpolate_text en inputs s = fold (\<lambda>(k, v) s. replace_all (''{'' @ k @ ''}'') v s) (en_range en inputs) s"

definition interpolate :: "'w env \<Rightarrow> (string \<times> string) list \<Rightarrow> 'w task \<Rightarrow> 'w task" where
  "interpolate en inputs t =
     (if inputs = [] then t
      else t\<lparr>tk_Description := interpolate_text en inputs (tk_Description t),
             tk_ExpectedOutput := interpolate_text en inputs (tk_ExpectedOutput t)\<rparr>)"

section \<open>Guardrails\<close>

definition blocked :: "string \<Rightarrow> err" where
  "blocked s = Wrap [] (Sentinel ErrBlockedByGuardrail) s"

definition runTaskGuardrail :: "'w ctx \<Rightarrow> 'w task \<Rightarrow> string \<Rightarrow> string \<Rightarrow> 'w rt \<Rightarrow> 'w rt \<times> err option" where
  "runTaskGuardrail ctx task label result rt =
     (case tk_Guardrail task of
        None \<Rightarrow> (rt, None)
      | Some g \<Rightarrow>
          (case outside (g ctx \<lparr>co_Final = result,
               co_TasksOutput = [\<lparr>to_Task = label, to_Agent = [], to_Output = result, to_Facts = [], to_ToolTraces = [],
                                  to_Warnings = []\<rparr>],
               co_Facts = [], co_Warnings = []\<rparr>) rt of
             (rt, None) \<Rightarrow> (rt, None)
           | (rt, Some e) \<Rightarrow>
               (let er = blocked ('': task '' @ go_quote label @ '': '' @ error_text e) in
                (on_world (emitEventErr ctx ((event EventGuardrailBlocked)\<lparr>ev_Task := label\<rparr>) (Some er)) rt, Some er))))"

fun runCrewGuardrails :: "'w ctx \<Rightarrow> 'w guardrail list \<Rightarrow> crewOutput \<Rightarrow> 'w rt \<Rightarrow> 'w rt \<times> err option" where
  "runCrewGuardrails ctx [] out rt = (rt, None)"
| "runCrewGuardrails ctx (g # gs) out rt =
     (case outside (g ctx out) rt of
        (rt, None) \<Rightarrow> runCrewGuardrails ctx gs out rt
      | (rt, Some e) \<Rightarrow>
          (let er = blocked ('': '' @ error_text e) in
           (on_world (emitEventErr ctx (event EventGuardrailBlocked) (Some er)) rt, Some er)))"

section \<open>Traces\<close>

definition NewTraceRecorder :: "(traceRecorder \<Rightarrow> traceRecorder) list \<Rightarrow> traceRecorder" where
  "NewTraceRecorder opts = fold (\<lambda>o1 r. o1 r) opts
     \<lparr>rec_pending = Map.empty, rec_records = [], rec_bodies = False, rec_filter = None\<rparr>"

definition WithTraceBodies :: "bool \<Rightarrow> traceRecorder \<Rightarrow> traceRecorder" where
  "WithTraceBodies on r = r\<lparr>rec_bodies := on\<rparr>"

definition WithTraceFilter :: "(taskTraceRecord \<Rightarrow> bool) option \<Rightarrow> traceRecorder \<Rightarrow> traceRecorder" where
  "WithTraceFilter fn r = r\<lparr>rec_filter := fn\<rparr>"

definition trace_Reset :: "traceRecorder \<Rightarrow> traceRecorder" where
  "trace_Reset r = r\<lparr>rec_pending := Map.empty, rec_records := []\<rparr>"

definition bodyFacts :: "fact list \<Rightarrow> fact list" where
  "bodyFacts facts = map (\<lambda>f. f\<lparr>Claim := redactString (Claim f), SourceOrg := redactString (SourceOrg f),
     SourceURL := redactString (SourceURL f)\<rparr>) facts"

definition bodyTools :: "toolTrace list \<Rightarrow> toolTrace list" where
  "bodyTools tr = map (\<lambda>t. \<lparr>tt_Tool = tt_Tool t,
     tt_Args = (if tt_Args t \<noteq> [] then redactString (tt_Args t) else []),
     tt_Output = redactString (tt_Output t), tt_Failed = tt_Failed t\<rparr>) tr"

definition metadataFacts :: "fact list \<Rightarrow> fact list" where
  "metadataFacts facts = map (\<lambda>f. f\<lparr>Claim := []\<rparr>) facts"

definition metadataTools :: "toolTrace list \<Rightarrow> toolTrace list" where
  "metadataTools tr = map (\<lambda>t. \<lparr>tt_Tool = tt_Tool t, tt_Args = [], tt_Output = [], tt_Failed = tt_Failed t\<rparr>) tr"

definition trace_capture ::
  "'w ctx \<Rightarrow> tid \<Rightarrow> 'w task \<Rightarrow> 'w agent \<Rightarrow> string \<Rightarrow> string \<Rightarrow> fact list \<Rightarrow> err option \<Rightarrow> traceRecorder \<Rightarrow> traceRecorder" where
  "trace_capture ctx t task agent context output facts execErr r =
     (let rec = \<lparr>rc_KickoffID = cx_kickoffID ctx, rc_Wave = cx_wave ctx, rc_Task = taskLabel task 0,
                 rc_Agent = ag_Role agent, rc_Prompt = None, rc_Output = [], rc_Facts = [], rc_Tools = [],
                 rc_Err = (case execErr of Some e \<Rightarrow> redactString (error_text e) | None \<Rightarrow> [])\<rparr>;
          rec = (if rec_bodies r
                 then rec\<lparr>rc_Output := redactString output,
                          rc_Prompt := Some \<lparr>ps_Description = redactString (tk_Description task), ps_Context = redactString context\<rparr>,
                          rc_Facts := bodyFacts facts, rc_Tools := bodyTools (tk_toolTraces task)\<rparr>
                 else rec\<lparr>rc_Facts := metadataFacts facts, rc_Tools := metadataTools (tk_toolTraces task)\<rparr>)
      in r\<lparr>rec_pending := (rec_pending r)(t \<mapsto> rec)\<rparr>)"

definition trace_publish :: "tid \<Rightarrow> traceRecorder \<Rightarrow> traceRecorder" where
  "trace_publish t r =
     (case rec_pending r t of
        None \<Rightarrow> r
      | Some rec \<Rightarrow>
          (let r = r\<lparr>rec_pending := (rec_pending r)(t := None)\<rparr> in
           if (case rec_filter r of None \<Rightarrow> True | Some f \<Rightarrow> f rec) then r\<lparr>rec_records := rec_records r @ [rec]\<rparr> else r))"

definition with_tracer :: "(traceRecorder \<Rightarrow> traceRecorder) \<Rightarrow> 'w rt \<Rightarrow> 'w rt" where
  "with_tracer f rt = rt\<lparr>rt_tracer := map_option f (rt_tracer rt)\<rparr>"

definition publishTrace :: "tid \<Rightarrow> 'w rt \<Rightarrow> 'w rt" where
  "publishTrace t rt = with_tracer (trace_publish t) rt"

section \<open>Executing a task\<close>

definition task_context :: "'w crew \<Rightarrow> 'w ctx \<Rightarrow> tid \<Rightarrow> 'w rt \<Rightarrow> 'w rt \<times> string" where
  "task_context c ctx t rt =
     (let text0 = contextText rt (rt_tasks rt t) in
      case (cr_store c, cr_policy c) of
        (Some _, Some p) \<Rightarrow>
          if \<not> mp_InjectWhenEmptyContext p \<or> text0 = [] then
            (case queryCommitted c ctx (Some p) rt of
               (rt, mem) \<Rightarrow> (rt, if mem = [] then text0 else if text0 = [] then mem else text0 @ NL @ NL @ mem))
          else (rt, text0)
      | _ \<Rightarrow> (rt, text0))"

definition auto_save ::
  "'w env \<Rightarrow> 'w crew \<Rightarrow> 'w ctx \<Rightarrow> 'w agent \<Rightarrow> tid \<Rightarrow> string \<Rightarrow> 'w rt \<Rightarrow> 'w rt" where
  "auto_save en c ctx agent t result rt =
     (case (cr_store c, cr_policy c) of
        (Some s, Some p) \<Rightarrow>
          if mp_AutoSave p then
            (let entry = autoSaveEntry en c agent (rt_tasks rt t) result (Some p) rt in
             if rt_buffering rt then stashMemoryBuffer t entry rt
             else commit_entry c ctx (Some p) s t entry rt)
          else rt
      | _ \<Rightarrow> rt)"

definition execute ::
  "'w env \<Rightarrow> 'w crew \<Rightarrow> 'w ctx \<Rightarrow> aid \<Rightarrow> tid \<Rightarrow> 'w rt \<Rightarrow> 'w rt \<times> xres" where
  "execute en c ctx i t rt =
     (let agent = rt_agents rt i;
          ctx = ContextWithWarningSink (ContextWithAgentRole ctx (ag_Role agent)) t;
          (rt, text0) = task_context c ctx t rt;
          (rt, result, facts, er) = run_task en c ctx i t text0 rt;
          rt = with_tracer (trace_capture ctx t (rt_tasks rt t) agent text0 result facts er) rt
      in case er of
           Some e \<Rightarrow> (rt, [], [], Some e)
         | None \<Rightarrow>
             (let task = rt_tasks rt t;
                  jail = (if tk_OutputDir task = [] then cr_OutputDir c else tk_OutputDir task)
              in case setOutputWithJail en t result jail rt of
                   (rt, Some e) \<Rightarrow> (rt, [], [], Some (wrapf ''writing task output: '' e))
                 | (rt, None) \<Rightarrow>
                     (let rt = auto_save en c ctx agent t result rt;
                          label = (if tk_Name task = [] then ''task'' else tk_Name task)
                      in case runTaskGuardrail ctx task label result rt of
                           (rt, Some e) \<Rightarrow> (rt, [], [], Some e)
                         | (rt, None) \<Rightarrow> (rt, result, facts, None))))"

end
