(* ===== verification/Crew.thy ===== *)
theory Crew
  imports TaskRun Schedule
begin

text \<open>
  The orchestrator (\<^verbatim>\<open>crew.go\<close>): the group of concurrent tasks with its barrier, the sequential,
  asynchronous, hierarchical and staged processes, and \<^verbatim>\<open>Kickoff\<close>. The goroutines of a group run
  their tasks one after the other in an arbitrary order (each task as one step); once a fail-fast
  group is cancelled, the remaining tasks run under a cancelled context, or give up waiting for a
  worker slot, as an arbitrary choice decides.
\<close>

section \<open>Choosing agents\<close>

definition agentForIndex :: "'w crew \<Rightarrow> nat \<Rightarrow> aid option" where
  "agentForIndex c i =
     (if cr_Agents c = [] then None
      else if i < length (cr_Agents c) then Some (cr_Agents c ! i)
      else Some (cr_Agents c ! (length (cr_Agents c) - 1)))"

definition task_agent :: "'w crew \<Rightarrow> 'w rt \<Rightarrow> nat \<Rightarrow> tid \<Rightarrow> aid option" where
  "task_agent c rt i t = (case tk_Agent (rt_tasks rt t) of Some a \<Rightarrow> Some a | None \<Rightarrow> agentForIndex c i)"

definition resolveManager :: "'w crew \<Rightarrow> 'w rt \<Rightarrow> err + 'w agent" where
  "resolveManager c rt =
     (case cr_ManagerAgent c of
        Some i \<Rightarrow> Inr (rt_agents rt i)
      | None \<Rightarrow>
          (case cr_ManagerLLM c of
             Some m \<Rightarrow> Inr (NewAgent ''Team Manager''
                 ''Coordinate the team to complete the tasks with excellence.''
                 ''You are an experienced manager, skilled at delegating work to the most suitable team member.''
                 (Some m))
           | None \<Rightarrow> Inl (Sentinel ErrNoManager)))"

definition delegate_prompt :: "'w crew \<Rightarrow> 'w rt \<Rightarrow> tid \<Rightarrow> string" where
  "delegate_prompt c rt t =
     ''You must choose which team member is the most suitable for the following task.'' @ NL @ NL
     @ ''Available members:'' @ NL
     @ concat (map (\<lambda>i. ''- '' @ ag_Role (rt_agents rt i) @ '': '' @ ag_Goal (rt_agents rt i) @ NL) (cr_Agents c))
     @ NL @ ''Task: '' @ tk_Description (rt_tasks rt t) @ NL
     @ NL @ ''Respond ONLY with the exact role of the chosen member, with no other text.''"

text \<open>The agent of a reply: exact role, then a role the reply contains, then the first agent.\<close>

definition choose_agent :: "'w rt \<Rightarrow> aid list \<Rightarrow> string \<Rightarrow> aid" where
  "choose_agent rt agents resp0 =
     (let resp = trim_space resp0 in
      case find (\<lambda>i. equal_fold (trim_space resp) (ag_Role (rt_agents rt i))) agents of
        Some i \<Rightarrow> i
      | None \<Rightarrow>
          (case find (\<lambda>i. contains (to_lower resp) (to_lower (ag_Role (rt_agents rt i)))) agents of
             Some i \<Rightarrow> i
           | None \<Rightarrow> hd agents))"

definition delegate :: "'w crew \<Rightarrow> 'w ctx \<Rightarrow> 'w agent \<Rightarrow> tid \<Rightarrow> 'w rt \<Rightarrow> 'w rt \<times> (err + aid option)" where
  "delegate c ctx manager t rt =
     (case cr_Agents c of
        [] \<Rightarrow> (rt, Inr None)
      | [i] \<Rightarrow> (rt, Inr (Some i))
      | i # _ \<Rightarrow>
          (case ag_LLM manager of
             None \<Rightarrow> (rt, Inl panic_nil)
           | Some m \<Rightarrow>
               (case outside (llm_Call m ctx [SystemMessage (buildSystemPrompt manager),
                       UserMessage (delegate_prompt c rt t)]) rt of
                  (rt, Inl e) \<Rightarrow> (rt, Inr (Some i))
                | (rt, Inr resp) \<Rightarrow> (rt, Inr (Some (choose_agent rt (cr_Agents c) resp))))))"

section \<open>Failed tasks\<close>

definition markFailed :: "tid \<Rightarrow> err \<Rightarrow> 'w rt \<Rightarrow> 'w rt" where
  "markFailed t e rt = rt\<lparr>rt_failed := (rt_failed rt)(t \<mapsto> e)\<rparr>"

definition failedUpstream :: "'w rt \<Rightarrow> tid \<Rightarrow> err option" where
  "failedUpstream rt t =
     map_option (\<lambda>d. wrapf (''dependency '' @ go_quote (taskLabel (rt_tasks rt d) 0) @ '' failed: '') (the (rt_failed rt d)))
       (find (\<lambda>d. rt_failed rt d \<noteq> None) (tk_Context (rt_tasks rt t)))"

section \<open>Progress and results\<close>

definition task_progress :: "'w ctx \<Rightarrow> string \<Rightarrow> string \<Rightarrow> tid \<Rightarrow> nat \<Rightarrow> aid \<Rightarrow> err option \<Rightarrow> 'w rt \<Rightarrow> 'w rt" where
  "task_progress ctx ev stage t i a er rt =
     on_world (emitProgress ctx ((progress_of ev)\<lparr>pg_Stage := stage, pg_Task := taskLabel (rt_tasks rt t) i,
       pg_Agent := ag_Role (rt_agents rt a), pg_Err := map_option redactError er\<rparr>)) rt"

definition empty_output :: crewOutput where
  "empty_output = \<lparr>co_Final = [], co_TasksOutput = [], co_Facts = [], co_Warnings = []\<rparr>"

text \<open>Fold of one successful result into the output; every process does it alike.\<close>

definition fold_result ::
  "tid \<Rightarrow> nat \<Rightarrow> aid \<Rightarrow> string \<Rightarrow> fact list \<Rightarrow> crewOutput \<Rightarrow> 'w rt \<Rightarrow> 'w rt \<times> crewOutput" where
  "fold_result t i a result facts out rt =
     (let k = rt_tasks rt t in
      (publishTrace t rt,
       \<lparr>co_Final = result,
        co_TasksOutput = co_TasksOutput out @
          [\<lparr>to_Task = taskLabel k i, to_Agent = ag_Role (rt_agents rt a), to_Output = result, to_Facts = facts,
            to_ToolTraces = tk_toolTraces k, to_Warnings = tk_warnings k\<rparr>],
        co_Facts = dedupFacts (co_Facts out) facts,
        co_Warnings = co_Warnings out @ tk_warnings k\<rparr>))"

section \<open>A group of tasks\<close>

text \<open>
  The choices of the scheduler for one group: the order of its goroutines, and whether one that
  finds a free worker slot and a cancelled context at once takes the cancellation.
\<close>

record groupSched =
  gs_order :: "nat list"
  gs_giveUp :: "nat \<Rightarrow> bool"

record groupRun =
  gn_label :: string
  gn_labelKey :: string
  gn_tasks :: "tid list"
  gn_agents :: "aid option list"
  gn_failFast :: bool

record groupResult =
  gr_task :: "tid option"
  gr_agent :: "aid option"
  gr_out :: string
  gr_facts :: "fact list"
  gr_err :: "err option"

definition zero_result :: groupResult where
  "zero_result = \<lparr>gr_task = None, gr_agent = None, gr_out = [], gr_facts = [], gr_err = None\<rparr>"

record 'w groupState =
  gp_rt :: "'w rt"
  gp_results :: "groupResult list"
  gp_first :: "(err \<times> nat) option"
  gp_cancelled :: bool

definition canceled :: err where "canceled = Plain ''context canceled''"

definition group_ctx :: "'w ctx \<Rightarrow> bool \<Rightarrow> 'w ctx" where
  "group_ctx ctx cancelled =
     (if cancelled then ctx\<lparr>cx_err := (\<lambda>w. case cx_err ctx w of Some e \<Rightarrow> Some e | None \<Rightarrow> Some canceled)\<rparr> else ctx)"

definition recordErr :: "bool \<Rightarrow> nat \<Rightarrow> err \<Rightarrow> 'w groupState \<Rightarrow> 'w groupState" where
  "recordErr failFast ti e g =
     g\<lparr>gp_first := (case gp_first g of None \<Rightarrow> Some (e, ti) | Some x \<Rightarrow> Some x),
       gp_cancelled := (gp_cancelled g \<or> failFast)\<rparr>"

definition group_step ::
  "'w env \<Rightarrow> 'w crew \<Rightarrow> 'w ctx \<Rightarrow> groupRun \<Rightarrow> (nat \<Rightarrow> bool) \<Rightarrow> nat \<Rightarrow> 'w groupState \<Rightarrow> 'w groupState" where
  "group_step en c ctx g giveUp ti s =
     (let t = gn_tasks g ! ti; gctx = group_ctx ctx (gp_cancelled s) in
      case gn_agents g ! ti of
        None \<Rightarrow> recordErr (gn_failFast g) ti (Sentinel ErrNoAgent) s
      | Some a \<Rightarrow>
          (let capped = gn_labelKey g = ''wave'' \<and> cr_AsyncMaxWorkers c > 0;
               gone = cx_err gctx (rt_w (gp_rt s))
           in if capped \<and> giveUp ti \<and> gone \<noteq> None
              then recordErr (gn_failFast g) ti (the gone)
                     (s\<lparr>gp_results := (gp_results s)[ti :=
                        \<lparr>gr_task = Some t, gr_agent = Some a, gr_out = [], gr_facts = [], gr_err = gone\<rparr>]\<rparr>)
              else
                (let rt = task_progress gctx ''task_started'' (gn_label g) t ti a None (gp_rt s);
                     (rt, result, facts, er) = execute en c gctx a t rt;
                     s = s\<lparr>gp_rt := task_progress gctx ''task_completed'' (gn_label g) t ti a er rt,
                           gp_results := (gp_results s)[ti :=
                             \<lparr>gr_task = Some t, gr_agent = Some a, gr_out = result, gr_facts = facts, gr_err = er\<rparr>]\<rparr>
                 in case er of None \<Rightarrow> s | Some e \<Rightarrow> recordErr (gn_failFast g) ti e s)))"

definition runTaskGroup ::
  "'w env \<Rightarrow> 'w crew \<Rightarrow> groupSched \<Rightarrow> 'w ctx \<Rightarrow> groupRun \<Rightarrow> 'w rt \<Rightarrow> 'w rt \<times> groupResult list \<times> (err \<times> nat) option" where
  "runTaskGroup en c sch ctx g rt =
     (let n = length (gn_tasks g);
          s = fold (group_step en c ctx g (gs_giveUp sch)) (wave_order (gs_order sch) n)
                \<lparr>gp_rt = rt, gp_results = replicate n zero_result, gp_first = None, gp_cancelled = False\<rparr>
      in (gp_rt s, gp_results s, gp_first s))"

section \<open>Waves\<close>

text \<open>Fold of the results of a wave group at its barrier, by position in the group.\<close>

definition wave_error :: "string \<Rightarrow> nat \<Rightarrow> err \<Rightarrow> err" where
  "wave_error label i e = wrapf (''async wave '' @ go_quote label @ '': task '' @ itoa (i + 1) @ '': '') e"

fun fold_wave ::
  "'w crew \<Rightarrow> string \<Rightarrow> nat list \<Rightarrow> groupResult list \<Rightarrow> crewOutput \<Rightarrow> 'w rt \<Rightarrow> 'w rt \<times> (err + crewOutput)" where
  "fold_wave c label (i # idxs) (res # results) out rt =
     (case gr_err res of
        Some e \<Rightarrow>
          (let rt = markFailed (cr_Tasks c ! i) e rt in
           if cr_AsyncFailFast c then (rt, Inl (wave_error label i e))
           else fold_wave c label idxs results out rt)
      | None \<Rightarrow>
          (case (gr_agent res, gr_task res) of
             (Some a, Some t) \<Rightarrow>
               (let (rt, out) = fold_result t i a (gr_out res) (gr_facts res) out rt
                in fold_wave c label idxs results out rt)
           | _ \<Rightarrow> fold_wave c label idxs results out rt))"
| "fold_wave c label _ _ out rt = (rt, Inr out)"

type_synonym scheduler = "nat list \<Rightarrow> groupSched"

definition runWaveGroup ::
  "'w env \<Rightarrow> 'w crew \<Rightarrow> scheduler \<Rightarrow> 'w ctx \<Rightarrow> string \<Rightarrow> nat list \<Rightarrow> aid list option \<Rightarrow> crewOutput \<Rightarrow> 'w rt
   \<Rightarrow> 'w rt \<times> (err + crewOutput)" where
  "runWaveGroup en c sch ctx label idxs agents out rt =
     (if idxs = [] then (rt, Inr out)
      else
        let groupTasks = map (\<lambda>i. cr_Tasks c ! i) idxs;
            groupAgents = map (\<lambda>i. case agents of Some as \<Rightarrow> Some (as ! i) | None \<Rightarrow> task_agent c rt i (cr_Tasks c ! i)) idxs;
            wctx = contextWithTraceWave ctx label;
            (rt, results, first) = runTaskGroup en c (sch idxs) wctx
              \<lparr>gn_label = label, gn_labelKey = ''wave'', gn_tasks = groupTasks, gn_agents = groupAgents,
               gn_failFast = cr_AsyncFailFast c\<rparr> (beginMemoryBuffer rt)
        in if first \<noteq> None \<and> cr_AsyncFailFast c
           then (let (e, k) = the first; rt = fold (\<lambda>t. markFailed t e) groupTasks (discardMemoryBuffer rt)
                 in (rt, Inl (wave_error label k e)))
           else fold_wave c label idxs results out (commitMemoryBuffer c wctx groupTasks (cr_policy c) rt))"

text \<open>Groups of at most \<open>AsyncMaxWorkers\<close> tasks, \<open>0\<close> for no bound.\<close>

function chunks :: "int \<Rightarrow> 'a list \<Rightarrow> 'a list list" where
  "chunks m xs =
     (if xs = [] then []
      else if m > 0 \<and> int (length xs) > m then take (nat m) xs # chunks m (drop (nat m) xs)
      else [xs])"
  by pat_completeness auto
termination by (relation "measure (\<lambda>(m, xs). length xs)") auto

declare chunks.simps [simp del]

fun run_groups ::
  "'w env \<Rightarrow> 'w crew \<Rightarrow> scheduler \<Rightarrow> 'w ctx \<Rightarrow> string \<Rightarrow> nat list list \<Rightarrow> aid list option \<Rightarrow> crewOutput \<Rightarrow> 'w rt
   \<Rightarrow> 'w rt \<times> (err + crewOutput)" where
  "run_groups en c sch ctx label [] agents out rt = (rt, Inr out)"
| "run_groups en c sch ctx label (g # gs) agents out rt =
     (case runWaveGroup en c sch ctx label g agents out rt of
        (rt, Inl e) \<Rightarrow> (rt, Inl e)
      | (rt, Inr out) \<Rightarrow> run_groups en c sch ctx label gs agents out rt)"

text \<open>The tasks of a wave that are not skipped for a failed dependency.\<close>

fun drop_failed :: "'w crew \<Rightarrow> nat list \<Rightarrow> 'w rt \<Rightarrow> 'w rt \<times> nat list" where
  "drop_failed c [] rt = (rt, [])"
| "drop_failed c (i # is) rt =
     (case failedUpstream rt (cr_Tasks c ! i) of
        Some e \<Rightarrow> drop_failed c is (markFailed (cr_Tasks c ! i) e rt)
      | None \<Rightarrow> (case drop_failed c is rt of (rt, js) \<Rightarrow> (rt, i # js)))"

text \<open>Every task is in one wave only, so the \<^verbatim>\<open>done\<close> flags of the code are never set when they are read.\<close>

definition run_wave ::
  "'w env \<Rightarrow> 'w crew \<Rightarrow> scheduler \<Rightarrow> 'w ctx \<Rightarrow> string \<Rightarrow> nat list \<Rightarrow> aid list option \<Rightarrow> crewOutput \<Rightarrow> 'w rt
   \<Rightarrow> 'w rt \<times> (err + crewOutput)" where
  "run_wave en c sch ctx label wave agents out rt =
     (let (rt, remaining) = drop_failed c wave rt;
          (asyncIdx, syncIdx) = partition (\<lambda>i. tk_Async (rt_tasks rt (cr_Tasks c ! i))) remaining
      in run_groups en c sch ctx label (chunks (cr_AsyncMaxWorkers c) asyncIdx @ map (\<lambda>i. [i]) syncIdx) agents out rt)"

fun runAsyncWaves ::
  "'w env \<Rightarrow> 'w crew \<Rightarrow> scheduler \<Rightarrow> 'w ctx \<Rightarrow> nat \<Rightarrow> nat list list \<Rightarrow> aid list option \<Rightarrow> crewOutput \<Rightarrow> 'w rt
   \<Rightarrow> 'w rt \<times> (err + crewOutput)" where
  "runAsyncWaves en c sch ctx w [] agents out rt = (rt, Inr out)"
| "runAsyncWaves en c sch ctx w (wave # ws) agents out rt =
     (let label = ''wave '' @ itoa (w + 1);
          rt = on_world (emitEvent ctx ((event EventWaveStarted)\<lparr>ev_Stage := label\<rparr>)) rt;
          done_ev = (event EventWaveCompleted)\<lparr>ev_Stage := label\<rparr>
      in case run_wave en c sch ctx label wave agents out rt of
           (rt, Inl e) \<Rightarrow> (on_world (emitEventErr ctx done_ev (Some e)) rt, Inl e)
         | (rt, Inr out) \<Rightarrow> runAsyncWaves en c sch ctx (Suc w) ws agents out (on_world (emitEvent ctx done_ev) rt))"

section \<open>Sequential and hierarchical\<close>

text \<open>One task outside any group: progress, execution, fold.\<close>

definition run_serial_task ::
  "'w env \<Rightarrow> 'w crew \<Rightarrow> 'w ctx \<Rightarrow> nat \<Rightarrow> tid \<Rightarrow> aid \<Rightarrow> crewOutput \<Rightarrow> 'w rt \<Rightarrow> 'w rt \<times> (err + crewOutput)" where
  "run_serial_task en c ctx i t a out rt =
     (case execute en c ctx a t (task_progress ctx ''task_started'' [] t i a None rt) of
        (rt, result, facts, Some e) \<Rightarrow>
          (task_progress ctx ''task_completed'' [] t i a (Some e) rt,
           Inl (wrapf (''task '' @ itoa (i + 1) @ '': '') e))
      | (rt, result, facts, None) \<Rightarrow>
          (case fold_result t i a result facts out (task_progress ctx ''task_completed'' [] t i a None rt) of
             (rt, out) \<Rightarrow> (rt, Inr out)))"

fun serial_loop ::
  "'w env \<Rightarrow> 'w crew \<Rightarrow> 'w ctx \<Rightarrow> nat \<Rightarrow> tid list \<Rightarrow> crewOutput \<Rightarrow> 'w rt \<Rightarrow> 'w rt \<times> (err + crewOutput)" where
  "serial_loop en c ctx i [] out rt = (rt, Inr out)"
| "serial_loop en c ctx i (t # ts) out rt =
     (case failedUpstream rt t of
        Some e \<Rightarrow> serial_loop en c ctx (Suc i) ts out (markFailed t e rt)
      | None \<Rightarrow>
          (case task_agent c rt i t of
             None \<Rightarrow> (rt, Inl (Sentinel ErrNoAgent))
           | Some a \<Rightarrow>
               (case run_serial_task en c ctx i t a out rt of
                  (rt, Inl e) \<Rightarrow> (rt, Inl e)
                | (rt, Inr out) \<Rightarrow> serial_loop en c ctx (Suc i) ts out rt)))"

definition runSequentialSerial :: "'w env \<Rightarrow> 'w crew \<Rightarrow> 'w ctx \<Rightarrow> 'w rt \<Rightarrow> 'w rt \<times> (err + crewOutput)" where
  "runSequentialSerial en c ctx rt = serial_loop en c ctx 0 (cr_Tasks c) empty_output rt"

definition has_async :: "'w crew \<Rightarrow> 'w rt \<Rightarrow> bool" where
  "has_async c rt \<longleftrightarrow> (\<exists>t\<in>set (cr_Tasks c). tk_Async (rt_tasks rt t))"

definition crew_plan :: "'w crew \<Rightarrow> 'w rt \<Rightarrow> err + asyncPlan" where
  "crew_plan c rt = planWaves (\<lambda>t. tk_Context (rt_tasks rt t)) (cr_Tasks c)"

definition runSequentialWithPlan ::
  "'w env \<Rightarrow> 'w crew \<Rightarrow> scheduler \<Rightarrow> 'w ctx \<Rightarrow> asyncPlan option \<Rightarrow> 'w rt \<Rightarrow> 'w rt \<times> (err + crewOutput)" where
  "runSequentialWithPlan en c sch ctx plan rt =
     (if \<not> has_async c rt then runSequentialSerial en c ctx rt
      else case (case plan of Some p \<Rightarrow> Inr p | None \<Rightarrow> crew_plan c rt) of
             Inl e \<Rightarrow> (rt, Inl e)
           | Inr p \<Rightarrow> runAsyncWaves en c sch ctx 0 (waves p) None empty_output rt)"

definition assigned_agent :: "'w crew \<Rightarrow> 'w ctx \<Rightarrow> 'w agent \<Rightarrow> tid \<Rightarrow> 'w rt \<Rightarrow> 'w rt \<times> (err + aid)" where
  "assigned_agent c ctx manager t rt =
     (case tk_Agent (rt_tasks rt t) of
        Some a \<Rightarrow> (rt, Inr a)
      | None \<Rightarrow>
          (case delegate c ctx manager t rt of
             (rt, Inl e) \<Rightarrow> (rt, Inl e)
           | (rt, Inr None) \<Rightarrow> (rt, Inl (Sentinel ErrNoAgent))
           | (rt, Inr (Some a)) \<Rightarrow> (rt, Inr a)))"

fun resolve_agents :: "'w crew \<Rightarrow> 'w ctx \<Rightarrow> 'w agent \<Rightarrow> tid list \<Rightarrow> 'w rt \<Rightarrow> 'w rt \<times> (err + aid list)" where
  "resolve_agents c ctx manager [] rt = (rt, Inr [])"
| "resolve_agents c ctx manager (t # ts) rt =
     (case assigned_agent c ctx manager t rt of
        (rt, Inl e) \<Rightarrow> (rt, Inl e)
      | (rt, Inr a) \<Rightarrow>
          (case resolve_agents c ctx manager ts rt of
             (rt, Inl e) \<Rightarrow> (rt, Inl e)
           | (rt, Inr as) \<Rightarrow> (rt, Inr (a # as))))"

fun hierarchical_loop ::
  "'w env \<Rightarrow> 'w crew \<Rightarrow> 'w ctx \<Rightarrow> 'w agent \<Rightarrow> nat \<Rightarrow> tid list \<Rightarrow> crewOutput \<Rightarrow> 'w rt \<Rightarrow> 'w rt \<times> (err + crewOutput)" where
  "hierarchical_loop en c ctx manager i [] out rt = (rt, Inr out)"
| "hierarchical_loop en c ctx manager i (t # ts) out rt =
     (case assigned_agent c ctx manager t rt of
        (rt, Inl e) \<Rightarrow> (rt, Inl e)
      | (rt, Inr a) \<Rightarrow>
          (case run_serial_task en c ctx i t a out rt of
             (rt, Inl e) \<Rightarrow> (rt, Inl e)
           | (rt, Inr out) \<Rightarrow> hierarchical_loop en c ctx manager (Suc i) ts out rt))"

definition runHierarchical ::
  "'w env \<Rightarrow> 'w crew \<Rightarrow> scheduler \<Rightarrow> 'w ctx \<Rightarrow> 'w rt \<Rightarrow> 'w rt \<times> (err + crewOutput)" where
  "runHierarchical en c sch ctx rt =
     (case resolveManager c rt of
        Inl e \<Rightarrow> (rt, Inl e)
      | Inr manager \<Rightarrow>
          if has_async c rt then
            (case resolve_agents c ctx manager (cr_Tasks c) rt of
               (rt, Inl e) \<Rightarrow> (rt, Inl e)
             | (rt, Inr agents) \<Rightarrow>
                 (case crew_plan c rt of
                    Inl e \<Rightarrow> (rt, Inl e)
                  | Inr p \<Rightarrow> runAsyncWaves en c sch ctx 0 (waves p) (Some agents) empty_output rt))
          else hierarchical_loop en c ctx manager 0 (cr_Tasks c) empty_output rt)"

section \<open>Stages\<close>

fun fold_stage :: "nat \<Rightarrow> groupResult list \<Rightarrow> crewOutput \<Rightarrow> 'w rt \<Rightarrow> 'w rt \<times> crewOutput" where
  "fold_stage ti [] out rt = (rt, out)"
| "fold_stage ti (res # results) out rt =
     (if gr_err res \<noteq> None then fold_stage (Suc ti) results out rt
      else case (gr_agent res, gr_task res) of
        (Some a, Some t) \<Rightarrow>
          (let (rt, out) = fold_result t ti a (gr_out res) (gr_facts res) out rt in fold_stage (Suc ti) results out rt)
      | _ \<Rightarrow> fold_stage (Suc ti) results out rt)"

definition runStage ::
  "'w env \<Rightarrow> 'w crew \<Rightarrow> groupSched \<Rightarrow> 'w ctx \<Rightarrow> string \<Rightarrow> tid list \<Rightarrow> bool \<Rightarrow> 'w rt
   \<Rightarrow> 'w rt \<times> groupResult list \<times> (err \<times> nat) option" where
  "runStage en c sch ctx stageName tasks optional rt =
     runTaskGroup en c sch ctx
       \<lparr>gn_label = stageName, gn_labelKey = ''stage'', gn_tasks = tasks,
        gn_agents = map (\<lambda>(i, t). task_agent c rt i t) (zip [0..<length tasks] tasks), gn_failFast = \<not> optional\<rparr> rt"

definition stage_progress :: "'w ctx \<Rightarrow> string \<Rightarrow> string \<Rightarrow> 'w rt \<Rightarrow> 'w rt" where
  "stage_progress ctx ev stage rt = on_world (emitProgress ctx ((progress_of ev)\<lparr>pg_Stage := stage\<rparr>)) rt"

fun runStages ::
  "'w env \<Rightarrow> 'w crew \<Rightarrow> (nat \<Rightarrow> groupSched) \<Rightarrow> 'w ctx \<Rightarrow> nat \<Rightarrow> stage list \<Rightarrow> crewOutput \<Rightarrow> 'w rt
   \<Rightarrow> 'w rt \<times> (err + crewOutput)" where
  "runStages en c sch ctx si [] out rt = (rt, Inr out)"
| "runStages en c sch ctx si (sg # sgs) out rt =
     (let name = (if sg_Name sg = [] then ''stage '' @ itoa (si + 1) else sg_Name sg);
          rt = beginMemoryBuffer (stage_progress ctx ''stage_started'' name rt);
          (rt, results, first) = runStage en c (sch si) ctx name (sg_Tasks sg) (sg_Optional sg) rt
      in case (first, sg_Optional sg) of
           (Some (e, k), False) \<Rightarrow>
             (stage_progress ctx ''stage_completed'' name (discardMemoryBuffer rt),
              Inl (wrapf (''stage '' @ go_quote name @ '': task '' @ itoa (k + 1) @ '': '') e))
         | _ \<Rightarrow>
             (let rt = stage_progress ctx ''stage_completed'' name
                         (commitMemoryBuffer c ctx (sg_Tasks sg) (cr_policy c) rt);
                  (rt, out) = fold_stage 0 results out rt
              in runStages en c sch ctx (Suc si) sgs out rt))"

definition runStaged ::
  "'w env \<Rightarrow> 'w crew \<Rightarrow> (nat \<Rightarrow> groupSched) \<Rightarrow> 'w ctx \<Rightarrow> 'w rt \<Rightarrow> 'w rt \<times> (err + crewOutput)" where
  "runStaged en c sch ctx rt = runStages en c sch ctx 0 (cr_Stages c) empty_output rt"

section \<open>Kickoff\<close>

definition Sequential :: string where "Sequential = ''sequential''"
definition Hierarchical :: string where "Hierarchical = ''hierarchical''"
definition Staged :: string where "Staged = ''staged''"

definition process_valid :: "string \<Rightarrow> bool" where
  "process_valid p \<longleftrightarrow> p = Sequential \<or> p = Hierarchical \<or> p = Staged"

definition DefaultAsyncMaxWorkers :: int where "DefaultAsyncMaxWorkers = 8"

definition NewCrew :: "aid list \<Rightarrow> tid list \<Rightarrow> 'w crew" where
  "NewCrew agents tasks = no_crew\<lparr>cr_Agents := agents, cr_Tasks := tasks, cr_Process := Sequential,
     cr_AsyncMaxWorkers := DefaultAsyncMaxWorkers, cr_AsyncFailFast := True\<rparr>"

definition WithAsyncAll :: "'w crew \<Rightarrow> 'w rt \<Rightarrow> 'w rt" where
  "WithAsyncAll c rt = fold (\<lambda>t. set_task t WithAsync) (cr_Tasks c) rt"

text \<open>The checks of \<^verbatim>\<open>Kickoff\<close> that precede any change but the defaulting of the process.\<close>

definition kickoff_check :: "'w crew \<Rightarrow> err option" where
  "kickoff_check c =
     (if \<not> process_valid (cr_Process c) then Some (Plain (''crewai: invalid process '' @ go_quote (cr_Process c)))
      else if cr_Process c = Staged then (if cr_Stages c = [] then Some (Sentinel ErrNoStages) else None)
      else if cr_Tasks c = [] then Some (Sentinel ErrNoTasks) else None)"

text \<open>Memory is resolved and the bookkeeping of the last run cleared.\<close>

definition kickoff_resolve :: "'w env \<Rightarrow> 'w crew \<Rightarrow> 'w rt \<Rightarrow> 'w rt \<times> 'w crew" where
  "kickoff_resolve en c rt =
     (let c = c\<lparr>cr_policy := Some (resolvePolicy (cr_MemoryPolicy c)), cr_store := cr_MemoryStore c\<rparr>;
          rt = with_tracer trace_Reset (discardMemoryBuffer (rt\<lparr>rt_failed := Map.empty\<rparr>))
      in if cr_store c = None \<and> cr_Memory c
         then (case outside (en_newMemory en) rt of (rt, s) \<Rightarrow> (rt, c\<lparr>cr_store := Some s\<rparr>))
         else (rt, c))"

definition kickoff_tasks :: "'w crew \<Rightarrow> tid list" where
  "kickoff_tasks c = (if cr_Process c = Staged then concat (map sg_Tasks (cr_Stages c)) else cr_Tasks c)"

definition kickoff_attach :: "'w env \<Rightarrow> (string \<times> string) list \<Rightarrow> 'w crew \<Rightarrow> 'w rt \<Rightarrow> 'w rt" where
  "kickoff_attach en inputs c rt =
     (let rt = (if cr_EnableDelegationTool c then attachDelegationTools c rt else rt);
          rt = (if cr_EnableMemoryTools c then attachMemoryTools c rt else rt)
      in fold (\<lambda>t. set_task t (interpolate en inputs)) (kickoff_tasks c) rt)"

definition kickoff_ctx :: "'w env \<Rightarrow> 'w crew \<Rightarrow> 'w ctx \<Rightarrow> 'w rt \<Rightarrow> 'w rt \<times> 'w ctx" where
  "kickoff_ctx en c ctx rt =
     (let ctx = ContextWithStream (ContextWithProgress ctx (cr_progress c)) (cr_stream c);
          (rt, ctx) = (if cx_kickoffID ctx = []
                       then (case outside (en_kickoffID en) rt of (rt, i) \<Rightarrow> (rt, ContextWithKickoffID ctx i))
                       else (rt, ctx))
      in (rt, ContextWithEvents ctx (cr_events c)))"

text \<open>The scheduler of wave groups and the schedulers of the stages.\<close>

definition run_process ::
  "'w env \<Rightarrow> 'w crew \<Rightarrow> scheduler \<Rightarrow> (nat \<Rightarrow> groupSched) \<Rightarrow> 'w ctx \<Rightarrow> 'w rt \<Rightarrow> 'w rt \<times> (err + crewOutput)" where
  "run_process en c sch ssch ctx rt =
     (if cr_Process c = Sequential then runSequentialWithPlan en c sch ctx None rt
      else if cr_Process c = Hierarchical then runHierarchical en c sch ctx rt
      else runStaged en c ssch ctx rt)"

definition kickoff_run ::
  "'w env \<Rightarrow> 'w crew \<Rightarrow> scheduler \<Rightarrow> (nat \<Rightarrow> groupSched) \<Rightarrow> 'w ctx \<Rightarrow> 'w rt \<Rightarrow> 'w rt \<times> (err + crewOutput)" where
  "kickoff_run en c sch ssch ctx rt =
     (let fin = event EventKickoffCompleted in
      case run_process en c sch ssch ctx (on_world (emitEvent ctx (event EventKickoffStarted)) rt) of
        (rt, Inl e) \<Rightarrow> (on_world (emitEventErr ctx fin (Some e)) (discardMemoryBuffer rt), Inl e)
      | (rt, Inr out) \<Rightarrow>
          (case runCrewGuardrails ctx (cr_Guardrails c) out rt of
             (rt, Some e) \<Rightarrow> (on_world (emitEventErr ctx fin (Some e)) rt, Inl e)
           | (rt, None) \<Rightarrow> (on_world (emitEvent ctx fin) rt, Inr out)))"

definition Kickoff ::
  "'w env \<Rightarrow> scheduler \<Rightarrow> (nat \<Rightarrow> groupSched) \<Rightarrow> bool \<Rightarrow> 'w ctx \<Rightarrow> (string \<times> string) list \<Rightarrow> 'w crew \<Rightarrow> 'w rt
   \<Rightarrow> 'w rt \<times> 'w crew \<times> (err + crewOutput)" where
  "Kickoff en sch ssch running ctx inputs c rt =
     (if running then (rt, c, Inl (Sentinel ErrCrewRunning))
      else
        let c = (if cr_Process c = [] then c\<lparr>cr_Process := Sequential\<rparr> else c) in
        case kickoff_check c of
          Some e \<Rightarrow> (rt, c, Inl e)
        | None \<Rightarrow>
            (let (rt, c) = kickoff_resolve en c rt in
             case (if cr_Process c = Staged then None
                   else (case crew_plan c rt of Inl e \<Rightarrow> Some e | Inr _ \<Rightarrow> None)) of
               Some e \<Rightarrow> (rt, c, Inl e)
             | None \<Rightarrow>
                 (let (rt, ctx) = kickoff_ctx en c ctx (kickoff_attach en inputs c rt);
                      (rt, r) = kickoff_run en c sch ssch ctx rt
                  in (rt, c, r))))"

end
