(* ===== verification/CrewOutput.thy ===== *)
theory CrewOutput
  imports Crew
begin

text \<open>
  What the output of a run is made of. Every process builds the \<^verbatim>\<open>CrewOutput\<close> from the empty one by
  appending task outputs, so a property kept by that step holds of whatever \<^verbatim>\<open>Kickoff\<close> returns;
  the locale \<open>output_invariant\<close> proves this once, and is interpreted on the consistency of the
  aggregated fields. Also here: what \<^verbatim>\<open>Kickoff\<close> refuses, and that nothing is returned past a
  guardrail.
\<close>

section \<open>The step of the fold\<close>

definition add_output :: "taskOutput \<Rightarrow> crewOutput \<Rightarrow> crewOutput" where
  "add_output t out =
     \<lparr>co_Final = to_Output t, co_TasksOutput = co_TasksOutput out @ [t],
      co_Facts = dedupFacts (co_Facts out) (to_Facts t), co_Warnings = co_Warnings out @ to_Warnings t\<rparr>"

lemma fold_result_add:
  "fold_result t i a result facts out rt =
     (publishTrace t rt,
      add_output \<lparr>to_Task = taskLabel (rt_tasks rt t) i, to_Agent = ag_Role (rt_agents rt a), to_Output = result,
        to_Facts = facts, to_ToolTraces = tk_toolTraces (rt_tasks rt t), to_Warnings = tk_warnings (rt_tasks rt t)\<rparr> out)"
  by (simp add: fold_result_def add_output_def Let_def)

section \<open>Invariants of the output\<close>

locale output_invariant =
  fixes P :: "crewOutput \<Rightarrow> bool"
  assumes P_empty: "P empty_output"
    and P_add: "P out \<Longrightarrow> P (add_output t out)"
begin

lemma fold_wave_inv: "fold_wave c label idxs results out rt = (rt', Inr out') \<Longrightarrow> P out \<Longrightarrow> P out'"
proof (induction c label idxs results out rt rule: fold_wave.induct)
  case (1 c label i idxs res results out rt)
  then show ?case
    by (auto simp: fold_result_add Let_def P_add split: option.splits if_splits)
qed auto

lemma runWaveGroup_inv: "runWaveGroup en c sch ctx label idxs agents out rt = (rt', Inr out') \<Longrightarrow> P out \<Longrightarrow> P out'"
  by (auto simp: runWaveGroup_def Let_def intro: fold_wave_inv split: if_splits prod.splits)

lemma run_groups_inv: "run_groups en c sch ctx label gs agents out rt = (rt', Inr out') \<Longrightarrow> P out \<Longrightarrow> P out'"
proof (induction gs arbitrary: out rt)
  case (Cons g gs)
  then show ?case by (auto split: prod.splits sum.splits dest: runWaveGroup_inv)
qed simp

lemma run_wave_inv: "run_wave en c sch ctx label w agents out rt = (rt', Inr out') \<Longrightarrow> P out \<Longrightarrow> P out'"
  by (auto simp: run_wave_def split: prod.splits intro: run_groups_inv)

lemma runAsyncWaves_inv: "runAsyncWaves en c sch ctx k ws agents out rt = (rt', Inr out') \<Longrightarrow> P out \<Longrightarrow> P out'"
proof (induction ws arbitrary: k out rt)
  case (Cons w ws)
  then show ?case by (auto simp: Let_def split: prod.splits sum.splits dest: run_wave_inv)
qed simp

lemma run_serial_task_inv: "run_serial_task en c ctx i t a out rt = (rt', Inr out') \<Longrightarrow> P out \<Longrightarrow> P out'"
  by (auto simp: run_serial_task_def fold_result_add P_add split: prod.splits option.splits)

lemma serial_loop_inv: "serial_loop en c ctx i ts out rt = (rt', Inr out') \<Longrightarrow> P out \<Longrightarrow> P out'"
proof (induction ts arbitrary: i out rt)
  case (Cons t ts)
  then show ?case by (auto split: prod.splits sum.splits option.splits dest: run_serial_task_inv)
qed simp

lemma hierarchical_loop_inv: "hierarchical_loop en c ctx m i ts out rt = (rt', Inr out') \<Longrightarrow> P out \<Longrightarrow> P out'"
proof (induction ts arbitrary: i out rt)
  case (Cons t ts)
  then show ?case by (auto split: prod.splits sum.splits option.splits dest: run_serial_task_inv)
qed simp

lemma fold_stage_inv: "fold_stage k results out rt = (rt', out') \<Longrightarrow> P out \<Longrightarrow> P out'"
proof (induction results arbitrary: k out rt)
  case (Cons r rs)
  then show ?case by (auto simp: fold_result_add Let_def P_add split: option.splits if_splits)
qed simp

lemma runStages_inv: "runStages en c sch ctx k sgs out rt = (rt', Inr out') \<Longrightarrow> P out \<Longrightarrow> P out'"
proof (induction sgs arbitrary: k out rt)
  case (Cons sg sgs)
  then show ?case by (auto simp: Let_def split: prod.splits option.splits bool.splits dest: fold_stage_inv)
qed simp

lemma run_process_inv: "run_process en c sch ssch ctx rt = (rt', Inr out) \<Longrightarrow> P out"
  using P_empty
  by (auto simp: run_process_def runSequentialWithPlan_def runSequentialSerial_def runHierarchical_def runStaged_def
      split: if_splits sum.splits prod.splits option.splits
      dest: serial_loop_inv runAsyncWaves_inv hierarchical_loop_inv runStages_inv)

lemma Kickoff_inv: "Kickoff en sch ssch running ctx inputs c rt = (rt', c', Inr out) \<Longrightarrow> P out"
  by (auto simp: Kickoff_def kickoff_run_def Let_def split: if_splits sum.splits prod.splits option.splits
      dest: run_process_inv)

end

section \<open>Consistent outputs\<close>

text \<open>The aggregated fields say what the task outputs say.\<close>

definition consistent_output :: "crewOutput \<Rightarrow> bool" where
  "consistent_output out \<longleftrightarrow>
     co_Facts out = dedupFacts [] (concat (map to_Facts (co_TasksOutput out)))
     \<and> co_Warnings out = concat (map to_Warnings (co_TasksOutput out))
     \<and> co_Final out = (if co_TasksOutput out = [] then [] else to_Output (last (co_TasksOutput out)))"

interpretation consistent: output_invariant consistent_output
  by unfold_locales (auto simp: consistent_output_def empty_output_def add_output_def dedupFacts_append)

lemma consistent_dedup: "consistent_output out \<Longrightarrow> dedup_wf (co_Facts out)"
  by (simp add: consistent_output_def dedupFacts_wf)

section \<open>Guardrails\<close>

lemma runCrewGuardrails_passed:
  "runCrewGuardrails ctx gs out rt = (rt', None) \<Longrightarrow> g \<in> set gs \<Longrightarrow> \<exists>w. snd (g ctx out w) = None"
proof (induction gs arbitrary: rt)
  case (Cons h gs)
  obtain w r where h: "h ctx out (rt_w rt) = (w, r)" by fastforce
  have r: "r = None" using Cons.prems(1) h by (cases r) (auto simp: outside_def Let_def)
  have hw: "\<exists>w. snd (h ctx out w) = None" using h r by (metis snd_conv)
  have rest: "runCrewGuardrails ctx gs out (rt\<lparr>rt_w := w\<rparr>) = (rt', None)"
    using Cons.prems(1) h r by (simp add: outside_def)
  show ?case using Cons.prems(2) hw Cons.IH [OF rest] by auto
qed simp

lemma runCrewGuardrails_blocked:
  "runCrewGuardrails ctx gs out rt = (rt', Some e) \<Longrightarrow> errors_is e ErrBlockedByGuardrail"
  by (induction gs arbitrary: rt)
    (auto simp: Let_def blocked_def split: prod.splits option.splits)

section \<open>Kickoff\<close>

text \<open>The crew after the defaulting of the process, and after the resolution of its memory.\<close>

definition kickoff_crew :: "'w crew \<Rightarrow> 'w crew" where
  "kickoff_crew c = (if cr_Process c = [] then c\<lparr>cr_Process := Sequential\<rparr> else c)"

lemma kickoff_resolve_frame:
  "kickoff_resolve en c rt = (rt', c') \<Longrightarrow> cr_Guardrails c' = cr_Guardrails c \<and> cr_Process c' = cr_Process c
     \<and> cr_Tasks c' = cr_Tasks c \<and> cr_Agents c' = cr_Agents c \<and> cr_Stages c' = cr_Stages c
     \<and> cr_AsyncFailFast c' = cr_AsyncFailFast c \<and> cr_AsyncMaxWorkers c' = cr_AsyncMaxWorkers c
     \<and> rt_tasks rt' = rt_tasks rt \<and> rt_agents rt' = rt_agents rt \<and> rt_next rt' = rt_next rt
     \<and> rt_failed rt' = Map.empty \<and> rt_memBuf rt' = [] \<and> \<not> rt_buffering rt'"
  by (auto simp: kickoff_resolve_def Let_def with_tracer_def discardMemoryBuffer_def outside_def split: if_splits prod.splits)

lemma Kickoff_Inr:
  assumes "Kickoff en sch ssch running ctx inputs c rt = (rt', c', Inr out)"
  obtains rt1 rt2 ctx2 where "kickoff_check (kickoff_crew c) = None"
    "kickoff_resolve en (kickoff_crew c) rt = (rt1, c')"
    "cr_Process c' = Staged \<or> (\<exists>plan. crew_plan c' rt1 = Inr plan)"
    "kickoff_ctx en c' ctx (kickoff_attach en inputs c' rt1) = (rt2, ctx2)"
    "kickoff_run en c' sch ssch ctx2 rt2 = (rt', Inr out)"
proof -
  obtain rt1 c1 where r: "kickoff_resolve en (kickoff_crew c) rt = (rt1, c1)" by fastforce
  obtain rt2 ctx2 where x: "kickoff_ctx en c1 ctx (kickoff_attach en inputs c1 rt1) = (rt2, ctx2)" by fastforce
  obtain rt3 res where k: "kickoff_run en c1 sch ssch ctx2 rt2 = (rt3, res)" by fastforce
  show ?thesis
    using assms r x k that
    by (auto simp: Kickoff_def kickoff_crew_def [symmetric] Let_def split: if_split_asm option.split_asm sum.split_asm)
qed

lemma kickoff_run_Inr:
  assumes "kickoff_run en c sch ssch ctx rt = (rt', Inr out)"
  obtains rt1 rt2 where "run_process en c sch ssch ctx (on_world (emitEvent ctx (event EventKickoffStarted)) rt) = (rt1, Inr out)"
    "runCrewGuardrails ctx (cr_Guardrails c) out rt1 = (rt2, None)"
    "rt' = on_world (emitEvent ctx (event EventKickoffCompleted)) rt2"
  using assms by (simp add: kickoff_run_def Let_def split: prod.split_asm sum.split_asm option.split_asm)

section \<open>Properties\<close>

text \<open>
  C17. The consolidated result of a run is consistent whatever the process, the inputs, the models
  and the schedule: the facts are the task facts in the order of the task outputs without
  duplicates, the warnings are the task warnings in that order, and the final answer is the output
  of the last task listed.
\<close>
theorem Kickoff_consistent:
  assumes "Kickoff en sch ssch running ctx inputs c rt = (rt', c', Inr out)"
  shows "co_Facts out = dedupFacts [] (concat (map to_Facts (co_TasksOutput out)))
    \<and> dedup_wf (co_Facts out)
    \<and> co_Warnings out = concat (map to_Warnings (co_TasksOutput out))
    \<and> co_Final out = (if co_TasksOutput out = [] then [] else to_Output (last (co_TasksOutput out)))"
proof -
  have "consistent_output out" by (rule consistent.Kickoff_inv [OF assms])
  then show ?thesis using consistent_dedup [of out] unfolding consistent_output_def by blast
qed

text \<open>
  C6. Nothing passes a guardrail that refuses it: when \<^verbatim>\<open>Kickoff\<close> returns an output, every
  guardrail of the crew was called on exactly that output, in one common context, and accepted it.
\<close>
theorem Kickoff_guarded:
  assumes "Kickoff en sch ssch running ctx inputs c rt = (rt', c', Inr out)"
  shows "\<exists>ctx'. \<forall>g\<in>set (cr_Guardrails c). \<exists>w. snd (g ctx' out w) = None"
proof -
  from assms obtain rt1 rt2 ctx2 where r: "kickoff_resolve en (kickoff_crew c) rt = (rt1, c')"
    and k: "kickoff_run en c' sch ssch ctx2 rt2 = (rt', Inr out)" by (rule Kickoff_Inr)
  from k obtain rt3 rt4 where "runCrewGuardrails ctx2 (cr_Guardrails c') out rt3 = (rt4, None)"
    by (rule kickoff_run_Inr)
  moreover have "cr_Guardrails c' = cr_Guardrails c"
    using kickoff_resolve_frame [OF r] by (simp add: kickoff_crew_def)
  ultimately show ?thesis using runCrewGuardrails_passed by metis
qed

text \<open>
  What \<^verbatim>\<open>Kickoff\<close> refuses before it touches anything but its own bookkeeping: a crew that is
  running, an unknown process, stages or tasks that are missing, and a task graph the planner
  refuses; agents and tasks keep their state in each case.
\<close>
theorem Kickoff_refuses:
  assumes "running \<or> kickoff_check (kickoff_crew c) = Some e0
    \<or> (cr_Process c \<noteq> Staged \<and> crew_plan c rt = Inl e1)"
  shows "\<exists>rt' c'. Kickoff en sch ssch running ctx inputs c rt = (rt', c', Inl
       (if running then Sentinel ErrCrewRunning
        else if \<not> process_valid (cr_Process (kickoff_crew c))
          then Plain (''crewai: invalid process '' @ go_quote (cr_Process c))
        else if cr_Process c = Staged then Sentinel ErrNoStages
        else if cr_Tasks c = [] then Sentinel ErrNoTasks
        else e1))
     \<and> rt_tasks rt' = rt_tasks rt \<and> rt_agents rt' = rt_agents rt"
proof (cases running)
  case True
  then show ?thesis by (simp add: Kickoff_def)
next
  case False
  have seq: "process_valid Sequential" "Sequential \<noteq> Staged" "Sequential \<noteq> []" "Staged \<noteq> []"
    by (simp_all add: process_valid_def Sequential_def Staged_def)
  show ?thesis
  proof (cases "kickoff_check (kickoff_crew c)")
    case (Some e)
    then show ?thesis using False seq
      by (auto simp: Kickoff_def kickoff_crew_def kickoff_check_def split: if_splits)
  next
    case None
    obtain rt1 c1 where r: "kickoff_resolve en (kickoff_crew c) rt = (rt1, c1)" by fastforce
    note fr = kickoff_resolve_frame [OF r]
    have "cr_Process c1 \<noteq> Staged" "crew_plan c1 rt1 = Inl e1"
      using assms False None fr seq by (auto simp: kickoff_crew_def crew_plan_def split: if_splits)
    moreover have "process_valid (cr_Process (kickoff_crew c))" "cr_Tasks c \<noteq> []" "cr_Process c \<noteq> Staged"
      using None assms False seq by (auto simp: kickoff_check_def kickoff_crew_def split: if_splits)
    ultimately show ?thesis using False None r fr
      by (simp add: Kickoff_def kickoff_crew_def [symmetric] Let_def)
  qed
qed

section \<open>Witnesses\<close>

text \<open>
  A run to evaluate: an environment that decodes nothing, an agent whose loop answers the number of
  the task, and a crew of two tasks, the second depending on the first.
\<close>

definition demo_env :: "'w env" where
  "demo_env = \<lparr>en_delegation = (\<lambda>_. Inl (Plain [])), en_object = (\<lambda>_. None), en_string = (\<lambda>_. None),
     en_json = (\<lambda>_. None), en_schema = (\<lambda>_ _. None), en_canonical = Inr, en_evaluation = (\<lambda>_. Inr (Some 90, [])),
     en_now = (\<lambda>_. 0), en_kickoffID = (\<lambda>w. (w, ''k1'')), en_resolve = (\<lambda>p _ _. Inr p), en_writeFile = (\<lambda>_ _ w. (w, None)),
     en_range = (\<lambda>xs. xs), en_newMemory = (\<lambda>w. (w, \<lparr>st_Put = (\<lambda>_ e w. (w, Inr e)), st_Query = (\<lambda>_ _ w. (w, Inr []))\<rparr>))\<rparr>"

definition demo_llm :: "string \<Rightarrow> 'w llm" where
  "demo_llm answer = \<lparr>llm_Model = [], llm_Call = (\<lambda>_ _ w. (w, Inr answer)), llm_CallWithTools = None, llm_CallStream = None\<rparr>"

definition demo_agent :: "'w agent" where
  "demo_agent = (NewAgent ''analyst'' [] [] (Some (demo_llm [])))
     \<lparr>ag_Loop := Some (OtherLoop (\<lambda>ctx i t c w. (w, (''answer '' @ itoa t, [], None))))\<rparr>"

definition demo_rt :: "'w \<Rightarrow> 'w rt" where
  "demo_rt w = (new_rt w)\<lparr>rt_agents := (\<lambda>_. demo_agent),
     rt_tasks := (\<lambda>t. (NewTask [] [] None)\<lparr>tk_Context := (if t = 2 then [1] else [])\<rparr>)\<rparr>"

definition demo_crew :: "'w crew" where
  "demo_crew = NewCrew [0] [1, 2]"

definition demo_guardrail :: "'w guardrail" where
  "demo_guardrail ctx out w = (w, if co_Final out = ''answer 2'' then None else Some (Plain ''no''))"

definition demo_sched :: scheduler where
  "demo_sched idxs = \<lparr>gs_order = [], gs_giveUp = (\<lambda>_. False)\<rparr>"

definition demo_ssched :: "nat \<Rightarrow> groupSched" where
  "demo_ssched si = \<lparr>gs_order = [], gs_giveUp = (\<lambda>_. False)\<rparr>"

definition demo_kickoff :: "unit crew \<Rightarrow> err + crewOutput" where
  "demo_kickoff c = snd (snd (Kickoff demo_env demo_sched demo_ssched False background [] c (demo_rt ())))"

lemma demo_kickoff_run:
  "(case demo_kickoff (demo_crew\<lparr>cr_Guardrails := [demo_guardrail]\<rparr>) of
      Inl e \<Rightarrow> False
    | Inr out \<Rightarrow> map to_Output (co_TasksOutput out) = [''answer 1'', ''answer 2''] \<and> co_Final out = ''answer 2'')"
  by code_simp

lemma demo_kickoff_returns:
  obtains rt' c' out where "Kickoff demo_env demo_sched demo_ssched False background []
      (demo_crew\<lparr>cr_Guardrails := [demo_guardrail]\<rparr>) (demo_rt ()) = (rt', c', Inr out)" "co_Final out = ''answer 2''"
proof -
  obtain rt' c' r where k: "Kickoff demo_env demo_sched demo_ssched False background []
      (demo_crew\<lparr>cr_Guardrails := [demo_guardrail]\<rparr>) (demo_rt ()) = (rt', c', r)"
    using prod_cases3 by blast
  then show ?thesis using demo_kickoff_run that by (cases r) (simp_all add: demo_kickoff_def)
qed

lemma Kickoff_consistent_witness:
  "\<exists>rt' c' out. Kickoff demo_env demo_sched demo_ssched False background []
      (demo_crew\<lparr>cr_Guardrails := [demo_guardrail]\<rparr>) (demo_rt ()) = (rt', c', Inr out)
    \<and> to_Output (last (co_TasksOutput out)) = ''answer 2'' \<and> dedup_wf (co_Facts out)"
proof -
  obtain rt' c' out where k: "Kickoff demo_env demo_sched demo_ssched False background []
      (demo_crew\<lparr>cr_Guardrails := [demo_guardrail]\<rparr>) (demo_rt ()) = (rt', c', Inr out)"
    and f: "co_Final out = ''answer 2''" by (rule demo_kickoff_returns)
  have "to_Output (last (co_TasksOutput out)) = ''answer 2'' \<and> dedup_wf (co_Facts out)"
    using Kickoff_consistent [OF k] f by (metis list.distinct(1))
  with k show ?thesis by blast
qed

lemma Kickoff_guarded_witness:
  "\<exists>out. (\<exists>w. snd (demo_guardrail background out w) = (None :: err option)) \<and> co_Final out = ''answer 2''"
proof -
  obtain rt' c' out where k: "Kickoff demo_env demo_sched demo_ssched False background []
      (demo_crew\<lparr>cr_Guardrails := [demo_guardrail]\<rparr>) (demo_rt ()) = (rt', c', Inr out)"
    and f: "co_Final out = ''answer 2''" by (rule demo_kickoff_returns)
  show ?thesis using Kickoff_guarded [OF k] f by (auto simp: demo_guardrail_def)
qed

lemma Kickoff_refuses_witness:
  "\<exists>rt' c'. Kickoff demo_env demo_sched demo_ssched False background [] (NewCrew [0] []) (demo_rt ())
     = (rt', c', Inl (Sentinel ErrNoTasks)) \<and> rt_tasks rt' = rt_tasks (demo_rt ())"
proof -
  have v: "process_valid Sequential" "Sequential \<noteq> Staged" "Sequential \<noteq> []"
    by (simp_all add: process_valid_def Sequential_def Staged_def)
  have "kickoff_check (kickoff_crew (NewCrew [0] [])) = Some (Sentinel ErrNoTasks)"
    using v by (simp add: kickoff_check_def kickoff_crew_def NewCrew_def)
  with Kickoff_refuses [of False "NewCrew [0] []" "Sentinel ErrNoTasks" "demo_rt ()" undefined demo_env demo_sched
      demo_ssched background "[]"] v
  show ?thesis by (fastforce simp: kickoff_crew_def NewCrew_def)
qed

end
