(* ===== verification/Tracing.thy ===== *)
theory Tracing
  imports TaskRun
begin

text \<open>
  The rest of \<^verbatim>\<open>trace.go\<close>, and what a trace may tell: without bodies a record is metadata, with bodies its
  texts went through redaction. Every operation of the recorder keeps that.
\<close>

section \<open>Reading and saving\<close>

definition WithTracer :: "traceRecorder option \<Rightarrow> 'w rt \<Rightarrow> 'w rt" where
  "WithTracer r rt = rt\<lparr>rt_tracer := r\<rparr>"

definition Records :: "traceRecorder option \<Rightarrow> taskTraceRecord list" where
  "Records r = (case r of None \<Rightarrow> [] | Some r \<Rightarrow> rec_records r)"

text \<open>\<open>json.Marshal\<close> of a record and the write of a file are arguments.\<close>

fun trace_lines :: "(taskTraceRecord \<Rightarrow> err + string) \<Rightarrow> taskTraceRecord list \<Rightarrow> string \<Rightarrow> err + string" where
  "trace_lines marshal [] buf = Inr buf"
| "trace_lines marshal (rec # recs) buf =
     (case marshal rec of
        Inl e \<Rightarrow> Inl (wrapf ''crewai: trace marshal: '' e)
      | Inr line \<Rightarrow> trace_lines marshal recs (buf @ line @ [CHR 0x0A]))"

definition trace_Save ::
  "(taskTraceRecord \<Rightarrow> err + string) \<Rightarrow> (string \<Rightarrow> string \<Rightarrow> 'w \<Rightarrow> 'w \<times> err option) \<Rightarrow> string \<Rightarrow> traceRecorder option \<Rightarrow> 'w \<Rightarrow> 'w \<times> err option" where
  "trace_Save marshal writeFile path r w =
     (case r of
        None \<Rightarrow> (w, Some (Plain ''crewai: nil TraceRecorder''))
      | Some _ \<Rightarrow>
          (case trace_lines marshal (Records r) [] of
             Inl e \<Rightarrow> (w, Some e)
           | Inr buf \<Rightarrow>
               (case writeFile path buf w of
                  (w, Some e) \<Rightarrow> (w, Some (wrapf ''crewai: TraceRecorder.Save: '' e))
                | (w, None) \<Rightarrow> (w, None))))"

text \<open>A saved trace has one line per published record, in the order of publication.\<close>

lemma trace_lines_all:
  "\<forall>rec\<in>set recs. marshal rec = Inr (text_of rec) \<Longrightarrow>
   trace_lines marshal recs buf = Inr (buf @ concat (map (\<lambda>rec. text_of rec @ [CHR 0x0A]) recs))"
  by (induction recs arbitrary: buf) auto

lemma trace_Save_lines:
  assumes "\<forall>rec\<in>set (rec_records r). marshal rec = Inr (text_of rec) \<and> CHR 0x0A \<notin> set (text_of rec)"
    and "\<And>d w'. snd (writeFile path d w') = None"
  shows "trace_Save marshal writeFile path (Some r) w = (fst (writeFile path (concat (map (\<lambda>rec. text_of rec @ [CHR 0x0A]) (rec_records r))) w), None)
    \<and> split_on CHR 0x0A (concat (map (\<lambda>rec. text_of rec @ [CHR 0x0A]) (rec_records r))) = map text_of (rec_records r) @ [[]]"
proof -
  have "split_on CHR 0x0A (concat (map (\<lambda>rec. text_of rec @ [CHR 0x0A]) recs)) = map text_of recs @ [[]]"
    if "\<forall>rec\<in>set recs. CHR 0x0A \<notin> set (text_of rec)" for recs
    using that by (induction recs) (simp_all add: split_on_append)
  then show ?thesis
    using assms(1) assms(2) [of "concat (map (\<lambda>rec. text_of rec @ [CHR 0x0A]) (rec_records r))" w]
      trace_lines_all [of "rec_records r" marshal text_of "[]"]
    by (auto simp: trace_Save_def Records_def split: prod.split option.split)
qed

text \<open>One record that does not encode keeps every other from being saved.\<close>

lemma trace_Save_all_or_nothing:
  assumes "rec \<in> set (rec_records r)" "marshal rec = Inl e"
  shows "fst (trace_Save marshal writeFile path (Some r) w) = w \<and> snd (trace_Save marshal writeFile path (Some r) w) \<noteq> None"
proof -
  have "\<exists>e. trace_lines marshal recs buf = Inl e" if "rec \<in> set recs" for recs buf
    using that assms(2) by (induction recs arbitrary: buf) (auto split: sum.split)
  then obtain e' where "trace_lines marshal (rec_records r) [] = Inl e'" using assms(1) by blast
  then show ?thesis by (simp add: trace_Save_def Records_def)
qed

section \<open>Discretion\<close>

definition redacted :: "string \<Rightarrow> bool" where
  "redacted s = (s = [] \<or> (\<exists>raw. s = redactString raw))"

definition metadata_only :: "taskTraceRecord \<Rightarrow> bool" where
  "metadata_only rec = (rc_Prompt rec = None \<and> rc_Output rec = []
     \<and> list_all (\<lambda>f. Claim f = []) (rc_Facts rec)
     \<and> list_all (\<lambda>t. tt_Args t = [] \<and> tt_Output t = []) (rc_Tools rec))"

definition masked :: "taskTraceRecord \<Rightarrow> bool" where
  "masked rec = (redacted (rc_Output rec)
     \<and> (case rc_Prompt rec of None \<Rightarrow> True | Some p \<Rightarrow> redacted (ps_Description p) \<and> redacted (ps_Context p))
     \<and> list_all (\<lambda>f. redacted (Claim f) \<and> redacted (SourceOrg f) \<and> redacted (SourceURL f)) (rc_Facts rec)
     \<and> list_all (\<lambda>t. redacted (tt_Args t) \<and> redacted (tt_Output t)) (rc_Tools rec))"

definition discreet :: "bool \<Rightarrow> taskTraceRecord \<Rightarrow> bool" where
  "discreet bodies rec = (redacted (rc_Err rec) \<and> (if bodies then masked rec else metadata_only rec))"

definition tracer_ok :: "traceRecorder option \<Rightarrow> bool" where
  "tracer_ok r = (case r of None \<Rightarrow> True
     | Some r \<Rightarrow> \<forall>rec\<in>ran (rec_pending r) \<union> set (rec_records r). discreet (rec_bodies r) rec)"

text \<open>What a run may do to the recorder: the mode stays, and so does discretion.\<close>

definition tracer_step :: "traceRecorder option \<Rightarrow> traceRecorder option \<Rightarrow> bool" where
  "tracer_step r r' = (map_option rec_bodies r' = map_option rec_bodies r \<and> (tracer_ok r \<longrightarrow> tracer_ok r'))"

lemma tracer_step_refl [simp]: "tracer_step r r"
  by (simp add: tracer_step_def)

lemma tracer_step_trans: "tracer_step a b \<Longrightarrow> tracer_step b c \<Longrightarrow> tracer_step a c"
  by (simp add: tracer_step_def)

lemma redacted_intros [simp, intro]: "redacted []" "redacted (redactString s)"
  by (auto simp: redacted_def)

lemma ran_update: "rec \<in> ran (m(t \<mapsto> x)) \<Longrightarrow> rec = x \<or> rec \<in> ran m"
  by (auto simp: ran_def split: if_splits)

lemma ran_delete: "rec \<in> ran (m(t := None)) \<Longrightarrow> rec \<in> ran m"
  by (auto simp: ran_def split: if_splits)

lemma tracer_step_Reset: "tracer_step r (map_option trace_Reset r)"
  by (cases r) (simp_all add: tracer_step_def tracer_ok_def trace_Reset_def)

lemma tracer_step_capture: "tracer_step r (map_option (trace_capture ctx t task agent context output facts e) r)"
proof (cases r)
  case (Some r0)
  let ?r = "trace_capture ctx t task agent context output facts e r0"
  obtain rec where cap: "rec_pending ?r = (rec_pending r0)(t \<mapsto> rec)" "rec_records ?r = rec_records r0" "rec_bodies ?r = rec_bodies r0"
    and rec: "discreet (rec_bodies r0) rec"
    by (simp add: trace_capture_def Let_def discreet_def masked_def metadata_only_def bodyFacts_def bodyTools_def metadataFacts_def
        metadataTools_def list_all_iff split: option.split)
  then have "tracer_ok (Some r0) \<longrightarrow> tracer_ok (Some ?r)" by (auto simp: tracer_ok_def dest: ran_update)
  then show ?thesis using Some cap(3) by (simp add: tracer_step_def)
qed simp

lemma tracer_step_publish: "tracer_step r (map_option (trace_publish t) r)"
proof (cases r)
  case (Some r0)
  have "rec_bodies (trace_publish t r0) = rec_bodies r0" by (simp add: trace_publish_def Let_def split: option.split)
  moreover have "tracer_ok (Some r0) \<Longrightarrow> tracer_ok (Some (trace_publish t r0))"
    by (auto simp: tracer_ok_def trace_publish_def Let_def ranI dest!: ran_delete split: option.split)
  ultimately show ?thesis using Some by (simp add: tracer_step_def)
qed simp

lemma NewTraceRecorder_ok: "tracer_ok (Some (NewTraceRecorder [WithTraceBodies b, WithTraceFilter f]))"
  by (simp add: NewTraceRecorder_def WithTraceBodies_def WithTraceFilter_def tracer_ok_def)

text \<open>Without bodies the sources of facts are kept as they are, although with bodies they are redacted.\<close>

lemma metadata_sources_unredacted: "map SourceURL (metadataFacts fs) = map SourceURL fs"
  by (simp add: metadataFacts_def)

end
