(* ===== verification/Frame.thy ===== *)
theory Frame
  imports Tracing
begin

text \<open>
  What the execution of a task leaves alone. Executors, tools, loops and delegated work change the
  outside state, the outputs, traces and warnings of tasks, and allocate sub-tasks; they never
  change an agent, the configuration of an allocated task, the set of failed tasks or the buffering
  mode, touch the buffer only while a group is open, and keep the trace discreet. Each lemma carries a frame \<open>framed r0\<close> over one operation, so that the rules compose along
  the code.
\<close>

section \<open>The frame\<close>

text \<open>Same task up to what a run records in it.\<close>

definition same_config :: "'w task \<Rightarrow> 'w task \<Rightarrow> bool" where
  "same_config k k' \<longleftrightarrow>
     k' = k\<lparr>tk_output := tk_output k', tk_done := tk_done k', tk_toolTraces := tk_toolTraces k', tk_warnings := tk_warnings k'\<rparr>"

definition framed :: "'w rt \<Rightarrow> 'w rt \<Rightarrow> bool" where
  "framed rt rt' \<longleftrightarrow> rt_agents rt' = rt_agents rt \<and> rt_failed rt' = rt_failed rt
     \<and> rt_buffering rt' = rt_buffering rt \<and> (\<not> rt_buffering rt \<longrightarrow> rt_memBuf rt' = rt_memBuf rt)
     \<and> tracer_step (rt_tracer rt) (rt_tracer rt') \<and> rt_next rt \<le> rt_next rt'
     \<and> (\<forall>t < rt_next rt. same_config (rt_tasks rt t) (rt_tasks rt' t))"

named_theorems framed_rules

lemma same_config_refl [simp]: "same_config k k"
  by (simp add: same_config_def)

lemma same_config_trans: "same_config a b \<Longrightarrow> same_config b c \<Longrightarrow> same_config a c"
  unfolding same_config_def by (cases a; cases b; cases c) simp

lemma same_configD:
  assumes "same_config k k'"
  shows "tk_Name k' = tk_Name k" "tk_Context k' = tk_Context k" "tk_Async k' = tk_Async k" "tk_Agent k' = tk_Agent k"
    "tk_Description k' = tk_Description k" "tk_ExpectedOutput k' = tk_ExpectedOutput k" "tk_Guardrail k' = tk_Guardrail k"
    "tk_OutputFile k' = tk_OutputFile k" "tk_Structured k' = tk_Structured k" "taskLabel k' = taskLabel k"
proof -
  have k': "k' = k\<lparr>tk_output := tk_output k', tk_done := tk_done k', tk_toolTraces := tk_toolTraces k',
    tk_warnings := tk_warnings k'\<rparr>" using assms by (simp add: same_config_def)
  show "tk_Name k' = tk_Name k" "tk_Context k' = tk_Context k" "tk_Async k' = tk_Async k" "tk_Agent k' = tk_Agent k"
    "tk_Description k' = tk_Description k" "tk_ExpectedOutput k' = tk_ExpectedOutput k" "tk_Guardrail k' = tk_Guardrail k"
    "tk_OutputFile k' = tk_OutputFile k" "tk_Structured k' = tk_Structured k"
    by (subst k', simp)+
  then show "taskLabel k' = taskLabel k" by (simp add: taskLabel_def fun_eq_iff)
qed

lemma framed_refl [simp]: "framed rt rt"
  by (simp add: framed_def)

lemma framed_trans: "framed a b \<Longrightarrow> framed b c \<Longrightarrow> framed a c"
  unfolding framed_def by (auto intro: same_config_trans tracer_step_trans)

section \<open>Control flow\<close>

lemma framed_prod [framed_rules]:
  fixes p :: "'w rt \<times> 'a"
  shows "framed r (fst p) \<Longrightarrow> (\<And>rt x. framed r rt \<Longrightarrow> framed r (fst (f rt x))) \<Longrightarrow> framed r (fst (case p of (rt, x) \<Rightarrow> f rt x))"
  by (cases p) simp

lemma framed_leaf [framed_rules]: "framed r rt \<Longrightarrow> framed r (fst (rt, x))"
  by simp

lemma framed_pair [framed_rules]:
  "(\<And>a b. framed r (fst (f a b))) \<Longrightarrow> framed r (fst (case q of (a, b) \<Rightarrow> f a b))"
  by (cases q) simp

lemma framed_sum [framed_rules]:
  "(\<And>a. framed r (fst (f a))) \<Longrightarrow> (\<And>b. framed r (fst (g b))) \<Longrightarrow> framed r (fst (case s of Inl a \<Rightarrow> f a | Inr b \<Rightarrow> g b))"
  by (cases s) simp_all

lemma framed_option [framed_rules]:
  "framed r (fst f) \<Longrightarrow> (\<And>b. framed r (fst (g b))) \<Longrightarrow> framed r (fst (case s of None \<Rightarrow> f | Some b \<Rightarrow> g b))"
  by (cases s) simp_all

lemma framed_list [framed_rules]:
  "framed r (fst f) \<Longrightarrow> (\<And>b bs. framed r (fst (g b bs))) \<Longrightarrow> framed r (fst (case s of [] \<Rightarrow> f | b # bs \<Rightarrow> g b bs))"
  by (cases s) simp_all

lemma framed_nat [framed_rules]:
  "framed r (fst f) \<Longrightarrow> (\<And>b. framed r (fst (g b))) \<Longrightarrow> framed r (fst (case n of 0 \<Rightarrow> f | Suc b \<Rightarrow> g b))"
  by (cases n) simp_all

lemma framed_if [framed_rules]:
  "framed r (fst f) \<Longrightarrow> framed r (fst g) \<Longrightarrow> framed r (fst (if b then f else g))"
  by simp

lemma framed_if_rt [framed_rules]: "framed r f \<Longrightarrow> framed r g \<Longrightarrow> framed r (if b then f else g)"
  by simp

lemma framed_option_rt [framed_rules]:
  "framed r f \<Longrightarrow> (\<And>b. framed r (g b)) \<Longrightarrow> framed r (case s of None \<Rightarrow> f | Some b \<Rightarrow> g b)"
  by (cases s) simp_all

lemma framed_prod_rt [framed_rules]:
  fixes p :: "'w rt \<times> 'a"
  shows "framed r (fst p) \<Longrightarrow> (\<And>rt x. framed r rt \<Longrightarrow> framed r (f rt x)) \<Longrightarrow> framed r (case p of (rt, x) \<Rightarrow> f rt x)"
  by (cases p) simp

lemma framed_pair_rt [framed_rules]: "(\<And>a b. framed r (f a b)) \<Longrightarrow> framed r (case q of (a, b) \<Rightarrow> f a b)"
  by (cases q) simp

lemma framed_sum_rt [framed_rules]:
  "(\<And>a. framed r (f a)) \<Longrightarrow> (\<And>b. framed r (g b)) \<Longrightarrow> framed r (case s of Inl a \<Rightarrow> f a | Inr b \<Rightarrow> g b)"
  by (cases s) simp_all

section \<open>Primitive operations\<close>

lemma framed_outside [framed_rules]: "framed r rt \<Longrightarrow> framed r (fst (outside f rt))"
  by (auto simp: framed_def outside_def split: prod.split)

lemma framed_on_world [framed_rules]: "framed r rt \<Longrightarrow> framed r (on_world f rt)"
  by (simp add: framed_def)

lemma framed_set_task:
  "(\<And>k. same_config k (f k)) \<Longrightarrow> framed r rt \<Longrightarrow> framed r (set_task t f rt)"
  unfolding framed_def by (auto simp: set_task_def intro: same_config_trans)

lemma framed_AddWarning [framed_rules]: "framed r rt \<Longrightarrow> framed r (AddWarning t m rt)"
  unfolding AddWarning_def by (rule framed_set_task) (auto simp: add_warning_def same_config_def)

lemma framed_AddWarningFromCtx [framed_rules]: "framed r rt \<Longrightarrow> framed r (AddWarningFromCtx ctx m rt)"
  unfolding AddWarningFromCtx_def by (rule framed_rules | assumption)+

lemma framed_setToolTraces [framed_rules]: "framed r rt \<Longrightarrow> framed r (setToolTraces t ts rt)"
  unfolding setToolTraces_def by (rule framed_set_task) (auto simp: same_config_def)

lemma framed_new_task [framed_rules]: "framed r rt \<Longrightarrow> framed r (fst (new_task k rt))"
  by (auto simp: new_task_def framed_def)

lemma framed_with_tracer: "tracer_step (rt_tracer rt) (map_option f (rt_tracer rt)) \<Longrightarrow> framed r rt \<Longrightarrow> framed r (with_tracer f rt)"
  by (auto simp: with_tracer_def framed_def intro: tracer_step_trans)

lemmas framed_trace_capture [framed_rules] = framed_with_tracer [OF tracer_step_capture]

lemma framed_stash: "framed r rt \<Longrightarrow> rt_buffering rt \<Longrightarrow> framed r (stashMemoryBuffer t e rt)"
  by (simp add: stashMemoryBuffer_def framed_def)

lemma framed_fold: "(\<And>x rt. framed r rt \<Longrightarrow> framed r (f x rt)) \<Longrightarrow> framed r rt \<Longrightarrow> framed r (fold f xs rt)"
  by (induction xs arbitrary: rt) auto

section \<open>Model calls and tools\<close>

definition call_framed :: "'w toolCaller \<Rightarrow> bool" where
  "call_framed call \<longleftrightarrow> (\<forall>r ctx tool input rt. framed r rt \<longrightarrow> framed r (fst (call ctx tool input rt)))"

lemma call_framedD: "call_framed call \<Longrightarrow> framed r rt \<Longrightarrow> framed r (fst (call ctx tool input rt))"
  by (simp add: call_framed_def)

lemma framed_completed [framed_rules]: "framed r rt \<Longrightarrow> framed r (fst (completed ctx ev x rt))"
  unfolding completed_def by (rule framed_rules | assumption)+

lemma framed_callLLMTextEvent [framed_rules]: "framed r rt \<Longrightarrow> framed r (fst (callLLMTextEvent ctx a t ms i rt))"
  unfolding callLLMTextEvent_def Let_def by (rule framed_rules | assumption)+

lemma framed_callLLMPlainEvent [framed_rules]: "framed r rt \<Longrightarrow> framed r (fst (callLLMPlainEvent ctx a t ms i rt))"
  unfolding callLLMPlainEvent_def Let_def by (rule framed_rules | assumption)+

lemma framed_run_tool [framed_rules]:
  "call_framed call \<Longrightarrow> framed r rt \<Longrightarrow> framed r (fst (run_tool call ctx tool name input facts rt))"
  unfolding run_tool_def by (rule framed_rules call_framedD | assumption)+

lemma framed_tool_invoked [framed_rules]: "framed r rt \<Longrightarrow> framed r (tool_invoked ctx a name rt)"
  unfolding tool_invoked_def by (rule framed_rules | assumption)+

lemma framed_react_observe [framed_rules]:
  "call_framed call \<Longrightarrow> framed r rt \<Longrightarrow> framed r (fst (react_observe call ctx a tools action input facts rt))"
  unfolding react_observe_def by (rule framed_rules | assumption)+

lemma framed_react_loop [framed_rules]:
  "call_framed call \<Longrightarrow> framed r rt \<Longrightarrow> framed r (fst (react_loop call ctx a t tools n i ms facts rt))"
proof (induction n arbitrary: i ms facts rt)
  case (Suc n)
  show ?case unfolding react_loop.simps Let_def by (rule framed_rules Suc | assumption)+
qed simp

lemma framed_native_call [framed_rules]:
  "call_framed call \<Longrightarrow> framed r rt \<Longrightarrow> framed r (fst (native_call call ctx a tools tc facts rt))"
  unfolding native_call_def Let_def by (rule framed_rules | assumption)+

lemma framed_native_calls [framed_rules]:
  "call_framed call \<Longrightarrow> framed r rt \<Longrightarrow> framed r (fst (native_calls call ctx a tools tcs ms traces facts rt))"
proof (induction tcs arbitrary: ms traces facts rt)
  case (Cons tc tcs)
  show ?case unfolding native_calls.simps Let_def by (rule framed_rules Cons | assumption)+
qed simp

lemma framed_native_loop [framed_rules]:
  "call_framed call \<Longrightarrow> framed r rt \<Longrightarrow> framed r (fst (native_loop call ctx a tools tcll n ms traces facts rt))"
proof (induction n arbitrary: ms traces facts rt)
  case (Suc n)
  show ?case unfolding native_loop.simps Let_def by (rule framed_rules Suc | assumption)+
qed simp

lemma framed_executeTaskWithTools [framed_rules]:
  "call_framed call \<Longrightarrow> framed r rt \<Longrightarrow> framed r (fst (executeTaskWithTools call ctx a t c rt))"
  unfolding executeTaskWithTools_def Let_def by (rule framed_rules | assumption)+

section \<open>Structured output and loops\<close>

lemma framed_gather_observe [framed_rules]:
  "call_framed call \<Longrightarrow> framed r rt \<Longrightarrow> framed r (fst (gather_observe call ctx tools name input steps facts rt))"
  unfolding gather_observe_def by (rule framed_rules | assumption)+

lemma framed_gatherReact_loop [framed_rules]:
  "call_framed call \<Longrightarrow> framed r rt \<Longrightarrow> framed r (fst (gatherReact_loop call ctx a m tools n ms steps facts rt))"
proof (induction n arbitrary: ms steps facts rt)
  case (Suc n)
  show ?case unfolding gatherReact_loop.simps Let_def by (rule framed_rules Suc | assumption)+
qed simp

lemma framed_gatherNative_calls [framed_rules]:
  "call_framed call \<Longrightarrow> framed r rt \<Longrightarrow> framed r (fst (gatherNative_calls call ctx tools tcs ms steps facts rt))"
proof (induction tcs arbitrary: ms steps facts rt)
  case (Cons tc tcs)
  show ?case unfolding gatherNative_calls.simps Let_def by (rule framed_rules Cons | assumption)+
qed simp

lemma framed_gatherNative_loop [framed_rules]:
  "call_framed call \<Longrightarrow> framed r rt \<Longrightarrow> framed r (fst (gatherNative_loop call ctx a tcll tools n ms steps facts rt))"
proof (induction n arbitrary: ms steps facts rt)
  case (Suc n)
  show ?case unfolding gatherNative_loop.simps Let_def by (rule framed_rules Suc | assumption)+
qed simp

lemma framed_gatherReact [framed_rules]:
  "call_framed call \<Longrightarrow> framed r rt \<Longrightarrow> framed r (fst (gatherReact call ctx a t c tools rt))"
  unfolding gatherReact_def by (rule framed_rules | assumption)+

lemma framed_gatherNative [framed_rules]:
  "call_framed call \<Longrightarrow> framed r rt \<Longrightarrow> framed r (fst (gatherNative call ctx a t c tools rt))"
  unfolding gatherNative_def by (rule framed_rules | assumption)+

lemma framed_gatherForStructured [framed_rules]:
  "call_framed call \<Longrightarrow> framed r rt \<Longrightarrow> framed r (fst (gatherForStructured call ctx a t c rt))"
  unfolding gatherForStructured_def Let_def by (rule framed_rules | assumption)+

lemma framed_repair_event [framed_rules]:
  "framed r rt \<Longrightarrow> framed r (repair_event ctx a t n attrs rt)"
  unfolding repair_event_def by (rule framed_rules | assumption)+

lemma framed_json_attempt [framed_rules]:
  "framed r rt \<Longrightarrow> framed r (fst (json_attempt en ctx a t schema n ms rt))"
  unfolding json_attempt_def by (rule framed_rules | assumption)+

lemma framed_json_loop [framed_rules]: "framed r rt \<Longrightarrow> framed r (fst (json_loop en ctx a t schema left n ms rt))"
proof (induction left arbitrary: n ms rt)
  case 0
  show ?case by (subst json_loop.simps, unfold nat.case) (rule framed_rules 0 | assumption)+
next
  case (Suc left)
  show ?case by (subst json_loop.simps, unfold nat.case) (rule framed_rules Suc | assumption)+
qed

lemma framed_executeStructuredJSON [framed_rules]:
  "framed r rt \<Longrightarrow> framed r (fst (executeStructuredJSON en ctx a t c schema m rt))"
  unfolding executeStructuredJSON_def by (rule framed_rules | assumption)+

lemma framed_toolcall_attempt [framed_rules]:
  "framed r rt \<Longrightarrow> framed r (fst (toolcall_attempt en ctx a tcll t schema n ms rt))"
  unfolding toolcall_attempt_def Let_def by (rule framed_rules | assumption)+

lemma framed_toolcall_loop [framed_rules]: "framed r rt \<Longrightarrow> framed r (fst (toolcall_loop en ctx a tcll t schema left n ms rt))"
proof (induction left arbitrary: n ms rt)
  case 0
  show ?case by (subst toolcall_loop.simps, unfold nat.case) (rule framed_rules 0 | assumption)+
next
  case (Suc left)
  show ?case by (subst toolcall_loop.simps, unfold nat.case) (rule framed_rules Suc | assumption)+
qed

lemma framed_executeStructuredToolCall [framed_rules]:
  "framed r rt \<Longrightarrow> framed r (fst (executeStructuredToolCall en ctx a t c schema m rt))"
  unfolding executeStructuredToolCall_def by (rule framed_rules | assumption)+

lemma framed_capture [framed_rules]: "framed r rt \<Longrightarrow> framed r (fst (capture en ctx a t s c facts rt))"
  unfolding capture_def Let_def if_distribR by (rule framed_rules | assumption)+

lemma framed_executeStructured [framed_rules]:
  "call_framed call \<Longrightarrow> framed r rt \<Longrightarrow> framed r (fst (executeStructured en call ctx a t s c rt))"
  unfolding executeStructured_def Let_def by (rule framed_rules | assumption)+

lemma framed_executeTaskDefault [framed_rules]:
  "call_framed call \<Longrightarrow> framed r rt \<Longrightarrow> framed r (fst (executeTaskDefault en call ctx a t c rt))"
  unfolding executeTaskDefault_def Let_def by (rule framed_rules | assumption)+

lemma framed_loop_evaluate [framed_rules]:
  "framed r rt \<Longrightarrow> framed r (fst (loop_evaluate en ctx l a t out rt))"
  unfolding loop_evaluate_def Let_def by (rule framed_rules | assumption)+

lemma framed_loop_plan [framed_rules]:
  "framed r rt \<Longrightarrow> framed r (fst (loop_plan ctx a t c rt))"
  unfolding loop_plan_def by (rule framed_rules | assumption)+

lemma framed_loop_rewrite [framed_rules]:
  "framed r rt \<Longrightarrow> framed r (fst (loop_rewrite ctx a t prev ref rt))"
  unfolding loop_rewrite_def by (rule framed_rules | assumption)+

lemma framed_loop_phase [framed_rules]:
  "framed r rt \<Longrightarrow> framed r (loop_phase ctx a t ph i rt)"
  unfolding loop_phase_def by (rule framed_rules | assumption)+

lemma framed_refine_rounds:
  assumes exec: "\<And>r c rt. framed r rt \<Longrightarrow> framed r (fst (exec c rt))"
  shows "framed r rt \<Longrightarrow> framed r (fst (refine_rounds en ctx exec l a t left rnd c out facts rt))"
proof (induction left arbitrary: rnd c out facts rt)
  case 0
  show ?case by (subst refine_rounds.simps, unfold nat.case) (rule framed_rules exec 0 | assumption)+
next
  case (Suc left)
  show ?case by (subst refine_rounds.simps, unfold nat.case Let_def) (rule framed_rules exec Suc | assumption)+
qed

lemma framed_agenticLoop_Run [framed_rules]:
  assumes "call_framed call"
  shows "framed r rt \<Longrightarrow> framed r (fst (agenticLoop_Run en call ctx l a t c rt))"
  unfolding agenticLoop_Run_def Let_def
  by (rule framed_refine_rounds framed_rules assms | assumption)+

lemma framed_loop_Run [framed_rules]:
  "call_framed call \<Longrightarrow> framed r rt \<Longrightarrow> framed r (fst (loop_Run en call ctx l i a t c rt))"
  by (cases l) (simp_all add: loop_Run_def framed_agenticLoop_Run framed_outside)

lemma framed_executeTask [framed_rules]:
  "call_framed call \<Longrightarrow> framed r rt \<Longrightarrow> framed r (fst (executeTask en call ctx i t c rt))"
  unfolding executeTask_def Let_def by (rule framed_rules | assumption)+

section \<open>Built-in tools\<close>

lemma framed_maybeEmbedEntry [framed_rules]:
  "framed r rt \<Longrightarrow> framed r (fst (maybeEmbedEntry c ctx e t p rt))"
  unfolding maybeEmbedEntry_def by (rule framed_rules | assumption)+

lemma framed_recall_embed [framed_rules]:
  "framed r rt \<Longrightarrow> framed r (fst (recall_embed c ctx q mq rt))"
  unfolding recall_embed_def by (rule framed_rules | assumption)+

lemma framed_recallMemory [framed_rules]:
  "framed r rt \<Longrightarrow> framed r (fst (recallMemory c ctx q rt))"
  unfolding recallMemory_def Let_def by (rule framed_rules | assumption)+

lemma framed_rememberMemory [framed_rules]:
  "framed r rt \<Longrightarrow> framed r (fst (rememberMemory en c ctx q rt))"
  unfolding rememberMemory_def Let_def by (rule framed_rules | assumption)+

lemma framed_recallTool_Call [framed_rules]:
  "framed r rt \<Longrightarrow> framed r (fst (recallTool_Call en c b ctx q rt))"
  unfolding recallTool_Call_def Let_def by (rule framed_rules | assumption)+

lemma framed_rememberTool_Call [framed_rules]:
  "framed r rt \<Longrightarrow> framed r (fst (rememberTool_Call en c b ctx q rt))"
  unfolding rememberTool_Call_def Let_def by (rule framed_rules | assumption)+

definition exec_framed :: "'w taskExecutor \<Rightarrow> bool" where
  "exec_framed exec \<longleftrightarrow> (\<forall>r ctx i t c rt. framed r rt \<longrightarrow> framed r (fst (exec ctx i t c rt)))"

lemma exec_framedD: "exec_framed exec \<Longrightarrow> framed r rt \<Longrightarrow> framed r (fst (exec ctx i t c rt))"
  by (simp add: exec_framed_def)

lemma framed_agent_Execute [framed_rules]:
  "exec_framed exec \<Longrightarrow> framed r rt \<Longrightarrow> framed r (fst (agent_Execute exec ctx i t rt))"
  unfolding agent_Execute_def by (rule framed_rules exec_framedD | assumption)+

lemma framed_delegationTool_Call [framed_rules]:
  "exec_framed exec \<Longrightarrow> framed r rt \<Longrightarrow> framed r (fst (delegationTool_Call en exec roster ctx input rt))"
  unfolding delegationTool_Call_def Let_def by (rule framed_rules | assumption)+

lemma framed_extTool_Call [framed_rules]: "framed r rt \<Longrightarrow> framed r (fst (extTool_Call x ctx input rt))"
  unfolding extTool_Call_def by (rule framed_fold framed_rules | assumption)+

lemma framed_tool_step: "exec_framed exec \<Longrightarrow> call_framed (tool_step en c exec)"
  unfolding call_framed_def
  by (auto simp: tool_step_def framed_extTool_Call framed_delegationTool_Call framed_recallTool_Call
      framed_rememberTool_Call split: tool.split)

lemma framed_tool_Call: "call_framed (tool_Call en c n)"
proof (induction n)
  case 0
  show ?case by (simp add: framed_tool_step exec_framed_def no_fuel_def)
next
  case (Suc n)
  then show ?case by (simp add: framed_tool_step exec_framed_def framed_executeTask)
qed

lemma framed_run_task [framed_rules]: "framed r rt \<Longrightarrow> framed r (fst (run_task en c ctx i t x rt))"
  unfolding run_task_def by (rule framed_executeTask [OF framed_tool_Call])

section \<open>One task of a crew\<close>

lemma framed_queryCommitted [framed_rules]:
  "framed r rt \<Longrightarrow> framed r (fst (queryCommitted c ctx p rt))"
  unfolding queryCommitted_def by (rule framed_rules | assumption)+

lemma framed_task_context [framed_rules]:
  "framed r rt \<Longrightarrow> framed r (fst (task_context c ctx t rt))"
  unfolding task_context_def Let_def by (rule framed_rules | assumption)+

lemma framed_writeTaskOutputFile [framed_rules]:
  "framed r rt \<Longrightarrow> framed r (fst (writeTaskOutputFile en f j d rt))"
  unfolding writeTaskOutputFile_def Let_def by (rule framed_rules | assumption)+

lemma framed_setOutputWithJail [framed_rules]: "framed r rt \<Longrightarrow> framed r (fst (setOutputWithJail en t out jail rt))"
  unfolding setOutputWithJail_def Let_def
  by (rule framed_rules framed_set_task | assumption | simp add: same_config_def)+

lemma framed_commit_entry [framed_rules]:
  "framed r rt \<Longrightarrow> framed r (commit_entry c ctx p s t e rt)"
  unfolding commit_entry_def by (rule framed_rules | assumption)+

lemma framed_auto_save [framed_rules]: "framed r rt \<Longrightarrow> framed r (auto_save en c ctx a t result rt)"
  by (auto simp: auto_save_def Let_def framed_commit_entry framed_stash split: option.split)

lemma framed_runTaskGuardrail [framed_rules]:
  "framed r rt \<Longrightarrow> framed r (fst (runTaskGuardrail ctx k label result rt))"
  unfolding runTaskGuardrail_def Let_def by (rule framed_rules | assumption)+

theorem framed_execute [framed_rules]: "framed r rt \<Longrightarrow> framed r (fst (execute en c ctx i t rt))"
  unfolding execute_def Let_def by (rule framed_rules | assumption)+

end
