(* ===== verification/CrewWaves.thy ===== *)
theory CrewWaves
  imports CrewOutput Frame
begin

text \<open>
  What the asynchronous processes of \<^verbatim>\<open>crew.go\<close> guarantee. The results of a group are indexed by
  declaration whatever order its goroutines run in; each barrier lists the successes of its group
  and marks its failures; a wave skips the tasks whose dependencies failed. Put together with the
  planner: the output of a run lists exactly the tasks that did not fail, each once and after all
  the tasks it depends on.
\<close>

section \<open>A group\<close>

text \<open>What is known of the result at a position: nothing yet, no agent, or its task was run.\<close>

definition result_ok :: "groupRun \<Rightarrow> nat \<Rightarrow> groupResult \<Rightarrow> bool" where
  "result_ok g k r \<longleftrightarrow>
     (case gn_agents g ! k of
        None \<Rightarrow> r = zero_result
      | Some a \<Rightarrow> gr_task r = Some (gn_tasks g ! k) \<and> gr_agent r = Some a)"

definition group_inv :: "'w rt \<Rightarrow> groupRun \<Rightarrow> nat set \<Rightarrow> 'w groupState \<Rightarrow> bool" where
  "group_inv rt g D s \<longleftrightarrow>
     framed rt (gp_rt s) \<and> length (gp_results s) = length (gn_tasks g)
     \<and> (\<forall>k<length (gn_tasks g). if k \<in> D then result_ok g k (gp_results s ! k) else gp_results s ! k = zero_result)
     \<and> (gp_first s = None \<longleftrightarrow> (\<forall>k\<in>D. gn_agents g ! k \<noteq> None \<and> gr_err (gp_results s ! k) = None))"

lemma recordErr_first [simp]:
  "gp_first (recordErr ff i e s) \<noteq> None" "gp_rt (recordErr ff i e s) = gp_rt s"
  "gp_results (recordErr ff i e s) = gp_results s"
  by (auto simp: recordErr_def split: option.split)

lemma framed_task_progress [framed_rules]: "framed r rt \<Longrightarrow> framed r (task_progress ctx ev st t i a er rt)"
  unfolding task_progress_def by (rule framed_rules | assumption)+

text \<open>A finished position with an agent, from its new result and the recorded error.\<close>

lemma group_inv_set:
  assumes "group_inv rt g D s" "ti < length (gn_tasks g)" "ti \<notin> D" "gn_agents g ! ti = Some a"
    and "framed rt rt1" "gr_task r = Some (gn_tasks g ! ti)" "gr_agent r = Some a"
    and "gp_rt s' = rt1" "gp_results s' = (gp_results s)[ti := r]"
    and "gp_first s' = None \<longleftrightarrow> gp_first s = None \<and> gr_err r = None"
  shows "group_inv rt g (insert ti D) s'"
  using assms by (auto simp: group_inv_def result_ok_def nth_list_update)

lemma group_step_inv:
  assumes inv: "group_inv rt g D s" and ti: "ti < length (gn_tasks g)" "ti \<notin> D"
  shows "group_inv rt g (insert ti D) (group_step en c ctx g giveUp ti s)"
proof (cases "gn_agents g ! ti")
  case None
  then show ?thesis using inv ti by (auto simp: group_inv_def group_step_def result_ok_def)
next
  case (Some a)
  let ?t = "gn_tasks g ! ti" and ?gctx = "group_ctx ctx (gp_cancelled s)"
  let ?capped = "gn_labelKey g = ''wave'' \<and> cr_AsyncMaxWorkers c > 0" and ?gone = "cx_err ?gctx (rt_w (gp_rt s))"
  have fr: "framed rt (gp_rt s)" using inv by (simp add: group_inv_def)
  show ?thesis
  proof (cases "?capped \<and> giveUp ti \<and> ?gone \<noteq> None")
    case True
    show ?thesis
      by (rule group_inv_set [OF inv ti Some fr, of
            "\<lparr>gr_task = Some ?t, gr_agent = Some a, gr_out = [], gr_facts = [], gr_err = ?gone\<rparr>"])
        (use True Some in \<open>auto simp: group_step_def Let_def\<close>)
  next
    case False
    obtain rt2 result facts er where ex: "execute en c ?gctx a ?t (task_progress ?gctx ''task_started'' (gn_label g) ?t ti a None (gp_rt s))
      = (rt2, result, facts, er)" using prod_cases4 by blast
    have "framed rt (task_progress ?gctx ''task_started'' (gn_label g) ?t ti a None (gp_rt s))"
      by (rule framed_task_progress [OF fr])
    from framed_execute [OF this, of en c ?gctx a ?t] have "framed rt rt2" using ex by simp
    then have fr2: "framed rt (task_progress ?gctx ''task_completed'' (gn_label g) ?t ti a er rt2)"
      by (rule framed_task_progress)
    show ?thesis
      by (rule group_inv_set [OF inv ti Some fr2, of
            "\<lparr>gr_task = Some ?t, gr_agent = Some a, gr_out = result, gr_facts = facts, gr_err = er\<rparr>"])
        (use False Some ex in \<open>auto simp: group_step_def Let_def split: option.split\<close>)
  qed
qed

lemma group_fold_inv:
  "group_inv rt g D s \<Longrightarrow> distinct is \<Longrightarrow> set is \<inter> D = {} \<Longrightarrow> set is \<subseteq> {..<length (gn_tasks g)} \<Longrightarrow>
   group_inv rt g (set is \<union> D) (fold (group_step en c ctx g giveUp) is s)"
proof (induction "is" arbitrary: D s)
  case (Cons i "is")
  have "group_inv rt g (insert i D) (group_step en c ctx g giveUp i s)"
    by (rule group_step_inv) (use Cons.prems in auto)
  from Cons.IH [OF this] show ?case using Cons.prems by (auto simp: insert_commute Un_insert_right)
qed simp

lemma runTaskGroup_spec:
  assumes "runTaskGroup en c sch ctx g rt = (rt', results, first)"
  shows "framed rt rt'" "length results = length (gn_tasks g)"
    "k < length (gn_tasks g) \<Longrightarrow> result_ok g k (results ! k)"
    "first = None \<longleftrightarrow> (\<forall>k<length (gn_tasks g). gn_agents g ! k \<noteq> None \<and> gr_err (results ! k) = None)"
proof -
  let ?n = "length (gn_tasks g)"
  let ?s0 = "\<lparr>gp_rt = rt, gp_results = replicate ?n zero_result, gp_first = None, gp_cancelled = False\<rparr>"
  let ?s = "fold (group_step en c ctx g (gs_giveUp sch)) (wave_order (gs_order sch) ?n) ?s0"
  have "group_inv rt g (set (wave_order (gs_order sch) ?n) \<union> {}) ?s"
    by (rule group_fold_inv) (auto simp: group_inv_def wave_order_perm)
  then have "group_inv rt g {..<?n} ?s" by (simp add: wave_order_perm)
  then show "framed rt rt'" "length results = ?n" "k < ?n \<Longrightarrow> result_ok g k (results ! k)"
    "first = None \<longleftrightarrow> (\<forall>k<?n. gn_agents g ! k \<noteq> None \<and> gr_err (results ! k) = None)"
    using assms by (auto simp: runTaskGroup_def Let_def group_inv_def)
qed

section \<open>The graph of a crew\<close>

text \<open>The parts of a task the scheduling depends on, and their stability during a run.\<close>

definition same_node :: "'w task \<Rightarrow> 'w task \<Rightarrow> bool" where
  "same_node k k' \<longleftrightarrow> tk_Name k' = tk_Name k \<and> tk_Context k' = tk_Context k \<and> tk_Async k' = tk_Async k
     \<and> tk_Agent k' = tk_Agent k"

definition kept :: "'w rt \<Rightarrow> 'w rt \<Rightarrow> bool" where
  "kept rt rt' \<longleftrightarrow> rt_next rt \<le> rt_next rt' \<and> (\<forall>t < rt_next rt. same_node (rt_tasks rt t) (rt_tasks rt' t))"

lemma kept_refl [simp]: "kept rt rt"
  by (simp add: kept_def same_node_def)

lemma kept_trans: "kept a b \<Longrightarrow> kept b c \<Longrightarrow> kept a c"
  by (auto simp: kept_def same_node_def)

lemma framed_kept: "framed rt rt' \<Longrightarrow> kept rt rt'"
  by (auto simp: framed_def kept_def same_node_def same_configD)

lemma framed_failed: "framed rt rt' \<Longrightarrow> rt_failed rt' = rt_failed rt"
  by (simp add: framed_def)

lemma kept_node:
  assumes "kept rt rt'" "t < rt_next rt"
  shows "tk_Context (rt_tasks rt' t) = tk_Context (rt_tasks rt t)" "tk_Async (rt_tasks rt' t) = tk_Async (rt_tasks rt t)"
    "tk_Agent (rt_tasks rt' t) = tk_Agent (rt_tasks rt t)" "taskLabel (rt_tasks rt' t) = taskLabel (rt_tasks rt t)"
  using assms by (auto simp: kept_def same_node_def taskLabel_def fun_eq_iff)

definition crew_label :: "'w crew \<Rightarrow> 'w rt \<Rightarrow> nat \<Rightarrow> string" where
  "crew_label c rt i = taskLabel (rt_tasks rt (cr_Tasks c ! i)) i"

definition allocated :: "'w crew \<Rightarrow> 'w rt \<Rightarrow> bool" where
  "allocated c rt \<longleftrightarrow> (\<forall>t\<in>set (cr_Tasks c). t < rt_next rt)"

lemma allocated_kept: "allocated c rt \<Longrightarrow> kept rt rt' \<Longrightarrow> allocated c rt'"
  by (auto simp: allocated_def kept_def)

lemma crew_label_kept:
  "allocated c rt \<Longrightarrow> kept rt rt' \<Longrightarrow> i < length (cr_Tasks c) \<Longrightarrow> crew_label c rt' i = crew_label c rt i"
  by (simp add: crew_label_def allocated_def kept_node)

text \<open>Every task of the crew finds an agent, its own or one of the crew.\<close>

definition staffed :: "'w crew \<Rightarrow> 'w rt \<Rightarrow> bool" where
  "staffed c rt \<longleftrightarrow> cr_Agents c \<noteq> [] \<or> (\<forall>t\<in>set (cr_Tasks c). tk_Agent (rt_tasks rt t) \<noteq> None)"

lemma staffed_kept: "staffed c rt \<Longrightarrow> allocated c rt \<Longrightarrow> kept rt rt' \<Longrightarrow> staffed c rt'"
  by (auto simp: staffed_def allocated_def kept_node)

lemma staffed_agent: "staffed c rt \<Longrightarrow> t \<in> set (cr_Tasks c) \<Longrightarrow> task_agent c rt i t \<noteq> None"
  by (auto simp: staffed_def task_agent_def agentForIndex_def split: option.split)

text \<open>
  Where a missing agent cannot go unnoticed: every task finds one, or the first error of a group,
  \<^verbatim>\<open>ErrNoAgent\<close> included, ends the run.
\<close>

definition found :: "'w crew \<Rightarrow> 'w rt \<Rightarrow> bool" where
  "found c rt \<longleftrightarrow> cr_AsyncFailFast c \<or> staffed c rt"

lemma found_kept: "found c rt \<Longrightarrow> allocated c rt \<Longrightarrow> kept rt rt' \<Longrightarrow> found c rt'"
  by (auto simp: found_def staffed_kept)

section \<open>The account of a barrier\<close>

lemma subseq_set: "subseq xs ys \<Longrightarrow> x \<in> set xs \<Longrightarrow> x \<in> set ys"
  by (auto elim: list_emb_set)

lemma distinct_subseq: "subseq xs ys \<Longrightarrow> distinct ys \<Longrightarrow> distinct xs"
  by (auto simp: subseq_conv_nths intro: distinct_nthsI)

text \<open>
  What a run of the task numbers \<open>is\<close> leaves: the graph is unchanged, the successes \<open>js\<close> are listed
  in the output in the order of \<open>is\<close>, and exactly the others are marked failed.
\<close>

definition account :: "'w crew \<Rightarrow> nat list \<Rightarrow> nat list \<Rightarrow> crewOutput \<Rightarrow> 'w rt \<Rightarrow> crewOutput \<Rightarrow> 'w rt \<Rightarrow> bool" where
  "account c is js out rt out' rt' \<longleftrightarrow>
     kept rt rt' \<and> subseq js is
     \<and> map to_Task (co_TasksOutput out') = map to_Task (co_TasksOutput out) @ map (crew_label c rt) js
     \<and> dom (rt_failed rt') = dom (rt_failed rt) \<union> (!) (cr_Tasks c) ` (set is - set js)
     \<and> (cr_AsyncFailFast c \<longrightarrow> js = is)"

lemma account_Nil: "kept rt rt' \<Longrightarrow> rt_failed rt' = rt_failed rt \<Longrightarrow> account c [] [] out rt out rt'"
  by (simp add: account_def)

lemma account_append:
  assumes "account c is js out rt out1 rt1" "account c is' js' out1 rt1 out2 rt2"
    and "set is \<inter> set is' = {}" "allocated c rt" "set is' \<subseteq> {..<length (cr_Tasks c)}"
  shows "account c (is @ is') (js @ js') out rt out2 rt2"
proof -
  have k: "kept rt rt1" and js: "set js \<subseteq> set is" "set js' \<subseteq> set is'"
    using assms(1,2) by (auto simp: account_def dest: subseq_set)
  have lab: "map (crew_label c rt1) js' = map (crew_label c rt) js'"
    using js(2) assms(5) crew_label_kept [OF assms(4) k] by auto
  have "set (is @ is') - set (js @ js') = (set is - set js) \<union> (set is' - set js')"
    using js assms(3) by auto
  then show ?thesis using assms(1,2) lab
    by (auto simp: account_def image_Un Un_assoc intro: kept_trans list_emb_append_mono)
qed

text \<open>A prefix step that changes neither graph, failures nor output.\<close>

lemma account_pre:
  assumes "kept rt rt1" "rt_failed rt1 = rt_failed rt" "account c is js out rt1 out' rt'"
    and "allocated c rt" "set is \<subseteq> {..<length (cr_Tasks c)}"
  shows "account c is js out rt out' rt'"
  using account_append [OF account_Nil [OF assms(1,2)] assms(3)] assms(4,5) by simp

lemma account_post:
  assumes "account c is js out rt out' rt1" "kept rt1 rt'" "rt_failed rt' = rt_failed rt1"
  shows "account c is js out rt out' rt'"
  using assms by (auto simp: account_def intro: kept_trans)

section \<open>Barriers\<close>

lemma markFailed_kept [simp]: "kept rt (markFailed t e rt)"
  by (simp add: markFailed_def kept_def same_node_def)

lemma markFailed_tasks [simp]: "rt_tasks (markFailed t e rt) = rt_tasks rt"
  by (simp add: markFailed_def)

lemma dom_markFailed [simp]: "dom (rt_failed (markFailed t e rt)) = insert t (dom (rt_failed rt))"
  by (simp add: markFailed_def)

lemma publishTrace_same [simp]: "rt_failed (publishTrace t rt) = rt_failed rt" "rt_tasks (publishTrace t rt) = rt_tasks rt"
  "rt_next (publishTrace t rt) = rt_next rt"
  by (simp_all add: publishTrace_def with_tracer_def)

lemma account_done:
  assumes "i < length (cr_Tasks c)"
  shows "account c [i] [i] out rt (snd (fold_result (cr_Tasks c ! i) i a r fs out rt)) (publishTrace (cr_Tasks c ! i) rt)"
  by (simp add: account_def fold_result_add add_output_def crew_label_def kept_def same_node_def)

lemma account_failed:
  "\<not> cr_AsyncFailFast c \<Longrightarrow> account c [i] [] out rt out (markFailed (cr_Tasks c ! i) e rt)"
  by (simp add: account_def)

lemma fold_wave_account:
  assumes "fold_wave c label is results out rt = (rt', Inr out')" "length results = length is"
    and "\<And>k. k < length is \<Longrightarrow> gr_task (results ! k) = Some (cr_Tasks c ! (is ! k)) \<and> gr_agent (results ! k) \<noteq> None"
    and "distinct is" "set is \<subseteq> {..<length (cr_Tasks c)}" "allocated c rt"
  shows "\<exists>js. account c is js out rt out' rt'"
  using assms
proof (induction "is" arbitrary: results out rt)
  case Nil
  then have "rt' = rt" "out' = out" by auto
  then show ?case using account_Nil [of rt rt c out] by auto
next
  case (Cons i "is")
  then obtain res rs where r: "results = res # rs" by (cases results) auto
  have res: "gr_task res = Some (cr_Tasks c ! i)" "gr_agent res \<noteq> None" using Cons.prems(3) [of 0] r by auto
  have rs: "gr_task (rs ! k) = Some (cr_Tasks c ! (is ! k)) \<and> gr_agent (rs ! k) \<noteq> None" if "k < length is" for k
    using Cons.prems(3) [of "Suc k"] that r by simp
  have step: "\<exists>js. account c (i # is) js out rt out' rt'"
    if h: "account c [i] is' out rt out1 rt1" "fold_wave c label is rs out1 rt1 = (rt', Inr out')" for is' out1 rt1
  proof -
    have "allocated c rt1" using h(1) Cons.prems(6) by (auto simp: account_def intro: allocated_kept)
    then obtain js where "account c is js out1 rt1 out' rt'"
      using Cons.IH [OF h(2) _ rs] Cons.prems r by auto
    from account_append [OF h(1) this] show ?thesis using Cons.prems by auto
  qed
  show ?case
  proof (cases "gr_err res")
    case None
    obtain a where a: "gr_agent res = Some a" using res by auto
    show ?thesis
      by (rule step [OF account_done]) (use Cons.prems None a res r in \<open>auto simp: fold_result_add Let_def\<close>)
  next
    case (Some e)
    show ?thesis
      by (rule step [OF account_failed]) (use Cons.prems Some r in \<open>auto simp: Let_def split: if_splits\<close>)
  qed
qed

lemma beginMemoryBuffer_same [simp]: "kept rt (beginMemoryBuffer rt)" "rt_failed (beginMemoryBuffer rt) = rt_failed rt"
  by (simp_all add: beginMemoryBuffer_def kept_def same_node_def)

lemma framed_commit_loop: "framed r rt \<Longrightarrow> framed r (commit_loop c ctx p s m ts rt)"
  by (induction ts arbitrary: rt) (auto simp: framed_commit_entry split: option.split)

lemma commitMemoryBuffer_same: "kept rt (commitMemoryBuffer c ctx ts p rt)" "rt_failed (commitMemoryBuffer c ctx ts p rt) = rt_failed rt"
proof -
  let ?rt = "rt\<lparr>rt_memBuf := [], rt_buffering := False\<rparr>"
  have "framed ?rt (commitMemoryBuffer c ctx ts p rt)"
    by (auto simp: commitMemoryBuffer_def Let_def intro: framed_commit_loop split: option.split)
  moreover have "kept rt ?rt" by (simp add: kept_def same_node_def)
  ultimately show "kept rt (commitMemoryBuffer c ctx ts p rt)" "rt_failed (commitMemoryBuffer c ctx ts p rt) = rt_failed rt"
    by (auto dest: framed_failed framed_kept intro: kept_trans)
qed

section \<open>Groups and waves\<close>

lemma runWaveGroup_account:
  assumes run: "runWaveGroup en c sch ctx label is agents out rt = (rt', Inr out')"
    and "is": "distinct is" "set is \<subseteq> {..<length (cr_Tasks c)}" "allocated c rt" "agents = None \<Longrightarrow> found c rt"
  shows "\<exists>js. account c is js out rt out' rt'"
proof (cases "is = []")
  case True
  then show ?thesis using run account_Nil [of rt rt c out] by (auto simp: runWaveGroup_def)
next
  case False
  let ?agents = "map (\<lambda>i. case agents of Some as \<Rightarrow> Some (as ! i) | None \<Rightarrow> task_agent c rt i (cr_Tasks c ! i)) is"
  let ?g = "\<lparr>gn_label = label, gn_labelKey = ''wave'', gn_tasks = map ((!) (cr_Tasks c)) is, gn_agents = ?agents,
    gn_failFast = cr_AsyncFailFast c\<rparr>"
  let ?ctx = "contextWithTraceWave ctx label"
  obtain rt1 results first where g: "runTaskGroup en c (sch is) ?ctx ?g (beginMemoryBuffer rt) = (rt1, results, first)"
    using prod_cases3 by blast
  let ?rt2 = "commitMemoryBuffer c ?ctx (map ((!) (cr_Tasks c)) is) (cr_policy c) rt1"
  have fold: "fold_wave c label is results out ?rt2 = (rt', Inr out')"
    using run False g by (simp add: runWaveGroup_def Let_def split: if_split_asm prod.split_asm)
  have res: "gr_task (results ! k) = Some (cr_Tasks c ! (is ! k)) \<and> gr_agent (results ! k) \<noteq> None" if k: "k < length is" for k
  proof -
    have "is ! k < length (cr_Tasks c)" using k "is"(2) by (auto simp: subset_iff)
    moreover have "?agents ! k \<noteq> None" if "cr_AsyncFailFast c"
    proof -
      have "first = None" using run False g that by (cases first) (auto simp: runWaveGroup_def Let_def)
      then show ?thesis using runTaskGroup_spec(4) [OF g] k by simp
    qed
    ultimately have "?agents ! k \<noteq> None" using k "is"(4) staffed_agent [of c rt "cr_Tasks c ! (is ! k)" "is ! k"]
      by (cases agents) (auto simp: found_def)
    then show ?thesis using runTaskGroup_spec(3) [OF g, of k] k by (auto simp: result_ok_def split: option.splits)
  qed
  note fr = runTaskGroup_spec(1) [OF g]
  have "kept rt rt1" using kept_trans [OF beginMemoryBuffer_same(1) framed_kept [OF fr]] .
  then have k: "kept rt ?rt2" "rt_failed ?rt2 = rt_failed rt"
    using framed_failed [OF fr] by (simp_all add: commitMemoryBuffer_same kept_trans [OF _ commitMemoryBuffer_same(1)])
  then have "\<exists>js. account c is js out ?rt2 out' rt'"
    by (intro fold_wave_account [OF fold _ res])
      (use runTaskGroup_spec(2) [OF g] "is" allocated_kept [of c rt ?rt2] in auto)
  then show ?thesis using account_pre [OF k] "is" by blast
qed

lemma run_groups_account:
  assumes "run_groups en c sch ctx label gs agents out rt = (rt', Inr out')" "distinct (concat gs)"
    and "set (concat gs) \<subseteq> {..<length (cr_Tasks c)}" "allocated c rt" "agents = None \<Longrightarrow> found c rt"
  shows "\<exists>js. account c (concat gs) js out rt out' rt'"
  using assms
proof (induction gs arbitrary: out rt)
  case Nil
  then show ?case using account_Nil [of rt rt c out] by auto
next
  case (Cons g gs)
  obtain rt1 out1 where 1: "runWaveGroup en c sch ctx label g agents out rt = (rt1, Inr out1)"
    and 2: "run_groups en c sch ctx label gs agents out1 rt1 = (rt', Inr out')"
    using Cons.prems(1) by (auto split: prod.splits sum.splits)
  obtain js where js: "account c g js out rt out1 rt1" using runWaveGroup_account [OF 1] Cons.prems by auto
  then have k: "kept rt rt1" by (simp add: account_def)
  have "agents = None \<Longrightarrow> found c rt1" using Cons.prems(4,5) found_kept k by blast
  then obtain js' where "account c (concat gs) js' out1 rt1 out' rt'"
    using Cons.IH [OF 2] Cons.prems allocated_kept [OF _ k] by auto
  from account_append [OF js this] show ?case using Cons.prems by auto
qed

lemma concat_chunks [simp]: "concat (chunks m xs) = xs"
proof (induction m xs rule: chunks.induct)
  case (1 m xs)
  then show ?case by (subst chunks.simps) auto
qed

text \<open>Tasks are dropped exactly when a dependency failed before.\<close>

lemma failedUpstream_None: "failedUpstream rt t = None \<longleftrightarrow> (\<forall>d\<in>set (tk_Context (rt_tasks rt t)). d \<notin> dom (rt_failed rt))"
  by (auto simp: failedUpstream_def find_None_iff)

lemma drop_failed_same:
  "drop_failed c is rt = (rt', js) \<Longrightarrow> rt_tasks rt' = rt_tasks rt \<and> rt_next rt' = rt_next rt \<and> subseq js is"
  by (induction "is" arbitrary: rt js) (auto simp: markFailed_def split: option.splits prod.splits)

lemma drop_failed_dom:
  "drop_failed c is rt = (rt', js) \<Longrightarrow> distinct is \<Longrightarrow>
   dom (rt_failed rt') = dom (rt_failed rt) \<union> (!) (cr_Tasks c) ` (set is - set js)"
proof (induction "is" arbitrary: rt js)
  case (Cons i "is")
  show ?case
  proof (cases "failedUpstream rt (cr_Tasks c ! i)")
    case None
    then obtain ks where "drop_failed c is rt = (rt', ks)" "js = i # ks"
      using Cons.prems(1) by (auto split: prod.splits)
    then show ?thesis using Cons by auto
  next
    case (Some e)
    then have d: "drop_failed c is (markFailed (cr_Tasks c ! i) e rt) = (rt', js)" using Cons.prems(1) by simp
    have "i \<notin> set js" using drop_failed_same [OF d] Cons.prems(2) subseq_set by force
    then show ?thesis using Cons.IH [OF d] Cons.prems(2) by auto
  qed
qed simp

lemma drop_failed_deps:
  "drop_failed c is rt = (rt', js) \<Longrightarrow> i \<in> set js \<Longrightarrow> d \<in> set (tk_Context (rt_tasks rt (cr_Tasks c ! i))) \<Longrightarrow>
   d \<notin> dom (rt_failed rt)"
proof (induction "is" arbitrary: rt js)
  case (Cons k "is")
  show ?case
  proof (cases "failedUpstream rt (cr_Tasks c ! k)")
    case None
    then obtain ks where ks: "drop_failed c is rt = (rt', ks)" "js = k # ks"
      using Cons.prems(1) by (auto split: prod.splits)
    show ?thesis
    proof (cases "i = k")
      case True
      then show ?thesis using None Cons.prems(3) by (auto simp: failedUpstream_None)
    next
      case False
      then show ?thesis using Cons.IH [OF ks(1)] ks(2) Cons.prems(2,3) by simp
    qed
  next
    case (Some e)
    then have dr: "drop_failed c is (markFailed (cr_Tasks c ! k) e rt) = (rt', js)" using Cons.prems(1) by simp
    have "d \<in> set (tk_Context (rt_tasks (markFailed (cr_Tasks c ! k) e rt) (cr_Tasks c ! i)))"
      using Cons.prems(3) by simp
    from Cons.IH [OF dr Cons.prems(2) this] have "d \<notin> dom (rt_failed (markFailed (cr_Tasks c ! k) e rt))" .
    then show ?thesis unfolding dom_markFailed by blast
  qed
qed simp

lemma drop_failed_none: "drop_failed c is rt = (rt', js) \<Longrightarrow> rt_failed rt = Map.empty \<Longrightarrow> js = is"
proof (induction "is" arbitrary: js)
  case (Cons k "is")
  have "failedUpstream rt (cr_Tasks c ! k) = None" using Cons.prems(2) by (simp add: failedUpstream_None)
  then show ?case using Cons by (auto split: prod.splits)
qed simp

text \<open>The order in which a wave reports: its Async tasks first.\<close>

definition wave_tasks :: "(nat \<Rightarrow> bool) \<Rightarrow> nat list \<Rightarrow> nat list" where
  "wave_tasks async w = filter async w @ filter (\<lambda>i. \<not> async i) w"

lemma set_wave_tasks [simp]: "set (wave_tasks async w) = set w"
  by (auto simp: wave_tasks_def)

lemma mset_wave_tasks: "mset (concat (map (wave_tasks async) ws)) = mset (concat ws)"
proof (induction ws)
  case (Cons w ws)
  have "mset (wave_tasks async w) = mset w"
    using multiset_partition [of "mset w" async] by (simp add: wave_tasks_def)
  then show ?case using Cons by simp
qed simp

lemma run_wave_account:
  assumes run: "run_wave en c sch ctx label w agents out rt = (rt', Inr out')"
    and w: "distinct w" "set w \<subseteq> {..<length (cr_Tasks c)}" "allocated c rt" "agents = None \<Longrightarrow> found c rt"
    and ff: "cr_AsyncFailFast c \<Longrightarrow> rt_failed rt = Map.empty"
    and async: "\<And>i. i \<in> set w \<Longrightarrow> async i = tk_Async (rt_tasks rt (cr_Tasks c ! i))"
  shows "\<exists>js. account c (wave_tasks async w) js out rt out' rt'
    \<and> (\<forall>i\<in>set js. \<forall>d\<in>set (tk_Context (rt_tasks rt (cr_Tasks c ! i))). d \<notin> dom (rt_failed rt))"
proof -
  obtain rt1 rem where d: "drop_failed c w rt = (rt1, rem)" by fastforce
  note same = drop_failed_same [OF d]
  have rem: "set rem \<subseteq> set w" using same by (auto intro: subseq_set [of rem w])
  have t: "rt_tasks rt1 = rt_tasks rt" using same by blast
  have as: "tk_Async (rt_tasks rt1 (cr_Tasks c ! i)) = async i" if "i \<in> set rem" for i
  proof -
    have "i \<in> set w" using rem that by blast
    from async [OF this] show ?thesis unfolding t by (rule sym)
  qed
  have fa: "filter (\<lambda>i. tk_Async (rt_tasks rt1 (cr_Tasks c ! i))) rem = filter async rem"
    and fs: "filter (\<lambda>i. \<not> tk_Async (rt_tasks rt1 (cr_Tasks c ! i))) rem = filter (\<lambda>i. \<not> async i) rem"
    by (rule filter_cong; simp add: as)+
  let ?gs = "chunks (cr_AsyncMaxWorkers c) (filter async rem) @ map (\<lambda>i. [i]) (filter (\<lambda>i. \<not> async i) rem)"
  have single: "concat (map (\<lambda>i. [i]) xs) = xs" for xs :: "nat list" by (induction xs) auto
  have gs: "concat ?gs = wave_tasks async rem" by (simp add: wave_tasks_def single)
  have kept: "kept rt rt1" using same by (simp add: kept_def same_node_def)
  have "distinct rem" using same w(1) by (auto dest: distinct_subseq)
  then have dist: "distinct (wave_tasks async rem)" by (auto simp: wave_tasks_def)
  have rg: "run_groups en c sch ctx label ?gs agents out rt1 = (rt', Inr out')"
    using run d fa fs by (simp add: run_wave_def o_def)
  have "\<exists>js. account c (concat ?gs) js out rt1 out' rt'"
  proof (rule run_groups_account [OF rg])
    show "distinct (concat ?gs)" unfolding gs by (rule dist)
    show "set (concat ?gs) \<subseteq> {..<length (cr_Tasks c)}" unfolding gs using rem w(2) by simp
    show "allocated c rt1" by (rule allocated_kept [OF w(3) kept])
    show "found c rt1" if "agents = None" by (rule found_kept [OF w(4) [OF that] w(3) kept])
  qed
  then obtain js where js: "account c (wave_tasks async rem) js out rt1 out' rt'" unfolding gs by blast
  have sub: "set js \<subseteq> set rem" using js subseq_set [of js "wave_tasks async rem"] by (auto simp: account_def)
  have "account c (wave_tasks async w) js out rt out' rt'"
    unfolding account_def
  proof (intro conjI impI)
    show "kept rt rt'" using js kept by (auto simp: account_def intro: kept_trans)
    have "subseq (wave_tasks async rem) (wave_tasks async w)"
      using same by (auto simp: wave_tasks_def intro!: list_emb_append_mono)
    then show "subseq js (wave_tasks async w)" using js by (auto simp: account_def)
    have "map (crew_label c rt1) js = map (crew_label c rt) js"
      using crew_label_kept [OF w(3) kept] sub rem w(2) by (auto simp: subset_iff)
    then show "map to_Task (co_TasksOutput out') = map to_Task (co_TasksOutput out) @ map (crew_label c rt) js"
      using js by (simp add: account_def)
    have "set w - set js = (set w - set rem) \<union> (set rem - set js)" using sub rem by auto
    then show "dom (rt_failed rt') = dom (rt_failed rt) \<union> (!) (cr_Tasks c) ` (set (wave_tasks async w) - set js)"
      using js drop_failed_dom [OF d w(1)] by (auto simp: account_def image_Un)
    show "js = wave_tasks async w" if "cr_AsyncFailFast c"
      using js that drop_failed_none [OF d ff [OF that]] by (simp add: account_def)
  qed
  then show ?thesis using drop_failed_deps [OF d] sub by blast
qed

section \<open>The waves of a plan\<close>

text \<open>Every dependency of a task of a wave is outside this wave and the later ones.\<close>

fun deps_earlier :: "(nat \<Rightarrow> tid list) \<Rightarrow> (nat \<Rightarrow> tid) \<Rightarrow> nat list list \<Rightarrow> bool" where
  "deps_earlier deps T [] = True"
| "deps_earlier deps T (w # ws) \<longleftrightarrow>
     (\<forall>i\<in>set w. set (deps i) \<inter> T ` set (concat (w # ws)) = {}) \<and> deps_earlier deps T ws"

lemma runAsyncWaves_account:
  assumes "runAsyncWaves en c sch ctx k ws agents out rt = (rt', Inr out')"
    and "distinct (concat ws)" "set (concat ws) \<subseteq> {..<length (cr_Tasks c)}" "allocated c rt" "agents = None \<Longrightarrow> found c rt"
    and "cr_AsyncFailFast c \<Longrightarrow> rt_failed rt = Map.empty"
    and "\<And>i. i < length (cr_Tasks c) \<Longrightarrow> async i = tk_Async (rt_tasks rt (cr_Tasks c ! i))"
    and "\<And>i. i < length (cr_Tasks c) \<Longrightarrow> deps i = tk_Context (rt_tasks rt (cr_Tasks c ! i))"
    and "deps_earlier deps ((!) (cr_Tasks c)) ws"
  shows "\<exists>js. account c (concat (map (wave_tasks async) ws)) js out rt out' rt'
    \<and> (\<forall>i\<in>set js. \<forall>d\<in>set (deps i). d \<notin> dom (rt_failed rt'))"
  using assms
proof (induction ws arbitrary: k out rt)
  case Nil
  then show ?case using account_Nil [of rt rt c out] by auto
next
  case (Cons w ws)
  let ?rt0 = "on_world (emitEvent ctx ((event EventWaveStarted)\<lparr>ev_Stage := ''wave '' @ itoa (k + 1)\<rparr>)) rt"
  obtain rt1 out1 done_ev where 1: "run_wave en c sch ctx (''wave '' @ itoa (k + 1)) w agents out ?rt0 = (rt1, Inr out1)"
    and 2: "runAsyncWaves en c sch ctx (Suc k) ws agents out1 (on_world (emitEvent ctx done_ev) rt1) = (rt', Inr out')"
    using Cons.prems(1) by (auto simp: Let_def split: prod.split_asm sum.split_asm)
  let ?rt2 = "on_world (emitEvent ctx done_ev) rt1"
  have k0: "kept rt ?rt0" by (simp add: kept_def same_node_def)
  have k2: "kept rt1 ?rt2" by (simp add: kept_def same_node_def)
  have w: "distinct w" "set w \<subseteq> {..<length (cr_Tasks c)}" "set (concat ws) \<subseteq> {..<length (cr_Tasks c)}"
    "distinct (concat ws)" "set w \<inter> set (concat ws) = {}" using Cons.prems(2,3) by auto
  obtain js1 where js1: "account c (wave_tasks async w) js1 out ?rt0 out1 rt1"
    and ok1: "\<forall>i\<in>set js1. \<forall>d\<in>set (tk_Context (rt_tasks ?rt0 (cr_Tasks c ! i))). d \<notin> dom (rt_failed ?rt0)"
    using run_wave_account [OF 1 w(1,2), of async] Cons.prems(4-7) w(2) allocated_kept [OF _ k0] found_kept [OF _ _ k0]
    by (auto simp: subset_iff)
  have acc1: "account c (wave_tasks async w) js1 out rt out1 ?rt2"
    using account_pre [OF k0 _ js1] account_post [OF _ k2] Cons.prems(4) w(2) by simp
  then have kr: "kept rt ?rt2" by (simp add: account_def)
  have node: "tk_Async (rt_tasks ?rt2 (cr_Tasks c ! i)) = tk_Async (rt_tasks rt (cr_Tasks c ! i))"
    "tk_Context (rt_tasks ?rt2 (cr_Tasks c ! i)) = tk_Context (rt_tasks rt (cr_Tasks c ! i))" if "i < length (cr_Tasks c)" for i
    using kept_node [OF kr] Cons.prems(4) that by (auto simp: allocated_def)
  have "\<exists>js. account c (concat (map (wave_tasks async) ws)) js out1 ?rt2 out' rt'
    \<and> (\<forall>i\<in>set js. \<forall>d\<in>set (deps i). d \<notin> dom (rt_failed rt'))"
  proof (rule Cons.IH [OF 2 w(4,3)])
    show "allocated c ?rt2" by (rule allocated_kept [OF Cons.prems(4) kr])
    show "found c ?rt2" if "agents = None" by (rule found_kept [OF Cons.prems(5) [OF that] Cons.prems(4) kr])
    show "rt_failed ?rt2 = Map.empty" if ff: "cr_AsyncFailFast c"
    proof -
      have "dom (rt_failed ?rt2) = dom (rt_failed rt)" using acc1 ff by (auto simp: account_def)
      then show ?thesis using Cons.prems(6) [OF ff] by simp
    qed
    show "async i = tk_Async (rt_tasks ?rt2 (cr_Tasks c ! i))" if "i < length (cr_Tasks c)" for i
      using Cons.prems(7) [OF that] node(1) [OF that] by simp
    show "deps i = tk_Context (rt_tasks ?rt2 (cr_Tasks c ! i))" if "i < length (cr_Tasks c)" for i
      using Cons.prems(8) [OF that] node(2) [OF that] by simp
    show "deps_earlier deps ((!) (cr_Tasks c)) ws" using Cons.prems(9) by simp
  qed
  then obtain js2 where js2: "account c (concat (map (wave_tasks async) ws)) js2 out1 ?rt2 out' rt'"
    and ok2: "\<forall>i\<in>set js2. \<forall>d\<in>set (deps i). d \<notin> dom (rt_failed rt')" by blast
  have acc: "account c (wave_tasks async w @ concat (map (wave_tasks async) ws)) (js1 @ js2) out rt out' rt'"
    by (rule account_append [OF acc1 js2]) (use w Cons.prems(4) in auto)
  have ok: "d \<notin> dom (rt_failed rt')" if i: "i \<in> set js1" and d: "d \<in> set (deps i)" for i d
  proof -
    have iw: "i \<in> set w" using js1 i subseq_set [of js1 "wave_tasks async w"] by (auto simp: account_def)
    then have "d \<notin> (!) (cr_Tasks c) ` set (concat (w # ws))" using Cons.prems(9) d by auto
    moreover have "d \<notin> dom (rt_failed rt)"
    proof -
      have "i < length (cr_Tasks c)" using iw w(2) by auto
      then show ?thesis using ok1 i d Cons.prems(8) [of i] by auto
    qed
    moreover have "dom (rt_failed rt') \<subseteq> dom (rt_failed rt) \<union> (!) (cr_Tasks c) ` set (concat (w # ws))"
      using acc1 js2 by (auto simp: account_def)
    ultimately show ?thesis by blast
  qed
  have "\<forall>i\<in>set (js1 @ js2). \<forall>d\<in>set (deps i). d \<notin> dom (rt_failed rt')"
    using ok ok2 unfolding set_append by blast
  moreover have "account c (concat (map (wave_tasks async) (w # ws))) (js1 @ js2) out rt out' rt'" using acc by simp
  ultimately show ?case by blast
qed

lemma deps_earlier_conv:
  "deps_earlier deps T ws \<longleftrightarrow> (\<forall>m<length ws. \<forall>i\<in>set (ws ! m). set (deps i) \<inter> T ` set (concat (drop m ws)) = {})"
proof (induction ws)
  case (Cons w ws)
  show ?case unfolding deps_earlier.simps Cons.IH
    by (simp only: length_Cons All_less_Suc2 nth_Cons_0 nth_Cons_Suc drop_0 drop_Suc_Cons)
qed simp

text \<open>A task comes after another in a list.\<close>

definition before :: "'a list \<Rightarrow> 'a \<Rightarrow> 'a \<Rightarrow> bool" where
  "before xs j i \<longleftrightarrow> (\<exists>us vs. xs = us @ i # vs \<and> j \<in> set us)"

lemma before_subseq:
  assumes "before xs j i" "subseq ys xs" "distinct xs" "i \<in> set ys" "j \<in> set ys"
  shows "before ys j i"
proof -
  obtain us vs where xs: "xs = us @ i # vs" "j \<in> set us" using assms(1) by (auto simp: before_def)
  then obtain as bs where ys: "ys = as @ bs" "subseq as us" "subseq bs (i # vs)"
    using assms(2) by (auto simp: subseq_append_iff)
  have "i \<notin> set as" using ys(2) xs(1) assms(3) subseq_set [of as us i] by auto
  then have "i \<in> set bs" using assms(4) ys(1) by auto
  then obtain cs where cs: "bs = i # cs"
    using ys(3) assms(3) xs(1) by (cases bs) (auto dest: subseq_set split: if_splits)
  have "j \<notin> set bs" using ys(3) xs assms(3) subseq_set [of bs "i # vs" j] by auto
  then have "j \<in> set as" using assms(5) ys(1) by auto
  then show ?thesis using ys(1) cs by (auto simp: before_def)
qed

lemma before_waves:
  assumes "m' < m" "m < length ws" "j \<in> set (ws ! m')" "i \<in> set (ws ! m)" "\<And>w. set (f w) = set w"
  shows "before (concat (map f ws)) j i"
proof -
  have ws: "ws = take m ws @ ws ! m # drop (Suc m) ws" using assms(2) by (simp add: id_take_nth_drop [symmetric])
  obtain as bs where ab: "f (ws ! m) = as @ i # bs" using assms(4,5) by (metis split_list)
  have "ws ! m' \<in> set (take m ws)" using assms(1,2) by (auto simp: in_set_conv_nth)
  then have "j \<in> set (concat (map f (take m ws)))" using assms(3,5) by auto
  moreover have "concat (map f ws) = (concat (map f (take m ws)) @ as) @ i # (bs @ concat (map f (drop (Suc m) ws)))"
    by (subst ws) (simp add: ab)
  ultimately show ?thesis unfolding before_def by (metis Un_iff set_append)
qed

section \<open>From the planner to the run\<close>

lemma plan_layers:
  assumes plan: "planWaves ctx tasks = Inr p"
  shows "distinct (concat (waves p))" "set (concat (waves p)) = {..<length tasks}" "distinct tasks"
    "deps_earlier (\<lambda>i. ctx (tasks ! i)) ((!) tasks) (waves p)"
    "\<And>i j. i < length tasks \<Longrightarrow> j < length tasks \<Longrightarrow> tasks ! j \<in> set (ctx (tasks ! i)) \<Longrightarrow>
       \<exists>m m'. m' < m \<and> m < length (waves p) \<and> j \<in> set (waves p ! m') \<and> i \<in> set (waves p ! m)"
proof -
  obtain R where R: "layered R (waves p)" "set (concat (waves p)) = {..<length tasks}" "distinct tasks"
    "\<forall>k<length tasks. set (R k) = {j. dep_edge ctx tasks j k}" using planWaves_Inr [OF plan] by metis
  show d: "distinct (concat (waves p))" using R(1) by (simp add: layered_def)
  show "set (concat (waves p)) = {..<length tasks}" "distinct tasks" by (fact R)+
  have wave: "\<exists>m<length (waves p). i \<in> set (waves p ! m)" if "i < length tasks" for i
  proof -
    have "i \<in> set (concat (waves p))" using R(2) that by blast
    then show ?thesis by (auto simp: in_set_conv_nth [of _ "waves p"])
  qed
  have rank: "\<exists>m'<m. j \<in> set (waves p ! m')"
    if "i \<in> set (waves p ! m)" "m < length (waves p)" "j < length tasks" "tasks ! j \<in> set (ctx (tasks ! i))" for i j m
  proof -
    have "i \<in> set (concat (waves p))" using that(1,2) by auto
    then have "i < length tasks" using R(2) by blast
    then have "j \<in> set (R i)" using R(4) that(3,4) by (simp add: dep_edge_def)
    then show ?thesis by (rule layered_rank [OF R(1) _ that(1,2)])
  qed
  show "\<exists>m m'. m' < m \<and> m < length (waves p) \<and> j \<in> set (waves p ! m') \<and> i \<in> set (waves p ! m)"
    if "i < length tasks" "j < length tasks" "tasks ! j \<in> set (ctx (tasks ! i))" for i j
    using wave [OF that(1)] rank that(2,3) by blast
  show "deps_earlier (\<lambda>i. ctx (tasks ! i)) ((!) tasks) (waves p)"
    unfolding deps_earlier_conv
  proof (intro allI impI ballI)
    fix m i assume m: "m < length (waves p)" "i \<in> set (waves p ! m)"
    have "False" if jd: "j \<in> set (concat (drop m (waves p)))" and dep: "tasks ! j \<in> set (ctx (tasks ! i))" for j
    proof -
      have "j \<in> set (concat (waves p))" using jd by (auto dest: in_set_dropD)
      then have "j < length tasks" using R(2) by blast
      then obtain m' where m': "m' < m" "j \<in> set (waves p ! m')" using rank [OF m(2,1) _ dep] by blast
      obtain w where "w \<in> set (drop m (waves p))" "j \<in> set w" using jd by auto
      then obtain k where k: "k < length (waves p) - m" "j \<in> set (waves p ! (m + k))"
        by (auto simp: in_set_conv_nth [of _ "drop m (waves p)"])
      then have "m + k < length (waves p)" by simp
      from wave_unique [OF d this _ k(2) m'(2)] m' m show False by simp
    qed
    then show "set (ctx (tasks ! i)) \<inter> (!) tasks ` set (concat (drop m (waves p))) = {}" by blast
  qed
qed

text \<open>What an asynchronous run of a planned crew delivers.\<close>

definition delivered :: "'w crew \<Rightarrow> 'w rt \<Rightarrow> 'w rt \<Rightarrow> crewOutput \<Rightarrow> nat list \<Rightarrow> bool" where
  "delivered c rt rt' out js \<longleftrightarrow>
     distinct js \<and> set js = {i. i < length (cr_Tasks c) \<and> rt_failed rt' (cr_Tasks c ! i) = None}
     \<and> map to_Task (co_TasksOutput out) = map (crew_label c rt) js
     \<and> (cr_AsyncFailFast c \<longrightarrow> length js = length (cr_Tasks c))
     \<and> (\<forall>i\<in>set js. \<forall>j<length (cr_Tasks c). cr_Tasks c ! j \<in> set (tk_Context (rt_tasks rt (cr_Tasks c ! i))) \<longrightarrow> before js j i)"

lemma runAsyncWaves_delivered:
  assumes run: "runAsyncWaves en c sch ctx 0 (waves p) agents empty_output rt = (rt', Inr out)"
    and plan: "crew_plan c rt = Inr p" and a: "allocated c rt" "agents = None \<Longrightarrow> found c rt" and f: "rt_failed rt = Map.empty"
  shows "\<exists>js. delivered c rt rt' out js"
proof -
  let ?T = "cr_Tasks c" and ?async = "\<lambda>i. tk_Async (rt_tasks rt (cr_Tasks c ! i))"
  let ?deps = "\<lambda>i. tk_Context (rt_tasks rt (cr_Tasks c ! i))"
  let ?L = "concat (map (wave_tasks ?async) (waves p))"
  note pl = plan_layers [OF plan [unfolded crew_plan_def]]
  obtain js where acc: "account c ?L js empty_output rt out rt'" and deps: "\<forall>i\<in>set js. \<forall>d\<in>set (?deps i). d \<notin> dom (rt_failed rt')"
    using runAsyncWaves_account [OF run pl(1) _ a, of ?async ?deps] pl(2,4) f by auto
  have L: "set ?L = {..<length ?T}" using pl(2) by auto
  have "distinct ?L"
  proof -
    have "mset ?L = mset (concat (waves p))" by (rule mset_wave_tasks)
    then show ?thesis using pl(1) by (metis mset_eq_imp_distinct_iff)
  qed
  have sub: "subseq js ?L" using acc by (simp add: account_def)
  then have js: "distinct js" "set js \<subseteq> {..<length ?T}"
    using \<open>distinct ?L\<close> distinct_subseq [of js ?L] subseq_set [of js ?L] unfolding L [symmetric] by auto
  have dom: "dom (rt_failed rt') = (!) ?T ` ({..<length ?T} - set js)" using acc f L by (simp add: account_def)
  have inj: "i = j" if "i < length ?T" "j < length ?T" "?T ! i = ?T ! j" for i j
    using that pl(3) by (simp add: nth_eq_iff_index_eq)
  have failed: "rt_failed rt' (?T ! i) = None \<longleftrightarrow> i \<in> set js" if "i < length ?T" for i
  proof -
    have "?T ! i \<in> dom (rt_failed rt') \<longleftrightarrow> i \<notin> set js" unfolding dom using that inj by blast
    then show ?thesis by auto
  qed
  have order: "before js j i" if i: "i \<in> set js" and j: "j < length ?T" "?T ! j \<in> set (?deps i)" for i j
  proof -
    have "i < length ?T" using i js(2) by blast
    then obtain m m' where "m' < m" "m < length (waves p)" "j \<in> set (waves p ! m')" "i \<in> set (waves p ! m)"
      using pl(5) j by blast
    then have "before ?L j i" by (rule before_waves) simp
    moreover have "j \<in> set js" using deps i j failed [OF j(1)] by (simp add: domIff)
    ultimately show ?thesis using before_subseq sub \<open>distinct ?L\<close> i by metis
  qed
  have "length js = length ?T" if "cr_AsyncFailFast c"
  proof -
    have "js = ?L" using acc that by (simp add: account_def)
    then have "set js = {..<length ?T}" using L by simp
    then show ?thesis using distinct_card [OF js(1)] by simp
  qed
  then show ?thesis
    using js failed acc order by (intro exI [of _ js]) (auto simp: delivered_def account_def empty_output_def)
qed

section \<open>The processes\<close>

lemma framed_delegate [framed_rules]: "framed r rt \<Longrightarrow> framed r (fst (delegate c ctx m t rt))"
  unfolding delegate_def by (rule framed_rules | assumption)+

lemma framed_assigned_agent [framed_rules]: "framed r rt \<Longrightarrow> framed r (fst (assigned_agent c ctx m t rt))"
  unfolding assigned_agent_def by (rule framed_rules | assumption)+

lemma framed_resolve_agents [framed_rules]: "framed r rt \<Longrightarrow> framed r (fst (resolve_agents c ctx m ts rt))"
proof (induction ts arbitrary: rt)
  case (Cons t ts)
  show ?case unfolding resolve_agents.simps by (rule framed_rules Cons | assumption)+
qed simp

lemma framed_runCrewGuardrails [framed_rules]: "framed r rt \<Longrightarrow> framed r (fst (runCrewGuardrails ctx gs out rt))"
proof (induction gs arbitrary: rt)
  case (Cons g gs)
  show ?case unfolding runCrewGuardrails.simps Let_def by (rule framed_rules Cons | assumption)+
qed simp

lemma has_async_kept: "allocated c rt \<Longrightarrow> kept rt rt' \<Longrightarrow> has_async c rt' = has_async c rt"
  by (auto simp: has_async_def allocated_def kept_node)

lemma delivered_kept:
  assumes "delivered c rt1 rt2 out js" "kept rt rt1" "allocated c rt" "rt_failed rt3 = rt_failed rt2"
  shows "delivered c rt rt3 out js"
proof -
  have js: "i < length (cr_Tasks c)" if "i \<in> set js" for i using assms(1) that by (auto simp: delivered_def)
  have "map (crew_label c rt1) js = map (crew_label c rt) js"
    using crew_label_kept [OF assms(3,2)] js by simp
  moreover have "tk_Context (rt_tasks rt1 (cr_Tasks c ! i)) = tk_Context (rt_tasks rt (cr_Tasks c ! i))" if "i \<in> set js" for i
    using js [OF that] assms(2,3) by (simp add: kept_node allocated_def)
  ultimately show ?thesis using assms(1,4) by (simp add: delivered_def)
qed

lemma run_process_delivered:
  assumes run: "run_process en c sch ssch ctx rt = (rt', Inr out)"
    and p: "cr_Process c = Sequential \<and> found c rt \<or> cr_Process c = Hierarchical" "has_async c rt"
    and a: "allocated c rt" and f: "rt_failed rt = Map.empty"
  shows "\<exists>js. delivered c rt rt' out js"
proof (cases "cr_Process c = Sequential")
  case True
  then have "found c rt" using p(1) by (auto simp: Sequential_def Hierarchical_def)
  moreover obtain p where "crew_plan c rt = Inr p" "runAsyncWaves en c sch ctx 0 (waves p) None empty_output rt = (rt', Inr out)"
    using run True p(2) by (auto simp: run_process_def runSequentialWithPlan_def split: sum.splits)
  ultimately show ?thesis using runAsyncWaves_delivered a f by blast
next
  case False
  then have h: "runHierarchical en c sch ctx rt = (rt', Inr out)"
    using run p(1) by (auto simp: run_process_def)
  obtain m rt1 as p where r: "resolve_agents c ctx m (cr_Tasks c) rt = (rt1, Inr as)" and pl: "crew_plan c rt1 = Inr p"
    and run1: "runAsyncWaves en c sch ctx 0 (waves p) (Some as) empty_output rt1 = (rt', Inr out)"
    using h p(2) by (auto simp: runHierarchical_def split: sum.splits prod.splits)
  have fr: "framed rt rt1" using framed_resolve_agents [OF framed_refl, of rt c ctx m "cr_Tasks c"] r by simp
  have k: "kept rt rt1" by (rule framed_kept [OF fr])
  have "rt_failed rt1 = Map.empty" using framed_failed [OF fr] f by simp
  from runAsyncWaves_delivered [OF run1 pl allocated_kept [OF a k] _ this]
  obtain js where "delivered c rt1 rt' out js" by auto
  then show ?thesis using delivered_kept [OF _ k a] by blast
qed

section \<open>Kickoff\<close>

lemma kept_update_agent: "kept r rt \<Longrightarrow> kept r (update_agent f i rt)"
  by (simp add: kept_def update_agent_def)

lemma kept_fold: "(\<And>x rt. kept r rt \<Longrightarrow> kept r (f x rt)) \<Longrightarrow> kept r rt \<Longrightarrow> kept r (fold f xs rt)"
  by (induction xs arbitrary: rt) auto

lemma kept_interpolate: "kept r rt \<Longrightarrow> kept r (set_task t (interpolate en inputs) rt)"
  by (auto simp: kept_def set_task_def same_node_def interpolate_def)

lemma failed_fold: "(\<And>x rt. rt_failed (f x rt) = rt_failed rt) \<Longrightarrow> rt_failed (fold f xs rt) = rt_failed rt"
  by (induction xs arbitrary: rt) auto

lemma kickoff_attach_same: "kept rt (kickoff_attach en inputs c rt)" "rt_failed (kickoff_attach en inputs c rt) = rt_failed rt"
proof -
  have "kept rt (attachDelegationTools c rt1)" "kept rt (attachMemoryTools c rt1)" if "kept rt rt1" for rt1
    using that by (auto simp: attachDelegationTools_def attachMemoryTools_def intro!: kept_fold kept_update_agent)
  then show "kept rt (kickoff_attach en inputs c rt)"
    by (auto simp: kickoff_attach_def Let_def intro!: kept_fold kept_interpolate)
  have "rt_failed (fold (update_agent g) xs rt1) = rt_failed rt1" for g xs and rt1 :: "'a rt"
    by (rule failed_fold) (simp add: update_agent_def)
  moreover have "rt_failed (fold (\<lambda>t. set_task t (interpolate en inputs)) xs rt1) = rt_failed rt1" for xs and rt1 :: "'a rt"
    by (rule failed_fold) (simp add: set_task_def)
  ultimately show "rt_failed (kickoff_attach en inputs c rt) = rt_failed rt"
    by (simp add: kickoff_attach_def attachDelegationTools_def attachMemoryTools_def)
qed

lemma kickoff_ctx_framed: "framed rt (fst (kickoff_ctx en c ctx rt))"
  unfolding kickoff_ctx_def Let_def by (auto simp: framed_outside framed_on_world outside_def framed_def split: prod.split)

text \<open>
  A run of \<^verbatim>\<open>Kickoff\<close> outside the staged process, reduced to the run of its process: the graph is
  the one of the start, nothing has failed, and nothing fails afterwards.
\<close>

lemma Kickoff_process:
  assumes k: "Kickoff en sch ssch running ctx inputs c rt = (rt', c', Inr out)" and p: "cr_Process c \<noteq> Staged"
  obtains rt1 rt2 ctx1 where "run_process en c' sch ssch ctx1 rt1 = (rt2, Inr out)" "kept rt rt1"
    "rt_failed rt1 = Map.empty" "rt_failed rt' = rt_failed rt2" "cr_Tasks c' = cr_Tasks c" "cr_Agents c' = cr_Agents c"
    "cr_AsyncFailFast c' = cr_AsyncFailFast c" "cr_Process c = Hierarchical \<longrightarrow> cr_Process c' = Hierarchical"
    "cr_Process c' = Sequential \<or> cr_Process c' = Hierarchical"
proof -
  from k obtain rt1 rt2 ctx2 where chk: "kickoff_check (kickoff_crew c) = None"
    and r: "kickoff_resolve en (kickoff_crew c) rt = (rt1, c')"
    and x: "kickoff_ctx en c' ctx (kickoff_attach en inputs c' rt1) = (rt2, ctx2)"
    and run: "kickoff_run en c' sch ssch ctx2 rt2 = (rt', Inr out)" by (rule Kickoff_Inr)
  let ?rt3 = "on_world (emitEvent ctx2 (event EventKickoffStarted)) rt2"
  from run obtain rt4 rt5 where proc: "run_process en c' sch ssch ctx2 ?rt3 = (rt4, Inr out)"
    and g: "runCrewGuardrails ctx2 (cr_Guardrails c') out rt4 = (rt5, None)"
    and rt': "rt' = on_world (emitEvent ctx2 (event EventKickoffCompleted)) rt5" by (rule kickoff_run_Inr)
  note fr = kickoff_resolve_frame [OF r]
  have "kept rt rt1" using fr by (simp add: kept_def same_node_def)
  moreover have f2: "framed (kickoff_attach en inputs c' rt1) ?rt3"
    using kickoff_ctx_framed [of "kickoff_attach en inputs c' rt1" en c' ctx] x by (simp add: framed_on_world)
  ultimately have k3: "kept rt ?rt3" using kickoff_attach_same(1) framed_kept kept_trans by blast
  have fail: "rt_failed ?rt3 = Map.empty" using framed_failed [OF f2] kickoff_attach_same(2) [of en inputs c' rt1] fr by simp
  have "framed rt4 rt5" using framed_runCrewGuardrails [OF framed_refl, of rt4 ctx2 "cr_Guardrails c'" out] g by simp
  then have failed': "rt_failed rt' = rt_failed rt4" using rt' by (simp add: framed_failed)
  have "cr_Process c' = Sequential \<or> cr_Process c' = Hierarchical"
    using chk p fr by (auto simp: kickoff_check_def process_valid_def kickoff_crew_def split: if_splits)
  moreover have "cr_Process c = Hierarchical \<longrightarrow> cr_Process c' = Hierarchical"
    using fr by (simp add: kickoff_crew_def Hierarchical_def)
  ultimately show ?thesis using that [OF proc k3 fail failed'] fr by (simp add: kickoff_crew_def)
qed

section \<open>Without Async tasks\<close>

lemma run_serial_task_account:
  assumes "run_serial_task en c ctx i (cr_Tasks c ! i) a out rt = (rt', Inr out')"
    and "i < length (cr_Tasks c)" "allocated c rt"
  shows "account c [i] [i] out rt out' rt'"
proof -
  let ?t = "cr_Tasks c ! i" and ?rt0 = "task_progress ctx ''task_started'' [] (cr_Tasks c ! i) i a None rt"
  obtain rt1 r fs where e: "execute en c ctx a ?t ?rt0 = (rt1, r, fs, None)"
    and f: "fold_result ?t i a r fs out (task_progress ctx ''task_completed'' [] ?t i a None rt1) = (rt', out')"
    using assms(1) by (auto simp: run_serial_task_def split: prod.split_asm option.split_asm)
  let ?rt2 = "task_progress ctx ''task_completed'' [] ?t i a None rt1"
  have "framed rt rt1" using framed_execute [OF framed_task_progress [OF framed_refl]] e by (metis fst_conv)
  then have fr: "framed rt ?rt2" by (rule framed_task_progress)
  have "account c [i] [i] out ?rt2 out' rt'"
    using account_done [OF assms(2), of out ?rt2 a r fs] f by (simp add: fold_result_add)
  then show ?thesis using account_pre [OF framed_kept [OF fr] framed_failed [OF fr]] assms(2,3) by simp
qed

lemma account_empty: "account c is is out rt out' rt' \<Longrightarrow> rt_failed rt = Map.empty \<Longrightarrow> rt_failed rt' = Map.empty"
  by (simp add: account_def)

text \<open>One task of a serial loop, and the rest.\<close>

lemma account_next:
  assumes "run_serial_task en c ctx i (cr_Tasks c ! i) a out rt = (rt1, Inr out1)" "i < length (cr_Tasks c)" "allocated c rt"
    and "rt_failed rt = Map.empty"
    and "allocated c rt1 \<Longrightarrow> rt_failed rt1 = Map.empty \<Longrightarrow> account c [Suc i..<length (cr_Tasks c)] [Suc i..<length (cr_Tasks c)] out1 rt1 out' rt'"
  shows "account c [i..<length (cr_Tasks c)] [i..<length (cr_Tasks c)] out rt out' rt'"
proof -
  have a: "account c [i] [i] out rt out1 rt1" by (rule run_serial_task_account [OF assms(1-3)])
  then have "kept rt rt1" by (simp add: account_def)
  then have "account c [Suc i..<length (cr_Tasks c)] [Suc i..<length (cr_Tasks c)] out1 rt1 out' rt'"
    using assms(3,5) account_empty [OF a assms(4)] allocated_kept by blast
  moreover have "set [i] \<inter> set [Suc i..<length (cr_Tasks c)] = {}" "set [Suc i..<length (cr_Tasks c)] \<subseteq> {..<length (cr_Tasks c)}"
    by auto
  ultimately show ?thesis using account_append [OF a _ _ assms(3)] assms(2) by (simp add: upt_conv_Cons)
qed

lemma serial_loop_account:
  "serial_loop en c ctx i (drop i (cr_Tasks c)) out rt = (rt', Inr out') \<Longrightarrow> allocated c rt \<Longrightarrow> rt_failed rt = Map.empty \<Longrightarrow>
   account c [i..<length (cr_Tasks c)] [i..<length (cr_Tasks c)] out rt out' rt'"
proof (induction "length (cr_Tasks c) - i" arbitrary: i out rt)
  case 0
  then show ?case by (auto intro: account_Nil)
next
  case (Suc n)
  then have i: "i < length (cr_Tasks c)" and d: "drop i (cr_Tasks c) = cr_Tasks c ! i # drop (Suc i) (cr_Tasks c)"
    by (simp_all add: Cons_nth_drop_Suc)
  have "failedUpstream rt (cr_Tasks c ! i) = None" using Suc.prems(3) by (simp add: failedUpstream_None)
  then obtain a rt1 out1 where 1: "run_serial_task en c ctx i (cr_Tasks c ! i) a out rt = (rt1, Inr out1)"
    and 2: "serial_loop en c ctx (Suc i) (drop (Suc i) (cr_Tasks c)) out1 rt1 = (rt', Inr out')"
    using Suc.prems(1) d by (auto split: option.split_asm prod.split_asm sum.split_asm)
  show ?case
    by (rule account_next [OF 1 i Suc.prems(2,3)]) (use Suc.hyps(1) [OF _ 2] Suc.hyps(2) in simp)
qed

lemma hierarchical_loop_account:
  "hierarchical_loop en c ctx m i (drop i (cr_Tasks c)) out rt = (rt', Inr out') \<Longrightarrow> allocated c rt \<Longrightarrow> rt_failed rt = Map.empty \<Longrightarrow>
   account c [i..<length (cr_Tasks c)] [i..<length (cr_Tasks c)] out rt out' rt'"
proof (induction "length (cr_Tasks c) - i" arbitrary: i out rt)
  case 0
  then show ?case by (auto intro: account_Nil)
next
  case (Suc n)
  then have i: "i < length (cr_Tasks c)" and d: "drop i (cr_Tasks c) = cr_Tasks c ! i # drop (Suc i) (cr_Tasks c)"
    by (simp_all add: Cons_nth_drop_Suc)
  obtain a rt0 rt1 out1 where 0: "assigned_agent c ctx m (cr_Tasks c ! i) rt = (rt0, Inr a)"
    and 1: "run_serial_task en c ctx i (cr_Tasks c ! i) a out rt0 = (rt1, Inr out1)"
    and 2: "hierarchical_loop en c ctx m (Suc i) (drop (Suc i) (cr_Tasks c)) out1 rt1 = (rt', Inr out')"
    using Suc.prems(1) d by (auto split: prod.split_asm sum.split_asm)
  have fr: "framed rt rt0" using framed_assigned_agent [OF framed_refl, of rt c ctx m "cr_Tasks c ! i"] 0 by simp
  have a0: "allocated c rt0" by (rule allocated_kept [OF Suc.prems(2) framed_kept [OF fr]])
  have f0: "rt_failed rt0 = Map.empty" using framed_failed [OF fr] Suc.prems(3) by simp
  have "account c [i..<length (cr_Tasks c)] [i..<length (cr_Tasks c)] out rt0 out' rt'"
    by (rule account_next [OF 1 i a0 f0]) (use Suc.hyps(1) [OF _ 2] Suc.hyps(2) in simp)
  then show ?case by (rule account_pre [OF framed_kept [OF fr] framed_failed [OF fr]]) (use Suc.prems(2) in auto)
qed

lemma run_process_serial:
  assumes run: "run_process en c sch ssch ctx rt = (rt', Inr out)"
    and p: "cr_Process c = Sequential \<or> cr_Process c = Hierarchical" "\<not> has_async c rt"
    and a: "allocated c rt" and f: "rt_failed rt = Map.empty"
  shows "account c [0..<length (cr_Tasks c)] [0..<length (cr_Tasks c)] empty_output rt out rt'"
proof (cases "cr_Process c = Sequential")
  case True
  then have "serial_loop en c ctx 0 (drop 0 (cr_Tasks c)) empty_output rt = (rt', Inr out)"
    using run p(2) by (simp add: run_process_def runSequentialWithPlan_def runSequentialSerial_def)
  then show ?thesis using a f by (rule serial_loop_account)
next
  case False
  then obtain m where "hierarchical_loop en c ctx m 0 (drop 0 (cr_Tasks c)) empty_output rt = (rt', Inr out)"
    using run p by (auto simp: run_process_def runHierarchical_def split: sum.splits)
  then show ?thesis using a f by (rule hierarchical_loop_account)
qed

section \<open>Properties\<close>

text \<open>
  C1. What an asynchronous run delivers that returns an output, in the sequential and the hierarchical
  process, whatever the order in which the goroutines of a group finish: the output lists exactly the tasks that did not fail, each once, and each after all the
  tasks of the crew it depends on, which did not fail either; with \<^verbatim>\<open>AsyncFailFast\<close> that is every
  task. So a task never runs on the output of a failed dependency. The tasks of the crew exist
  (\<open>allocated\<close>), one of them is Async, and no task can be without an agent unnoticed: \<^verbatim>\<open>AsyncFailFast\<close> is
  on, or the manager assigns agents, or every task has an agent of its own or the crew has agents
  (\<open>staffed\<close>). Otherwise the code is wrong and the statement false, see \<open>Kickoff_async_unstaffed\<close>.
\<close>
theorem Kickoff_async:
  assumes k: "Kickoff en sch ssch running ctx inputs c rt = (rt', c', Inr out)"
    and p: "cr_Process c \<noteq> Staged" "has_async c rt" and a: "allocated c rt"
    and st: "cr_AsyncFailFast c \<or> cr_Process c = Hierarchical \<or> staffed c rt"
  shows "\<exists>js. distinct js
    \<and> set js = {i. i < length (cr_Tasks c) \<and> rt_failed rt' (cr_Tasks c ! i) = None}
    \<and> map to_Task (co_TasksOutput out) = map (crew_label c rt) js
    \<and> (cr_AsyncFailFast c \<longrightarrow> length js = length (cr_Tasks c))
    \<and> (\<forall>i\<in>set js. \<forall>j<length (cr_Tasks c).
         cr_Tasks c ! j \<in> set (tk_Context (rt_tasks rt (cr_Tasks c ! i))) \<longrightarrow> before js j i)"
proof -
  from k p(1) obtain rt1 rt2 ctx1 where proc: "run_process en c' sch ssch ctx1 rt1 = (rt2, Inr out)"
    and k1: "kept rt rt1" and f: "rt_failed rt1 = Map.empty" and f': "rt_failed rt' = rt_failed rt2"
    and same: "cr_Tasks c' = cr_Tasks c" "cr_Agents c' = cr_Agents c" "cr_AsyncFailFast c' = cr_AsyncFailFast c"
      "cr_Process c = Hierarchical \<longrightarrow> cr_Process c' = Hierarchical"
    and pr: "cr_Process c' = Sequential \<or> cr_Process c' = Hierarchical" by (rule Kickoff_process)
  have a': "allocated c' rt" "has_async c' rt" "found c' rt \<or> cr_Process c = Hierarchical"
    using a st p(2) same by (auto simp: allocated_def found_def staffed_def has_async_def)
  have "cr_Process c' = Sequential \<and> found c' rt1 \<or> cr_Process c' = Hierarchical"
    using a'(3) pr same(4) found_kept [OF _ a'(1) k1] by auto
  then have "\<exists>js. delivered c' rt1 rt2 out js"
    using run_process_delivered [OF proc] has_async_kept [OF a'(1) k1] a'(2) allocated_kept [OF a'(1) k1] f by blast
  then obtain js where "delivered c' rt rt' out js" using delivered_kept [OF _ k1 a'(1) f'] by blast
  then show ?thesis using same by (intro exI [of _ js]) (simp add: delivered_def crew_label_def)
qed

text \<open>
  C16. Without Async tasks the sequential and the hierarchical process report every task of the
  crew, in declaration order, or fail: a run that returns skips nothing.
\<close>
theorem Kickoff_serial:
  assumes k: "Kickoff en sch ssch running ctx inputs c rt = (rt', c', Inr out)"
    and p: "cr_Process c \<noteq> Staged" "\<not> has_async c rt" and a: "allocated c rt"
  shows "map to_Task (co_TasksOutput out) = map (crew_label c rt) [0..<length (cr_Tasks c)]
    \<and> rt_failed rt' = Map.empty"
proof -
  from k p(1) obtain rt1 rt2 ctx1 where proc: "run_process en c' sch ssch ctx1 rt1 = (rt2, Inr out)"
    and k1: "kept rt rt1" and f: "rt_failed rt1 = Map.empty" and f': "rt_failed rt' = rt_failed rt2"
    and same: "cr_Tasks c' = cr_Tasks c" and pr: "cr_Process c' = Sequential \<or> cr_Process c' = Hierarchical"
    by (rule Kickoff_process)
  have a': "allocated c' rt" "\<not> has_async c' rt" using a p(2) same by (simp_all add: allocated_def has_async_def)
  have acc: "account c' [0..<length (cr_Tasks c')] [0..<length (cr_Tasks c')] empty_output rt1 out rt2"
    using run_process_serial [OF proc pr _ _ f] has_async_kept [OF a'(1) k1] a'(2) allocated_kept [OF a'(1) k1] by blast
  have "map to_Task (co_TasksOutput out) = map (crew_label c' rt) [0..<length (cr_Tasks c')]"
    using acc crew_label_kept [OF a'(1) k1] by (simp add: account_def empty_output_def)
  then show ?thesis using account_empty [OF acc f] f' same by (simp add: crew_label_def)
qed

text \<open>
  An Async task for which no agent can be found is neither reported nor failed when
  \<^verbatim>\<open>AsyncFailFast\<close> is off: the run succeeds without it, and a task that depends on it runs on the
  missing output. (The recorded \<^verbatim>\<open>ErrNoAgent\<close> is only looked at in the fail-fast branch, and the
  fold skips the zero result.)
\<close>
theorem Kickoff_async_unstaffed:
  "let c = (NewCrew [] [1, 2])\<lparr>cr_AsyncFailFast := False\<rparr>;
       rt = (new_rt ())\<lparr>rt_agents := (\<lambda>_. demo_agent),
              rt_tasks := (\<lambda>t. if t = 1 then WithAsync (NewTask [] [] None)
                               else WithContext [1] (WithAsync (NewTask [] [] (Some 0))))\<rparr>
   in case Kickoff demo_env demo_sched demo_ssched False background [] c rt of
        (rt', c', Inr out) \<Rightarrow> map to_Task (co_TasksOutput out) = [''Task 2''] \<and> rt_failed rt' 1 = None
      | _ \<Rightarrow> False"
  by code_simp

section \<open>Witnesses\<close>

text \<open>Three Async tasks: the first fails, the second depends on it, the third is independent.\<close>

definition async_crew :: "'w crew" where
  "async_crew = (NewCrew [0] [1, 2, 3])\<lparr>cr_AsyncFailFast := False\<rparr>"

definition async_rt :: "unit rt" where
  "async_rt = (new_rt ())\<lparr>
     rt_agents := (\<lambda>_. demo_agent\<lparr>ag_Loop := Some (OtherLoop (\<lambda>ctx i t c w.
        (w, if t = 1 then ([], [], Some (Plain ''down'')) else (''ok'', [], None))))\<rparr>),
     rt_tasks := (\<lambda>t. WithContext (if t = 2 then [1] else []) (WithAsync (NewTask [] [] None)))\<rparr>"

lemma async_run:
  "case Kickoff demo_env demo_sched demo_ssched False background [] async_crew async_rt of
     (rt', c', Inr out) \<Rightarrow> map to_Task (co_TasksOutput out) = [''Task 3'']
   | _ \<Rightarrow> False"
  by code_simp

lemma Kickoff_async_witness:
  "\<exists>rt' c' out. Kickoff demo_env demo_sched demo_ssched False background [] async_crew async_rt = (rt', c', Inr out)
     \<and> (\<exists>i. {i. i < 3 \<and> rt_failed rt' ([1, 2, 3] ! i) = None} = {i})"
proof -
  obtain rt' c' r where k: "Kickoff demo_env demo_sched demo_ssched False background [] async_crew async_rt = (rt', c', r)"
    using prod_cases3 by blast
  then obtain out where r: "r = Inr out" "map to_Task (co_TasksOutput out) = [''Task 3'']"
    using async_run by (cases r) auto
  have "cr_Process (async_crew :: unit crew) \<noteq> Staged"
    by (simp add: async_crew_def NewCrew_def Sequential_def Staged_def)
  moreover have "has_async async_crew async_rt" "allocated async_crew async_rt" "staffed async_crew async_rt"
    by (auto simp: has_async_def allocated_def staffed_def async_crew_def NewCrew_def async_rt_def new_rt_def
        WithAsync_def WithContext_def NewTask_def)
  ultimately obtain js where js: "set js = {i. i < length (cr_Tasks (async_crew :: unit crew)) \<and> rt_failed rt' (cr_Tasks (async_crew :: unit crew) ! i) = None}"
    "map to_Task (co_TasksOutput out) = map (crew_label async_crew async_rt) js"
    using Kickoff_async [OF k [unfolded r(1)]] by blast
  have "length js = 1" using js(2) r(2) by (metis length_map list.size(3,4) One_nat_def add_0)
  then obtain i where "js = [i]" by (auto simp: length_Suc_conv)
  then have "{i. i < 3 \<and> rt_failed rt' ([1, 2, 3] ! i) = None} = {i}" using js(1) by (simp add: async_crew_def NewCrew_def numeral_3_eq_3)
  then show ?thesis using k r(1) by blast
qed

lemma Kickoff_serial_witness:
  "\<exists>rt' c' out. Kickoff demo_env demo_sched demo_ssched False background []
      (demo_crew\<lparr>cr_Guardrails := [demo_guardrail]\<rparr>) (demo_rt ()) = (rt', c', Inr out)
    \<and> length (co_TasksOutput out) = 2 \<and> rt_failed rt' = Map.empty"
proof -
  let ?c = "demo_crew\<lparr>cr_Guardrails := [demo_guardrail :: unit guardrail]\<rparr>"
  obtain rt' c' out where k: "Kickoff demo_env demo_sched demo_ssched False background [] ?c (demo_rt ()) = (rt', c', Inr out)"
    by (rule demo_kickoff_returns)
  have "cr_Process ?c \<noteq> Staged" by (simp add: demo_crew_def NewCrew_def Sequential_def Staged_def)
  moreover have "\<not> has_async ?c (demo_rt ())" "allocated ?c (demo_rt ())"
    by (auto simp: has_async_def allocated_def demo_crew_def NewCrew_def demo_rt_def new_rt_def NewTask_def)
  ultimately have r: "map to_Task (co_TasksOutput out) = map (crew_label ?c (demo_rt ())) [0..<length (cr_Tasks ?c)] \<and> rt_failed rt' = Map.empty"
    by (rule Kickoff_serial [OF k])
  then have "length (co_TasksOutput out) = length (cr_Tasks ?c)" by (metis length_map length_upt diff_zero)
  then show ?thesis using k r by (simp add: demo_crew_def NewCrew_def)
qed

end
