(* ===== verification/TraceSafe.thy ===== *)
theory TraceSafe
  imports CrewOutput Frame
begin

text \<open>
  A whole run of a crew, in every process, is made of what tasks may do and of a few changes of the
  bookkeeping; whatever relation these keep, \<open>Kickoff\<close> keeps. The instance here is the discretion of the
  trace recorder.
\<close>

section \<open>Relations that runs keep\<close>

named_theorems run_rules

locale run_relation =
  fixes R :: "'w rt \<Rightarrow> 'w rt \<Rightarrow> bool"
  assumes of_frame: "framed a b \<Longrightarrow> R a b"
    and R_trans: "R a b \<Longrightarrow> R b c \<Longrightarrow> R a c"
    and of_failed: "R a (a\<lparr>rt_failed := x\<rparr>)"
    and of_buffer: "R a (a\<lparr>rt_buffering := on, rt_memBuf := m\<rparr>)"
    and of_agents: "R a (a\<lparr>rt_agents := y\<rparr>)"
    and of_tasks: "R a (set_task t f a)"
    and of_reset: "R a (with_tracer trace_Reset a)"
    and of_publish: "R a (publishTrace t a)"
begin

text \<open>Control flow.\<close>

lemma leaf [run_rules]: "R r rt \<Longrightarrow> R r (fst (rt, x))"
  by simp

lemma prod [run_rules]:
  fixes p :: "'w rt \<times> 'a"
  shows "R r (fst p) \<Longrightarrow> (\<And>rt x. R r rt \<Longrightarrow> R r (fst (f rt x))) \<Longrightarrow> R r (fst (case p of (rt, x) \<Rightarrow> f rt x))"
  by (cases p) simp

lemma pair [run_rules]: "(\<And>a b. R r (fst (f a b))) \<Longrightarrow> R r (fst (case q of (a, b) \<Rightarrow> f a b))"
  by (cases q) simp

lemma sum [run_rules]:
  "(\<And>a. R r (fst (f a))) \<Longrightarrow> (\<And>b. R r (fst (g b))) \<Longrightarrow> R r (fst (case s of Inl a \<Rightarrow> f a | Inr b \<Rightarrow> g b))"
  by (cases s) simp_all

lemma option [run_rules]:
  "R r (fst f) \<Longrightarrow> (\<And>b. R r (fst (g b))) \<Longrightarrow> R r (fst (case s of None \<Rightarrow> f | Some b \<Rightarrow> g b))"
  by (cases s) simp_all

lemma list [run_rules]:
  "R r (fst f) \<Longrightarrow> (\<And>b bs. R r (fst (g b bs))) \<Longrightarrow> R r (fst (case s of [] \<Rightarrow> f | b # bs \<Rightarrow> g b bs))"
  by (cases s) simp_all

lemma bool [run_rules]: "R r (fst f) \<Longrightarrow> R r (fst g) \<Longrightarrow> R r (fst (case b of True \<Rightarrow> f | False \<Rightarrow> g))"
  by (cases b) simp_all

lemma cond [run_rules]: "R r (fst f) \<Longrightarrow> R r (fst g) \<Longrightarrow> R r (fst (if b then f else g))"
  by simp

lemma cond_rt [run_rules]: "R r f \<Longrightarrow> R r g \<Longrightarrow> R r (if b then f else g)"
  by simp

text \<open>The steps.\<close>

lemma then_step: "(\<And>a. R a (f a)) \<Longrightarrow> R r rt \<Longrightarrow> R r (f rt)"
  using R_trans by blast

lemma then_frame: "(\<And>r a. framed r a \<Longrightarrow> framed r (f a)) \<Longrightarrow> R r rt \<Longrightarrow> R r (f rt)"
  by (rule then_step) (simp_all add: of_frame)

lemma then_outside [run_rules]: "R r rt \<Longrightarrow> R r (fst (outside f rt))"
  using then_frame [of "\<lambda>a. fst (outside f a)"] framed_outside by blast

lemma then_on_world [run_rules]: "R r rt \<Longrightarrow> R r (on_world f rt)"
  using then_frame [of "on_world f"] framed_on_world by blast

lemma then_execute [run_rules]: "R r rt \<Longrightarrow> R r (fst (execute en c ctx i t rt))"
  using then_frame [of "\<lambda>a. fst (execute en c ctx i t a)"] framed_execute by blast

lemma then_commit_loop [run_rules]: "R r rt \<Longrightarrow> R r (commit_loop c ctx p s m ts rt)"
proof (induction ts arbitrary: rt)
  case (Cons t ts)
  have "R r (commit_entry c ctx p s t e rt)" for e
    using then_frame [of "commit_entry c ctx p s t e", OF _ Cons.prems] framed_commit_entry by blast
  then show ?case using Cons by (simp split: option.split)
qed simp

lemma then_markFailed [run_rules]: "R r rt \<Longrightarrow> R r (markFailed t e rt)"
  unfolding markFailed_def by (rule R_trans [OF _ of_failed])

lemma then_begin [run_rules]: "R r rt \<Longrightarrow> R r (beginMemoryBuffer rt)"
  unfolding beginMemoryBuffer_def by (rule R_trans [OF _ of_buffer])

lemma then_discard [run_rules]: "R r rt \<Longrightarrow> R r (discardMemoryBuffer rt)"
  unfolding discardMemoryBuffer_def by (rule R_trans [OF _ of_buffer])

lemma then_commit [run_rules]: "R r rt \<Longrightarrow> R r (commitMemoryBuffer c ctx ts p rt)"
proof -
  assume "R r rt"
  then have "R r (rt\<lparr>rt_buffering := False, rt_memBuf := []\<rparr>)" by (rule R_trans [OF _ of_buffer])
  moreover have "rt\<lparr>rt_buffering := False, rt_memBuf := []\<rparr> = rt\<lparr>rt_memBuf := [], rt_buffering := False\<rparr>" by (cases rt) simp
  ultimately have "R r (rt\<lparr>rt_memBuf := [], rt_buffering := False\<rparr>)" by simp
  then show ?thesis by (auto simp: commitMemoryBuffer_def Let_def then_commit_loop split: option.split)
qed

lemma then_progress [run_rules]: "R r rt \<Longrightarrow> R r (task_progress ctx ev s t i a er rt)" "R r rt \<Longrightarrow> R r (stage_progress ctx ev s rt)"
  by (simp_all add: task_progress_def stage_progress_def then_on_world)

lemma then_fold_result [run_rules]: "R r rt \<Longrightarrow> R r (fst (fold_result t i a x facts out rt))"
  by (simp add: fold_result_def Let_def R_trans [OF _ of_publish])

lemma then_fold [run_rules]: "(\<And>x rt. R r rt \<Longrightarrow> R r (f x rt)) \<Longrightarrow> R r rt \<Longrightarrow> R r (fold f xs rt)"
  by (induction xs arbitrary: rt) auto

section \<open>The processes\<close>

lemma then_recordErr [simp]: "gp_rt (recordErr b ti e g) = gp_rt g"
  by (simp add: recordErr_def)

lemma then_group_step: "R r (gp_rt s) \<Longrightarrow> R r (gp_rt (group_step en c ctx g giveUp ti s))"
proof -
  assume s: "R r (gp_rt s)"
  have "R r (fst (execute en c gctx a t (task_progress gctx ev l t ti a None (gp_rt s))))" for gctx a t ev l
    by (rule run_rules s)+
  then show ?thesis using s
    by (auto simp: group_step_def Let_def then_progress split: option.split prod.split) (metis fst_conv then_progress(1))+
qed

lemma then_runTaskGroup [run_rules]: "R r rt \<Longrightarrow> R r (fst (runTaskGroup en c sch ctx g rt))"
proof -
  have "R r (gp_rt s) \<Longrightarrow> R r (gp_rt (fold (group_step en c ctx g gu) xs s))" for gu xs s
    by (induction xs arbitrary: s) (simp_all add: then_group_step)
  then show "R r rt \<Longrightarrow> R r (fst (runTaskGroup en c sch ctx g rt))" by (simp add: runTaskGroup_def Let_def)
qed

lemma then_fold_wave [run_rules]: "R r rt \<Longrightarrow> R r (fst (fold_wave c label idxs results out rt))"
proof (induction idxs arbitrary: results out rt)
  case (Cons i idxs)
  show ?case
  proof (cases results)
    case results: (Cons res results')
    show ?thesis unfolding results fold_wave.simps Let_def by (rule run_rules Cons | assumption)+
  qed (simp add: Cons)
qed simp

lemma then_runWaveGroup [run_rules]: "R r rt \<Longrightarrow> R r (fst (runWaveGroup en c sch ctx label idxs agents out rt))"
  unfolding runWaveGroup_def Let_def by (rule run_rules | assumption)+

lemma then_run_groups [run_rules]: "R r rt \<Longrightarrow> R r (fst (run_groups en c sch ctx label gs agents out rt))"
proof (induction gs arbitrary: out rt)
  case (Cons g gs)
  show ?case unfolding run_groups.simps by (rule run_rules Cons | assumption)+
qed simp

lemma then_drop_failed [run_rules]: "R r rt \<Longrightarrow> R r (fst (drop_failed c is rt))"
proof (induction "is" arbitrary: rt)
  case (Cons i "is")
  show ?case unfolding drop_failed.simps by (rule run_rules Cons | assumption)+
qed simp

lemma then_run_wave [run_rules]: "R r rt \<Longrightarrow> R r (fst (run_wave en c sch ctx label wave agents out rt))"
  unfolding run_wave_def Let_def by (rule run_rules | assumption)+

lemma then_runAsyncWaves [run_rules]: "R r rt \<Longrightarrow> R r (fst (runAsyncWaves en c sch ctx w ws agents out rt))"
proof (induction ws arbitrary: w out rt)
  case (Cons wave ws)
  show ?case unfolding runAsyncWaves.simps Let_def by (rule run_rules Cons | assumption)+
qed simp

lemma then_run_serial_task [run_rules]: "R r rt \<Longrightarrow> R r (fst (run_serial_task en c ctx i t a out rt))"
  unfolding run_serial_task_def by (rule run_rules | assumption)+

lemma then_serial_loop [run_rules]: "R r rt \<Longrightarrow> R r (fst (serial_loop en c ctx i ts out rt))"
proof (induction ts arbitrary: i out rt)
  case (Cons t ts)
  show ?case unfolding serial_loop.simps by (rule run_rules Cons | assumption)+
qed simp

lemma then_runSequentialWithPlan [run_rules]: "R r rt \<Longrightarrow> R r (fst (runSequentialWithPlan en c sch ctx plan rt))"
  unfolding runSequentialWithPlan_def runSequentialSerial_def by (rule run_rules | assumption)+

lemma then_delegate [run_rules]: "R r rt \<Longrightarrow> R r (fst (delegate c ctx manager t rt))"
  unfolding delegate_def by (rule run_rules | assumption)+

lemma then_assigned_agent [run_rules]: "R r rt \<Longrightarrow> R r (fst (assigned_agent c ctx manager t rt))"
  unfolding assigned_agent_def by (rule run_rules | assumption)+

lemma then_resolve_agents [run_rules]: "R r rt \<Longrightarrow> R r (fst (resolve_agents c ctx manager ts rt))"
proof (induction ts arbitrary: rt)
  case (Cons t ts)
  show ?case unfolding resolve_agents.simps by (rule run_rules Cons | assumption)+
qed simp

lemma then_hierarchical_loop [run_rules]: "R r rt \<Longrightarrow> R r (fst (hierarchical_loop en c ctx manager i ts out rt))"
proof (induction ts arbitrary: i out rt)
  case (Cons t ts)
  show ?case unfolding hierarchical_loop.simps by (rule run_rules Cons | assumption)+
qed simp

lemma then_runHierarchical [run_rules]: "R r rt \<Longrightarrow> R r (fst (runHierarchical en c sch ctx rt))"
  unfolding runHierarchical_def by (rule run_rules | assumption)+

lemma then_fold_stage [run_rules]: "R r rt \<Longrightarrow> R r (fst (fold_stage ti results out rt))"
proof (induction results arbitrary: ti out rt)
  case (Cons res results)
  show ?case unfolding fold_stage.simps Let_def by (rule run_rules Cons | assumption)+
qed simp

lemma then_runStage [run_rules]: "R r rt \<Longrightarrow> R r (fst (runStage en c sch ctx name ts opt rt))"
  unfolding runStage_def by (rule then_runTaskGroup)

lemma then_runStages [run_rules]: "R r rt \<Longrightarrow> R r (fst (runStages en c sch ctx si sgs out rt))"
proof (induction sgs arbitrary: si out rt)
  case (Cons sg sgs)
  show ?case unfolding runStages.simps Let_def by (rule run_rules Cons | assumption)+
qed simp

section \<open>Kickoff\<close>

lemma then_update_agent [run_rules]: "R r rt \<Longrightarrow> R r (update_agent f i rt)"
  unfolding update_agent_def by (rule R_trans [OF _ of_agents])

lemma then_set_task [run_rules]: "R r rt \<Longrightarrow> R r (set_task t f rt)"
  by (rule R_trans [OF _ of_tasks])

lemma then_kickoff_resolve [run_rules]: "R r rt \<Longrightarrow> R r (fst (kickoff_resolve en c rt))"
  unfolding kickoff_resolve_def Let_def
  by (rule run_rules R_trans [OF _ of_reset] R_trans [OF _ of_failed] | assumption)+

lemma then_kickoff_attach [run_rules]: "R r rt \<Longrightarrow> R r (kickoff_attach en inputs c rt)"
  unfolding kickoff_attach_def attachDelegationTools_def attachMemoryTools_def Let_def by (rule run_rules | assumption)+

lemma then_kickoff_ctx [run_rules]: "R r rt \<Longrightarrow> R r (fst (kickoff_ctx en c ctx rt))"
  unfolding kickoff_ctx_def Let_def by (rule run_rules | assumption)+

lemma then_runCrewGuardrails [run_rules]: "R r rt \<Longrightarrow> R r (fst (runCrewGuardrails ctx gs out rt))"
proof (induction gs arbitrary: rt)
  case (Cons g gs)
  show ?case unfolding runCrewGuardrails.simps Let_def by (rule run_rules Cons | assumption)+
qed simp

lemma then_kickoff_run [run_rules]: "R r rt \<Longrightarrow> R r (fst (kickoff_run en c sch ssch ctx rt))"
  unfolding kickoff_run_def run_process_def runStaged_def Let_def by (rule run_rules | assumption)+

lemma Kickoff_keeps: "R rt (fst (Kickoff en sch ssch running ctx inputs c rt))"
proof -
  have start: "R rt rt" by (rule of_frame) simp
  show ?thesis unfolding Kickoff_def Let_def by (rule run_rules start | assumption)+
qed

end

section \<open>Traces of a run\<close>

interpretation discretion: run_relation "\<lambda>a b :: 'w rt. tracer_step (rt_tracer a) (rt_tracer b)"
  by unfold_locales
    (auto simp: framed_def with_tracer_def publishTrace_def tracer_step_Reset tracer_step_publish intro: tracer_step_trans)

text \<open>
  C4. A crew's trace tells no more than was asked for, in every process, under every scheduler and
  whatever the models, tools and stores do: with a recorder that holds only discreet records before the
  run (a new one holds none), every record it publishes has a redacted error, and, unless bodies were
  switched on, no prompt, no output, no claim of a fact and no argument or output of a tool; with bodies,
  all of these went through the redaction.
\<close>
theorem Kickoff_trace_discreet:
  assumes "Kickoff en sch ssch running ctx inputs c rt = (rt', c', res)" "rt_tracer rt = Some r0" "tracer_ok (Some r0)"
  shows "\<exists>r. rt_tracer rt' = Some r \<and> rec_bodies r = rec_bodies r0
    \<and> (\<forall>rec. rec \<in> set (Records (Some r)) \<longrightarrow> redacted (rc_Err rec) \<and> (if rec_bodies r0 then masked rec else metadata_only rec))"
proof -
  have "tracer_step (rt_tracer rt) (rt_tracer rt')"
    using discretion.Kickoff_keeps [of rt en sch ssch running ctx inputs c] assms(1) by simp
  then obtain r where r: "rt_tracer rt' = Some r" "rec_bodies r = rec_bodies r0" "tracer_ok (Some r)"
    using assms(2,3) by (auto simp: tracer_step_def)
  then show ?thesis by (auto simp: tracer_ok_def discreet_def Records_def)
qed

lemma Kickoff_trace_discreet_witness:
  "\<exists>r. rt_tracer (fst (Kickoff demo_env demo_sched demo_ssched False background [] demo_crew
         (WithTracer (Some (NewTraceRecorder [WithTraceBodies False, WithTraceFilter None])) (demo_rt ())))) = Some r
     \<and> (\<forall>rec. rec \<in> set (Records (Some r)) \<longrightarrow> metadata_only rec)"
proof -
  let ?r0 = "NewTraceRecorder [WithTraceBodies False, WithTraceFilter None]"
  let ?k = "Kickoff demo_env demo_sched demo_ssched False background [] demo_crew (WithTracer (Some ?r0) (demo_rt ()))"
  have "?k = (fst ?k, fst (snd ?k), snd (snd ?k))" by simp
  from Kickoff_trace_discreet [OF this _ NewTraceRecorder_ok] have "\<exists>r. rt_tracer (fst ?k) = Some r \<and> rec_bodies r = rec_bodies ?r0
    \<and> (\<forall>rec. rec \<in> set (Records (Some r)) \<longrightarrow> redacted (rc_Err rec) \<and> (if rec_bodies ?r0 then masked rec else metadata_only rec))"
    by (simp add: WithTracer_def)
  moreover have "rec_bodies ?r0 = False" by (simp add: NewTraceRecorder_def WithTraceBodies_def WithTraceFilter_def)
  ultimately show ?thesis by auto
qed

end
