(* ===== verification/Options.thy ===== *)
theory Options
  imports Crew
begin

text \<open>
  The options of a crew that \<^verbatim>\<open>Kickoff\<close> only hands on, and the id of a run: what an application
  registers is what the context of every task carries.
\<close>

definition WithProgress :: "(progress \<Rightarrow> 'w \<Rightarrow> 'w) option \<Rightarrow> 'w crew \<Rightarrow> 'w crew" where
  "WithProgress fn c = c\<lparr>cr_progress := fn\<rparr>"

definition WithStream :: "(streamChunk \<Rightarrow> 'w \<Rightarrow> 'w) option \<Rightarrow> 'w crew \<Rightarrow> 'w crew" where
  "WithStream fn c = c\<lparr>cr_stream := fn\<rparr>"

definition WithEvents :: "(crewEvent \<Rightarrow> 'w \<Rightarrow> 'w) option \<Rightarrow> 'w crew \<Rightarrow> 'w crew" where
  "WithEvents fn c = c\<lparr>cr_events := fn\<rparr>"

definition WithAsyncMaxWorkers :: "int \<Rightarrow> 'w crew \<Rightarrow> 'w crew" where
  "WithAsyncMaxWorkers n c = c\<lparr>cr_AsyncMaxWorkers := n\<rparr>"

definition WithGuardrails :: "'w guardrail list \<Rightarrow> 'w crew \<Rightarrow> 'w crew" where
  "WithGuardrails guards c = c\<lparr>cr_Guardrails := cr_Guardrails c @ guards\<rparr>"

definition PeerAgents :: "'w crew option \<Rightarrow> aid list" where
  "PeerAgents c = (case c of None \<Rightarrow> [] | Some c \<Rightarrow> cr_Agents c)"

definition NewDelegationTool :: "'w crew option \<Rightarrow> 'w tool" where
  "NewDelegationTool c = DelegationTool (map_option cr_Agents c)"

text \<open>\<^verbatim>\<open>hex.EncodeToString\<close>.\<close>

definition hex_encode :: "nat list \<Rightarrow> string" where
  "hex_encode bs = concat (map (\<lambda>b. [hex_digit (b div 16), hex_digit (b mod 16)]) bs)"

text \<open>\<open>random\<close> fills the sixteen bytes, or fails.\<close>

definition newKickoffID :: "('w \<Rightarrow> 'w \<times> (err + nat list)) \<Rightarrow> 'w \<Rightarrow> 'w \<times> string" where
  "newKickoffID random w =
     (case random w of
        (w, Inl _) \<Rightarrow> (w, take 32 (hex_encode (map of_char ''crewai-kickoff-fb'')))
      | (w, Inr b) \<Rightarrow> (w, hex_encode b))"

lemma length_hex_encode: "length (hex_encode bs) = 2 * length bs"
  by (induction bs) (simp_all add: hex_encode_def)

text \<open>An id always has 32 digits, even when there is no randomness; then every run has the same.\<close>

lemma newKickoffID_length:
  assumes "\<And>w w' b. random w = (w', Inr b) \<Longrightarrow> length b = 16"
  shows "length (snd (newKickoffID random w)) = 32"
  using assms by (auto simp: newKickoffID_def length_hex_encode split: prod.split sum.split)

text \<open>The callbacks of the options are those of the context a run starts with.\<close>

lemma options_reach_context:
  assumes "kickoff_ctx en (WithProgress p (WithStream s (WithEvents e c))) ctx rt = (rt', ctx')"
  shows "(p \<noteq> None \<longrightarrow> cx_progress ctx' = p) \<and> (s \<noteq> None \<longrightarrow> cx_stream ctx' = s) \<and> (e \<noteq> None \<longrightarrow> cx_events ctx' = e)"
  using assms
  by (auto simp: kickoff_ctx_def WithProgress_def WithStream_def WithEvents_def ContextWithStream_def ContextWithProgress_def
      ContextWithEvents_def ContextWithKickoffID_def Let_def split: option.splits prod.splits if_splits)

end
