(* ===== verification/Json.thy ===== *)
theory Json
  imports Complex_Main GoStrings "HOL-Library.List_Lexorder" "HOL-Library.Char_ord"
begin

text \<open>
  The values \<^verbatim>\<open>encoding/json\<close> decodes into an \<^verbatim>\<open>any\<close>, as \<^verbatim>\<open>schema.go\<close> and \<^verbatim>\<open>load.go\<close> inspect
  them. A decoded number is a finite float64, which is a rational; bounds may also be the special
  values that \<^verbatim>\<open>strconv.ParseFloat\<close> knows. A decoded object is a Go map: its pairs in increasing
  key order, each key once, so that \<^verbatim>\<open>reflect.DeepEqual\<close> of decoded values is equality.
  The lemmas give the size order that recursion into a value relies on.
\<close>

section \<open>Numbers\<close>

datatype float64 = Fin rat | PosInf | NegInf | NaN

text \<open>The comparisons of float64: everything is false of NaN.\<close>

fun float_less :: "float64 \<Rightarrow> float64 \<Rightarrow> bool" where
  "float_less NaN _ = False"
| "float_less _ NaN = False"
| "float_less (Fin a) (Fin b) = (a < b)"
| "float_less NegInf y = (y \<noteq> NegInf)"
| "float_less x NegInf = False"
| "float_less PosInf y = False"
| "float_less x PosInf = True"

fun float_eq :: "float64 \<Rightarrow> float64 \<Rightarrow> bool" where
  "float_eq NaN _ = False"
| "float_eq x y = (x = y)"

definition float_le :: "float64 \<Rightarrow> float64 \<Rightarrow> bool" where
  "float_le x y = (float_less x y \<or> float_eq x y)"

section \<open>Values\<close>

datatype json =
    JNull
  | JBool bool
  | JNum rat
  | JStr string
  | JArr "json list"
  | JObj "(string \<times> json) list"

text \<open>An object as its map, and what every decoded value satisfies.\<close>

fun object :: "json \<Rightarrow> (string \<times> json) list option" where
  "object (JObj m) = Some m"
| "object _ = None"

fun elements :: "json \<Rightarrow> json list option" where
  "elements (JArr xs) = Some xs"
| "elements _ = None"

fun text_of :: "json \<Rightarrow> string option" where
  "text_of (JStr s) = Some s"
| "text_of _ = None"

fun decoded :: "json \<Rightarrow> bool" where
  "decoded (JArr xs) = list_all decoded xs"
| "decoded (JObj m) = (sorted_wrt (<) (map fst m) \<and> list_all (\<lambda>(k, v). decoded v) m)"
| "decoded _ = True"

text \<open>A property of a value and of every value inside it.\<close>

fun everywhere :: "(json \<Rightarrow> bool) \<Rightarrow> json \<Rightarrow> bool" where
  "everywhere P (JArr xs) = (P (JArr xs) \<and> list_all (everywhere P) xs)"
| "everywhere P (JObj m) = (P (JObj m) \<and> list_all (\<lambda>(k, v). everywhere P v) m)"
| "everywhere P v = P v"

lemma everywhere_here: "everywhere P v \<Longrightarrow> P v"
  by (cases v) simp_all

lemma everywhere_elem: "everywhere P (JArr xs) \<Longrightarrow> x \<in> set xs \<Longrightarrow> everywhere P x"
  by (simp add: list_all_iff)

lemma everywhere_value: "everywhere P (JObj m) \<Longrightarrow> (k, v) \<in> set m \<Longrightarrow> everywhere P v"
  by (auto simp: list_all_iff)

lemma everywhere_lookup: "everywhere P (JObj m) \<Longrightarrow> map_of m k = Some v \<Longrightarrow> everywhere P v"
  using everywhere_value map_of_SomeD by metis

lemma decoded_distinct: "decoded (JObj m) \<Longrightarrow> distinct (map fst m)"
  using strict_sorted_iff by auto

lemma decoded_value: "decoded (JObj m) \<Longrightarrow> (k, v) \<in> set m \<Longrightarrow> decoded v"
  by (auto simp: list_all_iff)

lemma decoded_elem: "decoded (JArr xs) \<Longrightarrow> x \<in> set xs \<Longrightarrow> decoded x"
  by (simp add: list_all_iff)

section \<open>Sizes\<close>

lemma size_elem: "x \<in> set xs \<Longrightarrow> size x < size (JArr xs)"
  using size_list_estimation' [of x xs "size x" size] by simp

lemma size_value: "(k, v) \<in> set m \<Longrightarrow> size v < size (JObj m)"
  using size_list_estimation' [of "(k, v)" m "size v" "size_prod (\<lambda>_. 0) size"] by simp

lemma size_lookup: "map_of m k = Some v \<Longrightarrow> size v < size (JObj m)"
  using size_value map_of_SomeD by metis

lemma size_lookup_elem: "map_of m k = Some (JArr xs) \<Longrightarrow> x \<in> set xs \<Longrightarrow> size x < size (JObj m)"
  using size_lookup size_elem less_trans by metis

lemma size_lookup_value: "map_of m k = Some (JObj o') \<Longrightarrow> (k', v) \<in> set o' \<Longrightarrow> size v < size (JObj m)"
  using size_lookup size_value less_trans by metis

lemma size_filter: "size (JObj (filter P m)) \<le> size (JObj m)"
  by (induction m) auto

section \<open>Printing\<close>

text \<open>\<^verbatim>\<open>fmt\<close>'s \<^verbatim>\<open>%v\<close>; how a float prints is an argument. Maps print in key order.\<close>

fun go_v :: "(float64 \<Rightarrow> string) \<Rightarrow> json \<Rightarrow> string" where
  "go_v fl JNull = ''<nil>''"
| "go_v fl (JBool b) = (if b then ''true'' else ''false'')"
| "go_v fl (JNum q) = fl (Fin q)"
| "go_v fl (JStr s) = s"
| "go_v fl (JArr xs) = ''['' @ str_join '' '' (map (go_v fl) xs) @ '']''"
| "go_v fl (JObj m) = ''map['' @ str_join '' '' (map (\<lambda>(k, v). k @ '':'' @ go_v fl v) m) @ '']''"

text \<open>\<^verbatim>\<open>strconv.Atoi\<close>: an optional sign and decimal digits that fit an int64.\<close>

definition is_digit :: "char \<Rightarrow> bool" where
  "is_digit c = (48 \<le> (of_char c :: nat) \<and> (of_char c :: nat) \<le> 57)"

definition digits_value :: "string \<Rightarrow> int" where
  "digits_value s = fold (\<lambda>c v. v * 10 + (int (of_char c) - 48)) s 0"

definition atoi :: "string \<Rightarrow> int option" where
  "atoi s =
     (let (neg, ds) = (case s of c # cs \<Rightarrow> if c = CHR ''-'' then (True, cs) else if c = CHR ''+'' then (False, cs) else (False, s) | [] \<Rightarrow> (False, []));
          v = (if neg then - digits_value ds else digits_value ds)
      in if ds \<noteq> [] \<and> list_all is_digit ds \<and> - (2 ^ 63) \<le> v \<and> v < 2 ^ 63 then Some v else None)"

end
