(* ===== verification/Schema.thy ===== *)
theory Schema
  imports Prelude Json
begin

text \<open>
  The JSON Schema validator of \<^verbatim>\<open>schema.go\<close>, keyword by keyword, with local \<^verbatim>\<open>$ref\<close>s and their two
  budgets. The packages it calls (decoding, regular expressions, the parsers behind \<^verbatim>\<open>format\<close>) and
  the order in which Go ranges over a map are the record \<open>schemaLib\<close>. The checks append to an error
  list that only its owner reads, so a check is a function from the \<^verbatim>\<open>$ref\<close> bookkeeping to the
  expansions used so far and the errors it adds, and \<open>seq\<close> and \<open>each\<close> put checks after each other.
  The lemmas show that the recursion ends on every schema, cyclic references included, that the
  budgets hold, and that without references the validator decides the usual semantics of the keywords.
\<close>

section \<open>What the validator calls\<close>

record schemaLib =
  sl_decode :: "string \<Rightarrow> err + json"
  sl_order :: "string list \<Rightarrow> nat list"
  sl_parseFloat :: "string \<Rightarrow> float64 option"
  sl_fmtFloat :: "float64 \<Rightarrow> string"
  sl_wide :: "rat \<Rightarrow> rat"
  sl_regexp :: "string \<Rightarrow> string + (string \<Rightarrow> bool)"
  sl_time :: "string \<Rightarrow> string \<Rightarrow> string option"
  sl_mail :: "string \<Rightarrow> bool"
  sl_url :: "string \<Rightarrow> (string \<times> string) option"
  sl_ip :: "string \<Rightarrow> bool option"

text \<open>A range over a map visits its pairs in some order, here given by positions.\<close>

definition range_map :: "schemaLib \<Rightarrow> (string \<times> 'a) list \<Rightarrow> (string \<times> 'a) list" where
  "range_map lib m = map (\<lambda>i. m ! i) (wave_order (sl_order lib (map fst m)) (length m))"

lemma set_range_map [simp]: "set (range_map lib m) = set m"
  by (auto simp: range_map_def wave_order_perm in_set_conv_nth image_iff Bex_def) metis

section \<open>Errors\<close>

record validationError =
  ve_Path :: string
  ve_Message :: string

definition validationError_text :: "validationError \<Rightarrow> string" where
  "validationError_text e = (if ve_Path e = [] then ve_Message e else ve_Path e @ '': '' @ ve_Message e)"

definition validationErrors_text :: "validationError list \<Rightarrow> string" where
  "validationErrors_text es =
     (case es of [] \<Rightarrow> ''no validation errors'' | [e] \<Rightarrow> validationError_text e
      | _ \<Rightarrow> str_join ''; '' (map validationError_text es))"

definition report :: "string \<Rightarrow> string \<Rightarrow> validationError list" where
  "report path msg = [\<lparr>ve_Path = path, ve_Message = msg\<rparr>]"

lemma report_nonempty [simp]: "report path msg \<noteq> []" "[] \<noteq> report path msg"
  by (simp_all add: report_def)

definition joinPath :: "string \<Rightarrow> string \<Rightarrow> string" where
  "joinPath parent key = (if parent = [] then ''/'' @ key else parent @ ''/'' @ key)"

section \<open>References\<close>

definition MaxSchemaPatternLen :: nat where "MaxSchemaPatternLen = 512"
definition MaxSchemaRefDepth :: nat where "MaxSchemaRefDepth = 32"
definition MaxSchemaRefExpansions :: nat where "MaxSchemaRefExpansions = 256"

record schemaValidation =
  vc_root :: json
  vc_refDepth :: nat
  vc_expansions :: nat
  vc_stack :: "string list"

definition pushRef :: "schemaValidation \<Rightarrow> string \<Rightarrow> err + schemaValidation" where
  "pushRef vc ptr =
     (if vc_expansions vc \<ge> MaxSchemaRefExpansions then Inl (Sentinel ErrSchemaRefDepth)
      else if vc_refDepth vc \<ge> MaxSchemaRefDepth then Inl (Sentinel ErrSchemaRefDepth)
      else if ptr \<in> set (vc_stack vc) then Inl (Sentinel ErrSchemaRefCycle)
      else Inr (vc\<lparr>vc_stack := vc_stack vc @ [ptr], vc_refDepth := Suc (vc_refDepth vc),
                   vc_expansions := Suc (vc_expansions vc)\<rparr>))"

definition popRef :: "schemaValidation \<Rightarrow> schemaValidation" where
  "popRef vc =
     (if vc_stack vc = [] then vc
      else vc\<lparr>vc_stack := butlast (vc_stack vc), vc_refDepth := vc_refDepth vc - 1\<rparr>)"

lemma popRef_pushRef: "pushRef vc ptr = Inr vc' \<Longrightarrow> popRef (vc'\<lparr>vc_expansions := n\<rparr>) = vc\<lparr>vc_expansions := n\<rparr>"
  by (auto simp: pushRef_def popRef_def split: if_splits)

definition unescape_part :: "string \<Rightarrow> string" where
  "unescape_part part = replace_all ''~0'' ''~'' (replace_all ''~1'' ''/'' part)"

fun walk_pointer :: "json \<Rightarrow> string list \<Rightarrow> json option" where
  "walk_pointer node [] = Some node"
| "walk_pointer node (part # parts) =
     (case node of
        JObj m \<Rightarrow> (case map_of m (unescape_part part) of None \<Rightarrow> None | Some next \<Rightarrow> walk_pointer next parts)
      | JArr xs \<Rightarrow> (case atoi (unescape_part part) of None \<Rightarrow> None
          | Some idx \<Rightarrow> if idx < 0 \<or> idx \<ge> int (length xs) then None else walk_pointer (xs ! nat idx) parts)
      | _ \<Rightarrow> None)"

definition resolveLocalRef :: "json \<Rightarrow> string \<Rightarrow> err + json \<times> string" where
  "resolveLocalRef doc ref =
     (if ref = [] then Inl (Sentinel ErrSchemaRefInvalid)
      else if contains ref ''://'' \<or> (\<not> has_prefix ref ''#'' \<and> contains ref ''#'') then Inl (Sentinel ErrSchemaRefInvalid)
      else if \<not> has_prefix ref ''#'' then Inl (Sentinel ErrSchemaRefInvalid)
      else let ptr = tl ref in
        if ptr = [] then Inr (doc, ''#'')
        else if \<not> has_prefix ptr ''/'' then Inl (Sentinel ErrSchemaRefInvalid)
        else case walk_pointer doc (tl (split_on CHR ''/'' ptr)) of
          None \<Rightarrow> Inl (Sentinel ErrSchemaRefNotFound)
        | Some node \<Rightarrow> Inr (node, ''#'' @ ptr))"

section \<open>Checks of one value\<close>

fun jsonTypeOf :: "json \<Rightarrow> string" where
  "jsonTypeOf (JObj _) = ''object''"
| "jsonTypeOf (JArr _) = ''array''"
| "jsonTypeOf (JStr _) = ''string''"
| "jsonTypeOf (JNum _) = ''number''"
| "jsonTypeOf (JBool _) = ''boolean''"
| "jsonTypeOf JNull = ''null''"

text \<open>
  \<^verbatim>\<open>float64(int64(f))\<close>: the conversion drops the fraction; outside the int64 range its result is
  implementation-dependent, and \<open>sl_wide\<close> is what comes back.
\<close>

definition via_int64 :: "schemaLib \<Rightarrow> rat \<Rightarrow> rat" where
  "via_int64 lib q =
     (let t = (if q \<ge> 0 then \<lfloor>q\<rfloor> else \<lceil>q\<rceil>) in
      if - (2 ^ 63) \<le> t \<and> t < 2 ^ 63 then of_int t else sl_wide lib q)"

definition type_named :: "schemaLib \<Rightarrow> json \<Rightarrow> string \<Rightarrow> bool" where
  "type_named lib value typeStr =
     (if typeStr = ''object'' then object value \<noteq> None
      else if typeStr = ''array'' then elements value \<noteq> None
      else if typeStr = ''string'' then text_of value \<noteq> None
      else if typeStr = ''number'' then (case value of JNum _ \<Rightarrow> True | _ \<Rightarrow> False)
      else if typeStr = ''integer'' then (case value of JNum q \<Rightarrow> q = via_int64 lib q | _ \<Rightarrow> False)
      else if typeStr = ''boolean'' then (case value of JBool _ \<Rightarrow> True | _ \<Rightarrow> False)
      else if typeStr = ''null'' then value = JNull
      else True)"

fun checkType :: "schemaLib \<Rightarrow> json \<Rightarrow> json \<Rightarrow> bool" where
  "checkType lib value (JStr typeStr) = type_named lib value typeStr"
| "checkType lib value (JArr ts) = list_ex (checkType lib value) ts"
| "checkType lib value _ = True"

definition checkEnum :: "json \<Rightarrow> json \<Rightarrow> bool" where
  "checkEnum value enum = (case elements enum of None \<Rightarrow> True | Some arr \<Rightarrow> value \<in> set arr)"

definition asFloat :: "schemaLib \<Rightarrow> json option \<Rightarrow> float64 option" where
  "asFloat lib v =
     (case v of Some (JNum q) \<Rightarrow> Some (Fin q) | Some (JStr s) \<Rightarrow> sl_parseFloat lib s | _ \<Rightarrow> None)"

definition float_len :: "'a list \<Rightarrow> float64" where
  "float_len xs = Fin (of_nat (length xs))"

section \<open>Formats\<close>

definition is_hex :: "char \<Rightarrow> bool" where
  "is_hex c = (let n = (of_char c :: nat) in 48 \<le> n \<and> n \<le> 57 \<or> 65 \<le> n \<and> n \<le> 70 \<or> 97 \<le> n \<and> n \<le> 102)"

text \<open>The regular expression of a UUID: hex digits in groups of 8, 4, 4, 4 and 12.\<close>

definition uuid_match :: "string \<Rightarrow> bool" where
  "uuid_match s = (map length (split_on CHR ''-'' s) = [8, 4, 4, 4, 12]
     \<and> list_all (list_all is_hex) (split_on CHR ''-'' s))"

definition checkFormat :: "schemaLib \<Rightarrow> string \<Rightarrow> string \<Rightarrow> string" where
  "checkFormat lib name s =
     (if name = ''date-time'' then
        (case sl_time lib ''2006-01-02T15:04:05Z07:00'' s of None \<Rightarrow> ''''
         | Some e \<Rightarrow> if sl_time lib ''2006-01-02T15:04:05.999999999Z07:00'' s = None then ''''
                    else ''value is not a valid date-time: '' @ e)
      else if name = ''date'' then
        (if sl_time lib ''2006-01-02'' s = None then '''' else ''value is not a valid date (YYYY-MM-DD)'')
      else if name = ''time'' then
        (if sl_time lib ''15:04:05.999999999Z07:00'' s = None \<or> sl_time lib ''15:04:05.999999999'' s = None then ''''
         else ''value is not a valid time (RFC 3339 full-time)'')
      else if name = ''email'' then
        (if length s > 254 then ''email exceeds maximum length''
         else if \<not> sl_mail lib s then ''value is not a valid email''
         else if contains s ''<'' \<or> contains s '' '' then ''value is not a valid email''
         else '''')
      else if name = ''uri'' then
        (case sl_url lib s of None \<Rightarrow> ''value is not a valid uri''
         | Some (scheme, host) \<Rightarrow> if scheme = [] \<or> host = [] then ''value is not a valid uri'' else '''')
      else if name = ''uri-reference'' then
        (if sl_url lib s = None then ''value is not a valid uri-reference'' else '''')
      else if name = ''uuid'' then (if \<not> uuid_match s then ''value is not a valid uuid'' else '''')
      else if name = ''ipv4'' then (if sl_ip lib s \<noteq> Some True then ''value is not a valid ipv4'' else '''')
      else if name = ''ipv6'' then (if sl_ip lib s \<noteq> Some False then ''value is not a valid ipv6'' else '''')
      else '''')"

section \<open>Keywords of strings and numbers\<close>

definition bound_error :: "schemaLib \<Rightarrow> (float64 \<Rightarrow> bool) \<Rightarrow> json option \<Rightarrow> string \<Rightarrow> (float64 \<Rightarrow> string) \<Rightarrow> validationError list" where
  "bound_error lib violated bound path msg =
     (case asFloat lib bound of None \<Rightarrow> [] | Some v \<Rightarrow> if violated v then report path (msg v) else [])"

definition pattern_errors :: "schemaLib \<Rightarrow> string \<Rightarrow> (string \<times> json) list \<Rightarrow> string \<Rightarrow> bool \<times> validationError list" where
  "pattern_errors lib s schema path =
     (case map_of schema ''pattern'' of
        Some (JStr pat) \<Rightarrow>
          if pat = [] then (False, [])
          else if length pat > MaxSchemaPatternLen
          then (True, report path (''pattern length '' @ itoa (length pat) @ '' exceeds MaxSchemaPatternLen '' @ itoa MaxSchemaPatternLen))
          else (case sl_regexp lib pat of
                  Inl e \<Rightarrow> (True, report path (''invalid pattern: '' @ e))
                | Inr matches \<Rightarrow> (False, if \<not> matches s then report path (''value does not match pattern '' @ go_quote pat) else []))
      | _ \<Rightarrow> (False, []))"

definition format_errors :: "schemaLib \<Rightarrow> string \<Rightarrow> (string \<times> json) list \<Rightarrow> string \<Rightarrow> validationError list" where
  "format_errors lib s schema path =
     (case map_of schema ''format'' of
        Some (JStr fmtName) \<Rightarrow>
          if fmtName = [] then []
          else let errMsg = checkFormat lib fmtName s in if errMsg \<noteq> [] then report path errMsg else []
      | _ \<Rightarrow> [])"

definition validateString :: "schemaLib \<Rightarrow> string \<Rightarrow> (string \<times> json) list \<Rightarrow> string \<Rightarrow> validationError list" where
  "validateString lib s schema path =
     bound_error lib (\<lambda>v. float_less (float_len s) v) (map_of schema ''minLength'') path
       (\<lambda>v. ''string length '' @ itoa (length s) @ '' is less than minLength '' @ sl_fmtFloat lib v)
     @ bound_error lib (\<lambda>v. float_less v (float_len s)) (map_of schema ''maxLength'') path
       (\<lambda>v. ''string length '' @ itoa (length s) @ '' is greater than maxLength '' @ sl_fmtFloat lib v)
     @ (let (stop, errs) = pattern_errors lib s schema path in
        if stop then errs else errs @ format_errors lib s schema path)"

text \<open>The two exclusive bounds: the boolean form reads the plain bound, the other form is the bound.\<close>

definition exclusive_bound :: "(string \<times> json) list \<Rightarrow> string \<Rightarrow> string \<Rightarrow> json option" where
  "exclusive_bound schema exclusive plain_key =
     (case map_of schema exclusive of
        None \<Rightarrow> None
      | Some (JBool e) \<Rightarrow> if e then map_of schema plain_key else None
      | Some ex \<Rightarrow> Some ex)"

definition validateNumber :: "schemaLib \<Rightarrow> rat \<Rightarrow> (string \<times> json) list \<Rightarrow> string \<Rightarrow> validationError list" where
  "validateNumber lib f schema path =
     bound_error lib (\<lambda>v. float_less (Fin f) v) (map_of schema ''minimum'') path
       (\<lambda>v. ''value '' @ sl_fmtFloat lib (Fin f) @ '' is less than minimum '' @ sl_fmtFloat lib v)
     @ bound_error lib (\<lambda>v. float_less v (Fin f)) (map_of schema ''maximum'') path
       (\<lambda>v. ''value '' @ sl_fmtFloat lib (Fin f) @ '' is greater than maximum '' @ sl_fmtFloat lib v)
     @ bound_error lib (\<lambda>v. float_le (Fin f) v) (exclusive_bound schema ''exclusiveMinimum'' ''minimum'') path
       (\<lambda>v. ''value '' @ sl_fmtFloat lib (Fin f) @ '' is not greater than exclusiveMinimum '' @ sl_fmtFloat lib v)
     @ bound_error lib (\<lambda>v. float_le v (Fin f)) (exclusive_bound schema ''exclusiveMaximum'' ''maximum'') path
       (\<lambda>v. ''value '' @ sl_fmtFloat lib (Fin f) @ '' is not less than exclusiveMaximum '' @ sl_fmtFloat lib v)"

section \<open>Checks and their composition\<close>

type_synonym check = "schemaValidation \<Rightarrow> nat \<times> validationError list"
type_synonym visitor = "schemaValidation \<Rightarrow> json \<Rightarrow> json \<Rightarrow> string \<Rightarrow> nat \<times> validationError list"

definition emit :: "validationError list \<Rightarrow> check" where
  "emit errs vc = (vc_expansions vc, errs)"

definition seq :: "check \<Rightarrow> check \<Rightarrow> check" where
  "seq a b vc = (let (n, errs) = a vc; (n', errs') = b (vc\<lparr>vc_expansions := n\<rparr>) in (n', errs @ errs'))"

primrec each :: "('a \<Rightarrow> check) \<Rightarrow> 'a list \<Rightarrow> check" where
  "each f [] = emit []"
| "each f (x # xs) = seq (f x) (each f xs)"

section \<open>Keywords that look inside\<close>

definition check_if :: "visitor \<Rightarrow> json \<Rightarrow> (string \<times> json) list \<Rightarrow> string \<Rightarrow> check" where
  "check_if visit value schema path vc =
     (case map_of schema ''if'' of
        None \<Rightarrow> emit [] vc
      | Some ifSch \<Rightarrow>
          let (n, ifErrs) = visit vc value ifSch path in
          case map_of schema (if ifErrs = [] then ''then'' else ''else'') of
            None \<Rightarrow> (n, [])
          | Some branch \<Rightarrow> visit (vc\<lparr>vc_expansions := n\<rparr>) value branch path)"

definition check_not :: "visitor \<Rightarrow> json \<Rightarrow> (string \<times> json) list \<Rightarrow> string \<Rightarrow> check" where
  "check_not visit value schema path vc =
     (case map_of schema ''not'' of
        None \<Rightarrow> emit [] vc
      | Some notSch \<Rightarrow>
          let (n, notErrs) = visit vc value notSch path in
          (n, if notErrs = [] then report path ''value matches not schema'' else []))"

definition check_allOf :: "visitor \<Rightarrow> json \<Rightarrow> (string \<times> json) list \<Rightarrow> string \<Rightarrow> check" where
  "check_allOf visit value schema path =
     (case map_of schema ''allOf'' of
        Some (JArr subs) \<Rightarrow> each (\<lambda>sub vc. visit vc value sub path) subs
      | _ \<Rightarrow> emit [])"

fun match_alts :: "visitor \<Rightarrow> json \<Rightarrow> bool \<Rightarrow> nat \<Rightarrow> json list \<Rightarrow> schemaValidation \<Rightarrow> nat \<times> bool" where
  "match_alts visit value exactlyOne matches [] vc =
     (vc_expansions vc, if exactlyOne then matches = 1 else matches \<ge> 1)"
| "match_alts visit value exactlyOne matches (sub # subs) vc =
     (let (n, subErrs) = visit vc value sub [] in
      if subErrs = []
      then if \<not> exactlyOne \<and> Suc matches \<ge> 1 then (n, True)
           else match_alts visit value exactlyOne (Suc matches) subs (vc\<lparr>vc_expansions := n\<rparr>)
      else match_alts visit value exactlyOne matches subs (vc\<lparr>vc_expansions := n\<rparr>))"

definition matchOneOfAnyOf :: "visitor \<Rightarrow> json \<Rightarrow> json list \<Rightarrow> bool \<Rightarrow> schemaValidation \<Rightarrow> nat \<times> bool" where
  "matchOneOfAnyOf visit value alts exactlyOne = match_alts visit value exactlyOne 0 alts"

definition check_alts :: "visitor \<Rightarrow> json \<Rightarrow> (string \<times> json) list \<Rightarrow> string \<Rightarrow> string \<Rightarrow> bool \<Rightarrow> string \<Rightarrow> check" where
  "check_alts visit value schema path key exactlyOne msg vc =
     (case map_of schema key of
        Some (JArr alts) \<Rightarrow>
          if alts = [] then emit [] vc
          else let (n, matched) = matchOneOfAnyOf visit value alts exactlyOne vc in
            (n, if \<not> matched then report path msg else [])
      | _ \<Rightarrow> emit [] vc)"

section \<open>Objects and arrays\<close>

definition required_errors :: "(string \<times> json) list \<Rightarrow> (string \<times> json) list \<Rightarrow> string \<Rightarrow> validationError list" where
  "required_errors obj schema path =
     (case map_of schema ''required'' of
        Some (JArr req) \<Rightarrow>
          concat (map (\<lambda>r. case r of
              JStr key \<Rightarrow> if map_of obj key = None then report (joinPath path key) ''missing required field'' else []
            | _ \<Rightarrow> []) req)
      | _ \<Rightarrow> [])"

definition schema_props :: "(string \<times> json) list \<Rightarrow> (string \<times> json) list" where
  "schema_props schema = (case map_of schema ''properties'' of Some (JObj props) \<Rightarrow> props | _ \<Rightarrow> [])"

definition check_property :: "visitor \<Rightarrow> (string \<times> json) list \<Rightarrow> string \<Rightarrow> string \<times> json \<Rightarrow> check" where
  "check_property visit obj path = (\<lambda>(key, subSchema) vc.
     case object subSchema of
       None \<Rightarrow> emit [] vc
     | Some _ \<Rightarrow> (case map_of obj key of
           None \<Rightarrow> emit [] vc
         | Some val \<Rightarrow> visit vc val subSchema (joinPath path key)))"

definition check_additional :: "schemaLib \<Rightarrow> visitor \<Rightarrow> (string \<times> json) list \<Rightarrow> (string \<times> json) list \<Rightarrow> string \<Rightarrow> check" where
  "check_additional lib visit obj schema path =
     (case map_of schema ''additionalProperties'' of
        Some (JBool b) \<Rightarrow>
          emit (if b then []
                else concat (map (\<lambda>(key, _). if map_of (schema_props schema) key \<noteq> None then []
                                             else report (joinPath path key) ''additional property not allowed'')
                       (range_map lib obj)))
      | Some (JObj apv) \<Rightarrow>
          each (\<lambda>(key, val) vc. if map_of (schema_props schema) key \<noteq> None then emit [] vc
                                else visit vc val (JObj apv) (joinPath path key))
            (range_map lib obj)
      | _ \<Rightarrow> emit [])"

definition validateObject :: "schemaLib \<Rightarrow> visitor \<Rightarrow> (string \<times> json) list \<Rightarrow> (string \<times> json) list \<Rightarrow> string \<Rightarrow> check" where
  "validateObject lib visit obj schema path =
     seq (emit (bound_error lib (\<lambda>v. float_less (float_len obj) v) (map_of schema ''minProperties'') path
                  (\<lambda>v. ''object has '' @ itoa (length obj) @ '' properties; minProperties '' @ sl_fmtFloat lib v)
                @ bound_error lib (\<lambda>v. float_less v (float_len obj)) (map_of schema ''maxProperties'') path
                  (\<lambda>v. ''object has '' @ itoa (length obj) @ '' properties; maxProperties '' @ sl_fmtFloat lib v)
                @ required_errors obj schema path))
       (seq (each (check_property visit obj path) (range_map lib (schema_props schema)))
            (check_additional lib visit obj schema path))"

fun duplicate_errors :: "string \<Rightarrow> json list \<Rightarrow> validationError list" where
  "duplicate_errors path [] = []"
| "duplicate_errors path (x # xs) =
     (if x \<in> set xs then report path ''array items are not unique'' else []) @ duplicate_errors path xs"

definition validateArray :: "schemaLib \<Rightarrow> visitor \<Rightarrow> json list \<Rightarrow> (string \<times> json) list \<Rightarrow> string \<Rightarrow> check" where
  "validateArray lib visit arr schema path =
     seq (emit (bound_error lib (\<lambda>v. float_less (float_len arr) v) (map_of schema ''minItems'') path
                  (\<lambda>v. ''array length '' @ itoa (length arr) @ '' is less than minItems '' @ sl_fmtFloat lib v)
                @ bound_error lib (\<lambda>v. float_less v (float_len arr)) (map_of schema ''maxItems'') path
                  (\<lambda>v. ''array length '' @ itoa (length arr) @ '' is greater than maxItems '' @ sl_fmtFloat lib v)
                @ (if map_of schema ''uniqueItems'' = Some (JBool True) then duplicate_errors path arr else [])))
       (case map_of schema ''items'' of
          None \<Rightarrow> emit []
        | Some items \<Rightarrow> each (\<lambda>(i, elem) vc. visit vc elem items (path @ ''/'' @ itoa i)) (enumerate 0 arr))"

section \<open>The validator\<close>

definition value_errors :: "schemaLib \<Rightarrow> json \<Rightarrow> (string \<times> json) list \<Rightarrow> string \<Rightarrow> validationError list" where
  "value_errors lib value schema path =
     (case map_of schema ''enum'' of None \<Rightarrow> []
      | Some e \<Rightarrow> if \<not> checkEnum value e then report path (''value not in enum '' @ go_v (sl_fmtFloat lib) e) else [])
     @ (case map_of schema ''const'' of None \<Rightarrow> []
        | Some c \<Rightarrow> if value \<noteq> c then report path (''value does not equal const '' @ go_v (sl_fmtFloat lib) c) else [])
     @ (case value of
          JStr s \<Rightarrow> validateString lib s schema path
        | JNum f \<Rightarrow> validateNumber lib f schema path
        | _ \<Rightarrow> [])"

definition check_value :: "schemaLib \<Rightarrow> visitor \<Rightarrow> json \<Rightarrow> (string \<times> json) list \<Rightarrow> string \<Rightarrow> check" where
  "check_value lib visit value schema path =
     seq (emit (value_errors lib value schema path))
       (case value of
          JObj obj \<Rightarrow> validateObject lib visit obj schema path
        | JArr arr \<Rightarrow> validateArray lib visit arr schema path
        | _ \<Rightarrow> emit [])"

definition check_typed :: "schemaLib \<Rightarrow> visitor \<Rightarrow> json \<Rightarrow> (string \<times> json) list \<Rightarrow> string \<Rightarrow> check" where
  "check_typed lib visit value schema path =
     (case map_of schema ''type'' of
        Some t \<Rightarrow>
          if \<not> checkType lib value t
          then emit (report path (''expected type '' @ go_v (sl_fmtFloat lib) t @ '', got '' @ jsonTypeOf value))
          else check_value lib visit value schema path
      | None \<Rightarrow> check_value lib visit value schema path)"

definition validateNodeKeywords :: "schemaLib \<Rightarrow> visitor \<Rightarrow> json \<Rightarrow> (string \<times> json) list \<Rightarrow> string \<Rightarrow> check" where
  "validateNodeKeywords lib visit value schema path =
     seq (check_if visit value schema path)
     (seq (check_not visit value schema path)
     (seq (check_allOf visit value schema path)
     (seq (check_alts visit value schema path ''anyOf'' False ''value does not match any anyOf schema'')
     (seq (check_alts visit value schema path ''oneOf'' True ''value does not match exactly one oneOf schema'')
          (check_typed lib visit value schema path)))))"


text \<open>
  Two visitors that agree on the schemas below a size give the same result of every check whose
  subschemas are below it. This is the congruence rule by which the recursion is well-founded.
\<close>

definition agree :: "nat \<Rightarrow> schemaValidation \<Rightarrow> visitor \<Rightarrow> visitor \<Rightarrow> bool" where
  "agree N vc V W = (\<forall>n v s p. size s < N \<longrightarrow> V (vc\<lparr>vc_expansions := n\<rparr>) v s p = W (vc\<lparr>vc_expansions := n\<rparr>) v s p)"

definition width :: "(string \<times> json) list \<Rightarrow> nat" where
  "width m = size (JObj m)"

lemma width_lookup: "map_of m k = Some v \<Longrightarrow> size v < width m"
  unfolding width_def by (rule size_lookup)

lemma width_elem: "map_of m k = Some (JArr xs) \<Longrightarrow> x \<in> set xs \<Longrightarrow> size x < width m"
  unfolding width_def by (rule size_lookup_elem)

lemma width_value: "map_of m k = Some (JObj o') \<Longrightarrow> (k', v) \<in> set o' \<Longrightarrow> size v < width m"
  unfolding width_def by (rule size_lookup_value)

lemma width_filter: "width (filter P m) \<le> width m"
  unfolding width_def by (rule size_filter)

named_theorems agree_rules \<open>checks of agreeing visitors are equal\<close>

lemma agree_at: "agree N vc V W \<Longrightarrow> size s < N \<Longrightarrow> V (vc\<lparr>vc_expansions := n\<rparr>) v s p = W (vc\<lparr>vc_expansions := n\<rparr>) v s p"
  by (simp add: agree_def)

lemma agree_here: "agree N vc V W \<Longrightarrow> size s < N \<Longrightarrow> V vc v s p = W vc v s p"
  using agree_at [of N vc V W s "vc_expansions vc"] by simp

lemma agree_lookup:
  "agree (width m) vc V W \<Longrightarrow> map_of m k = Some s \<Longrightarrow> V (vc\<lparr>vc_expansions := n\<rparr>) v s p = W (vc\<lparr>vc_expansions := n\<rparr>) v s p"
  using agree_at width_lookup by metis

lemma agree_update: "agree N vc V W \<Longrightarrow> agree N (vc\<lparr>vc_expansions := n\<rparr>) V W"
  by (simp add: agree_def)

lemma seq_agree [agree_rules]:
  assumes "\<And>n. a (vc\<lparr>vc_expansions := n\<rparr>) = a' (vc\<lparr>vc_expansions := n\<rparr>)"
    and "\<And>n. b (vc\<lparr>vc_expansions := n\<rparr>) = b' (vc\<lparr>vc_expansions := n\<rparr>)"
  shows "seq a b (vc\<lparr>vc_expansions := n\<rparr>) = seq a' b' (vc\<lparr>vc_expansions := n\<rparr>)"
  using assms by (simp add: seq_def)

lemma each_agree [agree_rules]:
  assumes "\<And>x n. x \<in> set xs \<Longrightarrow> f x (vc\<lparr>vc_expansions := n\<rparr>) = g x (vc\<lparr>vc_expansions := n\<rparr>)"
  shows "each f xs (vc\<lparr>vc_expansions := n\<rparr>) = each g xs (vc\<lparr>vc_expansions := n\<rparr>)"
  using assms by (induction xs arbitrary: n) (auto intro!: seq_agree)

lemma check_if_agree [agree_rules]:
  "agree (width schema) vc V W \<Longrightarrow> check_if V value schema path (vc\<lparr>vc_expansions := n\<rparr>) = check_if W value schema path (vc\<lparr>vc_expansions := n\<rparr>)"
  by (simp add: check_if_def agree_at width_lookup split: option.split prod.split)

lemma check_not_agree [agree_rules]:
  "agree (width schema) vc V W \<Longrightarrow> check_not V value schema path (vc\<lparr>vc_expansions := n\<rparr>) = check_not W value schema path (vc\<lparr>vc_expansions := n\<rparr>)"
  by (simp add: check_not_def agree_at width_lookup split: option.split)

lemma check_allOf_agree [agree_rules]:
  "agree (width schema) vc V W \<Longrightarrow> check_allOf V value schema path (vc\<lparr>vc_expansions := n\<rparr>) = check_allOf W value schema path (vc\<lparr>vc_expansions := n\<rparr>)"
  by (auto simp: check_allOf_def agree_at width_elem intro!: each_agree split: option.splits json.splits)

lemma match_alts_agree:
  "agree N vc V W \<Longrightarrow> \<forall>s\<in>set alts. size s < N
   \<Longrightarrow> match_alts V value ex m alts (vc\<lparr>vc_expansions := n\<rparr>) = match_alts W value ex m alts (vc\<lparr>vc_expansions := n\<rparr>)"
  by (induction alts arbitrary: m n) (auto simp: agree_at split: prod.splits)

lemma check_alts_agree [agree_rules]:
  "agree (width schema) vc V W \<Longrightarrow> check_alts V value schema path key ex msg (vc\<lparr>vc_expansions := n\<rparr>) = check_alts W value schema path key ex msg (vc\<lparr>vc_expansions := n\<rparr>)"
  by (auto simp: check_alts_def matchOneOfAnyOf_def width_elem match_alts_agree [of "width schema" vc V W]
      split: option.splits json.splits)

lemma schema_props_width: "(k, v) \<in> set (schema_props schema) \<Longrightarrow> size v < width schema"
  by (cases "map_of schema ''properties''") (auto simp: schema_props_def width_value split: json.splits)

lemma validateObject_agree [agree_rules]:
  assumes "agree (width schema) vc V W"
  shows "validateObject lib V obj schema path (vc\<lparr>vc_expansions := n\<rparr>) = validateObject lib W obj schema path (vc\<lparr>vc_expansions := n\<rparr>)"
proof -
  have "check_property V obj path kv (vc\<lparr>vc_expansions := n\<rparr>) = check_property W obj path kv (vc\<lparr>vc_expansions := n\<rparr>)"
    if "kv \<in> set (range_map lib (schema_props schema))" for kv n
    using that assms schema_props_width
    by (auto simp: check_property_def agree_at split: option.splits prod.splits)
  moreover have "check_additional lib V obj schema path (vc\<lparr>vc_expansions := n\<rparr>) = check_additional lib W obj schema path (vc\<lparr>vc_expansions := n\<rparr>)" for n
    using assms by (auto simp: check_additional_def agree_lookup intro!: each_agree split: option.splits json.splits)
  ultimately show ?thesis unfolding validateObject_def by (intro seq_agree each_agree refl)
qed

lemma validateArray_agree [agree_rules]:
  "agree (width schema) vc V W \<Longrightarrow> validateArray lib V arr schema path (vc\<lparr>vc_expansions := n\<rparr>) = validateArray lib W arr schema path (vc\<lparr>vc_expansions := n\<rparr>)"
  unfolding validateArray_def
  by (intro seq_agree refl) (auto simp: agree_at width_lookup intro!: each_agree split: option.splits)

lemma validateNodeKeywords_agree:
  assumes "agree (width schema) vc V W"
  shows "validateNodeKeywords lib V value schema path (vc\<lparr>vc_expansions := n\<rparr>)
    = validateNodeKeywords lib W value schema path (vc\<lparr>vc_expansions := n\<rparr>)"
proof -
  have v: "check_value lib V value schema path (vc\<lparr>vc_expansions := n\<rparr>) = check_value lib W value schema path (vc\<lparr>vc_expansions := n\<rparr>)" for n
    unfolding check_value_def
    by (intro seq_agree refl) (use assms in \<open>auto intro: agree_rules split: json.splits\<close>)
  then have t: "check_typed lib V value schema path (vc\<lparr>vc_expansions := n\<rparr>) = check_typed lib W value schema path (vc\<lparr>vc_expansions := n\<rparr>)" for n
    by (auto simp: check_typed_def split: option.splits)
  show ?thesis unfolding validateNodeKeywords_def
    by (intro seq_agree t) (use assms in \<open>auto intro: agree_rules\<close>)
qed

lemma validateNodeKeywords_cong [fundef_cong]:
  assumes "lib = lib'" "value = value'" "schema = schema'" "path = path'" "vc = vc'"
    and "\<And>n v s p. size s < width schema' \<Longrightarrow> V (vc'\<lparr>vc_expansions := n\<rparr>) v s p = W (vc'\<lparr>vc_expansions := n\<rparr>) v s p"
  shows "validateNodeKeywords lib V value schema path vc = validateNodeKeywords lib' W value' schema' path' vc'"
  using validateNodeKeywords_agree [of schema' vc' V W lib "value" path "vc_expansions vc'"] assms by (simp add: agree_def)

function validateNode :: "schemaLib \<Rightarrow> visitor" where
  "validateNode lib vc value schema path =
     (case schema of
        JBool b \<Rightarrow> emit (if \<not> b then report path ''schema is false'' else []) vc
      | JObj schemaMap \<Rightarrow>
          (case map_of schemaMap ''$ref'' of
             None \<Rightarrow> validateNodeKeywords lib (\<lambda>vc v s p. validateNode lib vc v s p) value schemaMap path vc
           | Some (JStr refStr) \<Rightarrow>
               (case resolveLocalRef (vc_root vc) refStr of
                  Inl e \<Rightarrow> emit (report path (error_text e)) vc
                | Inr (target, ptr) \<Rightarrow>
                    (case pushRef vc ptr of
                       Inl e \<Rightarrow> emit (report path (error_text e)) vc
                     | Inr vc' \<Rightarrow>
                         let (n, errs) = validateNode lib vc' value target path;
                             vc'' = popRef (vc'\<lparr>vc_expansions := n\<rparr>);
                             siblings = filter (\<lambda>(k, v). k \<noteq> ''$ref'') schemaMap
                         in if siblings \<noteq> []
                            then let (n', errs') = validateNodeKeywords lib (\<lambda>vc v s p. validateNode lib vc v s p) value siblings path vc''
                                 in (n', errs @ errs')
                            else (n, errs)))
           | Some _ \<Rightarrow> emit (report path (sentinel_text ErrSchemaRefInvalid)) vc)
      | _ \<Rightarrow> emit [] vc)"
  by pat_completeness auto

lemma pushRef_depth: "pushRef vc ptr = Inr vc' \<Longrightarrow> vc_refDepth vc < MaxSchemaRefDepth \<and> vc_refDepth vc' = Suc (vc_refDepth vc)"
  by (auto simp: pushRef_def split: if_splits)

termination validateNode
proof (relation "inv_image (less_than <*lex*> less_than) (\<lambda>(lib, vc, value, schema, path). (MaxSchemaRefDepth - vc_refDepth vc, size schema))",
    goal_cases)
  case 1
  show ?case by auto
next
  case (2 lib vc val schema path m n v s p)
  then show ?case by (simp add: width_def)
next
  case (3 lib vc val schema path m r refStr b target ptr vc')
  then show ?case by (auto dest: pushRef_depth)
next
  case (4 lib vc val schema path m r refStr b target ptr vc' x n errs vc'' siblings)
  then have "size s < size (JObj m)" if "size s < width siblings" for s :: json
    using that width_filter [of "\<lambda>(k, v). k \<noteq> ''$ref''" m] by (simp add: width_def)
  with 4 show ?case by (simp add: popRef_pushRef)
qed

declare validateNode.simps [simp del]

text \<open>The part after the decoding of the schema, which is also what a constant schema needs.\<close>

definition validate_against :: "schemaLib \<Rightarrow> string \<Rightarrow> json \<Rightarrow> err option" where
  "validate_against lib doc schemaNode =
     (case sl_decode lib doc of
        Inl e \<Rightarrow> Some (Plain (validationError_text \<lparr>ve_Path = [], ve_Message = ''invalid JSON: '' @ error_text e\<rparr>))
      | Inr docNode \<Rightarrow>
          let vc = \<lparr>vc_root = schemaNode, vc_refDepth = 0, vc_expansions = 0, vc_stack = []\<rparr>;
              errs = snd (validateNode lib vc docNode schemaNode [])
          in if errs \<noteq> [] then Some (Plain (validationErrors_text errs)) else None)"

definition validateSchema :: "schemaLib \<Rightarrow> string \<Rightarrow> string \<Rightarrow> err option" where
  "validateSchema lib doc schema =
     (case sl_decode lib schema of
        Inl e \<Rightarrow> Some (wrapf ''invalid schema: '' e)
      | Inr schemaNode \<Rightarrow> validate_against lib doc schemaNode)"

section \<open>The strict-schema walk\<close>

definition unsupportedStrictKeywords :: "string list" where
  "unsupportedStrictKeywords = [''dependentRequired'', ''dependentSchemas'', ''unevaluatedProperties'',
     ''unevaluatedItems'', ''prefixItems'', ''contains'', ''propertyNames'']"

text \<open>The nested schemas of one keyword, with their paths.\<close>

definition holders :: "schemaLib \<Rightarrow> string \<Rightarrow> json \<Rightarrow> string \<Rightarrow> (json \<times> string) list" where
  "holders lib k v p =
     (if k \<in> {''properties'', ''$defs'', ''definitions''} then
        (case v of JObj props \<Rightarrow> map (\<lambda>(pk, pv). (pv, joinPath p pk)) (range_map lib props) | _ \<Rightarrow> [])
      else if k \<in> {''items'', ''additionalProperties'', ''not'', ''if'', ''then'', ''else''} then [(v, p)]
      else if k \<in> {''oneOf'', ''anyOf'', ''allOf''} then
        (case v of JArr els \<Rightarrow> map (\<lambda>(i, el). (el, p @ ''/'' @ itoa i)) (enumerate 0 els) | _ \<Rightarrow> [])
      else [])"

lemma holders_size:
  assumes "(s, q) \<in> set (holders lib k v p)"
  shows "size s \<le> size v"
proof -
  consider "s = v"
    | props where "v = JObj props" "(s, q) \<in> set (map (\<lambda>(pk, pv). (pv, joinPath p pk)) (range_map lib props))"
    | els where "v = JArr els" "(s, q) \<in> set (map (\<lambda>(i, el). (el, p @ ''/'' @ itoa i)) (enumerate 0 els))"
    using assms unfolding holders_def by (cases v) (simp_all only: json.case split: if_split_asm, auto)
  then show ?thesis
  proof cases
    case 2
    then obtain pk where "(pk, s) \<in> set props" by auto
    from size_value [OF this] show ?thesis using 2(1) by simp
  next
    case 3
    then have "s \<in> set els" by (auto simp: in_set_enumerate_eq)
    from size_elem [OF this] show ?thesis using 3(1) by simp
  qed simp
qed

function walkSchemaKeywords :: "schemaLib \<Rightarrow> json \<Rightarrow> string \<Rightarrow> string list" where
  "walkSchemaKeywords lib node path =
     (case node of
        JArr els \<Rightarrow> concat (map (\<lambda>(i, el). walkSchemaKeywords lib el (path @ ''/'' @ itoa i)) (enumerate 0 els))
      | JObj m \<Rightarrow>
          concat (map (\<lambda>(k, v).
            if k \<in> set unsupportedStrictKeywords then [joinPath path k]
            else concat (map (\<lambda>(s, p). walkSchemaKeywords lib s p) (holders lib k v (joinPath path k))))
            (range_map lib m))
      | _ \<Rightarrow> [])"
  by pat_completeness auto
termination walkSchemaKeywords
proof (relation "measure (\<lambda>(_, node, _). size node)", goal_cases)
  case (2 lib node path els z i el)
  then have "el \<in> set els" by (auto simp: in_set_enumerate_eq)
  from size_elem [OF this] 2(1) show ?case by simp
next
  case (3 lib node path m z k v w s p)
  then have "(k, v) \<in> set m" "(s, p) \<in> set (holders lib k v (joinPath path k))" by simp_all
  from size_value [OF this(1)] holders_size [OF this(2)] 3(1) show ?case by simp
qed simp

declare walkSchemaKeywords.simps [simp del]

definition checkSchemaSupported :: "schemaLib \<Rightarrow> string \<Rightarrow> err option" where
  "checkSchemaSupported lib schema =
     (case sl_decode lib schema of
        Inl e \<Rightarrow> Some (wrapf ''invalid schema JSON: '' e)
      | Inr node \<Rightarrow>
          let found = walkSchemaKeywords lib node [] in
          if found = [] then None
          else Some (Plain (''unsupported schema keywords: '' @ str_join '', '' found)))"

end
