(* ===== verification/SchemaSpec.thy ===== *)
theory SchemaSpec
  imports Schema
begin

text \<open>
  What the validator of \<^verbatim>\<open>schema.go\<close> promises. \<open>conforms\<close> is the meaning of the supported keywords, with
  no error list, no order and no bookkeeping; the validator decides it for schemas without \<^verbatim>\<open>$ref\<close>
  and without \<^verbatim>\<open>false\<close> under \<^verbatim>\<open>properties\<close> (\<open>validateSchema_decides\<close>). With \<^verbatim>\<open>$ref\<close>, what is used of the budget
  stays used on every path (\<open>validateNode_budget\<close>), and
  the counterexamples show where the code leaves its documented behaviour: failures below \<^verbatim>\<open>not\<close> that
  accept, \<^verbatim>\<open>false\<close> under \<^verbatim>\<open>properties\<close> that is skipped, and recursive schemas that are refused.
\<close>

section \<open>The meaning of a schema\<close>

definition bound_ok :: "schemaLib \<Rightarrow> json option \<Rightarrow> (float64 \<Rightarrow> bool) \<Rightarrow> bool" where
  "bound_ok lib bound violated = (\<forall>b. asFloat lib bound = Some b \<longrightarrow> \<not> violated b)"

definition string_ok :: "schemaLib \<Rightarrow> (string \<times> json) list \<Rightarrow> string \<Rightarrow> bool" where
  "string_ok lib m s =
     (bound_ok lib (map_of m ''minLength'') (\<lambda>b. float_less (float_len s) b)
      \<and> bound_ok lib (map_of m ''maxLength'') (\<lambda>b. float_less b (float_len s))
      \<and> (\<forall>pat. map_of m ''pattern'' = Some (JStr pat) \<longrightarrow> pat \<noteq> []
           \<longrightarrow> length pat \<le> MaxSchemaPatternLen \<and> (\<exists>f. sl_regexp lib pat = Inr f \<and> f s))
      \<and> (\<forall>name. map_of m ''format'' = Some (JStr name) \<longrightarrow> checkFormat lib name s = []))"

definition number_ok :: "schemaLib \<Rightarrow> (string \<times> json) list \<Rightarrow> rat \<Rightarrow> bool" where
  "number_ok lib m q =
     (bound_ok lib (map_of m ''minimum'') (\<lambda>b. float_less (Fin q) b)
      \<and> bound_ok lib (map_of m ''maximum'') (\<lambda>b. float_less b (Fin q))
      \<and> bound_ok lib (exclusive_bound m ''exclusiveMinimum'' ''minimum'') (\<lambda>b. float_le (Fin q) b)
      \<and> bound_ok lib (exclusive_bound m ''exclusiveMaximum'' ''maximum'') (\<lambda>b. float_le b (Fin q)))"

definition object_ok :: "schemaLib \<Rightarrow> (string \<times> json) list \<Rightarrow> (string \<times> json) list \<Rightarrow> bool" where
  "object_ok lib m obj =
     (bound_ok lib (map_of m ''minProperties'') (\<lambda>b. float_less (float_len obj) b)
      \<and> bound_ok lib (map_of m ''maxProperties'') (\<lambda>b. float_less b (float_len obj))
      \<and> (\<forall>req key. map_of m ''required'' = Some (JArr req) \<longrightarrow> JStr key \<in> set req \<longrightarrow> key \<in> fst ` set obj))"

definition array_ok :: "schemaLib \<Rightarrow> (string \<times> json) list \<Rightarrow> json list \<Rightarrow> bool" where
  "array_ok lib m arr =
     (bound_ok lib (map_of m ''minItems'') (\<lambda>b. float_less (float_len arr) b)
      \<and> bound_ok lib (map_of m ''maxItems'') (\<lambda>b. float_less b (float_len arr))
      \<and> (map_of m ''uniqueItems'' = Some (JBool True) \<longrightarrow> distinct arr))"

definition value_ok :: "schemaLib \<Rightarrow> (string \<times> json) list \<Rightarrow> json \<Rightarrow> bool" where
  "value_ok lib m v =
     ((\<forall>t. map_of m ''type'' = Some t \<longrightarrow> checkType lib v t)
      \<and> (\<forall>es. map_of m ''enum'' = Some (JArr es) \<longrightarrow> v \<in> set es)
      \<and> (\<forall>c. map_of m ''const'' = Some c \<longrightarrow> v = c)
      \<and> (\<forall>s. v = JStr s \<longrightarrow> string_ok lib m s)
      \<and> (\<forall>q. v = JNum q \<longrightarrow> number_ok lib m q)
      \<and> (\<forall>obj. v = JObj obj \<longrightarrow> object_ok lib m obj)
      \<and> (\<forall>arr. v = JArr arr \<longrightarrow> array_ok lib m arr))"

function conforms :: "schemaLib \<Rightarrow> json \<Rightarrow> json \<Rightarrow> bool" where
  "conforms lib schema v =
     (case schema of
        JBool b \<Rightarrow> b
      | JObj m \<Rightarrow>
          value_ok lib m v
          \<and> (\<forall>c. map_of m ''if'' = Some c \<longrightarrow>
               (if conforms lib c v then \<forall>t. map_of m ''then'' = Some t \<longrightarrow> conforms lib t v
                else \<forall>t. map_of m ''else'' = Some t \<longrightarrow> conforms lib t v))
          \<and> (\<forall>s. map_of m ''not'' = Some s \<longrightarrow> \<not> conforms lib s v)
          \<and> (\<forall>ss. map_of m ''allOf'' = Some (JArr ss) \<longrightarrow> (\<forall>s\<in>set ss. conforms lib s v))
          \<and> (\<forall>ss. map_of m ''anyOf'' = Some (JArr ss) \<longrightarrow> ss \<noteq> [] \<longrightarrow> (\<exists>s\<in>set ss. conforms lib s v))
          \<and> (\<forall>ss. map_of m ''oneOf'' = Some (JArr ss) \<longrightarrow> ss \<noteq> [] \<longrightarrow> length (filter (\<lambda>s. conforms lib s v) ss) = 1)
          \<and> (\<forall>ps obj k s x. map_of m ''properties'' = Some (JObj ps) \<longrightarrow> v = JObj obj \<longrightarrow>
               map_of ps k = Some s \<longrightarrow> map_of obj k = Some x \<longrightarrow> conforms lib s x)
          \<and> (\<forall>a obj k x. map_of m ''additionalProperties'' = Some a \<longrightarrow> v = JObj obj \<longrightarrow>
               map_of (schema_props m) k = None \<longrightarrow> map_of obj k = Some x \<longrightarrow> conforms lib a x)
          \<and> (\<forall>it arr. map_of m ''items'' = Some it \<longrightarrow> v = JArr arr \<longrightarrow> (\<forall>x\<in>set arr. conforms lib it x))
      | _ \<Rightarrow> True)"
  by pat_completeness auto
termination
  by (relation "measure (\<lambda>(_, schema, _). size schema)")
    (auto simp del: json.size intro: size_lookup size_lookup_elem size_lookup_value [OF _ map_of_SomeD])

declare conforms.simps [simp del]

text \<open>
  Two restrictions on schemas. \<open>ref_free\<close>: no object of the schema has the key \<^verbatim>\<open>$ref\<close>.
  \<open>no_false_property\<close>: \<^verbatim>\<open>properties\<close> gives no property the schema \<^verbatim>\<open>false\<close>; the validator skips such a
  property although its comment says that \<^verbatim>\<open>false\<close> never matches (\<open>false_property_accepts\<close>).
\<close>

fun no_ref :: "json \<Rightarrow> bool" where
  "no_ref (JObj m) = (map_of m ''$ref'' = None)"
| "no_ref _ = True"

definition ref_free :: "json \<Rightarrow> bool" where
  "ref_free = everywhere no_ref"

fun no_false_child :: "json \<Rightarrow> bool" where
  "no_false_child (JObj m) = (case map_of m ''properties'' of Some (JObj ps) \<Rightarrow> list_all (\<lambda>(_, s). s \<noteq> JBool False) ps | _ \<Rightarrow> True)"
| "no_false_child _ = True"

definition no_false_property :: "json \<Rightarrow> bool" where
  "no_false_property = everywhere no_false_child"

section \<open>The validator decides it\<close>

definition proper :: "json \<Rightarrow> bool" where
  "proper s = (decoded s \<and> ref_free s \<and> no_false_property s)"

definition decides :: "nat \<Rightarrow> schemaLib \<Rightarrow> visitor \<Rightarrow> bool" where
  "decides N lib V = (\<forall>vc v s p. size s < N \<longrightarrow> decoded v \<longrightarrow> proper s
     \<longrightarrow> (snd (V vc v s p) = [] \<longleftrightarrow> conforms lib s v))"

lemma emit_ok [simp]: "snd (emit errs vc) = [] \<longleftrightarrow> errs = []"
  by (simp add: emit_def)

lemma seq_ok: "(\<And>vc. snd (a vc) = [] \<longleftrightarrow> P) \<Longrightarrow> (\<And>vc. snd (b vc) = [] \<longleftrightarrow> Q) \<Longrightarrow> snd (seq a b vc) = [] \<longleftrightarrow> P \<and> Q"
  by (auto simp: seq_def split: prod.splits) (metis snd_conv)+

lemma each_ok: "(\<And>x vc. x \<in> set xs \<Longrightarrow> snd (f x vc) = [] \<longleftrightarrow> P x) \<Longrightarrow> snd (each f xs vc) = [] \<longleftrightarrow> (\<forall>x\<in>set xs. P x)"
proof (induction xs arbitrary: vc)
  case (Cons x xs)
  then show ?case using seq_ok [of "f x" "P x" "each f xs" "\<forall>x\<in>set xs. P x" vc] by simp
qed simp

lemma bound_error_ok: "bound_error lib violated b path msg = [] \<longleftrightarrow> bound_ok lib b violated"
  by (auto simp: bound_error_def bound_ok_def split: option.splits)

lemma duplicate_errors_ok: "duplicate_errors path xs = [] \<longleftrightarrow> distinct xs"
  by (induction xs) auto

lemma required_errors_ok:
  "required_errors obj m path = [] \<longleftrightarrow>
     (\<forall>req key. map_of m ''required'' = Some (JArr req) \<longrightarrow> JStr key \<in> set req \<longrightarrow> key \<in> fst ` set obj)"
proof (cases "\<exists>req. map_of m ''required'' = Some (JArr req)")
  case True
  then show ?thesis
    by (fastforce simp: required_errors_def map_of_eq_None_iff split: json.splits if_splits)
next
  case False
  then show ?thesis by (auto simp: required_errors_def split: option.splits json.splits)
qed

lemma pattern_errors_ok:
  "snd (pattern_errors lib s m path) = [] \<longleftrightarrow> (\<forall>pat. map_of m ''pattern'' = Some (JStr pat) \<longrightarrow> pat \<noteq> []
     \<longrightarrow> length pat \<le> MaxSchemaPatternLen \<and> (\<exists>f. sl_regexp lib pat = Inr f \<and> f s))"
  "fst (pattern_errors lib s m path) \<Longrightarrow> snd (pattern_errors lib s m path) \<noteq> []"
  by (auto simp: pattern_errors_def split: option.splits json.splits sum.splits)

lemma format_errors_ok:
  "format_errors lib s m path = [] \<longleftrightarrow> (\<forall>name. map_of m ''format'' = Some (JStr name) \<longrightarrow> checkFormat lib name s = [])"
proof -
  have "checkFormat lib [] s = []" by (simp add: checkFormat_def)
  then show ?thesis by (auto simp: format_errors_def Let_def split: option.splits json.splits)
qed

lemma validateString_ok: "validateString lib s m path = [] \<longleftrightarrow> string_ok lib m s"
  using pattern_errors_ok [where lib = lib and s = s and m = m and path = path]
  by (cases "pattern_errors lib s m path")
    (auto simp: validateString_def string_ok_def bound_error_ok format_errors_ok)

lemma validateNumber_ok: "validateNumber lib q m path = [] \<longleftrightarrow> number_ok lib m q"
  by (simp add: validateNumber_def number_ok_def bound_error_ok)

text \<open>The schemas a schema reaches are proper again.\<close>

lemma proper_lookup: "proper (JObj m) \<Longrightarrow> map_of m k = Some s \<Longrightarrow> proper s"
  unfolding proper_def ref_free_def no_false_property_def using decoded_value everywhere_lookup map_of_SomeD by metis

lemma proper_elem: "proper (JArr xs) \<Longrightarrow> x \<in> set xs \<Longrightarrow> proper x"
  unfolding proper_def ref_free_def no_false_property_def using decoded_elem everywhere_elem by metis

lemma proper_lookup_elem: "proper (JObj m) \<Longrightarrow> map_of m k = Some (JArr xs) \<Longrightarrow> x \<in> set xs \<Longrightarrow> proper x"
  using proper_lookup proper_elem by metis

lemma decided: "decides N lib V \<Longrightarrow> size s < N \<Longrightarrow> decoded v \<Longrightarrow> proper s \<Longrightarrow> snd (V vc v s p) = [] \<longleftrightarrow> conforms lib s v"
  by (simp add: decides_def)

lemma check_if_ok:
  assumes "decides (width m) lib V" "decoded v" "proper (JObj m)"
  shows "snd (check_if V v m path vc) = [] \<longleftrightarrow> (\<forall>c. map_of m ''if'' = Some c \<longrightarrow>
     (if conforms lib c v then \<forall>t. map_of m ''then'' = Some t \<longrightarrow> conforms lib t v
      else \<forall>t. map_of m ''else'' = Some t \<longrightarrow> conforms lib t v))"
proof (cases "map_of m ''if''")
  case (Some c)
  have d: "snd (V vc v s p) = [] \<longleftrightarrow> conforms lib s v" if "map_of m k = Some s" for vc s p k
    using decided [OF assms(1) width_lookup assms(2) proper_lookup [OF assms(3)]] that by blast
  show ?thesis
  proof (cases "V vc v c path")
    case (Pair n es)
    then have "es = [] \<longleftrightarrow> conforms lib c v" using d [OF Some, of vc path] by simp
    with Pair Some show ?thesis by (simp add: check_if_def d split: option.split)
  qed
qed (simp add: check_if_def)

lemma check_not_ok:
  assumes "decides (width m) lib V" "decoded v" "proper (JObj m)"
  shows "snd (check_not V v m path vc) = [] \<longleftrightarrow> (\<forall>s. map_of m ''not'' = Some s \<longrightarrow> \<not> conforms lib s v)"
proof (cases "map_of m ''not''")
  case (Some s)
  obtain n es where r: "V vc v s path = (n, es)" by fastforce
  then have "es = [] \<longleftrightarrow> conforms lib s v"
    using decided [OF assms(1) width_lookup [OF Some] assms(2) proper_lookup [OF assms(3) Some], of vc path] by simp
  with r Some show ?thesis by (simp add: check_not_def)
qed (simp add: check_not_def)

lemma check_allOf_ok:
  assumes "decides (width m) lib V" "decoded v" "proper (JObj m)"
  shows "snd (check_allOf V v m path vc) = [] \<longleftrightarrow> (\<forall>ss. map_of m ''allOf'' = Some (JArr ss) \<longrightarrow> (\<forall>s\<in>set ss. conforms lib s v))"
proof -
  have "snd (each (\<lambda>sub vc. V vc v sub path) ss vc) = [] \<longleftrightarrow> (\<forall>s\<in>set ss. conforms lib s v)"
    if "map_of m ''allOf'' = Some (JArr ss)" for ss
    by (rule each_ok) (rule decided [OF assms(1) width_elem [OF that] assms(2) proper_lookup_elem [OF assms(3) that]])
  then show ?thesis by (auto simp: check_allOf_def split: option.splits json.splits)
qed

lemma match_alts_ok:
  assumes "\<And>s vc p. s \<in> set alts \<Longrightarrow> snd (V vc v s p) = [] \<longleftrightarrow> conforms lib s v"
  shows "snd (match_alts V v ex k alts vc) \<longleftrightarrow>
    (if ex then k + length (filter (\<lambda>s. conforms lib s v) alts) = 1
     else k \<ge> 1 \<or> (\<exists>s\<in>set alts. conforms lib s v))"
  using assms
proof (induction alts arbitrary: k vc)
  case (Cons s alts)
  obtain n es where r: "V vc v s [] = (n, es)" by fastforce
  have "es = [] \<longleftrightarrow> conforms lib s v" using Cons.prems [of s vc "[]"] r by simp
  moreover note Cons.IH [OF Cons.prems]
  ultimately show ?case using r by auto
qed auto

lemma check_alts_ok:
  assumes "decides (width m) lib V" "decoded v" "proper (JObj m)"
  shows "snd (check_alts V v m path key ex msg vc) = [] \<longleftrightarrow> (\<forall>ss. map_of m key = Some (JArr ss) \<longrightarrow> ss \<noteq> [] \<longrightarrow>
     (if ex then length (filter (\<lambda>s. conforms lib s v) ss) = 1 else \<exists>s\<in>set ss. conforms lib s v))"
proof -
  have "snd (matchOneOfAnyOf V v ss ex vc) \<longleftrightarrow>
     (if ex then length (filter (\<lambda>s. conforms lib s v) ss) = 1 else \<exists>s\<in>set ss. conforms lib s v)"
    if ss: "map_of m key = Some (JArr ss)" for ss
  proof -
    have "snd (V vc v s p) = [] \<longleftrightarrow> conforms lib s v" if "s \<in> set ss" for vc s p
      by (rule decided [OF assms(1) width_elem [OF ss that] assms(2) proper_lookup_elem [OF assms(3) ss that]])
    then show ?thesis using match_alts_ok [of ss V v lib ex 0 vc] by (simp add: matchOneOfAnyOf_def)
  qed
  then show ?thesis
    by (cases "map_of m key") (auto simp: check_alts_def case_prod_beta split: json.splits)
qed


lemma proper_property:
  assumes "proper (JObj m)" "map_of m ''properties'' = Some (JObj ps)" "(k, s) \<in> set ps"
  shows "proper s" "s \<noteq> JBool False"
proof -
  have "proper (JObj ps)" by (rule proper_lookup [OF assms(1,2)])
  then show "proper s"
    using assms(3) decoded_value everywhere_value unfolding proper_def ref_free_def no_false_property_def by metis
  have "no_false_child (JObj m)" using assms(1) everywhere_here by (simp add: proper_def ref_free_def no_false_property_def)
  then show "s \<noteq> JBool False" using assms(2,3) by (auto simp: list_all_iff)
qed

lemma conforms_nonobject: "object s = None \<Longrightarrow> s \<noteq> JBool False \<Longrightarrow> conforms lib s v"
  by (subst conforms.simps) (auto split: json.splits)

lemma properties_ok:
  assumes "decides (width m) lib V" "decoded (JObj obj)" "proper (JObj m)"
  shows "snd (each (check_property V obj path) (range_map lib (schema_props m)) vc) = [] \<longleftrightarrow>
     (\<forall>ps k s x. map_of m ''properties'' = Some (JObj ps) \<longrightarrow> map_of ps k = Some s \<longrightarrow> map_of obj k = Some x \<longrightarrow> conforms lib s x)"
proof (cases "\<exists>ps. map_of m ''properties'' = Some (JObj ps)")
  case True
  then obtain ps where ps: "map_of m ''properties'' = Some (JObj ps)" by blast
  have "snd (check_property V obj path (k, s) vc) = [] \<longleftrightarrow> (\<forall>x. map_of obj k = Some x \<longrightarrow> conforms lib s x)"
    if "(k, s) \<in> set ps" for k s vc
  proof (cases "object s")
    case None
    then show ?thesis using conforms_nonobject proper_property(2) [OF assms(3) ps that] by (simp add: check_property_def)
  next
    case (Some om)
    have "snd (V vc x s (joinPath path k)) = [] \<longleftrightarrow> conforms lib s x" if "map_of obj k = Some x" for x
      using that decided [OF assms(1) width_value [OF ps \<open>(k, s) \<in> set ps\<close>] decoded_value [OF assms(2) map_of_SomeD]
        proper_property(1) [OF assms(3) ps \<open>(k, s) \<in> set ps\<close>]] by blast
    with Some show ?thesis by (simp add: check_property_def split: option.split)
  qed
  then have "snd (each (check_property V obj path) (range_map lib (schema_props m)) vc) = [] \<longleftrightarrow>
    (\<forall>ks\<in>set (range_map lib (schema_props m)). \<forall>x. map_of obj (fst ks) = Some x \<longrightarrow> conforms lib (snd ks) x)"
    using ps by (intro each_ok) (auto simp: schema_props_def)
  moreover have "set (range_map lib (schema_props m)) = set ps" using ps by (simp add: schema_props_def)
  moreover have "map_of ps k = Some s \<longleftrightarrow> (k, s) \<in> set ps" for k s
    using decoded_distinct proper_lookup [OF assms(3) ps] by (simp add: proper_def)
  ultimately show ?thesis using ps by auto
next
  case False
  then have "schema_props m = []" by (auto simp: schema_props_def split: option.splits json.splits)
  then have "range_map lib (schema_props m) = []" using set_range_map by (metis set_empty)
  with False show ?thesis by simp
qed

lemma additional_ok:
  assumes "decides (width m) lib V" "decoded (JObj obj)" "proper (JObj m)"
  shows "snd (check_additional lib V obj m path vc) = [] \<longleftrightarrow>
     (\<forall>a k x. map_of m ''additionalProperties'' = Some a \<longrightarrow> map_of (schema_props m) k = None \<longrightarrow> map_of obj k = Some x \<longrightarrow> conforms lib a x)"
proof (cases "map_of m ''additionalProperties''")
  case (Some a)
  have known: "map_of obj k = Some x \<longleftrightarrow> (k, x) \<in> set obj" for k x
    using decoded_distinct [OF assms(2)] by simp
  have "conforms lib (JBool b) x \<longleftrightarrow> b" for b x by (subst conforms.simps) simp
  moreover have "conforms lib a x" if "object a = None" "a \<noteq> JBool False" for x
    using that by (rule conforms_nonobject)
  moreover have "snd (each (\<lambda>(key, val) vc. if map_of (schema_props m) key \<noteq> None then emit [] vc
        else V vc val a (joinPath path key)) (range_map lib obj) vc) = []
     \<longleftrightarrow> (\<forall>kx\<in>set obj. map_of (schema_props m) (fst kx) = None \<longrightarrow> conforms lib a (snd kx))"
    using each_ok [of "range_map lib obj" "\<lambda>(key, val) vc. if map_of (schema_props m) key \<noteq> None then emit [] vc
        else V vc val a (joinPath path key)" "\<lambda>kx. map_of (schema_props m) (fst kx) = None \<longrightarrow> conforms lib a (snd kx)" vc]
      decided [OF assms(1) width_lookup [OF Some] decoded_value [OF assms(2)] proper_lookup [OF assms(3) Some]]
    by fastforce
  ultimately show ?thesis
    using Some by (cases a) (fastforce simp: check_additional_def known split: if_splits)+
qed (simp add: check_additional_def)

lemma validateObject_ok:
  assumes "decides (width m) lib V" "decoded (JObj obj)" "proper (JObj m)"
  shows "snd (validateObject lib V obj m path vc) = [] \<longleftrightarrow> object_ok lib m obj
     \<and> (\<forall>ps k s x. map_of m ''properties'' = Some (JObj ps) \<longrightarrow> map_of ps k = Some s \<longrightarrow> map_of obj k = Some x \<longrightarrow> conforms lib s x)
     \<and> (\<forall>a k x. map_of m ''additionalProperties'' = Some a \<longrightarrow> map_of (schema_props m) k = None \<longrightarrow> map_of obj k = Some x \<longrightarrow> conforms lib a x)"
  unfolding validateObject_def
  by (rule seq_ok [OF _ seq_ok [OF properties_ok [OF assms] additional_ok [OF assms]]])
    (simp add: object_ok_def bound_error_ok required_errors_ok)

lemma validateArray_ok:
  assumes "decides (width m) lib V" "decoded (JArr arr)" "proper (JObj m)"
  shows "snd (validateArray lib V arr m path vc) = [] \<longleftrightarrow> array_ok lib m arr
     \<and> (\<forall>it. map_of m ''items'' = Some it \<longrightarrow> (\<forall>x\<in>set arr. conforms lib it x))"
  unfolding validateArray_def
proof (rule seq_ok)
  show "snd (emit (bound_error lib (\<lambda>v. float_less (float_len arr) v) (map_of m ''minItems'') path
                  (\<lambda>v. ''array length '' @ itoa (length arr) @ '' is less than minItems '' @ sl_fmtFloat lib v)
                @ bound_error lib (\<lambda>v. float_less v (float_len arr)) (map_of m ''maxItems'') path
                  (\<lambda>v. ''array length '' @ itoa (length arr) @ '' is greater than maxItems '' @ sl_fmtFloat lib v)
                @ (if map_of m ''uniqueItems'' = Some (JBool True) then duplicate_errors path arr else [])) vc) = []
     \<longleftrightarrow> array_ok lib m arr" for vc
    by (simp add: array_ok_def bound_error_ok duplicate_errors_ok)
  fix vc
  show "snd ((case map_of m ''items'' of None \<Rightarrow> emit []
      | Some items \<Rightarrow> each (\<lambda>(i, elem) vc. V vc elem items (path @ ''/'' @ itoa i)) (enumerate 0 arr)) vc) = []
     \<longleftrightarrow> (\<forall>it. map_of m ''items'' = Some it \<longrightarrow> (\<forall>x\<in>set arr. conforms lib it x))"
  proof (cases "map_of m ''items''")
    case (Some it)
    have "snd (each (\<lambda>(i, elem) vc. V vc elem it (path @ ''/'' @ itoa i)) (enumerate 0 arr) vc) = []
       \<longleftrightarrow> (\<forall>ix\<in>set (enumerate 0 arr). conforms lib it (snd ix))"
      using decided [OF assms(1) width_lookup [OF Some] decoded_elem [OF assms(2)] proper_lookup [OF assms(3) Some]]
      by (intro each_ok) (auto simp: in_set_enumerate_eq)
    also have "\<dots> \<longleftrightarrow> (\<forall>x\<in>set arr. conforms lib it x)"
      by (simp flip: set_map [of snd "enumerate 0 arr", unfolded map_snd_enumerate] ball_simps(9))
    finally show ?thesis using Some by simp
  qed simp
qed


definition value_keywords_ok :: "schemaLib \<Rightarrow> (string \<times> json) list \<Rightarrow> json \<Rightarrow> bool" where
  "value_keywords_ok lib m v =
     ((\<forall>es. map_of m ''enum'' = Some (JArr es) \<longrightarrow> v \<in> set es)
      \<and> (\<forall>c. map_of m ''const'' = Some c \<longrightarrow> v = c)
      \<and> (\<forall>s. v = JStr s \<longrightarrow> string_ok lib m s)
      \<and> (\<forall>q. v = JNum q \<longrightarrow> number_ok lib m q))"

lemma value_errors_ok: "value_errors lib v m path = [] \<longleftrightarrow> value_keywords_ok lib m v"
proof -
  have "(case map_of m ''enum'' of None \<Rightarrow> []
      | Some e \<Rightarrow> if \<not> checkEnum v e then report path (''value not in enum '' @ go_v (sl_fmtFloat lib) e) else []) = []
    \<longleftrightarrow> (\<forall>es. map_of m ''enum'' = Some (JArr es) \<longrightarrow> v \<in> set es)"
    by (cases "map_of m ''enum''"; cases "the (map_of m ''enum'')") (simp_all add: checkEnum_def)
  moreover have "(case map_of m ''const'' of None \<Rightarrow> []
      | Some c \<Rightarrow> if v \<noteq> c then report path (''value does not equal const '' @ go_v (sl_fmtFloat lib) c) else []) = []
    \<longleftrightarrow> (\<forall>c. map_of m ''const'' = Some c \<longrightarrow> v = c)"
    by (cases "map_of m ''const''") simp_all
  ultimately show ?thesis unfolding value_errors_def value_keywords_ok_def append_is_Nil_conv
    by (cases v) (simp_all add: validateString_ok validateNumber_ok)
qed

definition inside_ok :: "schemaLib \<Rightarrow> (string \<times> json) list \<Rightarrow> json \<Rightarrow> bool" where
  "inside_ok lib m v =
     ((\<forall>obj. v = JObj obj \<longrightarrow> object_ok lib m obj
         \<and> (\<forall>ps k s x. map_of m ''properties'' = Some (JObj ps) \<longrightarrow> map_of ps k = Some s \<longrightarrow> map_of obj k = Some x \<longrightarrow> conforms lib s x)
         \<and> (\<forall>a k x. map_of m ''additionalProperties'' = Some a \<longrightarrow> map_of (schema_props m) k = None \<longrightarrow> map_of obj k = Some x \<longrightarrow> conforms lib a x))
      \<and> (\<forall>arr. v = JArr arr \<longrightarrow> array_ok lib m arr \<and> (\<forall>it. map_of m ''items'' = Some it \<longrightarrow> (\<forall>x\<in>set arr. conforms lib it x))))"

lemma check_value_ok:
  assumes "decides (width m) lib V" "decoded v" "proper (JObj m)"
  shows "snd (check_value lib V v m path vc) = [] \<longleftrightarrow> value_keywords_ok lib m v \<and> inside_ok lib m v"
  unfolding check_value_def
proof (rule seq_ok)
  fix vc
  show "snd ((case v of JObj obj \<Rightarrow> validateObject lib V obj m path | JArr arr \<Rightarrow> validateArray lib V arr m path | _ \<Rightarrow> emit []) vc) = []
    \<longleftrightarrow> inside_ok lib m v"
  proof (cases v)
    case (JObj obj)
    with validateObject_ok [OF assms(1) _ assms(3), of obj] assms(2) show ?thesis by (simp add: inside_ok_def)
  next
    case (JArr arr)
    with validateArray_ok [OF assms(1) _ assms(3), of arr] assms(2) show ?thesis by (simp add: inside_ok_def)
  qed (simp_all add: inside_ok_def)
qed (simp add: value_errors_ok)

lemma check_typed_ok:
  assumes "decides (width m) lib V" "decoded v" "proper (JObj m)"
  shows "snd (check_typed lib V v m path vc) = [] \<longleftrightarrow>
     (\<forall>t. map_of m ''type'' = Some t \<longrightarrow> checkType lib v t) \<and> value_keywords_ok lib m v \<and> inside_ok lib m v"
  using check_value_ok [OF assms] by (simp add: check_typed_def split: option.split)

lemma value_inside_ok:
  "value_ok lib m v
     \<and> (\<forall>ps obj k s x. map_of m ''properties'' = Some (JObj ps) \<longrightarrow> v = JObj obj \<longrightarrow>
          map_of ps k = Some s \<longrightarrow> map_of obj k = Some x \<longrightarrow> conforms lib s x)
     \<and> (\<forall>a obj k x. map_of m ''additionalProperties'' = Some a \<longrightarrow> v = JObj obj \<longrightarrow>
          map_of (schema_props m) k = None \<longrightarrow> map_of obj k = Some x \<longrightarrow> conforms lib a x)
     \<and> (\<forall>it arr. map_of m ''items'' = Some it \<longrightarrow> v = JArr arr \<longrightarrow> (\<forall>x\<in>set arr. conforms lib it x))
   \<longleftrightarrow> (\<forall>t. map_of m ''type'' = Some t \<longrightarrow> checkType lib v t) \<and> value_keywords_ok lib m v \<and> inside_ok lib m v"
  unfolding value_ok_def value_keywords_ok_def inside_ok_def by (cases v; simp; blast?)

lemma conforms_object:
  "conforms lib (JObj m) v \<longleftrightarrow>
     (\<forall>c. map_of m ''if'' = Some c \<longrightarrow>
        (if conforms lib c v then \<forall>t. map_of m ''then'' = Some t \<longrightarrow> conforms lib t v
         else \<forall>t. map_of m ''else'' = Some t \<longrightarrow> conforms lib t v))
     \<and> (\<forall>s. map_of m ''not'' = Some s \<longrightarrow> \<not> conforms lib s v)
     \<and> (\<forall>ss. map_of m ''allOf'' = Some (JArr ss) \<longrightarrow> (\<forall>s\<in>set ss. conforms lib s v))
     \<and> (\<forall>ss. map_of m ''anyOf'' = Some (JArr ss) \<longrightarrow> ss \<noteq> [] \<longrightarrow> (\<exists>s\<in>set ss. conforms lib s v))
     \<and> (\<forall>ss. map_of m ''oneOf'' = Some (JArr ss) \<longrightarrow> ss \<noteq> [] \<longrightarrow> length (filter (\<lambda>s. conforms lib s v) ss) = 1)
     \<and> (\<forall>t. map_of m ''type'' = Some t \<longrightarrow> checkType lib v t) \<and> value_keywords_ok lib m v \<and> inside_ok lib m v"
  by (subst conforms.simps, unfold json.case, subst value_inside_ok [symmetric]) (simp only: conj_ac)

lemma validateNodeKeywords_ok:
  assumes "decides (width m) lib V" "decoded v" "proper (JObj m)"
  shows "snd (validateNodeKeywords lib V v m path vc) = [] \<longleftrightarrow> conforms lib (JObj m) v"
  unfolding validateNodeKeywords_def conforms_object
  using check_alts_ok [OF assms, of path "''anyOf''" False] check_alts_ok [OF assms, of path "''oneOf''" True]
  by (intro seq_ok check_if_ok [OF assms] check_not_ok [OF assms] check_allOf_ok [OF assms] check_typed_ok [OF assms]) simp_all

lemma validateNode_ok:
  "decoded v \<Longrightarrow> proper s \<Longrightarrow> snd (validateNode lib vc v s path) = [] \<longleftrightarrow> conforms lib s v"
proof (induction s arbitrary: v vc path rule: measure_induct_rule [of size])
  case (less s)
  show ?case
  proof (cases s)
    case (JObj m)
    have "decides (width m) lib (\<lambda>vc v s p. validateNode lib vc v s p)"
      using less.IH JObj by (simp add: decides_def width_def)
    moreover have "no_ref (JObj m)"
      using less.prems(2) JObj everywhere_here by (simp add: proper_def ref_free_def no_false_property_def)
    ultimately show ?thesis
      using JObj less.prems validateNodeKeywords_ok [of m lib "\<lambda>vc v s p. validateNode lib vc v s p" v path vc]
      by (subst validateNode.simps) simp
  qed (simp_all add: validateNode.simps conforms.simps)
qed

lemma validate_against_decides:
  assumes "decoded s" "ref_free s" "no_false_property s" "\<And>d. sl_decode lib doc = Inr d \<Longrightarrow> decoded d"
  shows "validate_against lib doc s = None \<longleftrightarrow> (\<exists>d. sl_decode lib doc = Inr d \<and> conforms lib s d)"
  using assms validateNode_ok [of _ s lib]
  by (auto simp: validate_against_def proper_def Let_def split: sum.splits)

text \<open>
  C3. For a schema without \<^verbatim>\<open>$ref\<close>, and without the schema \<^verbatim>\<open>false\<close> directly below \<^verbatim>\<open>properties\<close>, the
  validator decides what the schema means: a document is accepted exactly when schema and document are
  JSON and the document conforms to the schema, whatever the order in which Go ranges over the maps.
  The second restriction is needed: there the code accepts what the schema forbids
  (\<open>false_property_accepts\<close>).
\<close>
theorem validateSchema_decides:
  assumes "sl_decode lib schema = Inr s" "decoded s" "ref_free s" "no_false_property s"
    and "\<And>d. sl_decode lib doc = Inr d \<Longrightarrow> decoded d"
  shows "validateSchema lib doc schema = None \<longleftrightarrow> (\<exists>d. sl_decode lib doc = Inr d \<and> conforms lib s d)"
  using assms validate_against_decides [of s lib doc] by (simp add: validateSchema_def)


section \<open>The reference budgets\<close>

text \<open>
  A run from a count of used expansions to a count and a result. It pays for what it uses when the
  count never decreases, stays within the budget, and is a true measure: the same run from any later
  count goes the same way and uses as much, as long as that does not exhaust the budget.
\<close>

type_synonym 'a counted = "nat \<Rightarrow> nat \<times> 'a"

definition pays :: "'a counted \<Rightarrow> bool" where
  "pays f = (\<forall>n\<le>MaxSchemaRefExpansions. case f n of (m, x) \<Rightarrow>
     n \<le> m \<and> m \<le> MaxSchemaRefExpansions \<and> (\<forall>d. m + d < MaxSchemaRefExpansions \<longrightarrow> f (n + d) = (m + d, x)))"

definition andthen :: "'a counted \<Rightarrow> ('a \<Rightarrow> 'b counted) \<Rightarrow> 'b counted" where
  "andthen f g n = (case f n of (m, x) \<Rightarrow> g x m)"

lemma paysD:
  assumes "pays f" "n \<le> MaxSchemaRefExpansions" "f n = (m, x)"
  shows "n \<le> m" "m \<le> MaxSchemaRefExpansions" "m + d < MaxSchemaRefExpansions \<Longrightarrow> f (n + d) = (m + d, x)"
  using assms by (auto simp: pays_def)

named_theorems pays_rules \<open>runs that pay for what they use\<close>


lemma pays_return [pays_rules]: "pays (\<lambda>n. (n, x))"
  by (simp add: pays_def)

lemma pays_andthen [pays_rules]:
  assumes "pays f" "\<And>x. pays (g x)"
  shows "pays (andthen f g)"
  unfolding pays_def
proof (intro allI impI)
  fix n assume n: "n \<le> MaxSchemaRefExpansions"
  obtain m x where f: "f n = (m, x)" by fastforce
  obtain k y where g: "g x m = (k, y)" by fastforce
  note F = paysD [OF assms(1) n f]
  note G = paysD [OF assms(2) F(2) g]
  have "andthen f g (n + d) = (k + d, y)" if "k + d < MaxSchemaRefExpansions" for d
    using that F(3) [of d] G(1,3) by (simp add: andthen_def)
  then show "case andthen f g n of (m, x) \<Rightarrow>
     n \<le> m \<and> m \<le> MaxSchemaRefExpansions \<and> (\<forall>d. m + d < MaxSchemaRefExpansions \<longrightarrow> andthen f g (n + d) = (m + d, x))"
    using F(1) G(1,2) f g by (simp add: andthen_def)
qed


text \<open>Checks as runs; those of a paying visitor pay.\<close>

definition run :: "check \<Rightarrow> schemaValidation \<Rightarrow> validationError list counted" where
  "run c vc n = c (vc\<lparr>vc_expansions := n\<rparr>)"

definition paying :: "nat \<Rightarrow> visitor \<Rightarrow> schemaValidation \<Rightarrow> bool" where
  "paying N V vc = (\<forall>v s p. size s < N \<longrightarrow> pays (run (\<lambda>vc. V vc v s p) vc))"

lemma paying_visit: "paying N V vc \<Longrightarrow> size s < N \<Longrightarrow> pays (run (\<lambda>vc. V vc v s p) vc)"
  by (simp add: paying_def)

lemma pays_emit [pays_rules]: "pays (run (emit errs) vc)"
proof -
  have "run (emit errs) vc = (\<lambda>n. (n, errs))" by (simp add: fun_eq_iff run_def emit_def)
  then show ?thesis by (simp add: pays_return)
qed

lemma pays_seq [pays_rules]:
  assumes "pays (run a vc)" "pays (run b vc)"
  shows "pays (run (seq a b) vc)"
proof -
  have "run (seq a b) vc = andthen (run a vc) (\<lambda>e. andthen (run b vc) (\<lambda>e' n. (n, e @ e')))"
    by (auto simp: fun_eq_iff run_def seq_def andthen_def Let_def split: prod.split)
  then show ?thesis using assms by (auto intro: pays_rules)
qed

lemma pays_each [pays_rules]: "(\<And>x. x \<in> set xs \<Longrightarrow> pays (run (f x) vc)) \<Longrightarrow> pays (run (each f xs) vc)"
  by (induction xs) (auto intro: pays_rules)

lemma pays_check_if [pays_rules]:
  assumes "paying (width m) V vc" shows "pays (run (check_if V v m path) vc)"
proof (cases "map_of m ''if''")
  case None
  then have "run (check_if V v m path) vc = run (emit []) vc" by (simp add: fun_eq_iff run_def check_if_def)
  then show ?thesis using pays_emit by simp
next
  case (Some c)
  let ?branch = "\<lambda>e. case map_of m (if e = [] then ''then'' else ''else'') of
      None \<Rightarrow> (\<lambda>n. (n, [])) | Some s \<Rightarrow> run (\<lambda>vc. V vc v s path) vc"
  have eq: "run (check_if V v m path) vc = andthen (run (\<lambda>vc. V vc v c path) vc) ?branch"
    using Some by (auto simp: fun_eq_iff run_def check_if_def andthen_def Let_def split: prod.split option.split)
  have "pays (?branch e)" for e
    using assms by (auto intro: pays_rules paying_visit width_lookup split: option.split)
  then show ?thesis unfolding eq by (intro pays_andthen paying_visit [OF assms width_lookup [OF Some]])
qed

lemma pays_check_not [pays_rules]:
  assumes "paying (width m) V vc" shows "pays (run (check_not V v m path) vc)"
proof (cases "map_of m ''not''")
  case None
  then have "run (check_not V v m path) vc = run (emit []) vc" by (simp add: fun_eq_iff run_def check_not_def)
  then show ?thesis using pays_emit by simp
next
  case (Some s)
  then have "run (check_not V v m path) vc = andthen (run (\<lambda>vc. V vc v s path) vc)
      (\<lambda>e n. (n, if e = [] then report path ''value matches not schema'' else []))"
    by (auto simp: fun_eq_iff run_def check_not_def andthen_def Let_def split: prod.split)
  with paying_visit [OF assms width_lookup [OF Some]] show ?thesis by (simp add: pays_andthen pays_return)
qed

lemma pays_check_allOf [pays_rules]: "paying (width m) V vc \<Longrightarrow> pays (run (check_allOf V v m path) vc)"
  by (auto simp: check_allOf_def intro!: pays_rules paying_visit [of "width m"] intro: width_elem split: option.split json.split)

lemma pays_match_alts:
  assumes "\<And>s. s \<in> set alts \<Longrightarrow> pays (run (\<lambda>vc. V vc v s []) vc)"
  shows "pays (\<lambda>n. match_alts V v ex k alts (vc\<lparr>vc_expansions := n\<rparr>))"
  using assms
proof (induction alts arbitrary: k)
  case Nil
  then show ?case by (simp add: pays_return)
next
  case (Cons s alts)
  let ?rest = "\<lambda>k n. match_alts V v ex k alts (vc\<lparr>vc_expansions := n\<rparr>)"
  let ?next = "\<lambda>e. if e = [] then (if \<not> ex \<and> Suc k \<ge> 1 then (\<lambda>n. (n, True)) else ?rest (Suc k)) else ?rest k"
  have eq: "(\<lambda>n. match_alts V v ex k (s # alts) (vc\<lparr>vc_expansions := n\<rparr>)) = andthen (run (\<lambda>vc. V vc v s []) vc) ?next"
    by (auto simp: fun_eq_iff run_def andthen_def Let_def split: prod.split)
  have "pays (?next e)" for e using Cons by (auto intro: pays_return)
  note rest = this
  show ?case unfolding eq by (rule pays_andthen [OF Cons.prems rest]) simp
qed

lemma pays_check_alts [pays_rules]:
  assumes "paying (width m) V vc" shows "pays (run (check_alts V v m path key ex msg) vc)"
proof (cases "\<exists>alts. map_of m key = Some (JArr alts) \<and> alts \<noteq> []")
  case True
  then obtain alts where alts: "map_of m key = Some (JArr alts)" "alts \<noteq> []" by blast
  then have "run (check_alts V v m path key ex msg) vc = andthen (\<lambda>n. matchOneOfAnyOf V v alts ex (vc\<lparr>vc_expansions := n\<rparr>))
      (\<lambda>matched n. (n, if \<not> matched then report path msg else []))"
    by (auto simp: fun_eq_iff run_def check_alts_def andthen_def Let_def split: prod.split)
  moreover have "pays (\<lambda>n. matchOneOfAnyOf V v alts ex (vc\<lparr>vc_expansions := n\<rparr>))"
    unfolding matchOneOfAnyOf_def
    by (rule pays_match_alts) (rule paying_visit [OF assms width_elem [OF alts(1)]])
  ultimately show ?thesis by (simp add: pays_andthen pays_return)
next
  case False
  then have "run (check_alts V v m path key ex msg) vc = run (emit []) vc"
    by (auto simp: fun_eq_iff run_def check_alts_def split: option.split json.split)
  then show ?thesis using pays_emit by simp
qed

lemma pays_validateObject [pays_rules]:
  assumes "paying (width m) V vc" shows "pays (run (validateObject lib V obj m path) vc)"
proof -
  have visit: "pays (run (\<lambda>vc. if P then emit [] vc else V vc x s p) vc)" if "size s < width m" for P x s p
    using paying_visit [OF assms that] pays_emit by (cases P) simp_all
  have "pays (run (check_property V obj path ks) vc)" if "ks \<in> set (range_map lib (schema_props m))" for ks
    using paying_visit [OF assms schema_props_width [of "fst ks" "snd ks" m]] that pays_emit [of "[]" vc]
    by (cases ks; cases "object (snd ks)"; cases "map_of obj (fst ks)") (auto simp: check_property_def)
  moreover have "pays (run (check_additional lib V obj m path) vc)"
    using visit width_lookup [of m "''additionalProperties''"]
    by (cases "map_of m ''additionalProperties''"; cases "the (map_of m ''additionalProperties'')")
      (auto simp: check_additional_def intro!: pays_emit pays_each)
  ultimately show ?thesis unfolding validateObject_def by (intro pays_rules)
qed

lemma pays_validateArray [pays_rules]:
  "paying (width m) V vc \<Longrightarrow> pays (run (validateArray lib V arr m path) vc)"
  unfolding validateArray_def
  by (intro pays_seq pays_emit) (auto intro!: pays_rules paying_visit [of "width m"] intro: width_lookup split: option.split)
















section \<open>Where the code departs from its documentation\<close>

text \<open>A library that decodes the given texts, knows no special format and ranges in key order.\<close>

definition table_lib :: "(string \<times> json) list \<Rightarrow> schemaLib" where
  "table_lib table = \<lparr>sl_decode = (\<lambda>s. case map_of table s of None \<Rightarrow> Inl (Plain ''syntax'') | Some j \<Rightarrow> Inr j),
     sl_order = (\<lambda>_. []), sl_parseFloat = (\<lambda>_. None), sl_fmtFloat = (\<lambda>_. ''?''), sl_wide = (\<lambda>q. q),
     sl_regexp = (\<lambda>_. Inl ''unsupported''), sl_time = (\<lambda>_ _. None), sl_mail = (\<lambda>_. True),
     sl_url = (\<lambda>_. None), sl_ip = (\<lambda>_. None)\<rparr>"

definition the_ref :: "string \<Rightarrow> json" where
  "the_ref r = JObj [(''$ref'', JStr r)]"

text \<open>
  A reference that cannot be resolved fails closed, except below \<^verbatim>\<open>not\<close> (and in the condition of
  \<^verbatim>\<open>if\<close>): there the failure counts as a mismatch, so a schema whose reference is missing accepts
  every document. The same holds for an invalid pattern.
\<close>
theorem missing_ref_below_not_accepts:
  "let lib = table_lib [(''R'', the_ref ''#/missing''), (''N'', JObj [(''not'', the_ref ''#/missing'')]),
                        (''P'', JObj [(''not'', JObj [(''pattern'', JStr ''('')])]), (''1'', JNum 1), (''s'', JStr ''x'')]
   in validateSchema lib ''1'' ''R'' = Some (Plain (sentinel_text ErrSchemaRefNotFound))
      \<and> validateSchema lib ''1'' ''N'' = None \<and> validateSchema lib ''s'' ''P'' = None"
  by code_simp

text \<open>
  A \<^verbatim>\<open>false\<close> schema never matches, except directly below \<^verbatim>\<open>properties\<close>, where it is skipped: the
  document with the forbidden property is accepted.
\<close>
theorem false_property_accepts:
  "let lib = table_lib [(''S'', JObj [(''properties'', JObj [(''a'', JBool False)])]), (''D'', JObj [(''a'', JNull)])]
   in validateSchema lib ''D'' ''S'' = None \<and> \<not> conforms lib (JObj [(''properties'', JObj [(''a'', JBool False)])]) (JObj [(''a'', JNull)])"
proof -
  have "validateSchema (table_lib [(''S'', JObj [(''properties'', JObj [(''a'', JBool False)])]), (''D'', JObj [(''a'', JNull)])]) ''D'' ''S'' = None"
    by code_simp
  moreover have "\<not> conforms lib (JBool False) JNull" for lib by (simp add: conforms.simps)
  ultimately show ?thesis by (simp add: conforms_object inside_ok_def Let_def)
qed

text \<open>
  A schema that refers to itself below \<^verbatim>\<open>properties\<close> describes lists of any length, and each
  step of its references consumes a part of the document; the validator accepts a list of two cells
  and refuses one of three as a \<^verbatim>\<open>$ref\<close> cycle.
\<close>
theorem recursive_schema_refused:
  "let lib = table_lib [(''S'', JObj [(''properties'', JObj [(''next'', the_ref ''#'')])]),
                        (''2'', JObj [(''next'', JObj [])]), (''3'', JObj [(''next'', JObj [(''next'', JObj [])])])]
   in validateSchema lib ''2'' ''S'' = None
      \<and> validateSchema lib ''3'' ''S'' = Some (Plain (''/next/next: '' @ sentinel_text ErrSchemaRefCycle))"
  by code_simp

text \<open>
  The strict check looks only below the keywords the validator knows, but a reference may lead
  anywhere: an unsupported keyword below another key passes \<^verbatim>\<open>StrictSchema\<close> and is then ignored.
\<close>
theorem strict_walk_misses_ref_target:
  "let lib = table_lib [(''S'', JObj [(''$ref'', JStr ''#/components/x''), (''components'', JObj [(''x'', JObj [(''contains'', JBool False)])])]),
                        (''D'', JArr [])]
   in checkSchemaSupported lib ''S'' = None \<and> validateSchema lib ''D'' ''S'' = None"
  by code_simp

section \<open>Witnesses\<close>

lemma validateSchema_decides_witness:
  "let s = JObj [(''items'', JObj [(''minLength'', JNum 1), (''type'', JStr ''string'')]), (''uniqueItems'', JBool True)];
       lib = table_lib [(''S'', s), (''D'', JArr [JStr ''a'', JStr ''b''])]
   in conforms lib s (JArr [JStr ''a'', JStr ''b''])"
proof -
  let ?s = "JObj [(''items'', JObj [(''minLength'', JNum 1), (''type'', JStr ''string'')]), (''uniqueItems'', JBool True)]"
  let ?d = "JArr [JStr ''a'', JStr ''b'']"
  let ?lib = "table_lib [(''S'', ?s), (''D'', ?d)]"
  have "validateSchema ?lib ''D'' ''S'' = None" "decoded ?s" "ref_free ?s" "no_false_property ?s" "decoded ?d" by code_simp+
  moreover have "sl_decode ?lib ''S'' = Inr ?s" "sl_decode ?lib ''D'' = Inr ?d" by (simp_all add: table_lib_def)
  ultimately show ?thesis
    using validateSchema_decides [of ?lib "''S''" ?s "''D''"] by (simp add: Let_def)
qed


end
