(* ===== verification/LoadSpec.thy ===== *)
theory LoadSpec
  imports Load
begin

text \<open>
  What a declarative crew promises. A loaded document has the shape the schema documents
  (\<open>LoadCrew_documented\<close>). A built crew is closed and passes the entry check of \<^verbatim>\<open>Kickoff\<close> (\<open>Build_closed\<close>), and its agents,
  tasks, and the references between them are those the document names (\<open>Build_resolves\<close>).
\<close>

section \<open>Loading\<close>

lemma crewConfigSchema_proper: "decoded crewConfigSchema" "ref_free crewConfigSchema" "no_false_property crewConfigSchema"
  by code_simp+

text \<open>The meaning of the schema fragments the document uses.\<close>

lemma conforms_typed_string: "conforms lib (typed ''string'') v \<Longrightarrow> \<exists>s. v = JStr s"
  by (cases v) (auto simp: typed_def conforms_object type_named_def)

definition only_keys :: "string set \<Rightarrow> (string \<times> json) list \<Rightarrow> bool" where
  "only_keys ks m = (fst ` set m \<subseteq> ks)"

lemma conforms_closed_object:
  assumes "conforms lib (JObj m) v" "map_of m ''type'' = Some (JStr ''object'')"
    and "map_of m ''additionalProperties'' = Some (JBool False)" "map_of m ''properties'' = Some (JObj ps)"
  obtains obj where "v = JObj obj" "only_keys (fst ` set ps) obj"
    "\<And>k s x. map_of ps k = Some s \<Longrightarrow> map_of obj k = Some x \<Longrightarrow> conforms lib s x"
    "\<And>req k. map_of m ''required'' = Some (JArr req) \<Longrightarrow> JStr k \<in> set req \<Longrightarrow> \<exists>x. map_of obj k = Some x"
proof -
  obtain obj where v: "v = JObj obj"
    using assms(1,2) by (cases v) (auto simp: conforms_object type_named_def)
  have i: "inside_ok lib m v" using assms(1) by (simp add: conforms_object)
  have "only_keys (fst ` set ps) obj" unfolding only_keys_def
  proof
    fix k assume "k \<in> fst ` set obj"
    then obtain x where x: "map_of obj k = Some x" by (metis map_of_eq_None_iff option.exhaust)
    have "\<not> conforms lib (JBool False) x" by (subst conforms.simps) simp
    then have "map_of (schema_props m) k \<noteq> None" using i v assms(3) x unfolding inside_ok_def by blast
    then show "k \<in> fst ` set ps" using assms(4) by (simp add: schema_props_def map_of_eq_None_iff)
  qed
  moreover have "\<exists>x. map_of obj k = Some x" if "map_of m ''required'' = Some (JArr req)" "JStr k \<in> set req" for req k
  proof -
    have "k \<in> fst ` set obj" using i v that by (auto simp: inside_ok_def object_ok_def)
    then show ?thesis by (metis map_of_eq_None_iff option.exhaust)
  qed
  moreover have "conforms lib s x" if "map_of ps k = Some s" "map_of obj k = Some x" for k s x
    using i v assms(4) that unfolding inside_ok_def by blast
  ultimately show ?thesis using that v by blast
qed

lemma conforms_array:
  assumes "conforms lib (JObj [(''items'', s), (''type'', JStr ''array'')]) v"
  obtains xs where "v = JArr xs" "\<And>x. x \<in> set xs \<Longrightarrow> conforms lib s x"
  using assms by (cases v) (auto simp: conforms_object type_named_def inside_ok_def)

lemma conforms_nonempty_string:
  assumes "conforms lib (JObj [(''minLength'', JNum 1), (''type'', JStr ''string'')]) v"
  obtains s where "v = JStr s" "s \<noteq> []"
  using assms
  by (cases v) (auto simp: conforms_object type_named_def value_keywords_ok_def string_ok_def bound_ok_def asFloat_def float_len_def)

definition agent_keys :: "string set" where
  "agent_keys = {''name'', ''role'', ''goal'', ''backstory'', ''llm'', ''tools'', ''max_iterations'', ''allow_delegation'', ''tool_mode''}"

definition task_keys :: "string set" where
  "task_keys = {''name'', ''description'', ''expected_output'', ''agent'', ''tools'', ''context'', ''async'', ''output_file'', ''guardrail''}"

text \<open>The documented shape: known keys only, every agent with a role, every task with a description.\<close>

definition entry_ok :: "string set \<Rightarrow> string \<Rightarrow> json \<Rightarrow> bool" where
  "entry_ok keys req v = (\<exists>m s. v = JObj m \<and> only_keys keys m \<and> map_of m req = Some (JStr s) \<and> s \<noteq> [])"

definition crew_document :: "json \<Rightarrow> bool" where
  "crew_document d = (\<exists>m as ts. d = JObj m \<and> only_keys {''agents'', ''crew'', ''tasks''} m
     \<and> map_of m ''agents'' = Some (JArr as) \<and> list_all (entry_ok agent_keys ''role'') as
     \<and> map_of m ''tasks'' = Some (JArr ts) \<and> list_all (entry_ok task_keys ''description'') ts)"

definition nonempty_string :: json where
  "nonempty_string = JObj [(''minLength'', JNum 1), (''type'', JStr ''string'')]"

lemma entry_object:
  assumes "conforms lib (JObj m) v" "map_of m ''type'' = Some (JStr ''object'')"
    and "map_of m ''additionalProperties'' = Some (JBool False)" "map_of m ''properties'' = Some (JObj ps)"
    and "map_of m ''required'' = Some (JArr [JStr req])" "map_of ps req = Some nonempty_string" "fst ` set ps \<subseteq> keys"
  shows "entry_ok keys req v"
proof -
  obtain obj where obj: "v = JObj obj" "only_keys (fst ` set ps) obj"
    "\<And>k s x. map_of ps k = Some s \<Longrightarrow> map_of obj k = Some x \<Longrightarrow> conforms lib s x"
    "\<And>rs k. map_of m ''required'' = Some (JArr rs) \<Longrightarrow> JStr k \<in> set rs \<Longrightarrow> \<exists>x. map_of obj k = Some x"
    using conforms_closed_object [OF assms(1-4)] by blast
  obtain x where x: "map_of obj req = Some x" using obj(4) [OF assms(5)] by auto
  then obtain s where "x = JStr s" "s \<noteq> []"
    using conforms_nonempty_string obj(3) [OF assms(6) x] unfolding nonempty_string_def by metis
  then show ?thesis using obj(1,2) x assms(7) by (auto simp: entry_ok_def only_keys_def)
qed

lemma agent_entry: "conforms lib agent_schema v \<Longrightarrow> entry_ok agent_keys ''role'' v"
  unfolding agent_schema_def
  by (erule entry_object) (simp_all add: nonempty_string_def agent_keys_def, simp_all)

lemma task_entry: "conforms lib task_schema v \<Longrightarrow> entry_ok task_keys ''description'' v"
  unfolding task_schema_def
  by (erule entry_object) (simp_all add: nonempty_string_def task_keys_def, simp_all)

lemma conforms_crew_document:
  assumes "conforms lib crewConfigSchema d" shows "crew_document d"
proof -
  let ?ps = "[(''agents'', JObj [(''items'', agent_schema), (''type'', JStr ''array'')]), (''crew'', meta_schema),
        (''tasks'', JObj [(''items'', task_schema), (''type'', JStr ''array'')])]"
  let ?m = "[(''additionalProperties'', JBool False), (''properties'', JObj ?ps),
     (''required'', JArr [JStr ''agents'', JStr ''tasks'']), (''type'', JStr ''object'')]"
  obtain obj where obj: "d = JObj obj" "only_keys (fst ` set ?ps) obj"
    "\<And>k s x. map_of ?ps k = Some s \<Longrightarrow> map_of obj k = Some x \<Longrightarrow> conforms lib s x"
    "\<And>rs k. map_of ?m ''required'' = Some (JArr rs) \<Longrightarrow> JStr k \<in> set rs \<Longrightarrow> \<exists>x. map_of obj k = Some x"
    by (rule conforms_closed_object [of lib ?m d ?ps]) (use assms in \<open>simp_all add: crewConfigSchema_def\<close>)
  have arr: "\<exists>xs. map_of obj k = Some (JArr xs) \<and> (\<forall>x\<in>set xs. conforms lib s x)"
    if p: "map_of ?ps k = Some (JObj [(''items'', s), (''type'', JStr ''array'')])" and k: "k \<in> {''agents'', ''tasks''}" for k s
  proof -
    have "map_of ?m ''required'' = Some (JArr [JStr ''agents'', JStr ''tasks''])" by simp
    from obj(4) [OF this, of k] obtain x where x: "map_of obj k = Some x" using k by auto
    obtain xs where "x = JArr xs" "\<And>y. y \<in> set xs \<Longrightarrow> conforms lib s y"
      by (rule conforms_array [OF obj(3) [OF p x]]) blast
    with x show ?thesis by blast
  qed
  obtain as where as: "map_of obj ''agents'' = Some (JArr as)" "\<forall>x\<in>set as. conforms lib agent_schema x"
    using arr [of "''agents''" agent_schema] by auto
  obtain ts where ts: "map_of obj ''tasks'' = Some (JArr ts)" "\<forall>x\<in>set ts. conforms lib task_schema x"
    using arr [of "''tasks''" task_schema] by auto
  have "only_keys {''agents'', ''crew'', ''tasks''} obj" using obj(2) by (simp add: only_keys_def)
  moreover have "list_all (entry_ok agent_keys ''role'') as" "list_all (entry_ok task_keys ''description'') ts"
    using as(2) ts(2) agent_entry task_entry by (auto simp: list_all_iff)
  ultimately show ?thesis using obj(1) as(1) ts(1) unfolding crew_document_def by blast
qed

lemma parseCrewConfig_Inr:
  assumes "parseCrewConfig lib data = Inr cfg" "\<And>d. sl_decode lib data = Inr d \<Longrightarrow> decoded d"
  obtains d where "sl_decode lib data = Inr d" "crew_document d"
    "ll_config lib (ContextRef_UnmarshalJSON lib) data = Inr (cfg\<lparr>cc_raw := cc_raw (projr (ll_config lib (ContextRef_UnmarshalJSON lib) data))\<rparr>)"
    "cc_raw cfg = data"
proof -
  have "validate_against (schemaLib.truncate lib) data crewConfigSchema = None"
    using assms(1) by (simp add: parseCrewConfig_def split: option.splits)
  moreover have "sl_decode (schemaLib.truncate lib) = sl_decode lib" by (simp add: schemaLib.truncate_def)
  ultimately obtain d where d: "sl_decode lib data = Inr d" "conforms (schemaLib.truncate lib) crewConfigSchema d"
    using validate_against_decides [OF crewConfigSchema_proper, of "schemaLib.truncate lib" data] assms(2) by auto
  moreover have "ll_config lib (ContextRef_UnmarshalJSON lib) data
      = Inr (cfg\<lparr>cc_raw := cc_raw (projr (ll_config lib (ContextRef_UnmarshalJSON lib) data))\<rparr>) \<and> cc_raw cfg = data"
    using assms(1) by (auto simp: parseCrewConfig_def split: option.splits sum.splits)
  ultimately show ?thesis using that conforms_crew_document by blast
qed

text \<open>
  A document that loads is within the size limit, was read to its end without an error, and has
  the documented shape: an object with known keys only, whose agents are objects with known keys and
  a non-empty role, and whose tasks are objects with known keys and a non-empty description. The
  configuration keeps the very bytes that were validated.
\<close>
theorem LoadCrew_documented:
  assumes "LoadCrew lib (Some r) = Inr cfg" "\<And>d. sl_decode lib (fst r) = Inr d \<Longrightarrow> decoded d"
  shows "length (fst r) \<le> MaxCrewConfigBytes \<and> snd r = None \<and> cc_raw cfg = fst r
    \<and> (\<exists>d. sl_decode lib (fst r) = Inr d \<and> crew_document d)"
proof (cases "length (fst r) \<ge> MaxCrewConfigBytes + 1")
  case True
  then show ?thesis using assms(1) by (simp add: LoadCrew_def limitReader_def)
next
  case False
  then have p: "snd r = None" "parseCrewConfig lib (fst r) = Inr cfg"
    using assms(1) by (auto simp: LoadCrew_def limitReader_def split: prod.splits option.splits if_splits)
  show ?thesis by (rule parseCrewConfig_Inr [OF p(2) assms(2)]) (use p(1) False in auto)
qed

section \<open>Names\<close>

lemma resolve_names_Inr: "resolve_names kind ns m = Inr xs \<Longrightarrow> map Some xs = map m ns"
  by (induction ns arbitrary: xs) (auto split: option.splits sum.splits)

lemma lookup_named_Inr:
  "lookup_named kind name m = Inr x \<longleftrightarrow> (if name = [] then x = None else x = m name \<and> m name \<noteq> None)"
  by (auto simp: lookup_named_def split: option.splits)

lemma map_leD: "m \<subseteq>\<^sub>m m' \<Longrightarrow> m k = Some v \<Longrightarrow> m' k = Some v"
  by (metis domI map_le_def)

lemma register_agent_Inr:
  assumes "register_agent i ac a m = Inr m'"
  shows "m \<subseteq>\<^sub>m m'" "ac_Name ac \<noteq> [] \<Longrightarrow> m' (ac_Name ac) = Some a"
    "m' n = Some b \<Longrightarrow> m n = Some b \<or> b = a \<and> (ac_Name ac = n \<or> ac_Role ac = n)"
  using assms by (auto simp: register_agent_def map_le_def Let_def split: if_splits)

lemma register_task_Inr:
  assumes "register_task i tc t m = Inr m'"
  shows "m \<subseteq>\<^sub>m m'" "tc_TaskName tc \<noteq> [] \<Longrightarrow> m' (tc_TaskName tc) = Some t"
    "m' n = Some u \<Longrightarrow> m n = Some u \<or> u = t \<and> n \<noteq> [] \<and> tc_TaskName tc = n"
  using assms by (auto simp: register_task_def map_le_def split: if_splits)

section \<open>Agents\<close>

text \<open>Consecutive addresses.\<close>

abbreviation addrs :: "nat \<Rightarrow> nat \<Rightarrow> nat list" where "addrs a n \<equiv> [a..<a + n]"

lemma addrs_Suc: "addrs a (Suc n) = a # addrs (Suc a) n"
  by (simp add: upt_conv_Cons del: upt_Suc)

lemma build_agents_Inr:
  assumes "build_agents opts i acs agents m rt = (rt', Inr (agents', m'))"
  shows "agents' = agents @ addrs (rt_next rt) (length acs)
    \<and> rt_next rt' = rt_next rt + length acs \<and> rt_tasks rt' = rt_tasks rt
    \<and> (\<forall>a<rt_next rt. rt_agents rt' a = rt_agents rt a)
    \<and> (\<forall>k<length acs. build_agent opts (i + k) (acs ! k) = Inr (rt_agents rt' (rt_next rt + k)))
    \<and> m \<subseteq>\<^sub>m m' \<and> (\<forall>k<length acs. ac_Name (acs ! k) \<noteq> [] \<longrightarrow> m' (ac_Name (acs ! k)) = Some (rt_next rt + k))
    \<and> (\<forall>n b. m' n = Some b \<longrightarrow> m n = Some b
         \<or> (\<exists>k<length acs. b = rt_next rt + k \<and> (ac_Name (acs ! k) = n \<or> ac_Role (acs ! k) = n)))"
  using assms
proof (induction acs arbitrary: i agents m rt)
  case Nil
  then show ?case by simp
next
  case (Cons ac acs)
  let ?a = "rt_next rt"
  obtain v m1 where v: "build_agent opts i ac = Inr v" "register_agent i ac ?a m = Inr m1"
    and rest: "build_agents opts (Suc i) acs (agents @ [?a]) m1 (fst (new_agent v rt)) = (rt', Inr (agents', m'))"
    using Cons.prems by (auto simp: new_agent_def split: sum.splits)
  have rt: "rt_next (fst (new_agent v rt)) = Suc ?a" "rt_tasks (fst (new_agent v rt)) = rt_tasks rt"
    "rt_agents (fst (new_agent v rt)) = (rt_agents rt)(?a := v)"
    by (simp_all add: new_agent_def)
  from Cons.IH [OF rest, unfolded rt]
  have list: "agents' = (agents @ [?a]) @ addrs (Suc ?a) (length acs)" "rt_next rt' = Suc ?a + length acs" "rt_tasks rt' = rt_tasks rt"
    and old: "\<And>b. b < Suc ?a \<Longrightarrow> rt_agents rt' b = ((rt_agents rt)(?a := v)) b"
    and built: "\<And>k. k < length acs \<Longrightarrow> build_agent opts (Suc i + k) (acs ! k) = Inr (rt_agents rt' (Suc ?a + k))"
    and le: "m1 \<subseteq>\<^sub>m m'"
    and named: "\<And>k. k < length acs \<Longrightarrow> ac_Name (acs ! k) \<noteq> [] \<Longrightarrow> m' (ac_Name (acs ! k)) = Some (Suc ?a + k)"
    and keys: "\<And>n b. m' n = Some b \<Longrightarrow> m1 n = Some b \<or> (\<exists>k<length acs. b = Suc ?a + k \<and> (ac_Name (acs ! k) = n \<or> ac_Role (acs ! k) = n))"
    by blast+
  note reg = register_agent_Inr [OF v(2)]
  show ?case
  proof (intro conjI allI impI)
    show "agents' = agents @ addrs ?a (length (ac # acs))" using list(1) addrs_Suc [of ?a "length acs"] by simp
    show "rt_next rt' = ?a + length (ac # acs)" "rt_tasks rt' = rt_tasks rt" using list by simp_all
    show "rt_agents rt' b = rt_agents rt b" if "b < ?a" for b using old [of b] that by simp
    show "build_agent opts (i + k) ((ac # acs) ! k) = Inr (rt_agents rt' (?a + k))" if "k < length (ac # acs)" for k
      using that v(1) old [of ?a] built [of "k - 1"] by (cases k) simp_all
    show "m \<subseteq>\<^sub>m m'" by (rule map_le_trans [OF reg(1) le])
    show "m' (ac_Name ((ac # acs) ! k)) = Some (?a + k)" if "k < length (ac # acs)" "ac_Name ((ac # acs) ! k) \<noteq> []" for k
      using that reg(2) map_leD [OF le] named [of "k - 1"] by (cases k) simp_all
    show "m n = Some b \<or> (\<exists>k<length (ac # acs). b = ?a + k \<and> (ac_Name ((ac # acs) ! k) = n \<or> ac_Role ((ac # acs) ! k) = n))"
      if "m' n = Some b" for n b
      using keys [OF that] reg(3) [of n b] by (fastforce simp: Ex_less_Suc2)
  qed
qed

section \<open>Tasks\<close>

lemma build_task_Inr:
  assumes "build_task opts agents byKey i tc = Inr t"
  shows "tk_Name t = tc_TaskName tc" "tk_Description t = tc_Description tc" "tk_ExpectedOutput t = tc_ExpectedOutput tc"
    "task_agent_ref agents byKey (tc_Agent tc) = Inr (tk_Agent t)" "tk_Context t = []"
    "map Some (tk_Tools t) = map (bo_tools opts) (tc_Tools tc)"
  using assms
  by (auto simp: build_task_def NewTask_def resolveTools_def dest: resolve_names_Inr split: if_splits sum.splits)

lemma build_tasks_Inr:
  assumes "build_tasks opts agents byKey i tcs tasks m rt = (rt', Inr (tasks', m'))"
  shows "tasks' = tasks @ addrs (rt_next rt) (length tcs)
    \<and> rt_next rt' = rt_next rt + length tcs \<and> rt_agents rt' = rt_agents rt
    \<and> (\<forall>a<rt_next rt. rt_tasks rt' a = rt_tasks rt a)
    \<and> (\<forall>k<length tcs. build_task opts agents byKey (i + k) (tcs ! k) = Inr (rt_tasks rt' (rt_next rt + k)))
    \<and> m \<subseteq>\<^sub>m m' \<and> (\<forall>k<length tcs. tc_TaskName (tcs ! k) \<noteq> [] \<longrightarrow> m' (tc_TaskName (tcs ! k)) = Some (rt_next rt + k))
    \<and> (\<forall>n u. m' n = Some u \<longrightarrow> m n = Some u
         \<or> (\<exists>k<length tcs. u = rt_next rt + k \<and> n \<noteq> [] \<and> tc_TaskName (tcs ! k) = n))"
  using assms
proof (induction tcs arbitrary: i tasks m rt)
  case Nil
  then show ?case by simp
next
  case (Cons tc tcs)
  let ?a = "rt_next rt"
  obtain v m1 where v: "build_task opts agents byKey i tc = Inr v" "register_task i tc ?a m = Inr m1"
    and rest: "build_tasks opts agents byKey (Suc i) tcs (tasks @ [?a]) m1 (fst (new_task v rt)) = (rt', Inr (tasks', m'))"
    using Cons.prems by (auto simp: new_task_def split: sum.splits)
  have rt: "rt_next (fst (new_task v rt)) = Suc ?a" "rt_agents (fst (new_task v rt)) = rt_agents rt"
    "rt_tasks (fst (new_task v rt)) = (rt_tasks rt)(?a := v)"
    by (simp_all add: new_task_def)
  from Cons.IH [OF rest, unfolded rt]
  have list: "tasks' = (tasks @ [?a]) @ addrs (Suc ?a) (length tcs)" "rt_next rt' = Suc ?a + length tcs" "rt_agents rt' = rt_agents rt"
    and old: "\<And>b. b < Suc ?a \<Longrightarrow> rt_tasks rt' b = ((rt_tasks rt)(?a := v)) b"
    and built: "\<And>k. k < length tcs \<Longrightarrow> build_task opts agents byKey (Suc i + k) (tcs ! k) = Inr (rt_tasks rt' (Suc ?a + k))"
    and le: "m1 \<subseteq>\<^sub>m m'"
    and named: "\<And>k. k < length tcs \<Longrightarrow> tc_TaskName (tcs ! k) \<noteq> [] \<Longrightarrow> m' (tc_TaskName (tcs ! k)) = Some (Suc ?a + k)"
    and keys: "\<And>n u. m' n = Some u \<Longrightarrow> m1 n = Some u \<or> (\<exists>k<length tcs. u = Suc ?a + k \<and> n \<noteq> [] \<and> tc_TaskName (tcs ! k) = n)"
    by blast+
  note reg = register_task_Inr [OF v(2)]
  show ?case
  proof (intro conjI allI impI)
    show "tasks' = tasks @ addrs ?a (length (tc # tcs))" using list(1) addrs_Suc [of ?a "length tcs"] by simp
    show "rt_next rt' = ?a + length (tc # tcs)" "rt_agents rt' = rt_agents rt" using list by simp_all
    show "rt_tasks rt' b = rt_tasks rt b" if "b < ?a" for b using old [of b] that by simp
    show "build_task opts agents byKey (i + k) ((tc # tcs) ! k) = Inr (rt_tasks rt' (?a + k))" if "k < length (tc # tcs)" for k
      using that v(1) old [of ?a] built [of "k - 1"] by (cases k) simp_all
    show "m \<subseteq>\<^sub>m m'" by (rule map_le_trans [OF reg(1) le])
    show "m' (tc_TaskName ((tc # tcs) ! k)) = Some (?a + k)" if "k < length (tc # tcs)" "tc_TaskName ((tc # tcs) ! k) \<noteq> []" for k
      using that reg(2) map_leD [OF le] named [of "k - 1"] by (cases k) simp_all
    show "m n = Some u \<or> (\<exists>k<length (tc # tcs). u = ?a + k \<and> n \<noteq> [] \<and> tc_TaskName ((tc # tcs) ! k) = n)"
      if "m' n = Some u" for n u
      using keys [OF that] reg(3) [of n u] by (fastforce simp: Ex_less_Suc2)
  qed
qed

section \<open>Contexts\<close>

lemma add_context_None:
  assumes "add_context t refs tasks byName rt = (rt', None)"
  shows "\<exists>deps. map Inr deps = map (\<lambda>ref. resolveContext ref tasks byName) refs \<and> rt' = set_task t (WithContext deps) rt"
  using assms
proof (induction refs arbitrary: rt)
  case Nil
  then show ?case by (simp add: set_task_def WithContext_def)
next
  case (Cons ref refs)
  then obtain dep where dep: "resolveContext ref tasks byName = Inr dep"
    and rest: "add_context t refs tasks byName (set_task t (WithContext [dep]) rt) = (rt', None)"
    by (auto split: sum.splits)
  from Cons.IH [OF rest] obtain deps where deps: "map Inr deps = map (\<lambda>ref. resolveContext ref tasks byName) refs"
    "rt' = set_task t (WithContext deps) (set_task t (WithContext [dep]) rt)" by blast
  then show ?case using dep
    by (intro exI [of _ "dep # deps"]) (simp add: set_task_def WithContext_def)
qed

lemma add_contexts_None:
  assumes "add_contexts tcs tasks byName rt = (rt', None)" "distinct (map fst tcs)"
  shows "rt_agents rt' = rt_agents rt \<and> (\<forall>t. t \<notin> fst ` set tcs \<longrightarrow> rt_tasks rt' t = rt_tasks rt t)
    \<and> (\<forall>(t, tc)\<in>set tcs. \<exists>deps. map Inr deps = map (\<lambda>ref. resolveContext ref tasks byName) (tc_Context tc)
         \<and> rt_tasks rt' t = WithContext deps (rt_tasks rt t))"
  using assms
proof (induction tcs arbitrary: rt)
  case (Cons x tcs)
  obtain t tc where x: "x = (t, tc)" by fastforce
  obtain rt1 where ctx: "add_context t (tc_Context tc) tasks byName rt = (rt1, None)"
    and rest: "add_contexts tcs tasks byName rt1 = (rt', None)"
    using Cons.prems(1) x by (auto split: prod.splits option.splits)
  from add_context_None [OF ctx] obtain deps where
    deps: "map Inr deps = map (\<lambda>ref. resolveContext ref tasks byName) (tc_Context tc)"
    "rt_tasks rt1 = (rt_tasks rt)(t := WithContext deps (rt_tasks rt t))" "rt_agents rt1 = rt_agents rt"
    by (auto simp: set_task_def)
  have t: "t \<notin> fst ` set tcs" "distinct (map fst tcs)" using Cons.prems(2) x by simp_all
  note IH = Cons.IH [OF rest t(2)]
  have "rt_tasks rt' t = WithContext deps (rt_tasks rt t)" using IH t(1) deps(2) by simp
  moreover have "\<exists>ds. map Inr ds = map (\<lambda>ref. resolveContext ref tasks byName) (tc_Context c)
      \<and> rt_tasks rt' u = WithContext ds (rt_tasks rt u)" if u: "(u, c) \<in> set tcs" for u c
  proof -
    have "u \<noteq> t" using u t(1) by force
    then show ?thesis using IH u deps(2) by fastforce
  qed
  ultimately show ?case using IH x t(1) deps by fastforce
qed simp

lemma resolveContext_Inr:
  assumes "resolveContext ref tasks byName = Inr t"
  shows "byName (ref_Name ref) = Some t \<and> ref_Name ref \<noteq> []
    \<or> (\<exists>j<length tasks. t = tasks ! j
        \<and> (if ref_Name ref \<noteq> [] then byName (ref_Name ref) = None \<and> atoi (ref_Name ref) = Some (int j)
           else ref_Index ref = Some (int j)))"
proof -
  have at: "\<exists>j<length tasks. t = tasks ! j \<and> i = int j" if "task_at tasks i = Inr t" for i
    using that by (intro exI [of _ "nat i"]) (auto simp: task_at_def split: if_splits)
  show ?thesis using assms at by (fastforce simp: resolveContext_def split: if_splits option.splits)
qed

text \<open>What a reference of a task names, by position in the document.\<close>

definition names_task :: "taskConfig list \<Rightarrow> contextRef \<Rightarrow> nat \<Rightarrow> bool" where
  "names_task tcs ref j =
     (if ref_Name ref = [] then ref_Index ref = Some (int j)
      else tc_TaskName (tcs ! j) = ref_Name ref
        \<or> (\<forall>k<length tcs. tc_TaskName (tcs ! k) \<noteq> ref_Name ref) \<and> atoi (ref_Name ref) = Some (int j))"

definition names_agent :: "agentConfig list \<Rightarrow> string \<Rightarrow> nat \<Rightarrow> bool" where
  "names_agent acs name j =
     (if name = [] then j = 0
      else ac_Name (acs ! j) = name
        \<or> (\<forall>k<length acs. ac_Name (acs ! k) \<noteq> name) \<and> ac_Role (acs ! j) = name)"

section \<open>The built crew\<close>

text \<open>Everything a successful build establishes, from the state it started in.\<close>

lemma Build_Inr:
  fixes rt :: "'w rt"
  assumes "Build fns (Some cfg) rt = (rt', Inr c)"
  obtains opts rt1 byKey tasks c1 where
    "opts = fold (\<lambda>fn o'. fn o') fns \<lparr>bo_llms = Map.empty, bo_tools = Map.empty, bo_guardrails = Map.empty\<rparr>"
    "build_agents opts 0 (cc_Agents cfg) [] Map.empty rt = (rt1, Inr (addrs (rt_next rt) (length (cc_Agents cfg)), byKey))"
    "buildTasks opts cfg (addrs (rt_next rt) (length (cc_Agents cfg))) byKey rt1 = (rt', Inr tasks)"
    "build_process (cc_Crew cfg) (build_crew (cc_Crew cfg) (addrs (rt_next rt) (length (cc_Agents cfg))) tasks) = Inr c1"
    "build_managers opts (cc_Crew cfg) byKey (build_async (cc_Crew cfg) c1) = Inr c"
    "\<exists>p. crew_plan c rt' = Inr p"
proof -
  let ?opts = "fold (\<lambda>fn o'. fn o') fns \<lparr>bo_llms = Map.empty, bo_tools = Map.empty, bo_guardrails = Map.empty\<rparr>"
  obtain rt1 agents byKey where a: "buildAgents ?opts cfg rt = (rt1, Inr (agents, byKey))"
    using assms by (auto simp: Build_def Let_def split: prod.splits sum.splits)
  obtain rt2 tasks where t: "buildTasks ?opts cfg agents byKey rt1 = (rt2, Inr tasks)"
    using assms a by (auto simp: Build_def Let_def split: prod.splits sum.splits)
  obtain c1 :: "'w crew" where p: "build_process (cc_Crew cfg) (build_crew (cc_Crew cfg) agents tasks) = Inr c1"
    using assms a t by (auto simp: Build_def Let_def split: prod.splits sum.splits)
  obtain c2 where m: "build_managers ?opts (cc_Crew cfg) byKey (build_async (cc_Crew cfg) c1) = Inr c2"
    using assms a t p by (auto simp: Build_def Let_def split: prod.splits sum.splits)
  have "rt2 = rt' \<and> c2 = c \<and> (\<exists>p. crew_plan c rt' = Inr p)"
    using assms a t p m by (auto simp: Build_def Let_def crew_plan_def split: sum.splits)
  moreover have "agents = addrs (rt_next rt) (length (cc_Agents cfg))"
    using build_agents_Inr [OF a [unfolded buildAgents_def]] by simp
  ultimately show ?thesis
    using that [OF refl, of rt1 byKey tasks c1] a t p m by (simp add: buildAgents_def)
qed

lemma buildTasks_Inr:
  assumes "buildTasks opts cfg agents byKey rt = (rt', Inr tasks)"
  obtains rt1 byName where "build_tasks opts agents byKey 0 (cc_Tasks cfg) [] Map.empty rt = (rt1, Inr (tasks, byName))"
    "tasks = addrs (rt_next rt) (length (cc_Tasks cfg))"
    "add_contexts (zip tasks (cc_Tasks cfg)) tasks byName rt1 = (rt', None)"
proof -
  obtain rt1 byName where b: "build_tasks opts agents byKey 0 (cc_Tasks cfg) [] Map.empty rt = (rt1, Inr (tasks, byName))"
    "add_contexts (zip tasks (cc_Tasks cfg)) tasks byName rt1 = (rt', None)"
    using assms by (auto simp: buildTasks_def split: prod.splits sum.splits option.splits)
  then show ?thesis using that build_tasks_Inr [OF b(1)] by simp
qed

text \<open>The agents and tasks of a build: their addresses, the untouched old ones, and how each came about.\<close>

definition agents_of :: "crewConfig \<Rightarrow> 'w rt \<Rightarrow> aid list" where
  "agents_of cfg rt = addrs (rt_next rt) (length (cc_Agents cfg))"

definition tasks_of :: "crewConfig \<Rightarrow> 'w rt \<Rightarrow> tid list" where
  "tasks_of cfg rt = addrs (rt_next rt + length (cc_Agents cfg)) (length (cc_Tasks cfg))"

lemma agents_of_nth: "length (agents_of cfg rt) = length (cc_Agents cfg)"
  "k < length (cc_Agents cfg) \<Longrightarrow> agents_of cfg rt ! k = rt_next rt + k"
  by (simp_all add: agents_of_def)


lemma build_process_Inr:
  "build_process meta c = Inr c' \<Longrightarrow> \<exists>p. c' = c\<lparr>cr_Process := p\<rparr> \<and> (p = cr_Process c \<or> p \<in> {Sequential, Hierarchical})"
  by (cases c) (auto simp: build_process_def process_valid_def Let_def split: if_splits)

lemma build_managers_Inr:
  assumes "build_managers opts meta byKey c = Inr c'"
  shows "cr_Agents c' = cr_Agents c \<and> cr_Tasks c' = cr_Tasks c \<and> cr_Process c' = cr_Process c
    \<and> (cr_ManagerAgent c' = cr_ManagerAgent c \<or> (\<exists>a. cr_ManagerAgent c' = Some a \<and> byKey (cm_ManagerAgent meta) = Some a))
    \<and> (cm_ManagerAgent meta \<noteq> [] \<longrightarrow> (\<exists>a. cr_ManagerAgent c' = Some a \<and> byKey (cm_ManagerAgent meta) = Some a))
    \<and> (cm_ManagerAgent meta = [] \<longrightarrow> cr_ManagerAgent c' = cr_ManagerAgent c)
    \<and> (cm_ManagerLLM meta = [] \<longrightarrow> cr_ManagerLLM c' = cr_ManagerLLM c)"
  using assms by (auto simp: build_managers_def lookup_named_Inr Let_def split: sum.splits option.splits if_splits)

lemma build_async_frame [simp]:
  "cr_Agents (build_async meta c) = cr_Agents c" "cr_Tasks (build_async meta c) = cr_Tasks c"
  "cr_Process (build_async meta c) = cr_Process c" "cr_ManagerAgent (build_async meta c) = cr_ManagerAgent c"
  "cr_ManagerLLM (build_async meta c) = cr_ManagerLLM c"
  by (simp_all add: build_async_def Let_def split: option.split)

text \<open>The agent a key stands for: a name counts before a role.\<close>

lemma registered_agent:
  assumes "build_agents opts 0 acs [] Map.empty rt = (rt1, Inr (agents, byKey))" "byKey n = Some a" "n \<noteq> []"
  shows "\<exists>j<length acs. a = rt_next rt + j \<and> names_agent acs n j"
proof -
  note B = build_agents_Inr [OF assms(1)]
  obtain j where j: "j < length acs" "a = rt_next rt + j" "ac_Name (acs ! j) = n \<or> ac_Role (acs ! j) = n"
    using B assms(2) by (simp only: option.distinct simp_thms) blast
  have "a = rt_next rt + k" if "k < length acs" "ac_Name (acs ! k) = n" for k
    using B that assms(2,3) by auto
  then have "names_agent acs n j" using j assms(3) unfolding names_agent_def by (metis add_left_cancel)
  with j show ?thesis by blast
qed

lemma registered_task:
  assumes "build_tasks opts agents byKey 0 tcs [] Map.empty rt = (rt1, Inr (tasks, byName))"
  shows "n \<noteq> [] \<Longrightarrow> byName n = Some t \<Longrightarrow> \<exists>j<length tcs. t = tasks ! j \<and> tc_TaskName (tcs ! j) = n"
    "byName n = None \<Longrightarrow> n \<noteq> [] \<Longrightarrow> k < length tcs \<Longrightarrow> tc_TaskName (tcs ! k) \<noteq> n"
proof -
  note B = build_tasks_Inr [OF assms]
  then have tasks: "k < length tcs \<Longrightarrow> tasks ! k = rt_next rt + k" for k by simp
  show "n \<noteq> [] \<Longrightarrow> byName n = Some t \<Longrightarrow> \<exists>j<length tcs. t = tasks ! j \<and> tc_TaskName (tcs ! j) = n"
    using B tasks by fastforce
  show "byName n = None \<Longrightarrow> n \<noteq> [] \<Longrightarrow> k < length tcs \<Longrightarrow> tc_TaskName (tcs ! k) \<noteq> n"
    using B by force
qed

lemma resolved_task:
  assumes "build_tasks opts agents byKey 0 tcs [] Map.empty rt = (rt1, Inr (tasks, byName))"
    and "resolveContext ref tasks byName = Inr t"
  shows "\<exists>j<length tcs. t = tasks ! j \<and> names_task tcs ref j"
proof -
  have len: "length tasks = length tcs" using build_tasks_Inr [OF assms(1)] by simp
  from resolveContext_Inr [OF assms(2)] show ?thesis
    using registered_task [OF assms(1)] unfolding names_task_def len by metis
qed

text \<open>How the task at a position was made.\<close>

definition task_made :: "crewConfig \<Rightarrow> 'w rt \<Rightarrow> taskConfig \<Rightarrow> 'w task \<Rightarrow> bool" where
  "task_made cfg rt tc t =
     (tk_Name t = tc_TaskName tc \<and> tk_Description t = tc_Description tc
      \<and> length (tk_Context t) = length (tc_Context tc)
      \<and> (\<forall>r<length (tc_Context tc). \<exists>j<length (cc_Tasks cfg).
           tk_Context t ! r = tasks_of cfg rt ! j \<and> names_task (cc_Tasks cfg) (tc_Context tc ! r) j)
      \<and> (case tk_Agent t of
           None \<Rightarrow> tc_Agent tc = [] \<and> cc_Agents cfg = []
         | Some a \<Rightarrow> \<exists>j<length (cc_Agents cfg). a = agents_of cfg rt ! j \<and> names_agent (cc_Agents cfg) (tc_Agent tc) j))"

lemma agents_built:
  assumes "build_agents opts 0 (cc_Agents cfg) [] Map.empty rt = (rt1, Inr (agents_of cfg rt, byKey))"
    and "task_agent_ref (agents_of cfg rt) byKey name = Inr ref"
  shows "case ref of None \<Rightarrow> name = [] \<and> cc_Agents cfg = []
    | Some a \<Rightarrow> \<exists>j<length (cc_Agents cfg). a = agents_of cfg rt ! j \<and> names_agent (cc_Agents cfg) name j"
proof (cases "name = []")
  case True
  show ?thesis
  proof (cases "cc_Agents cfg")
    case Nil
    then show ?thesis using True assms(2) by (simp add: task_agent_ref_def agents_of_def)
  next
    case (Cons ac acs)
    then have "agents_of cfg rt \<noteq> []" using agents_of_nth(1) [of cfg rt] by auto
    then have "ref = Some (agents_of cfg rt ! 0)"
      using True assms(2) by (simp add: task_agent_ref_def hd_conv_nth split: if_splits)
    then show ?thesis using True Cons by (auto simp: names_agent_def)
  qed
next
  case False
  then obtain a where a: "ref = Some a" "byKey name = Some a"
    using assms(2) by (cases "byKey name") (auto simp: task_agent_ref_def)
  from registered_agent [OF assms(1) a(2) False]
  obtain j where "j < length (cc_Agents cfg)" "a = rt_next rt + j" "names_agent (cc_Agents cfg) name j" by blast
  then show ?thesis using a(1) agents_of_nth(2) [of j cfg rt] by auto
qed

lemma tasks_built:
  assumes "build_agents opts 0 (cc_Agents cfg) [] Map.empty rt = (rt1, Inr (agents_of cfg rt, byKey))"
    and "buildTasks opts cfg (agents_of cfg rt) byKey rt1 = (rt', Inr tasks)"
  shows "tasks = tasks_of cfg rt \<and> rt_agents rt' = rt_agents rt1 \<and> (\<forall>t<rt_next rt. rt_tasks rt' t = rt_tasks rt t)
    \<and> (\<forall>k<length (cc_Tasks cfg). task_made cfg rt (cc_Tasks cfg ! k) (rt_tasks rt' (tasks_of cfg rt ! k)))"
proof -
  note A = build_agents_Inr [OF assms(1)]
  obtain rt2 byName where b: "build_tasks opts (agents_of cfg rt) byKey 0 (cc_Tasks cfg) [] Map.empty rt1 = (rt2, Inr (tasks, byName))"
    and tasks: "tasks = addrs (rt_next rt1) (length (cc_Tasks cfg))"
    and c: "add_contexts (zip tasks (cc_Tasks cfg)) tasks byName rt2 = (rt', None)"
    using buildTasks_Inr [OF assms(2)] by blast
  note B = build_tasks_Inr [OF b]
  have tasks_eq: "tasks = tasks_of cfg rt" using tasks A by (simp add: tasks_of_def)
  have len: "length tasks = length (cc_Tasks cfg)" using tasks by simp
  then have ds: "distinct (map fst (zip tasks (cc_Tasks cfg)))" using tasks by simp
  note C = add_contexts_None [OF c ds]
  have "rt_tasks rt' t = rt_tasks rt t" if "t < rt_next rt" for t
  proof -
    have "t \<notin> fst ` set (zip tasks (cc_Tasks cfg))" using that tasks A by (auto dest: set_zip_leftD)
    then show ?thesis using that A B C by simp
  qed
  moreover have "task_made cfg rt (cc_Tasks cfg ! k) (rt_tasks rt' (tasks_of cfg rt ! k))" if k: "k < length (cc_Tasks cfg)" for k
  proof -
    let ?tc = "cc_Tasks cfg ! k" and ?t = "tasks ! k"
    have t: "build_task opts (agents_of cfg rt) byKey k ?tc = Inr (rt_tasks rt2 ?t)"
      using B k tasks by simp
    have "(?t, ?tc) \<in> set (zip tasks (cc_Tasks cfg))" using k len by (auto simp: set_zip)
    with C obtain deps where deps: "map Inr deps = map (\<lambda>ref. resolveContext ref tasks byName) (tc_Context ?tc)"
      "rt_tasks rt' ?t = WithContext deps (rt_tasks rt2 ?t)" by fastforce
    note made = build_task_Inr [OF t]
    have ctx: "tk_Context (rt_tasks rt' ?t) = deps" using deps(2) made(5) by (simp add: WithContext_def)
    have dlen: "length deps = length (tc_Context ?tc)" using deps(1) by (rule map_eq_imp_length_eq)
    have "\<exists>j<length (cc_Tasks cfg). deps ! r = tasks_of cfg rt ! j \<and> names_task (cc_Tasks cfg) (tc_Context ?tc ! r) j"
      if r: "r < length (tc_Context ?tc)" for r
    proof -
      have "resolveContext (tc_Context ?tc ! r) tasks byName = Inr (deps ! r)"
        using arg_cong [OF deps(1), of "\<lambda>xs. xs ! r"] r dlen by simp
      from resolved_task [OF b this] show ?thesis unfolding tasks_eq .
    qed
    then show ?thesis using made(1,2) ctx dlen deps(2) agents_built [OF assms(1) made(4)]
      unfolding task_made_def tasks_eq by (simp add: WithContext_def)
  qed
  ultimately show ?thesis using tasks_eq C B by simp
qed


lemma build_agent_role: "build_agent opts i ac = Inr a \<Longrightarrow> ag_Role a = ac_Role ac"
  by (auto simp: build_agent_def NewAgent_def WithTools_def Let_def split: if_splits sum.splits)

lemma Build_parts:
  assumes "Build fns (Some cfg) rt = (rt', Inr c)"
  shows "cr_Agents c = agents_of cfg rt \<and> cr_Tasks c = tasks_of cfg rt \<and> cr_Process c \<in> {Sequential, Hierarchical}
    \<and> (\<forall>a. cr_ManagerAgent c = Some a \<longrightarrow> a \<in> set (agents_of cfg rt))
    \<and> (cm_ManagerAgent (cc_Crew cfg) \<noteq> [] \<longrightarrow> cr_ManagerAgent c \<noteq> None)
    \<and> (cm_ManagerAgent (cc_Crew cfg) = [] \<and> cm_ManagerLLM (cc_Crew cfg) = [] \<longrightarrow> cr_ManagerAgent c = None \<and> cr_ManagerLLM c = None)
    \<and> (\<exists>p. crew_plan c rt' = Inr p)
    \<and> (\<forall>k<length (cc_Agents cfg). ag_Role (rt_agents rt' (agents_of cfg rt ! k)) = ac_Role (cc_Agents cfg ! k))
    \<and> (\<forall>k<length (cc_Tasks cfg). task_made cfg rt (cc_Tasks cfg ! k) (rt_tasks rt' (tasks_of cfg rt ! k)))
    \<and> (\<forall>a<rt_next rt. rt_agents rt' a = rt_agents rt a \<and> rt_tasks rt' a = rt_tasks rt a)"
proof -
  obtain opts rt1 byKey tasks c1 where
    a: "build_agents opts 0 (cc_Agents cfg) [] Map.empty rt = (rt1, Inr (agents_of cfg rt, byKey))"
    and t: "buildTasks opts cfg (agents_of cfg rt) byKey rt1 = (rt', Inr tasks)"
    and p: "build_process (cc_Crew cfg) (build_crew (cc_Crew cfg) (agents_of cfg rt) tasks) = Inr c1"
    and m: "build_managers opts (cc_Crew cfg) byKey (build_async (cc_Crew cfg) c1) = Inr c"
    and plan: "\<exists>p. crew_plan c rt' = Inr p"
    using Build_Inr [OF assms] unfolding agents_of_def by metis
  note A = build_agents_Inr [OF a] and T = tasks_built [OF a t]
  have c1: "cr_Agents c1 = agents_of cfg rt" "cr_Tasks c1 = tasks" "cr_Process c1 \<in> {Sequential, Hierarchical}" "cr_ManagerAgent c1 = None"
      "cr_ManagerLLM c1 = None"
    using build_process_Inr [OF p] by (auto simp: build_crew_def NewCrew_def no_crew_def)
  have "a \<in> set (agents_of cfg rt)" if "cr_ManagerAgent c = Some a" for a
  proof -
    have k: "byKey (cm_ManagerAgent (cc_Crew cfg)) = Some a" using build_managers_Inr [OF m] c1(4) that by auto
    then obtain j where "j < length (cc_Agents cfg)" "a = rt_next rt + j"
      using A by (simp only: option.distinct simp_thms) blast
    then show ?thesis by (simp add: agents_of_def)
  qed
  moreover have "ag_Role (rt_agents rt' (agents_of cfg rt ! k)) = ac_Role (cc_Agents cfg ! k)" if "k < length (cc_Agents cfg)" for k
    using that A T agents_of_nth(2) [OF that] build_agent_role by (metis add_0)
  moreover have "(cm_ManagerAgent (cc_Crew cfg) \<noteq> [] \<longrightarrow> cr_ManagerAgent c \<noteq> None)
    \<and> (cm_ManagerAgent (cc_Crew cfg) = [] \<and> cm_ManagerLLM (cc_Crew cfg) = [] \<longrightarrow> cr_ManagerAgent c = None \<and> cr_ManagerLLM c = None)"
    using build_managers_Inr [OF m] c1(4,5) by auto
  ultimately show ?thesis using build_managers_Inr [OF m] c1 plan A T by simp
qed

text \<open>
  C18. A declarative crew is built as its document says. The tasks and agents are those of the
  document in its order; a task's agent is the one its reference names, a name counting before a
  role, and the first agent without a reference; and every context reference is the task of that
  name, or else the task at that index. Objects that existed before are left alone.
\<close>
theorem Build_resolves:
  assumes "Build fns (Some cfg) rt = (rt', Inr c)"
  shows "cr_Agents c = agents_of cfg rt \<and> cr_Tasks c = tasks_of cfg rt
    \<and> (\<forall>k<length (cc_Agents cfg). ag_Role (rt_agents rt' (agents_of cfg rt ! k)) = ac_Role (cc_Agents cfg ! k))
    \<and> (\<forall>k<length (cc_Tasks cfg). task_made cfg rt (cc_Tasks cfg ! k) (rt_tasks rt' (tasks_of cfg rt ! k)))
    \<and> (\<forall>a<rt_next rt. rt_agents rt' a = rt_agents rt a \<and> rt_tasks rt' a = rt_tasks rt a)"
  using Build_parts [OF assms] by simp


section \<open>Closed instances\<close>

definition blank_agent :: agentConfig where
  "blank_agent = \<lparr>ac_Name = [], ac_Role = [], ac_Goal = [], ac_Backstory = [], ac_LLM = [], ac_Tools = [],
     ac_MaxIterations = 0, ac_AllowDelegation = False, ac_ToolMode = []\<rparr>"

definition blank_task :: taskConfig where
  "blank_task = \<lparr>tc_TaskName = [], tc_Description = [], tc_ExpectedOutput = [], tc_Agent = [], tc_Tools = [],
     tc_Context = [], tc_Async = False, tc_OutputFile = [], tc_Guardrail = []\<rparr>"

definition blank_meta :: crewMetaConfig where
  "blank_meta = \<lparr>cm_Name = [], cm_Process = [], cm_Verbose = False, cm_Memory = False, cm_ManagerLLM = [],
     cm_ManagerAgent = [], cm_OutputDir = [], cm_EnableDelegationTool = False, cm_EnableMemoryTools = False,
     cm_AsyncMaxWorkers = None, cm_AsyncFailFast = None, cm_Guardrails = []\<rparr>"

text \<open>Two agents, two tasks; the second task names the first by index, the first has no agent reference.\<close>

definition sample_config :: crewConfig where
  "sample_config = \<lparr>
     cc_Agents = [blank_agent\<lparr>ac_Name := ''ann'', ac_Role := ''writer''\<rparr>, blank_agent\<lparr>ac_Role := ''editor''\<rparr>],
     cc_Tasks = [blank_task\<lparr>tc_TaskName := ''draft'', tc_Description := ''write''\<rparr>,
                 blank_task\<lparr>tc_Description := ''edit'', tc_Agent := ''editor'',
                   tc_Context := [\<lparr>ref_Name = ''draft'', ref_Index = None\<rparr>, \<lparr>ref_Name = ''0'', ref_Index = None\<rparr>]\<rparr>],
     cc_Crew = blank_meta\<lparr>cm_Process := ''dag'', cm_ManagerAgent := ''ann''\<rparr>, cc_raw = []\<rparr>"

lemma sample_builds:
  "\<exists>rt' c. Build [] (Some sample_config) (new_rt ()) = (rt', Inr c)
     \<and> tk_Context (rt_tasks rt' 103) = [102, 102] \<and> tk_Agent (rt_tasks rt' 102) = Some 100
     \<and> tk_Agent (rt_tasks rt' 103) = Some 101 \<and> cr_ManagerAgent c = Some 100"
proof -
  let ?r = "Build [] (Some sample_config) (new_rt ())"
  have "case ?r of (rt', Inr c) \<Rightarrow> tk_Context (rt_tasks rt' 103) = [102, 102] \<and> tk_Agent (rt_tasks rt' 102) = Some 100
     \<and> tk_Agent (rt_tasks rt' 103) = Some 101 \<and> cr_ManagerAgent c = Some 100 | _ \<Rightarrow> False"
    by code_simp
  then show ?thesis by (auto split: prod.splits sum.splits)
qed

lemma Build_resolves_witness:
  "\<exists>rt' c. Build [] (Some sample_config) (new_rt ()) = (rt', Inr c) \<and> cr_Tasks c = [102, 103]
     \<and> task_made sample_config (new_rt ()) (cc_Tasks sample_config ! 1) (rt_tasks rt' 103)"
proof -
  obtain rt' c where r: "Build [] (Some sample_config) (new_rt ()) = (rt', Inr c)" using sample_builds by blast
  have "tasks_of sample_config (new_rt ()) = [102, 103]" "length (cc_Tasks sample_config) = 2" by code_simp+
  then show ?thesis using Build_resolves [OF r] r by (auto dest: spec [of _ 1])
qed


text \<open>
  Whether the names of two agents clash depends on their order: an agent named like the role of a
  later one is accepted, an agent named like the role of an earlier one is a duplicate.
\<close>
lemma agent_name_clash_depends_on_order:
  "let a = blank_agent\<lparr>ac_Name := ''ann'', ac_Role := ''writer''\<rparr>;
       b = blank_agent\<lparr>ac_Name := ''writer'', ac_Role := ''lead''\<rparr>;
       build = (\<lambda>as. snd (Build [] (Some (sample_config\<lparr>cc_Agents := as, cc_Tasks := [], cc_Crew := blank_meta\<rparr>)) (new_rt ())))
   in isl (build [a, b]) \<and> projl (build [a, b]) = Plain ''/agents/1/name: duplicate agent name'' \<and> \<not> isl (build [b, a])"
  by code_simp

text \<open>A document with one agent and one task conforms.\<close>

lemmas keyword_defs = value_keywords_ok_def inside_ok_def object_ok_def array_ok_def string_ok_def bound_ok_def
  asFloat_def float_len_def type_named_def schema_props_def

lemma nonempty_string_conforms: "s \<noteq> [] \<Longrightarrow> conforms lib nonempty_string (JStr s)"
  by (cases s) (simp_all add: nonempty_string_def conforms_object keyword_defs)

lemma array_conforms: "\<forall>x\<in>set xs. conforms lib s x \<Longrightarrow> conforms lib (JObj [(''items'', s), (''type'', JStr ''array'')]) (JArr xs)"
  by (simp add: conforms_object keyword_defs)

lemma role_conforms: "conforms lib agent_schema (JObj [(''role'', JStr ''writer'')])"
  unfolding agent_schema_def nonempty_string_def [symmetric]
  by (simp add: conforms_object keyword_defs nonempty_string_conforms)

lemma description_conforms: "conforms lib task_schema (JObj [(''description'', JStr ''write'')])"
  unfolding task_schema_def nonempty_string_def [symmetric]
  by (simp add: conforms_object keyword_defs nonempty_string_conforms)

definition sample_doc :: json where
  "sample_doc = JObj [(''agents'', JArr [JObj [(''role'', JStr ''writer'')]]),
     (''tasks'', JArr [JObj [(''description'', JStr ''write'')]])]"

lemma sample_decoded: "decoded sample_doc"
  by code_simp

lemma sample_conforms: "conforms lib crewConfigSchema sample_doc"
  unfolding crewConfigSchema_def sample_doc_def using role_conforms description_conforms
  by (simp add: conforms_object [of lib "[(''additionalProperties'', x), (''properties'', ps), (''required'', r), (''type'', t)]" for x ps r t]
      keyword_defs array_conforms)

definition sample_load :: loadLib where
  "sample_load = schemaLib.extend (table_lib [(''doc'', sample_doc)])
     (loadLib.fields (\<lambda>_. Inl (Plain [])) (\<lambda>_. Inl (Plain [])) (\<lambda>_ _. Inr sample_config))"

lemma sample_loads: "LoadCrew sample_load (Some (''doc'', None)) = Inr (sample_config\<lparr>cc_raw := ''doc''\<rparr>)"
proof -
  have lib: "schemaLib.truncate sample_load = table_lib [(''doc'', sample_doc)]"
    "ll_config sample_load = (\<lambda>_ _. Inr sample_config)" "sl_decode (table_lib [(''doc'', sample_doc)]) ''doc'' = Inr sample_doc"
    by (simp_all add: sample_load_def schemaLib.defs loadLib.defs table_lib_def)
  have "validate_against (schemaLib.truncate sample_load) ''doc'' crewConfigSchema = None"
    unfolding lib(1)
    by (subst validate_against_decides [OF crewConfigSchema_proper]) (use sample_decoded in \<open>simp_all add: lib(3) sample_conforms\<close>)
  then show ?thesis by (simp add: LoadCrew_def limitReader_def MaxCrewConfigBytes_def parseCrewConfig_def lib(2))
qed

lemma LoadCrew_documented_witness:
  "cc_raw (projr (LoadCrew sample_load (Some (''doc'', None)))) = ''doc''
   \<and> (\<exists>d. sl_decode sample_load ''doc'' = Inr d \<and> crew_document d)"
proof -
  have "sl_decode sample_load ''doc'' = Inr sample_doc"
    by (simp add: sample_load_def schemaLib.defs loadLib.defs table_lib_def)
  then have "decoded d" if "sl_decode sample_load (fst (''doc'', None :: err option)) = Inr d" for d
    using that sample_decoded by simp
  from LoadCrew_documented [OF sample_loads this] sample_loads show ?thesis by simp
qed

end
