(* ===== verification/StructuredSchema.thy ===== *)
theory StructuredSchema
  imports Structured SchemaSpec
begin

text \<open>
  Structured output with the real validator: the environment's schema check is \<^verbatim>\<open>validateSchema\<close>, so
  the answer of a structured task conforms to the meaning of its schema, and a schema that Go
  cannot even decode yields no answer at all.
\<close>

definition with_validator :: "schemaLib \<Rightarrow> 'w env \<Rightarrow> 'w env" where
  "with_validator lib en = en\<lparr>en_schema := validateSchema lib\<rparr>"

lemma canonical_answer_validated:
  "canonical_answer (with_validator lib en) schema answer
     \<Longrightarrow> \<exists>cleaned. validateSchema lib cleaned schema = None \<and> en_canonical en cleaned = Inr answer"
  by (auto simp: canonical_answer_def with_validator_def)

text \<open>
  What \<^verbatim>\<open>json.Unmarshal\<close> and \<^verbatim>\<open>json.Marshal\<close> promise of the canonical form: it is an encoding of the
  value that was decoded, so decoding it gives that value again.
\<close>

definition reencodes :: "schemaLib \<Rightarrow> 'w env \<Rightarrow> bool" where
  "reencodes lib en \<longleftrightarrow>
     (\<forall>doc d c. sl_decode lib doc = Inr d \<longrightarrow> en_canonical en doc = Inr c \<longrightarrow> sl_decode lib c = Inr d)"

text \<open>
  C9. A structured answer conforms to its schema, when the schema has no \<^verbatim>\<open>$ref\<close> and no \<^verbatim>\<open>false\<close> directly
  below \<^verbatim>\<open>properties\<close>. Whatever the model replies, whatever the tools return, with either capture
  strategy and after any number of repairs, the text returned without an error is itself JSON, and its
  value satisfies the schema of the task in the sense of the keywords. That re-encoding keeps the value
  is what is assumed of \<^verbatim>\<open>encoding/json\<close>. (The two restrictions are those of \<open>validateSchema_decides\<close>;
  \<open>false_property_accepts\<close> and \<open>missing_ref_below_not_accepts\<close> are accepted documents beyond them.)
\<close>
theorem executeStructured_conforms:
  assumes "executeStructured (with_validator lib en) call ctx a t s c rt = (rt', answer, facts, None)"
    and "sl_decode lib (so_Schema s) = Inr sch" "decoded sch" "ref_free sch" "no_false_property sch"
    and "\<And>doc d. sl_decode lib doc = Inr d \<Longrightarrow> decoded d"
    and "reencodes lib en"
  shows "\<exists>d. sl_decode lib answer = Inr d \<and> conforms lib sch d"
proof -
  obtain cleaned where v: "validateSchema lib cleaned (so_Schema s) = None" "en_canonical en cleaned = Inr answer"
    using canonical_answer_validated [OF executeStructured_answer [OF assms(1)]] by blast
  then have "validate_against lib cleaned sch = None" using assms(2) by (simp add: validateSchema_def)
  moreover have "validate_against lib cleaned sch = None \<longleftrightarrow> (\<exists>d. sl_decode lib cleaned = Inr d \<and> conforms lib sch d)"
    by (rule validate_against_decides [OF assms(3-5)]) (rule assms(6))
  ultimately obtain d where d: "sl_decode lib cleaned = Inr d" "conforms lib sch d" by iprover
  moreover have "sl_decode lib answer = Inr d" using assms(7) d(1) v(2) unfolding reencodes_def by iprover
  ultimately show ?thesis by iprover
qed

definition short_lib :: schemaLib where
  "short_lib = table_lib [(''{}'', JObj [(''maxLength'', JNum 4)]), (''good'', JStr ''good''), (''bad'', JStr ''too long'')]"

lemma short_lib_decoded: "sl_decode short_lib doc = Inr d \<Longrightarrow> decoded d"
  by (auto simp: short_lib_def table_lib_def split: option.splits if_splits)

lemma executeStructured_conforms_witness:
  "\<exists>d. sl_decode short_lib ''good'' = Inr d \<and> conforms short_lib (JObj [(''maxLength'', JNum 4)]) d"
proof -
  let ?r = "executeStructured (with_validator short_lib schema_env) echo_call background emit_agent 0 emit_output [] (new_rt ())"
  obtain rt' answer facts e where r: "?r = (rt', answer, facts, e)" using prod_cases4 by blast
  have "fst (snd ?r) = ''good'' \<and> snd (snd (snd ?r)) = None" by code_simp
  then have e: "e = None" "answer = ''good''" using r by simp_all
  have s: "sl_decode short_lib (so_Schema emit_output) = Inr (JObj [(''maxLength'', JNum 4)])"
    by (simp add: short_lib_def table_lib_def emit_output_def)
  have p: "decoded (JObj [(''maxLength'', JNum 4)])" "ref_free (JObj [(''maxLength'', JNum 4)])"
    "no_false_property (JObj [(''maxLength'', JNum 4)])" by code_simp+
  have "reencodes short_lib schema_env" by (simp add: reencodes_def schema_env_def)
  then show ?thesis
    using executeStructured_conforms [of short_lib schema_env echo_call background emit_agent 0 emit_output "[]" "new_rt ()" rt' "''good''" facts, OF _ s p short_lib_decoded]
      r e by simp
qed

end
