(* ===== verification/Calculator.thy ===== *)
theory Calculator
  imports Prelude GoStrings
begin

text \<open>
  The calculator tool of \<^verbatim>\<open>tools/calculator.go\<close>: a recursive-descent parser that evaluates while it
  reads. A position in the source is the rest of it. The float64 operations are the record \<open>arith\<close>,
  so that what is shown holds of IEEE arithmetic as of any other. The grammar of the comment on
  \<^verbatim>\<open>parser\<close> is the inductive relation \<open>expression\<close>; the evaluator accepts exactly its strings, with
  its value (\<open>evalExpr_grammar\<close>), and ends on every input.
\<close>

section \<open>Arithmetic\<close>

record 'f arith =
  ar_add :: "'f \<Rightarrow> 'f \<Rightarrow> 'f"
  ar_sub :: "'f \<Rightarrow> 'f \<Rightarrow> 'f"
  ar_mul :: "'f \<Rightarrow> 'f \<Rightarrow> 'f"
  ar_div :: "'f \<Rightarrow> 'f \<Rightarrow> 'f"
  ar_neg :: "'f \<Rightarrow> 'f"
  ar_isZero :: "'f \<Rightarrow> bool"
  ar_parse :: "string \<Rightarrow> err + 'f"
  ar_format :: "'f \<Rightarrow> string"

section \<open>The parser\<close>

text \<open>\<^verbatim>\<open>unicode.IsSpace\<close> of a single byte.\<close>

definition byte_space :: "char \<Rightarrow> bool" where
  "byte_space c = (of_char c \<in> {9, 10, 11, 12, 13, 32, 0x85, 0xA0 :: nat})"

definition skipSpaces :: "string \<Rightarrow> string" where
  "skipSpaces s = dropWhile byte_space s"

definition num_char :: "char \<Rightarrow> bool" where
  "num_char c = (48 \<le> (of_char c :: nat) \<and> (of_char c :: nat) \<le> 57 \<or> c = CHR ''.'')"

type_synonym 'f parsed = "err + 'f \<times> string"

definition parseNumber :: "'f arith \<Rightarrow> string \<Rightarrow> 'f parsed" where
  "parseNumber ar s =
     (let s = skipSpaces s; ds = takeWhile num_char s; rest = dropWhile num_char s in
      if ds = [] then Inl (Plain (''expected number near '' @ go_quote s))
      else case ar_parse ar ds of Inl e \<Rightarrow> Inl e | Inr v \<Rightarrow> Inr (v, rest))"


function parseExpression :: "'f arith \<Rightarrow> string \<Rightarrow> 'f parsed"
  and exprLoop :: "'f arith \<Rightarrow> 'f \<Rightarrow> string \<Rightarrow> 'f parsed"
  and parseTerm :: "'f arith \<Rightarrow> string \<Rightarrow> 'f parsed"
  and termLoop :: "'f arith \<Rightarrow> 'f \<Rightarrow> string \<Rightarrow> 'f parsed"
  and parseFactor :: "'f arith \<Rightarrow> string \<Rightarrow> 'f parsed" where
  "parseExpression ar s = (case parseTerm ar s of Inl e \<Rightarrow> Inl e | Inr (v, r) \<Rightarrow> exprLoop ar v r)"
| "exprLoop ar v s =
     (case skipSpaces s of
        [] \<Rightarrow> Inr (v, [])
      | c # cs \<Rightarrow>
          if c \<noteq> CHR ''+'' \<and> c \<noteq> CHR ''-'' then Inr (v, c # cs)
          else (case parseTerm ar cs of
                  Inl e \<Rightarrow> Inl e
                | Inr (rhs, r) \<Rightarrow> exprLoop ar (if c = CHR ''+'' then ar_add ar v rhs else ar_sub ar v rhs) r))"
| "parseTerm ar s = (case parseFactor ar s of Inl e \<Rightarrow> Inl e | Inr (v, r) \<Rightarrow> termLoop ar v r)"
| "termLoop ar v s =
     (case skipSpaces s of
        [] \<Rightarrow> Inr (v, [])
      | c # cs \<Rightarrow>
          if c \<noteq> CHR ''*'' \<and> c \<noteq> CHR ''/'' then Inr (v, c # cs)
          else (case parseFactor ar cs of
                  Inl e \<Rightarrow> Inl e
                | Inr (rhs, r) \<Rightarrow>
                    if c = CHR ''*'' then termLoop ar (ar_mul ar v rhs) r
                    else if ar_isZero ar rhs then Inl (Plain ''division by zero'')
                    else termLoop ar (ar_div ar v rhs) r))"
| "parseFactor ar s =
     (case skipSpaces s of
        [] \<Rightarrow> Inl (Plain ''unexpected end of expression'')
      | c # cs \<Rightarrow>
          if c = CHR ''+'' then parseFactor ar cs
          else if c = CHR ''-'' then (case parseFactor ar cs of Inl e \<Rightarrow> Inl e | Inr (v, r) \<Rightarrow> Inr (ar_neg ar v, r))
          else if c = CHR ''('' then
            (case parseExpression ar cs of
               Inl e \<Rightarrow> Inl e
             | Inr (v, r) \<Rightarrow>
                 (case skipSpaces r of
                    [] \<Rightarrow> Inl (Plain (''expected '' @ [CHR 0x27] @ '')'' @ [CHR 0x27]))
                  | d # ds \<Rightarrow> if d \<noteq> CHR '')'' then Inl (Plain (''expected '' @ [CHR 0x27] @ '')'' @ [CHR 0x27])) else Inr (v, ds)))
          else parseNumber ar (c # cs))"
  by pat_completeness auto

lemma skipSpaces_length: "length (skipSpaces s) \<le> length s"
  by (simp add: skipSpaces_def length_dropWhile_le)

lemma parseNumber_length: "parseNumber ar s = Inr (v, r) \<Longrightarrow> length r \<le> length s"
  using skipSpaces_length [of s] length_dropWhile_le [of num_char "skipSpaces s"]
  by (auto simp: parseNumber_def Let_def split: if_splits sum.splits)

lemma skipSpaces_Cons_length: "skipSpaces s = c # cs \<Longrightarrow> length cs < length s"
  using skipSpaces_length [of s] by simp

lemma partial_length:
  "parseExpression_exprLoop_parseTerm_termLoop_parseFactor_dom (Inl (Inl (ar, s))) \<Longrightarrow> parseExpression ar s = Inr (v, r) \<Longrightarrow> length r \<le> length s"
  "parseExpression_exprLoop_parseTerm_termLoop_parseFactor_dom (Inl (Inr (ar, u, s))) \<Longrightarrow> exprLoop ar u s = Inr (v, r) \<Longrightarrow> length r \<le> length s"
  "parseExpression_exprLoop_parseTerm_termLoop_parseFactor_dom (Inr (Inl (ar, s))) \<Longrightarrow> parseTerm ar s = Inr (v, r) \<Longrightarrow> length r \<le> length s"
  "parseExpression_exprLoop_parseTerm_termLoop_parseFactor_dom (Inr (Inr (Inl (ar, u, s)))) \<Longrightarrow> termLoop ar u s = Inr (v, r) \<Longrightarrow> length r \<le> length s"
  "parseExpression_exprLoop_parseTerm_termLoop_parseFactor_dom (Inr (Inr (Inr (ar, s)))) \<Longrightarrow> parseFactor ar s = Inr (v, r) \<Longrightarrow> length r \<le> length s"
proof (induction arbitrary: v r and v r and v r and v r and v r
    rule: parseExpression_exprLoop_parseTerm_termLoop_parseFactor.pinduct)
  case (1 ar s)
  then show ?case by (fastforce simp: parseExpression.psimps split: sum.splits prod.splits)
next
  case (2 ar u s)
  show ?case
  proof (cases "skipSpaces s")
    case (Cons c cs)
    note len = skipSpaces_Cons_length [OF this]
    show ?thesis
    proof (cases "c \<noteq> CHR ''+'' \<and> c \<noteq> CHR ''-''")
      case False
      then obtain rhs r1 where t: "parseTerm ar cs = Inr (rhs, r1)"
        and l: "exprLoop ar (if c = CHR ''+'' then ar_add ar u rhs else ar_sub ar u rhs) r1 = Inr (v, r)"
        using "2.prems" Cons False exprLoop.psimps [OF 2(1)] by (cases "parseTerm ar cs") (auto split: prod.splits if_splits)
      show ?thesis using "2.IH"(1) [OF Cons False t] "2.IH"(2) [OF Cons False t refl l] len by simp
    qed (use "2.prems" Cons len skipSpaces_length [of s] in \<open>simp add: exprLoop.psimps [OF 2(1)]\<close>)
  qed (use "2.prems" in \<open>simp add: exprLoop.psimps [OF 2(1)]\<close>)
next
  case (3 ar s)
  then show ?case by (fastforce simp: parseTerm.psimps split: sum.splits prod.splits)
next
  case (4 ar u s)
  show ?case
  proof (cases "skipSpaces s")
    case (Cons c cs)
    note len = skipSpaces_Cons_length [OF this]
    show ?thesis
    proof (cases "c \<noteq> CHR ''*'' \<and> c \<noteq> CHR ''/''")
      case False
      then obtain rhs r1 where t: "parseFactor ar cs = Inr (rhs, r1)"
        and l: "c = CHR ''*'' \<Longrightarrow> termLoop ar (ar_mul ar u rhs) r1 = Inr (v, r)"
          "c \<noteq> CHR ''*'' \<Longrightarrow> \<not> ar_isZero ar rhs" "c \<noteq> CHR ''*'' \<Longrightarrow> termLoop ar (ar_div ar u rhs) r1 = Inr (v, r)"
        using "4.prems" Cons False termLoop.psimps [OF 4(1)] by (cases "parseFactor ar cs") (auto split: prod.splits if_splits)
      show ?thesis
        using "4.IH"(1) [OF Cons False t] "4.IH"(2) [OF Cons False t refl _ l(1)] "4.IH"(3) [OF Cons False t refl _ l(2,3)] len
        by (cases "c = CHR ''*''") simp_all
    qed (use "4.prems" Cons len skipSpaces_length [of s] in \<open>simp add: termLoop.psimps [OF 4(1)]\<close>)
  qed (use "4.prems" in \<open>simp add: termLoop.psimps [OF 4(1)]\<close>)
next
  case (5 ar s)
  show ?case
  proof (cases "skipSpaces s")
    case (Cons c cs)
    note len = skipSpaces_Cons_length [OF this]
    consider (plus) "c = CHR ''+''" | (minus) "c = CHR ''-''" | (paren) "c = CHR ''(''"
      | (num) "c \<noteq> CHR ''+''" "c \<noteq> CHR ''-''" "c \<noteq> CHR ''(''" by blast
    then show ?thesis
    proof cases
      case plus
      then show ?thesis using "5.prems" "5.IH"(1) [OF Cons plus] Cons len by (simp add: parseFactor.psimps [OF 5(1)])
    next
      case minus
      then obtain u where "parseFactor ar cs = Inr (u, r)"
        using "5.prems" Cons by (auto simp: parseFactor.psimps [OF 5(1)] split: sum.splits prod.splits)
      then show ?thesis using "5.IH"(2) [OF Cons _ minus] minus len by simp
    next
      case paren
      then obtain r1 where e: "parseExpression ar cs = Inr (v, r1)" and s: "skipSpaces r1 = CHR '')'' # r"
        using "5.prems" Cons by (auto simp: parseFactor.psimps [OF 5(1)] split: sum.splits prod.splits list.splits if_splits)
      show ?thesis using "5.IH"(3) [OF Cons _ _ paren e] skipSpaces_Cons_length [OF s] paren len by simp
    next
      case num
      then show ?thesis
        using "5.prems" Cons len skipSpaces_length [of s] parseNumber_length [of ar "c # cs" v r] by (simp add: parseFactor.psimps [OF 5(1)])
    qed
  qed (use "5.prems" in \<open>simp add: parseFactor.psimps [OF 5(1)]\<close>)
qed

termination parseExpression
proof (relation "measures [\<lambda>x. case x of Inl (Inl (ar, s)) \<Rightarrow> length s | Inl (Inr (ar, v, s)) \<Rightarrow> length s
      | Inr (Inl (ar, s)) \<Rightarrow> length s | Inr (Inr (Inl (ar, v, s))) \<Rightarrow> length s | Inr (Inr (Inr (ar, s))) \<Rightarrow> length s,
    \<lambda>x. case x of Inl (Inl _) \<Rightarrow> 3 | Inl (Inr _) \<Rightarrow> 0 | Inr (Inl _) \<Rightarrow> 2 | Inr (Inr (Inl _)) \<Rightarrow> 0 | Inr (Inr (Inr _)) \<Rightarrow> 1]", goal_cases)
  case 1
  show ?case by simp
qed (auto dest!: partial_length skipSpaces_Cons_length simp: le_neq_implies_less)


declare parseExpression.simps [simp del] exprLoop.simps [simp del] parseTerm.simps [simp del]
  termLoop.simps [simp del] parseFactor.simps [simp del]

definition evalExpr :: "'f arith \<Rightarrow> string \<Rightarrow> err + 'f" where
  "evalExpr ar s =
     (case parseExpression ar s of
        Inl e \<Rightarrow> Inl e
      | Inr (v, r) \<Rightarrow>
          let r = skipSpaces r in
          if r \<noteq> [] then Inl (Plain (''invalid expression near '' @ go_quote r)) else Inr v)"

definition Calculator_Call :: "'f arith \<Rightarrow> string \<Rightarrow> err + string" where
  "Calculator_Call ar input =
     (case evalExpr ar (trim_space input) of Inl e \<Rightarrow> Inl e | Inr v \<Rightarrow> Inr (ar_format ar v))"

section \<open>The grammar\<close>

definition spaces :: "string \<Rightarrow> bool" where
  "spaces ws = list_all byte_space ws"

inductive expression :: "'f arith \<Rightarrow> string \<Rightarrow> 'f \<Rightarrow> bool"
  and term' :: "'f arith \<Rightarrow> string \<Rightarrow> 'f \<Rightarrow> bool"
  and factor :: "'f arith \<Rightarrow> string \<Rightarrow> 'f \<Rightarrow> bool" for ar where
  of_term: "term' ar s v \<Longrightarrow> expression ar s v"
| plus: "expression ar s u \<Longrightarrow> spaces ws \<Longrightarrow> term' ar t v \<Longrightarrow> expression ar (s @ ws @ CHR ''+'' # t) (ar_add ar u v)"
| minus: "expression ar s u \<Longrightarrow> spaces ws \<Longrightarrow> term' ar t v \<Longrightarrow> expression ar (s @ ws @ CHR ''-'' # t) (ar_sub ar u v)"
| of_factor: "factor ar s v \<Longrightarrow> term' ar s v"
| times: "term' ar s u \<Longrightarrow> spaces ws \<Longrightarrow> factor ar t v \<Longrightarrow> term' ar (s @ ws @ CHR ''*'' # t) (ar_mul ar u v)"
| divide: "term' ar s u \<Longrightarrow> spaces ws \<Longrightarrow> factor ar t v \<Longrightarrow> \<not> ar_isZero ar v
    \<Longrightarrow> term' ar (s @ ws @ CHR ''/'' # t) (ar_div ar u v)"
| number: "spaces ws \<Longrightarrow> ds \<noteq> [] \<Longrightarrow> list_all num_char ds \<Longrightarrow> ar_parse ar ds = Inr v \<Longrightarrow> factor ar (ws @ ds) v"
| parens: "spaces ws \<Longrightarrow> expression ar s v \<Longrightarrow> spaces ws' \<Longrightarrow> factor ar (ws @ CHR ''('' # s @ ws' @ [CHR '')'']) v"
| unary_plus: "spaces ws \<Longrightarrow> factor ar s v \<Longrightarrow> factor ar (ws @ CHR ''+'' # s) v"
| unary_minus: "spaces ws \<Longrightarrow> factor ar s v \<Longrightarrow> factor ar (ws @ CHR ''-'' # s) (ar_neg ar v)"

section \<open>The parser accepts the grammar\<close>

lemma skip_spaces [simp]: "spaces ws \<Longrightarrow> skipSpaces (ws @ s) = skipSpaces s"
  by (simp add: spaces_def skipSpaces_def list_all_iff)

lemma skip_idem [simp]: "skipSpaces (skipSpaces s) = skipSpaces s"
  by (simp add: skipSpaces_def dropWhile_idem)

lemma skip_Cons [simp]: "\<not> byte_space c \<Longrightarrow> skipSpaces (c # cs) = c # cs"
  by (simp add: skipSpaces_def)

lemma not_space [simp]:
  "\<not> byte_space CHR ''+''" "\<not> byte_space CHR ''-''" "\<not> byte_space CHR ''*''" "\<not> byte_space CHR ''/''"
  "\<not> byte_space CHR ''(''" "\<not> byte_space CHR '')''"
  by (simp_all add: byte_space_def)

lemma num_char_not_space: "num_char c \<Longrightarrow> \<not> byte_space c"
  by (auto simp: num_char_def byte_space_def)

lemma num_char_not_op: "num_char c \<Longrightarrow> c \<noteq> CHR ''+'' \<and> c \<noteq> CHR ''-'' \<and> c \<noteq> CHR ''(''"
  by (auto simp: num_char_def)

lemma skip_decomp: "\<exists>ws. spaces ws \<and> s = ws @ skipSpaces s"
  by (rule exI [of _ "takeWhile byte_space s"]) (auto simp: spaces_def skipSpaces_def list_all_iff dest: set_takeWhileD)

lemma spaces_Nil [simp]: "spaces []" and spaces_append [simp]: "spaces (a @ b) \<longleftrightarrow> spaces a \<and> spaces b"
  by (simp_all add: spaces_def)

text \<open>The loops look at what follows the spaces only.\<close>

lemma exprLoop_skip: "exprLoop ar v (skipSpaces s) = exprLoop ar v s"
  by (subst (1 2) exprLoop.simps) simp

lemma termLoop_skip: "termLoop ar v (skipSpaces s) = termLoop ar v s"
  by (subst (1 2) termLoop.simps) simp

text \<open>What may follow a number, and what ends a term or an expression.\<close>

definition after_num :: "string \<Rightarrow> bool" where
  "after_num s = (case s of [] \<Rightarrow> True | c # _ \<Rightarrow> \<not> num_char c)"

definition ends_term :: "string \<Rightarrow> bool" where
  "ends_term s = (case skipSpaces s of [] \<Rightarrow> True | c # _ \<Rightarrow> c \<noteq> CHR ''*'' \<and> c \<noteq> CHR ''/'')"

definition ends_expr :: "string \<Rightarrow> bool" where
  "ends_expr s = (case skipSpaces s of [] \<Rightarrow> True | c # _ \<Rightarrow> c \<noteq> CHR ''+'' \<and> c \<noteq> CHR ''-'')"

lemma after_num_spaces: "spaces ws \<Longrightarrow> after_num s \<Longrightarrow> after_num (ws @ s)"
  using num_char_not_space by (cases ws) (auto simp: after_num_def spaces_def)

lemma after_num_op [simp]:
  "after_num (CHR ''+'' # s)" "after_num (CHR ''-'' # s)" "after_num (CHR ''*'' # s)" "after_num (CHR ''/'' # s)"
  "after_num (CHR '')'' # s)" "after_num []"
  by (simp_all add: after_num_def num_char_def)

lemma ends_spaces [simp]: "spaces ws \<Longrightarrow> ends_term (ws @ s) = ends_term s" "spaces ws \<Longrightarrow> ends_expr (ws @ s) = ends_expr s"
  by (simp_all add: ends_term_def ends_expr_def)

lemma ends_op [simp]:
  "ends_term (CHR ''+'' # s)" "ends_term (CHR ''-'' # s)" "ends_term (CHR '')'' # s)" "ends_term []"
  "ends_expr (CHR '')'' # s)" "ends_expr []"
  by (simp_all add: ends_term_def ends_expr_def) (simp_all add: skipSpaces_def)

lemma termLoop_ends: "ends_term s \<Longrightarrow> termLoop ar v s = Inr (v, skipSpaces s)"
  by (subst termLoop.simps) (auto simp: ends_term_def split: list.splits)

lemma exprLoop_ends: "ends_expr s \<Longrightarrow> exprLoop ar v s = Inr (v, skipSpaces s)"
  by (subst exprLoop.simps) (auto simp: ends_expr_def split: list.splits)

lemma parseNumber_digits:
  assumes "ds \<noteq> []" "list_all num_char ds" "ar_parse ar ds = Inr v" "after_num s"
  shows "parseNumber ar (ds @ s) = Inr (v, s)" "skipSpaces (ds @ s) = ds @ s"
proof -
  obtain c cs where ds: "ds = c # cs" using assms(1) by (cases ds) auto
  show skip: "skipSpaces (ds @ s) = ds @ s" using assms(2) ds num_char_not_space by simp
  have "takeWhile num_char (ds @ s) = ds" "dropWhile num_char (ds @ s) = s"
    using assms(2,4) by (auto simp: list_all_iff after_num_def takeWhile_append dropWhile_append split: list.splits)
  then show "parseNumber ar (ds @ s) = Inr (v, s)" using assms(1,3) skip by (simp add: parseNumber_def)
qed

lemma parser_complete:
  "expression ar s v \<Longrightarrow> after_num r \<Longrightarrow> ends_term r \<Longrightarrow> parseExpression ar (s @ r) = exprLoop ar v r"
  "term' ar s v \<Longrightarrow> after_num r \<Longrightarrow> parseTerm ar (s @ r) = termLoop ar v r"
  "factor ar s v \<Longrightarrow> after_num r \<Longrightarrow> parseFactor ar (s @ r) = Inr (v, r)"
proof (induction arbitrary: r and r and r rule: expression_term'_factor.inducts)
  case (of_term s v)
  then show ?case by (subst parseExpression.simps) (simp add: termLoop_ends exprLoop_skip)
next
  case (plus s u ws t v)
  then have "parseExpression ar (s @ ws @ CHR ''+'' # t @ r) = exprLoop ar u (ws @ CHR ''+'' # t @ r)"
    by (simp add: after_num_spaces)
  moreover have "parseTerm ar (t @ r) = Inr (v, skipSpaces r)" using plus by (simp add: termLoop_ends)
  ultimately show ?case using plus by (simp add: exprLoop.simps [of ar u "ws @ CHR ''+'' # t @ r"] exprLoop_skip)
next
  case (minus s u ws t v)
  then have "parseExpression ar (s @ ws @ CHR ''-'' # t @ r) = exprLoop ar u (ws @ CHR ''-'' # t @ r)"
    by (simp add: after_num_spaces)
  moreover have "parseTerm ar (t @ r) = Inr (v, skipSpaces r)" using minus by (simp add: termLoop_ends)
  ultimately show ?case using minus by (simp add: exprLoop.simps [of ar u "ws @ CHR ''-'' # t @ r"] exprLoop_skip)
next
  case (of_factor s v)
  then show ?case by (subst parseTerm.simps) simp
next
  case (times s u ws t v)
  then have "parseTerm ar (s @ ws @ CHR ''*'' # t @ r) = termLoop ar u (ws @ CHR ''*'' # t @ r)"
    by (simp add: after_num_spaces)
  then show ?case using times by (simp add: termLoop.simps [of ar u "ws @ CHR ''*'' # t @ r"])
next
  case (divide s u ws t v)
  then have "parseTerm ar (s @ ws @ CHR ''/'' # t @ r) = termLoop ar u (ws @ CHR ''/'' # t @ r)"
    by (simp add: after_num_spaces)
  then show ?case using divide by (simp add: termLoop.simps [of ar u "ws @ CHR ''/'' # t @ r"])
next
  case (number ws ds v)
  obtain c cs where ds: "ds = c # cs" using number by (cases ds) auto
  with number num_char_not_op [of c] parseNumber_digits [of ds ar v r] show ?case
    by (subst parseFactor.simps) simp
next
  case (parens ws s v ws')
  then have "parseExpression ar (s @ ws' @ CHR '')'' # r) = exprLoop ar v (ws' @ CHR '')'' # r)"
    by (simp add: after_num_spaces)
  also have "\<dots> = Inr (v, CHR '')'' # r)" using parens by (simp add: exprLoop_ends)
  finally show ?case using parens by (subst parseFactor.simps) simp
next
  case (unary_plus ws s v)
  then show ?case by (subst parseFactor.simps) simp
next
  case (unary_minus ws s v)
  then show ?case by (subst parseFactor.simps) simp
qed


section \<open>The parser accepts only the grammar\<close>

lemma parseNumber_sound: "parseNumber ar s = Inr (v, r) \<Longrightarrow> \<exists>p. s = p @ r \<and> factor ar p v"
proof -
  assume p: "parseNumber ar s = Inr (v, r)"
  let ?t = "skipSpaces s" let ?ds = "takeWhile num_char ?t"
  obtain ws where ws: "spaces ws" "s = ws @ ?t" using skip_decomp by blast
  have n: "?ds \<noteq> []" "ar_parse ar ?ds = Inr v" "r = dropWhile num_char ?t"
    using p by (auto simp: parseNumber_def Let_def split: if_splits sum.splits)
  have "list_all num_char ?ds" by (auto simp: list_all_iff dest: set_takeWhileD)
  then have "factor ar (ws @ ?ds) v" using ws n by (blast intro: number)
  moreover have "s = (ws @ ?ds) @ r" using ws n by (metis append.assoc takeWhile_dropWhile_id)
  ultimately show ?thesis by blast
qed

lemma factor_spaces: "factor ar s v \<Longrightarrow> spaces ws \<Longrightarrow> factor ar (ws @ s) v"
proof (erule factor.cases, goal_cases)
  case (1 ws' ds u)
  with number [of "ws @ ws'" ds ar u] show ?case by simp
next
  case (2 ws1 t u ws2)
  with parens [of "ws @ ws1" ar t u ws2] show ?case by simp
next
  case (3 ws' t u)
  with unary_plus [of "ws @ ws'" ar t u] show ?case by simp
next
  case (4 ws' t u)
  with unary_minus [of "ws @ ws'" ar t u] show ?case by simp
qed

lemma skip_ConsD: "skipSpaces s = c # cs \<Longrightarrow> \<exists>ws. spaces ws \<and> s = ws @ c # cs"
  using skip_decomp by metis

lemma skip_NilD: "skipSpaces s = [] \<Longrightarrow> spaces s"
  using skip_decomp [of s] by (metis append_Nil2)

lemma parser_sound:
  "parseExpression ar s = Inr (v, r) \<Longrightarrow> \<exists>p ws. s = p @ ws @ r \<and> spaces ws \<and> expression ar p v"
  "exprLoop ar u s = Inr (v, r) \<Longrightarrow> expression ar q u \<Longrightarrow> spaces ws0
     \<Longrightarrow> \<exists>p ws. q @ ws0 @ s = p @ ws @ r \<and> spaces ws \<and> expression ar p v"
  "parseTerm ar s = Inr (v, r) \<Longrightarrow> \<exists>p ws. s = p @ ws @ r \<and> spaces ws \<and> term' ar p v"
  "termLoop ar u s = Inr (v, r) \<Longrightarrow> term' ar q u \<Longrightarrow> spaces ws0
     \<Longrightarrow> \<exists>p ws. q @ ws0 @ s = p @ ws @ r \<and> spaces ws \<and> term' ar p v"
  "parseFactor ar s = Inr (v, r) \<Longrightarrow> \<exists>p. s = p @ r \<and> factor ar p v"
proof (induction ar s and ar u s and ar s and ar u s and ar s arbitrary: v r and v r q ws0 and v r and v r q ws0 and v r
    rule: parseExpression_exprLoop_parseTerm_termLoop_parseFactor.induct)
  case (1 ar s)
  then obtain u r1 where t: "parseTerm ar s = Inr (u, r1)" and l: "exprLoop ar u r1 = Inr (v, r)"
    by (auto simp: parseExpression.simps [of ar s] split: sum.splits prod.splits)
  from "1.IH"(1) [OF t] obtain p ws where "s = p @ ws @ r1" "spaces ws" "term' ar p u" by blast
  with "1.IH"(2) [OF t refl l of_term] show ?case by metis
next
  case (2 ar u s)
  show ?case
  proof (cases "skipSpaces s")
    case Nil
    then have "r = []" "v = u" using "2.prems"(1) by (simp_all add: exprLoop.simps [of ar u s])
    then show ?thesis using "2.prems"(2,3) skip_NilD [OF Nil] by (intro exI [of _ q] exI [of _ "ws0 @ s"]) simp
  next
    case (Cons c cs)
    then obtain ws where ws: "spaces ws" "s = ws @ c # cs" using skip_ConsD by blast
    show ?thesis
    proof (cases "c \<noteq> CHR ''+'' \<and> c \<noteq> CHR ''-''")
      case True
      then have "r = c # cs" "v = u" using "2.prems"(1) Cons by (simp_all add: exprLoop.simps [of ar u s])
      then show ?thesis using "2.prems"(2,3) ws by (intro exI [of _ q] exI [of _ "ws0 @ ws"]) simp
    next
      case False
      then obtain rhs r1 where t: "parseTerm ar cs = Inr (rhs, r1)"
        and l: "exprLoop ar (if c = CHR ''+'' then ar_add ar u rhs else ar_sub ar u rhs) r1 = Inr (v, r)"
        using "2.prems" Cons exprLoop.simps [of ar u s] by (cases "parseTerm ar cs") (auto split: prod.splits if_splits)
      from "2.IH"(1) [OF Cons False t] obtain p ws1 where p: "cs = p @ ws1 @ r1" "spaces ws1" "term' ar p rhs" by blast
      have "expression ar (q @ (ws0 @ ws) @ c # p) (if c = CHR ''+'' then ar_add ar u rhs else ar_sub ar u rhs)"
        using False plus [OF "2.prems"(2) _ p(3), of "ws0 @ ws"] minus [OF "2.prems"(2) _ p(3), of "ws0 @ ws"] "2.prems"(3) ws(1)
        by auto
      from "2.IH"(2) [OF Cons False t refl l this p(2)] show ?thesis using ws p by simp
    qed
  qed
next
  case (3 ar s)
  then obtain u r1 where t: "parseFactor ar s = Inr (u, r1)" and l: "termLoop ar u r1 = Inr (v, r)"
    by (auto simp: parseTerm.simps [of ar s] split: sum.splits prod.splits)
  from "3.IH"(1) [OF t] obtain p where "s = p @ r1" "factor ar p u" by blast
  with "3.IH"(2) [OF t refl l of_factor, of p "[]"] show ?case by simp
next
  case (4 ar u s)
  show ?case
  proof (cases "skipSpaces s")
    case Nil
    then have "r = []" "v = u" using "4.prems"(1) by (simp_all add: termLoop.simps [of ar u s])
    then show ?thesis using "4.prems"(2,3) skip_NilD [OF Nil] by (intro exI [of _ q] exI [of _ "ws0 @ s"]) simp
  next
    case (Cons c cs)
    then obtain ws where ws: "spaces ws" "s = ws @ c # cs" using skip_ConsD by blast
    show ?thesis
    proof (cases "c \<noteq> CHR ''*'' \<and> c \<noteq> CHR ''/''")
      case True
      then have "r = c # cs" "v = u" using "4.prems"(1) Cons by (simp_all add: termLoop.simps [of ar u s])
      then show ?thesis using "4.prems"(2,3) ws by (intro exI [of _ q] exI [of _ "ws0 @ ws"]) simp
    next
      case False
      then obtain rhs r1 where t: "parseFactor ar cs = Inr (rhs, r1)"
        and l: "c = CHR ''*'' \<Longrightarrow> termLoop ar (ar_mul ar u rhs) r1 = Inr (v, r)"
          "c \<noteq> CHR ''*'' \<Longrightarrow> \<not> ar_isZero ar rhs" "c \<noteq> CHR ''*'' \<Longrightarrow> termLoop ar (ar_div ar u rhs) r1 = Inr (v, r)"
        using "4.prems" Cons termLoop.simps [of ar u s] by (cases "parseFactor ar cs") (auto split: prod.splits if_splits)
      from "4.IH"(1) [OF Cons False t] obtain p where p: "cs = p @ r1" "factor ar p rhs" by blast
      have sp: "spaces (ws0 @ ws)" using "4.prems"(3) ws(1) by simp
      show ?thesis
      proof (cases "c = CHR ''*''")
        case True
        from "4.IH"(2) [OF Cons False t refl True l(1) [OF True] times [OF "4.prems"(2) sp p(2)], of "[]"]
        show ?thesis using ws p True by simp
      next
        case div: False
        from "4.IH"(3) [OF Cons False t refl div l(2,3) [OF div] divide [OF "4.prems"(2) sp p(2) l(2) [OF div]], of "[]"]
        show ?thesis using ws p False div by simp
      qed
    qed
  qed
next
  case (5 ar s)
  show ?case
  proof (cases "skipSpaces s")
    case (Cons c cs)
    then obtain ws where ws: "spaces ws" "s = ws @ c # cs" using skip_ConsD by blast
    consider (plus) "c = CHR ''+''" | (minus) "c = CHR ''-''" | (paren) "c = CHR ''(''"
      | (num) "c \<noteq> CHR ''+''" "c \<noteq> CHR ''-''" "c \<noteq> CHR ''(''" by blast
    then show ?thesis
    proof cases
      case plus
      then obtain p where "cs = p @ r" "factor ar p v"
        using "5.prems" "5.IH"(1) [OF Cons plus] Cons by (auto simp: parseFactor.simps [of ar s])
      then show ?thesis using unary_plus [of ws ar p v] ws plus by (intro exI [of _ "ws @ c # p"]) simp
    next
      case minus
      then obtain u where u: "parseFactor ar cs = Inr (u, r)" "v = ar_neg ar u"
        using "5.prems" Cons by (auto simp: parseFactor.simps [of ar s] split: sum.splits prod.splits)
      then obtain p where "cs = p @ r" "factor ar p u" using "5.IH"(2) [OF Cons _ minus] minus by auto
      then show ?thesis using unary_minus [of ws ar p u] ws minus u by (intro exI [of _ "ws @ c # p"]) simp
    next
      case paren
      then obtain r1 where e: "parseExpression ar cs = Inr (v, r1)" and s: "skipSpaces r1 = CHR '')'' # r"
        using "5.prems" Cons by (auto simp: parseFactor.simps [of ar s] split: sum.splits prod.splits list.splits if_splits)
      obtain ws2 where ws2: "spaces ws2" "r1 = ws2 @ CHR '')'' # r" using skip_ConsD [OF s] by blast
      obtain p ws1 where p: "cs = p @ ws1 @ r1" "spaces ws1" "expression ar p v"
        using "5.IH"(3) [OF Cons _ _ paren e] paren by auto
      show ?thesis
        using parens [OF ws(1) p(3), of "ws1 @ ws2"] p ws ws2 paren
        by (intro exI [of _ "ws @ c # p @ (ws1 @ ws2) @ [CHR '')'']"]) simp
    next
      case num
      then obtain p where "c # cs = p @ r" "factor ar p v"
        using "5.prems" Cons parseNumber_sound [of ar "c # cs" v r] by (auto simp: parseFactor.simps [of ar s])
      then show ?thesis using ws factor_spaces by (intro exI [of _ "ws @ p"]) simp
    qed
  qed (use "5.prems" in \<open>simp add: parseFactor.simps [of ar s]\<close>)
qed


text \<open>
  C14. The calculator computes what its grammar says: it returns a value exactly for the strings of
  the grammar documented at \<^verbatim>\<open>parser\<close>, trailing spaces allowed, with operators of one level grouped
  to the left, and the value is that of the grammar; a string that is not one, or that divides by
  zero, is an error.
\<close>
theorem evalExpr_grammar:
  "evalExpr ar s = Inr v \<longleftrightarrow> (\<exists>p ws. s = p @ ws \<and> spaces ws \<and> expression ar p v)"
proof
  assume "evalExpr ar s = Inr v"
  then obtain r where p: "parseExpression ar s = Inr (v, r)" and r: "skipSpaces r = []"
    by (auto simp: evalExpr_def Let_def split: sum.splits if_splits)
  from parser_sound(1) [OF p] skip_NilD [OF r] show "\<exists>p ws. s = p @ ws \<and> spaces ws \<and> expression ar p v"
    by (metis spaces_append)
next
  assume "\<exists>p ws. s = p @ ws \<and> spaces ws \<and> expression ar p v"
  then obtain p ws where s: "s = p @ ws" and ws: "spaces ws" and e: "expression ar p v" by blast
  have "after_num ws" "ends_term ws" "ends_expr ws"
    using after_num_spaces [OF ws, of "[]"] ends_spaces [OF ws, of "[]"] by simp_all
  with parser_complete(1) [OF e] have "parseExpression ar s = Inr (v, skipSpaces ws)"
    by (simp add: s exprLoop_ends)
  moreover have "skipSpaces ws = []" using ws by (simp add: spaces_def skipSpaces_def list_all_iff)
  ultimately have "parseExpression ar s = Inr (v, [])" by simp
  then show "evalExpr ar s = Inr v" by (simp add: evalExpr_def skipSpaces_def)
qed

section \<open>Printing expressions\<close>

datatype aexp = Lit string | Negate aexp | Bin char aexp aexp

fun print_aexp :: "aexp \<Rightarrow> string" where
  "print_aexp (Lit ds) = ds"
| "print_aexp (Negate e) = CHR ''-'' # print_aexp e"
| "print_aexp (Bin op a b) = CHR ''('' # print_aexp a @ [op] @ print_aexp b @ [CHR '')'']"

fun aexp_value :: "'f arith \<Rightarrow> aexp \<Rightarrow> 'f option" where
  "aexp_value ar (Lit ds) =
     (if ds \<noteq> [] \<and> list_all num_char ds then (case ar_parse ar ds of Inl _ \<Rightarrow> None | Inr v \<Rightarrow> Some v) else None)"
| "aexp_value ar (Negate e) = map_option (ar_neg ar) (aexp_value ar e)"
| "aexp_value ar (Bin op a b) =
     (case (aexp_value ar a, aexp_value ar b) of
        (Some u, Some v) \<Rightarrow>
          if op = CHR ''+'' then Some (ar_add ar u v)
          else if op = CHR ''-'' then Some (ar_sub ar u v)
          else if op = CHR ''*'' then Some (ar_mul ar u v)
          else if op = CHR ''/'' \<and> \<not> ar_isZero ar v then Some (ar_div ar u v)
          else None
      | _ \<Rightarrow> None)"

lemma print_factor: "aexp_value ar e = Some v \<Longrightarrow> factor ar (print_aexp e) v"
proof (induction e arbitrary: v)
  case (Lit ds)
  then show ?case using number [of "[]" ds ar v] by (auto split: if_splits sum.splits)
next
  case (Negate e)
  then show ?case using unary_minus [of "[]" ar "print_aexp e"] by auto
next
  case (Bin op a b)
  then obtain x y where xy: "aexp_value ar a = Some x" "aexp_value ar b = Some y" by (auto split: option.splits)
  have a: "term' ar (print_aexp a) x" "expression ar (print_aexp a) x" and b: "factor ar (print_aexp b) y" "term' ar (print_aexp b) y"
    using Bin.IH xy of_factor of_term by metis+
  have "expression ar (print_aexp a @ op # print_aexp b) v"
    using Bin.prems xy plus [OF a(2) _ b(2), of "[]"] minus [OF a(2) _ b(2), of "[]"]
      of_term [OF times [OF a(1) _ b(1), of "[]"]] of_term [OF divide [OF a(1) _ b(1), of "[]"]]
    by (auto split: if_splits)
  from parens [of "[]", OF _ this, of "[]"] show ?case by simp
qed

text \<open>
  C32. Printing an expression with its parentheses and evaluating the text gives back the value of
  the expression.
\<close>
theorem evalExpr_print:
  assumes "aexp_value ar e = Some v"
  shows "evalExpr ar (print_aexp e) = Inr v"
proof -
  have "expression ar (print_aexp e) v" by (intro of_term of_factor print_factor assms)
  from parser_complete(1) [OF this, of "[]"] show ?thesis by (simp add: exprLoop_ends evalExpr_def skipSpaces_def)
qed

section \<open>Witnesses\<close>

definition int_arith :: "int arith" where
  "int_arith = \<lparr>ar_add = (+), ar_sub = (-), ar_mul = (*), ar_div = (\<lambda>a b. a div b), ar_neg = uminus,
     ar_isZero = (\<lambda>a. a = 0), ar_parse = (\<lambda>s. Inr (fold (\<lambda>c n. 10 * n + (of_char c - 48)) s 0)), ar_format = (\<lambda>_. [])\<rparr>"

lemma evalExpr_print_witness:
  "evalExpr int_arith ''(2-(-(3*40)-1))'' = Inr (123 :: int)"
proof -
  let ?e = "Bin CHR ''-'' (Lit ''2'') (Bin CHR ''-'' (Negate (Bin CHR ''*'' (Lit ''3'') (Lit ''40''))) (Lit ''1''))"
  have "aexp_value int_arith ?e = Some 123" by code_simp
  from evalExpr_print [OF this] show ?thesis by simp
qed

lemma calculator_examples:
  "Calculator_Call (int_arith\<lparr>ar_format := itoa_int\<rparr>) '' 2 + 2 * (3 - 1) '' = Inr ''6''"
  "evalExpr int_arith ''1/0'' = Inl (Plain ''division by zero'')"
  "evalExpr int_arith ''1 2'' = Inl (Plain (''invalid expression near '' @ go_quote ''2''))"
  by code_simp+

end
