(* ===== verification/NetGuard.thy ===== *)
theory NetGuard
  imports Prelude GoStrings "HOL-Library.Word"
begin

unbundle bit_operations_syntax

text \<open>
  The SSRF guard of \<^verbatim>\<open>tools/urlguard.go\<close>. A \<^verbatim>\<open>net.IP\<close> is its bytes, four or sixteen, and the
  predicates of package \<^verbatim>\<open>net\<close> are those on bytes; parsing a URL or an address literal and resolving
  a name belong to the outside (\<open>netLib\<close>). The lemmas give the guard as address ranges: what it
  blocks of IPv4, also when written as IPv4-mapped IPv6, is a union of CIDR blocks.
\<close>

section \<open>Addresses\<close>

type_synonym ip = "8 word list"

definition v4InV6Prefix :: ip where
  "v4InV6Prefix = [0, 0, 0, 0, 0, 0, 0, 0, 0, 0, 0xFF, 0xFF]"

definition To4 :: "ip \<Rightarrow> ip option" where
  "To4 x = (if length x = 4 then Some x
     else if length x = 16 \<and> take 12 x = v4InV6Prefix then Some (drop 12 x) else None)"

definition ip_loopback6 :: ip where "ip_loopback6 = replicate 15 0 @ [1]"
definition ip_zero6 :: ip where "ip_zero6 = replicate 16 0"

text \<open>The predicates of \<^verbatim>\<open>net.IP\<close>, first on the four bytes of IPv4, then on sixteen.\<close>

definition IsUnspecified :: "ip \<Rightarrow> bool" where
  "IsUnspecified x = (case To4 x of Some b \<Rightarrow> b = [0, 0, 0, 0] | None \<Rightarrow> x = ip_zero6)"

definition IsLoopback :: "ip \<Rightarrow> bool" where
  "IsLoopback x = (case To4 x of Some b \<Rightarrow> b ! 0 = 127 | None \<Rightarrow> x = ip_loopback6)"

definition IsPrivate :: "ip \<Rightarrow> bool" where
  "IsPrivate x =
     (case To4 x of
        Some b \<Rightarrow> b ! 0 = 10 \<or> (b ! 0 = 172 \<and> b ! 1 AND 0xF0 = 16) \<or> (b ! 0 = 192 \<and> b ! 1 = 168)
      | None \<Rightarrow> length x = 16 \<and> x ! 0 AND 0xFE = 0xFC)"

definition IsMulticast :: "ip \<Rightarrow> bool" where
  "IsMulticast x =
     (case To4 x of Some b \<Rightarrow> b ! 0 AND 0xF0 = 0xE0 | None \<Rightarrow> length x = 16 \<and> x ! 0 = 0xFF)"

definition IsLinkLocalMulticast :: "ip \<Rightarrow> bool" where
  "IsLinkLocalMulticast x =
     (case To4 x of
        Some b \<Rightarrow> b ! 0 = 224 \<and> b ! 1 = 0 \<and> b ! 2 = 0
      | None \<Rightarrow> length x = 16 \<and> x ! 0 = 0xFF \<and> x ! 1 AND 0x0F = 0x02)"

definition IsLinkLocalUnicast :: "ip \<Rightarrow> bool" where
  "IsLinkLocalUnicast x =
     (case To4 x of
        Some b \<Rightarrow> b ! 0 = 169 \<and> b ! 1 = 254
      | None \<Rightarrow> length x = 16 \<and> x ! 0 = 0xFE \<and> x ! 1 AND 0xC0 = 0x80)"

section \<open>The guard\<close>

definition isNeverAllowIP :: "ip option \<Rightarrow> bool" where
  "isNeverAllowIP ipo =
     (case ipo of
        None \<Rightarrow> True
      | Some x \<Rightarrow>
          if IsLinkLocalUnicast x \<or> IsLinkLocalMulticast x \<or> IsUnspecified x \<or> IsMulticast x then True
          else (case To4 x of Some b \<Rightarrow> b ! 0 = 100 \<and> b ! 1 \<ge> 64 \<and> b ! 1 \<le> 127 | None \<Rightarrow> False))"

definition isBlockedIP :: "ip option \<Rightarrow> bool" where
  "isBlockedIP ipo =
     (case ipo of None \<Rightarrow> True | Some x \<Rightarrow> IsPrivate x \<or> IsLoopback x \<or> isNeverAllowIP (Some x))"

record url =
  url_Scheme :: string
  url_User :: bool
  url_Hostname :: string
  url_String :: string
  url_Redacted :: string

record 'w netLib =
  nl_url :: "string \<Rightarrow> err + url"
  nl_ip :: "string \<Rightarrow> ip option"
  nl_lookup :: "string \<Rightarrow> 'w \<Rightarrow> 'w \<times> ip option list option"

definition extractHost :: "'w netLib \<Rightarrow> string \<Rightarrow> string" where
  "extractHost nl rawURL = (case nl_url nl rawURL of Inl _ \<Rightarrow> [] | Inr u \<Rightarrow> url_Hostname u)"

definition blockedURL :: "'w netLib \<Rightarrow> string \<Rightarrow> string list \<Rightarrow> 'w \<Rightarrow> 'w \<times> bool" where
  "blockedURL nl rawURL exactAllow w =
     (case nl_url nl rawURL of
        Inl _ \<Rightarrow> (w, True)
      | Inr u \<Rightarrow>
          if url_Scheme u \<noteq> ''http'' \<and> url_Scheme u \<noteq> ''https'' then (w, True)
          else if url_User u then (w, True)
          else if url_Hostname u = [] then (w, True)
          else let lower = to_lower (url_Hostname u) in
            if lower = ''metadata'' \<or> lower = ''metadata.google.internal'' then (w, True)
            else (case nl_ip nl (url_Hostname u) of
                Some x \<Rightarrow>
                  (w, if isNeverAllowIP (Some x) then True
                      else if lower \<in> set exactAllow then False
                      else isBlockedIP (Some x))
              | None \<Rightarrow>
                  if lower = ''localhost'' \<or> lower = ''localhost.localdomain'' then (w, lower \<notin> set exactAllow)
                  else let (w, ips) = nl_lookup nl (url_Hostname u) w in
                    (w, case ips of None \<Rightarrow> True | Some xs \<Rightarrow> xs = [] \<or> list_ex isBlockedIP xs)))"

definition isBlockedURL :: "'w netLib \<Rightarrow> string \<Rightarrow> 'w \<Rightarrow> 'w \<times> bool" where
  "isBlockedURL nl rawURL = blockedURL nl rawURL []"

section \<open>The guard as address ranges\<close>

text \<open>An IPv4 address as a number, and the block with the given leading bits.\<close>

definition ip4_number :: "ip \<Rightarrow> nat" where
  "ip4_number b = unat (b ! 0) * 2 ^ 24 + unat (b ! 1) * 2 ^ 16 + unat (b ! 2) * 2 ^ 8 + unat (b ! 3)"

definition cidr :: "nat \<times> nat \<times> nat \<times> nat \<Rightarrow> nat \<Rightarrow> nat set" where
  "cidr = (\<lambda>(a, b, c, d) len. let base = a * 2 ^ 24 + b * 2 ^ 16 + c * 2 ^ 8 + d in {base ..< base + 2 ^ (32 - len)})"

definition special_ip4 :: "nat set" where
  "special_ip4 = cidr (0, 0, 0, 0) 32 \<union> cidr (10, 0, 0, 0) 8 \<union> cidr (100, 64, 0, 0) 10 \<union> cidr (127, 0, 0, 0) 8
     \<union> cidr (169, 254, 0, 0) 16 \<union> cidr (172, 16, 0, 0) 12 \<union> cidr (192, 168, 0, 0) 16 \<union> cidr (224, 0, 0, 0) 4"

lemma byte_bound: "unat (w :: 8 word) < 256"
  using unsigned_less [of w] by simp

lemma byte_all:
  assumes "list_all (\<lambda>n. P (of_nat n :: 8 word) n) [0..<256]"
  shows "P (w :: 8 word) (unat w)"
proof -
  have "unat w \<in> set [0..<256]" using byte_bound by simp
  with assms have "P (of_nat (unat w)) (unat w)" unfolding list_all_iff by blast
  then show ?thesis by simp
qed

lemma byte_masks:
  fixes w :: "8 word"
  shows "w AND 0xF0 = 16 \<longleftrightarrow> 16 \<le> unat w \<and> unat w < 32"
    and "w AND 0xF0 = 0xE0 \<longleftrightarrow> 224 \<le> unat w \<and> unat w < 240"
  by (rule byte_all [where P = "\<lambda>w n. w AND 0xF0 = 16 \<longleftrightarrow> 16 \<le> n \<and> n < 32"], code_simp)
    (rule byte_all [where P = "\<lambda>w n. w AND 0xF0 = 0xE0 \<longleftrightarrow> 224 \<le> n \<and> n < 240"], code_simp)

lemma byte_eq: "(w :: 8 word) = numeral k \<longleftrightarrow> unat w = numeral k mod 256"
  by (simp add: word_unat_eq_iff take_bit_eq_mod)


text \<open>The byte tests of the guard and the blocks they stand for.\<close>

lemma in_blocks:
  fixes x m :: nat
  assumes "x < m"
  shows "a * m \<le> p * m + x \<and> p * m + x < (a + k) * m \<longleftrightarrow> a \<le> p \<and> p < a + k"
proof -
  have "(p * m + x) div m = p" using assms by simp
  then show ?thesis
    using assms div_less_iff_less_mult [of m "p * m + x" "a + k"] less_eq_div_iff_mult_less_eq [of m a "p * m + x"] by auto
qed

lemma cidr_high:
  assumes "q < 256" "r < 256" "t < 256" "len \<le> 8"
  shows "p * 2 ^ 24 + q * 2 ^ 16 + r * 2 ^ 8 + t \<in> cidr (a, 0, 0, 0) len \<longleftrightarrow> a \<le> p \<and> p < a + 2 ^ (8 - len)"
proof -
  have "(2 :: nat) ^ (32 - len) = 2 ^ (8 - len) * 2 ^ 24"
    using assms(4) power_add [of "2 :: nat" "8 - len" 24] by simp
  then show ?thesis
    using in_blocks [of "q * 2 ^ 16 + r * 2 ^ 8 + t" "2 ^ 24" a p "2 ^ (8 - len)"] assms
    by (simp add: cidr_def Let_def algebra_simps)
qed

lemma cidr_low:
  assumes "q < 256" "r < 256" "t < 256" "8 \<le> len" "len \<le> 16" "b + 2 ^ (16 - len) \<le> 256"
  shows "p * 2 ^ 24 + q * 2 ^ 16 + r * 2 ^ 8 + t \<in> cidr (a, b, 0, 0) len \<longleftrightarrow> p = a \<and> b \<le> q \<and> q < b + 2 ^ (16 - len)"
proof -
  have "(2 :: nat) ^ (32 - len) = 2 ^ (16 - len) * 2 ^ 16"
    using assms(5) power_add [of "2 :: nat" "16 - len" 16] by simp
  then have "p * 2 ^ 24 + q * 2 ^ 16 + r * 2 ^ 8 + t \<in> cidr (a, b, 0, 0) len
      \<longleftrightarrow> a * 256 + b \<le> p * 256 + q \<and> p * 256 + q < a * 256 + b + 2 ^ (16 - len)"
    using in_blocks [of "r * 2 ^ 8 + t" "2 ^ 16" "a * 256 + b" "p * 256 + q" "2 ^ (16 - len)"] assms
    by (simp add: cidr_def Let_def algebra_simps)
  also have "\<dots> \<longleftrightarrow> p = a \<and> b \<le> q \<and> q < b + 2 ^ (16 - len)"
    using assms(1,6) by (cases p a rule: linorder_cases) auto
  finally show ?thesis .
qed

lemma cidr_bytes:
  fixes p q r t :: "8 word"
  defines "n \<equiv> unat p * 2 ^ 24 + unat q * 2 ^ 16 + unat r * 2 ^ 8 + unat t"
  shows "n \<in> cidr (0, 0, 0, 0) 32 \<longleftrightarrow> p = 0 \<and> q = 0 \<and> r = 0 \<and> t = 0"
    and "n \<in> cidr (10, 0, 0, 0) 8 \<longleftrightarrow> p = 10"
    and "n \<in> cidr (100, 64, 0, 0) 10 \<longleftrightarrow> p = 100 \<and> 64 \<le> q \<and> q \<le> 127"
    and "n \<in> cidr (127, 0, 0, 0) 8 \<longleftrightarrow> p = 127"
    and "n \<in> cidr (169, 254, 0, 0) 16 \<longleftrightarrow> p = 169 \<and> q = 254"
    and "n \<in> cidr (172, 16, 0, 0) 12 \<longleftrightarrow> p = 172 \<and> q AND 0xF0 = 16"
    and "n \<in> cidr (192, 168, 0, 0) 16 \<longleftrightarrow> p = 192 \<and> q = 168"
    and "n \<in> cidr (224, 0, 0, 0) 4 \<longleftrightarrow> p AND 0xF0 = 0xE0"
proof -
  note bytes = byte_bound [of q] byte_bound [of r] byte_bound [of t]
  note high = cidr_high [OF bytes, of _ "unat p"] and low = cidr_low [OF bytes, of _ _ "unat p"]
  show "n \<in> cidr (0, 0, 0, 0) 32 \<longleftrightarrow> p = 0 \<and> q = 0 \<and> r = 0 \<and> t = 0"
    by (auto simp: n_def cidr_def unat_eq_0)
  show "n \<in> cidr (10, 0, 0, 0) 8 \<longleftrightarrow> p = 10"
    using high [of 8 10] by (auto simp: n_def byte_eq)
  show "n \<in> cidr (100, 64, 0, 0) 10 \<longleftrightarrow> p = 100 \<and> 64 \<le> q \<and> q \<le> 127"
    using low [of 10 64 100] by (auto simp: n_def byte_eq word_le_nat_alt)
  show "n \<in> cidr (127, 0, 0, 0) 8 \<longleftrightarrow> p = 127"
    using high [of 8 127] by (auto simp: n_def byte_eq)
  show "n \<in> cidr (169, 254, 0, 0) 16 \<longleftrightarrow> p = 169 \<and> q = 254"
    using low [of 16 254 169] by (auto simp: n_def byte_eq)
  show "n \<in> cidr (172, 16, 0, 0) 12 \<longleftrightarrow> p = 172 \<and> q AND 0xF0 = 16"
    using low [of 12 16 172] by (auto simp: n_def byte_masks byte_eq [of p])
  show "n \<in> cidr (192, 168, 0, 0) 16 \<longleftrightarrow> p = 192 \<and> q = 168"
    using low [of 16 168 192] by (auto simp: n_def byte_eq)
  show "n \<in> cidr (224, 0, 0, 0) 4 \<longleftrightarrow> p AND 0xF0 = 0xE0"
    using high [of 4 224] by (auto simp: n_def byte_masks)
qed

lemma blocked_ip4:
  assumes "To4 x = Some b"
  shows "isBlockedIP (Some x) \<longleftrightarrow> ip4_number b \<in> special_ip4"
proof -
  have "length b = 4" using assms by (auto simp: To4_def v4InV6Prefix_def split: if_splits)
  then obtain p q r t where b: "b = [p, q, r, t]" by (auto simp: length_Suc_conv numeral_eq_Suc)
  have "ip4_number b \<in> special_ip4 \<longleftrightarrow> (p = 0 \<and> q = 0 \<and> r = 0 \<and> t = 0) \<or> p = 10 \<or> (p = 100 \<and> 64 \<le> q \<and> q \<le> 127)
      \<or> p = 127 \<or> (p = 169 \<and> q = 254) \<or> (p = 172 \<and> q AND 0xF0 = 16) \<or> (p = 192 \<and> q = 168) \<or> p AND 0xF0 = 0xE0"
    using cidr_bytes [of p q r t] by (simp add: b ip4_number_def special_ip4_def)
  moreover have "(224 :: 8 word) AND 0xF0 = 0xE0" by simp
  ultimately show ?thesis
    using assms
    by (auto simp: b isBlockedIP_def isNeverAllowIP_def IsPrivate_def IsLoopback_def
        IsLinkLocalUnicast_def IsLinkLocalMulticast_def IsUnspecified_def IsMulticast_def)
qed

end
