(* ===== verification/HttpTools.thy ===== *)
theory HttpTools
  imports NetGuard Executor
begin

text \<open>
  The tools that talk to the network: \<^verbatim>\<open>HTTPFetch\<close> of \<^verbatim>\<open>tools/http.go\<close> with the redirect loop of
  \<^verbatim>\<open>http.Client\<close> around its redirect policy, and \<^verbatim>\<open>WebSearchTool\<close> of \<^verbatim>\<open>tools/websearch.go\<close> over any
  search provider. The network is the outside world \<open>'w\<close>: what a host answers to a request, and what a
  name resolves to, may change with every access. \<open>client_do\<close> also returns the URLs requested, so that
  the safety of a fetch is a statement about every request it makes.
\<close>

section \<open>HTTPFetch\<close>

definition defaultHTTPTimeout :: nat where "defaultHTTPTimeout = 30"
definition maxRedirects :: nat where "maxRedirects = 3"

text \<open>A configured client: its timeout in seconds.\<close>

record httpFetch =
  hf_allow :: "string list"
  hf_methods :: "string list"
  hf_timeout :: nat
  hf_maxBytes :: int
  hf_headers :: "string \<rightharpoonup> string"
  hf_exactAllow :: "string list"

text \<open>What a server answers (the body with the error that cut its reading short, if any), and how the network and the pattern library behave.\<close>

datatype response = Failed err | Redirect url | Answer int string "err option"

record 'w httpLib =
  hl_net :: "'w netLib"
  hl_match :: "string \<Rightarrow> string \<Rightarrow> bool"
  hl_upper :: "string \<Rightarrow> string"
  hl_send :: "string \<Rightarrow> url \<Rightarrow> (string \<rightharpoonup> string) \<Rightarrow> 'w \<Rightarrow> 'w \<times> response"
  hl_request :: "string \<Rightarrow> err option"

definition WithHTTPAllowlist :: "string list \<Rightarrow> httpFetch \<Rightarrow> httpFetch" where
  "WithHTTPAllowlist hosts h = h\<lparr>hf_allow := hf_allow h @ hosts\<rparr>"

definition WithHTTPMethods :: "'w httpLib \<Rightarrow> string list \<Rightarrow> httpFetch \<Rightarrow> httpFetch" where
  "WithHTTPMethods hl methods h =
     h\<lparr>hf_methods := filter (\<lambda>m. m \<noteq> []) (map (\<lambda>m. hl_upper hl (trim_space m)) methods)\<rparr>"

definition WithHTTPTimeout :: "int \<Rightarrow> httpFetch \<Rightarrow> httpFetch" where
  "WithHTTPTimeout d h = (if d > 0 then h\<lparr>hf_timeout := nat d\<rparr> else h)"

definition WithHTTPMaxResponse :: "int \<Rightarrow> httpFetch \<Rightarrow> httpFetch" where
  "WithHTTPMaxResponse n h = (if n > 0 then h\<lparr>hf_maxBytes := n\<rparr> else h)"

definition WithHTTPHeader :: "string \<Rightarrow> string \<Rightarrow> httpFetch \<Rightarrow> httpFetch" where
  "WithHTTPHeader key v h = h\<lparr>hf_headers := (hf_headers h)(key \<mapsto> v)\<rparr>"

definition exactAllowFrom :: "string list \<Rightarrow> string list" where
  "exactAllowFrom patterns =
     filter (\<lambda>p. p \<noteq> [] \<and> \<not> list_ex (\<lambda>c. c \<in> set ''*?[]'') p) (map (\<lambda>p. to_lower (trim_space p)) patterns)"

definition NewHTTPFetch :: "(httpFetch \<Rightarrow> httpFetch) list \<Rightarrow> httpFetch" where
  "NewHTTPFetch opts =
     (let h = \<lparr>hf_allow = [], hf_methods = [''GET''], hf_timeout = defaultHTTPTimeout,
               hf_maxBytes = int MaxToolOutputBytes, hf_headers = Map.empty, hf_exactAllow = []\<rparr>;
          h = fold (\<lambda>opt h. opt h) opts h;
          h = (if hf_maxBytes h \<le> 0 then h\<lparr>hf_maxBytes := int MaxToolOutputBytes\<rparr> else h);
          h = (if hf_timeout h \<le> 0 then h\<lparr>hf_timeout := defaultHTTPTimeout\<rparr> else h)
      in h\<lparr>hf_exactAllow := exactAllowFrom (hf_allow h)\<rparr>)"

definition hostAllowed :: "'w httpLib \<Rightarrow> httpFetch \<Rightarrow> string \<Rightarrow> bool" where
  "hostAllowed hl h host =
     (if hf_allow h = [] then False
      else let host = to_lower (trim_space host) in
        if host = [] then False
        else list_ex (\<lambda>p. let p = to_lower (trim_space p) in p \<noteq> [] \<and> hl_match hl p host) (hf_allow h))"

definition checkURL :: "'w httpLib \<Rightarrow> httpFetch \<Rightarrow> url \<Rightarrow> 'w \<Rightarrow> 'w \<times> err option" where
  "checkURL hl h u w =
     (let (w, blocked) = blockedURL (hl_net hl) (url_String u) (hf_exactAllow h) w in
      if blocked then (w, Some (Plain (''http_fetch: url blocked: '' @ url_Redacted u)))
      else if \<not> hostAllowed hl h (url_Hostname u)
      then (w, Some (Plain (''http_fetch: host not allowlisted: '' @ url_Hostname u)))
      else (w, None))"

text \<open>
  \<^verbatim>\<open>http.Client.Do\<close> on a GET request: send, and while the answer is a redirect ask
  \<^verbatim>\<open>CheckRedirect\<close>, whose second argument holds the requests made so far, whether to follow it.
\<close>

definition CheckRedirect :: "'w httpLib \<Rightarrow> httpFetch \<Rightarrow> url \<Rightarrow> url list \<Rightarrow> 'w \<Rightarrow> 'w \<times> err option" where
  "CheckRedirect hl h u via w =
     (if length via \<ge> maxRedirects then (w, Some (Plain ''http_fetch: too many redirects'')) else checkURL hl h u w)"

function client_do :: "'w httpLib \<Rightarrow> httpFetch \<Rightarrow> string \<Rightarrow> url \<Rightarrow> url list \<Rightarrow> 'w \<Rightarrow> 'w \<times> url list \<times> (err + int \<times> string \<times> err option)" where
  "client_do hl h method u via w =
     (let (w, r) = hl_send hl method u (hf_headers h) w; via = via @ [u] in
      case r of
        Failed e \<Rightarrow> (w, via, Inl e)
      | Answer status body e \<Rightarrow> (w, via, Inr (status, body, e))
      | Redirect u' \<Rightarrow>
          (case CheckRedirect hl h u' via w of
             (w, Some e) \<Rightarrow> (w, via, Inl e)
           | (w, None) \<Rightarrow> client_do hl h method u' via w))"
  by pat_completeness auto
termination
  by (relation "measure (\<lambda>(_, _, _, _, via, _). maxRedirects - length via)")
    (auto simp: CheckRedirect_def split: if_splits)

declare client_do.simps [simp del]

text \<open>The read of at most \<^verbatim>\<open>maxBytes\<close> bytes of the body.\<close>

definition HTTPFetch_Call :: "'w httpLib \<Rightarrow> httpFetch \<Rightarrow> string \<Rightarrow> 'w \<Rightarrow> 'w \<times> url list \<times> (err + string)" where
  "HTTPFetch_Call hl h input w =
     (let raw = trim_space input in
      if raw = [] then (w, [], Inl (Plain ''http_fetch: empty url''))
      else case nl_url (hl_net hl) raw of
        Inl e \<Rightarrow> (w, [], Inl (wrapf ''http_fetch: parse: '' e))
      | Inr u \<Rightarrow>
          (case checkURL hl h u w of
             (w, Some e) \<Rightarrow> (w, [], Inl e)
           | (w, None) \<Rightarrow>
               if ''GET'' \<notin> set (hf_methods h) then (w, [], Inl (Plain ''http_fetch: method GET not allowed''))
               else (case hl_request hl (url_String u) of
                 Some e \<Rightarrow> (w, [], Inl (wrapf ''http_fetch: '' e))
               | None \<Rightarrow>
                   (case client_do hl h ''GET'' u [] w of
                      (w, sent, Inl e) \<Rightarrow> (w, sent, Inl (wrapf ''http_fetch: '' e))
                    | (w, sent, Inr (status, body, Some e)) \<Rightarrow> (w, sent, Inl (wrapf ''http_fetch: read: '' e))
                    | (w, sent, Inr (status, body, None)) \<Rightarrow>
                        let body = take (nat (hf_maxBytes h)) body in
                        if status < 200 \<or> status \<ge> 300 then (w, sent, Inl (Plain (''http_fetch: HTTP '' @ itoa_int status)))
                        else (w, sent, Inr body)))))"


section \<open>WebSearchTool\<close>

record searchResult =
  sr_Title :: string
  sr_URL :: string
  sr_Snippet :: string
  sr_SourceOrg :: string

record 'w searchTool =
  sx_provider :: "string \<Rightarrow> int \<Rightarrow> 'w \<Rightarrow> 'w \<times> (err + searchResult list)"
  sx_maxResults :: int
  sx_lastFacts :: "fact list"

definition NewWebSearch :: "(string \<Rightarrow> int \<Rightarrow> 'w \<Rightarrow> 'w \<times> (err + searchResult list)) \<Rightarrow> 'w searchTool" where
  "NewWebSearch provider = \<lparr>sx_provider = provider, sx_maxResults = 5, sx_lastFacts = []\<rparr>"

definition WithMaxResults :: "int \<Rightarrow> 'w searchTool \<Rightarrow> 'w searchTool" where
  "WithMaxResults n t = t\<lparr>sx_maxResults := n\<rparr>"

text \<open>The filter loop, in order, each check with its own lookup.\<close>

fun filter_results :: "'w netLib \<Rightarrow> searchResult list \<Rightarrow> 'w \<Rightarrow> 'w \<times> searchResult list" where
  "filter_results nl [] w = (w, [])"
| "filter_results nl (r # rs) w =
     (let (w, blocked) = isBlockedURL nl (sr_URL r) w; (w, rest) = filter_results nl rs w
      in (w, if blocked then rest else r # rest))"

definition result_text :: "nat \<times> searchResult \<Rightarrow> string" where
  "result_text = (\<lambda>(i, r). [CHR 0x0A] @ itoa (i + 1) @ ''. '' @ sr_Title r @ '' -- '' @ sr_URL r @ [CHR 0x0A]
     @ (if sr_Snippet r \<noteq> [] then ''   '' @ sr_Snippet r @ [CHR 0x0A] else []))"

definition WebSearchTool_Call ::
  "'w netLib \<Rightarrow> (string \<Rightarrow> string) \<Rightarrow> ('w \<Rightarrow> time) \<Rightarrow> (searchResult \<Rightarrow> string) \<Rightarrow> 'w searchTool \<Rightarrow> string \<Rightarrow> 'w
   \<Rightarrow> 'w \<times> 'w searchTool \<times> (err + string)" where
  "WebSearchTool_Call nl sha now marshal t input w =
     (let query = trim_space input in
      if query = [] then (w, t, Inl (Plain ''web_search: empty query''))
      else case sx_provider t query (sx_maxResults t) w of
        (w, Inl e) \<Rightarrow> (w, t, Inl (wrapf ''web_search: '' e))
      | (w, Inr results) \<Rightarrow>
          let (w, filtered) = filter_results nl results w;
              text = ''Found '' @ itoa (length filtered) @ '' results for '' @ [CHR 0x27] @ query @ [CHR 0x27] @ '':'' @ [CHR 0x0A]
                @ concat (map result_text (enumerate 0 filtered));
              facts = map (\<lambda>r. NewFact sha (now w) (sr_Title r @ '': '' @ sr_Snippet r) (sr_SourceOrg r) (sr_URL r) (marshal r)) filtered
          in (w, t\<lparr>sx_lastFacts := facts\<rparr>, Inr text))"

definition WebSearchTool_Facts :: "'w searchTool \<Rightarrow> fact list" where
  "WebSearchTool_Facts t = sx_lastFacts t"

section \<open>What is fetched and what is shown\<close>

text \<open>
  A URL as safe as the guard can tell: no credentials, no metadata alias, and a host that is either
  an explicitly allowed one or public, by its literal or by a lookup all of whose addresses are public.
\<close>

definition public_ip :: "ip option \<Rightarrow> bool" where
  "public_ip a = (\<exists>x. a = Some x \<and> \<not> IsLoopback x \<and> \<not> IsPrivate x \<and> \<not> isNeverAllowIP (Some x)
     \<and> (\<forall>b. To4 x = Some b \<longrightarrow> ip4_number b \<notin> special_ip4))"

definition safe_target :: "'w netLib \<Rightarrow> string list \<Rightarrow> string \<Rightarrow> bool" where
  "safe_target nl exactAllow raw =
     (\<exists>u. nl_url nl raw = Inr u \<and> url_Scheme u \<in> {''http'', ''https''} \<and> \<not> url_User u
        \<and> to_lower (url_Hostname u) \<notin> {''metadata'', ''metadata.google.internal''}
        \<and> (case nl_ip nl (url_Hostname u) of
             Some x \<Rightarrow> \<not> isNeverAllowIP (Some x) \<and> (to_lower (url_Hostname u) \<in> set exactAllow \<or> public_ip (Some x))
           | None \<Rightarrow> to_lower (url_Hostname u) \<in> {''localhost'', ''localhost.localdomain''} \<inter> set exactAllow
               \<or> (\<exists>w w' ips. nl_lookup nl (url_Hostname u) w = (w', Some ips) \<and> ips \<noteq> [] \<and> (\<forall>a\<in>set ips. public_ip a))))"

lemma public_ip_iff: "\<not> isBlockedIP a \<longleftrightarrow> public_ip a"
proof (cases a)
  case (Some x)
  have "ip4_number b \<notin> special_ip4" if "\<not> isBlockedIP (Some x)" "To4 x = Some b" for b
    using that blocked_ip4 by blast
  with Some show ?thesis by (auto simp: public_ip_def isBlockedIP_def)
qed (simp add: isBlockedIP_def public_ip_def)

lemma not_blocked:
  assumes b: "blockedURL nl raw exactAllow w = (w', False)"
  shows "safe_target nl exactAllow raw"
proof -
  obtain u where u: "nl_url nl raw = Inr u" using b by (auto simp: blockedURL_def split: sum.splits)
  let ?lower = "to_lower (url_Hostname u)"
  have shape: "url_Scheme u = ''http'' \<or> url_Scheme u = ''https''" "\<not> url_User u"
    "?lower \<noteq> ''metadata''" "?lower \<noteq> ''metadata.google.internal''"
    using b u by (auto simp: blockedURL_def Let_def split: if_split_asm)
  show ?thesis
  proof (cases "nl_ip nl (url_Hostname u)")
    case (Some x)
    have "\<not> isNeverAllowIP (Some x) \<and> (?lower \<in> set exactAllow \<or> public_ip (Some x))"
      using b u shape Some by (auto simp: blockedURL_def Let_def public_ip_iff [symmetric] split: if_split_asm)
    with u shape Some show ?thesis by (simp add: safe_target_def)
  next
    case None
    obtain w1 ips where l: "nl_lookup nl (url_Hostname u) w = (w1, ips)" by fastforce
    have "?lower \<in> {''localhost'', ''localhost.localdomain''} \<inter> set exactAllow
      \<or> (\<exists>xs. ips = Some xs \<and> xs \<noteq> [] \<and> (\<forall>a\<in>set xs. public_ip a))"
      using b u shape None l
      by (simp add: blockedURL_def Let_def public_ip_iff [symmetric] list_ex_iff split: if_split_asm option.split_asm)
    with u shape None l show ?thesis unfolding safe_target_def by fastforce
  qed
qed

lemma checkURL_guarded:
  "checkURL hl h u w = (w', None) \<Longrightarrow> hostAllowed hl h (url_Hostname u) \<and> safe_target (hl_net hl) (hf_exactAllow h) (url_String u)"
  using not_blocked by (fastforce simp: checkURL_def split: prod.splits if_splits)

text \<open>A followed redirect was checked, and there are at most three.\<close>

lemma client_do_cases:
  assumes "client_do hl h method u via w = (w', sent, r)"
  obtains (stop) "sent = via @ [u]"
  | (follow) u' w1 w2 where "checkURL hl h u' w1 = (w2, None)" "length (via @ [u]) < maxRedirects"
      "client_do hl h method u' (via @ [u]) w2 = (w', sent, r)"
proof -
  obtain w1 a where s: "hl_send hl method u (hf_headers h) w = (w1, a)" by fastforce
  show ?thesis
  proof (cases a)
    case (Redirect u')
    obtain w2 e where c: "CheckRedirect hl h u' (via @ [u]) w1 = (w2, e)" by fastforce
    show ?thesis
    proof (cases e)
      case None
      then have "checkURL hl h u' w1 = (w2, None)" "length (via @ [u]) < maxRedirects"
        using c by (auto simp: CheckRedirect_def split: if_splits)
      moreover have "client_do hl h method u' (via @ [u]) w2 = (w', sent, r)"
        using assms s c None Redirect by (subst (asm) client_do.simps) simp
      ultimately show ?thesis by (rule follow)
    qed (use assms s c Redirect stop in \<open>subst (asm) client_do.simps, simp\<close>)
  qed (use assms s stop in \<open>subst (asm) client_do.simps, simp\<close>)+
qed

lemma client_do_guarded:
  assumes "\<And>v w w'. checkURL hl h v w = (w', None) \<Longrightarrow> P v"
  shows "client_do hl h method u via w = (w', sent, r) \<Longrightarrow> \<forall>v\<in>set (via @ [u]). P v \<Longrightarrow> length via \<le> maxRedirects
    \<Longrightarrow> (\<forall>v\<in>set sent. P v) \<and> length sent \<le> Suc maxRedirects"
proof (induction "maxRedirects - length via" arbitrary: u via w rule: less_induct)
  case less
  from less.prems(1) show ?case
  proof (cases rule: client_do_cases)
    case stop
    with less.prems show ?thesis by simp
  next
    case (follow u' w1 w2)
    show ?thesis
      by (rule less.hyps [OF _ follow(3)]) (use follow assms [OF follow(1)] less.prems in auto)
  qed
qed


lemma HTTPFetch_cases:
  assumes "HTTPFetch_Call hl h input w = (w', sent, r)"
  obtains (none) e where "sent = []" "r = Inl e"
  | (fetched) u w1 w2 res where "checkURL hl h u w = (w1, None)" "client_do hl h ''GET'' u [] w1 = (w2, sent, res)"
      "\<forall>body. r = Inr body \<longrightarrow> length body \<le> nat (hf_maxBytes h)"
proof (cases "trim_space input = []")
  case False
  show ?thesis
  proof (cases "nl_url (hl_net hl) (trim_space input)")
    case (Inr u)
    obtain w1 e where c: "checkURL hl h u w = (w1, e)" by fastforce
    obtain w2 sent' res where d: "client_do hl h ''GET'' u [] w1 = (w2, sent', res)" using prod_cases3 by blast
    show ?thesis
    proof (cases "e = None \<and> ''GET'' \<in> set (hf_methods h) \<and> hl_request hl (url_String u) = None")
      case True
      then have "sent = sent' \<and> (\<forall>body. r = Inr body \<longrightarrow> length body \<le> nat (hf_maxBytes h))"
        using assms False Inr c d
        by (cases res) (auto simp: HTTPFetch_Call_def Let_def split: if_split_asm option.split_asm)
      with fetched c d True show ?thesis by blast
    next
      case no: False
      then show ?thesis
        using assms False Inr c none
        by (cases e) (auto simp: HTTPFetch_Call_def Let_def split: if_split_asm option.split_asm)
    qed
  qed (use assms False none in \<open>auto simp: HTTPFetch_Call_def Let_def\<close>)
qed (use assms none in \<open>auto simp: HTTPFetch_Call_def\<close>)

text \<open>
  C8. \<^verbatim>\<open>http_fetch\<close> asks only hosts it may: every request of a call, redirects included, goes to an
  allowlisted host whose URL passed the SSRF guard, which for an IPv4 address means outside the
  loopback, private, link-local, multicast, unspecified and shared blocks unless the caller named
  that very host; a call makes at most four requests and returns at most \<open>maxBytes\<close> bytes. With no
  allowlist there is no request at all.
\<close>
theorem HTTPFetch_guarded:
  assumes "HTTPFetch_Call hl h input w = (w', sent, r)"
  shows "(\<forall>u\<in>set sent. hostAllowed hl h (url_Hostname u) \<and> safe_target (hl_net hl) (hf_exactAllow h) (url_String u))
    \<and> length sent \<le> Suc maxRedirects
    \<and> (\<forall>body. r = Inr body \<longrightarrow> length body \<le> nat (hf_maxBytes h))"
proof -
  let ?P = "\<lambda>u. hostAllowed hl h (url_Hostname u) \<and> safe_target (hl_net hl) (hf_exactAllow h) (url_String u)"
  from assms show ?thesis
  proof (cases rule: HTTPFetch_cases)
    case (fetched u w1 w2 res)
    have "?P u" by (rule checkURL_guarded [OF fetched(1)])
    then have "\<forall>v\<in>set ([] @ [u]). ?P v" by simp
    from client_do_guarded [where P = ?P, OF checkURL_guarded fetched(2) this] fetched(3) show ?thesis
      by (intro conjI) simp_all
  qed simp
qed

lemma filter_results_public:
  "filter_results nl rs w = (w', kept) \<Longrightarrow> subseq kept rs \<and> (\<forall>r\<in>set kept. safe_target nl [] (sr_URL r))"
proof (induction rs arbitrary: w w' kept)
  case (Cons r rs)
  obtain w1 b where b: "isBlockedURL nl (sr_URL r) w = (w1, b)" by fastforce
  obtain w2 rest where f: "filter_results nl rs w1 = (w2, rest)" by fastforce
  have "safe_target nl [] (sr_URL r)" if "\<not> b" using b that not_blocked by (simp add: isBlockedURL_def)
  with Cons.IH [OF f] Cons.prems b f show ?case by (cases b) auto
qed simp

text \<open>
  A web search shows and records only results that pass the SSRF guard: the facts of a
  successful search, and the numbered entries of its text, are those of the unblocked results, in
  the provider's order.
\<close>
theorem WebSearch_filtered:
  assumes "WebSearchTool_Call nl sha now marshal t input w = (w', t', Inr text)"
    and "sx_provider t (trim_space input) (sx_maxResults t) w = (w1, Inr results)"
  shows "\<exists>kept. subseq kept results \<and> (\<forall>r\<in>set kept. safe_target nl [] (sr_URL r))
     \<and> map SourceURL (WebSearchTool_Facts t') = map sr_URL kept
     \<and> suffix (concat (map result_text (enumerate 0 kept))) text"
proof -
  obtain w2 kept where f: "filter_results nl results w1 = (w2, kept)" by fastforce
  have q: "trim_space input \<noteq> []" using assms(1) by (auto simp: WebSearchTool_Call_def)
  have t: "text = (''Found '' @ itoa (length kept) @ '' results for '' @ [CHR 0x27] @ trim_space input @ [CHR 0x27] @ '':'' @ [CHR 0x0A])
      @ concat (map result_text (enumerate 0 kept))"
    and t': "sx_lastFacts t' = map (\<lambda>r. NewFact sha (now w2) (sr_Title r @ '': '' @ sr_Snippet r) (sr_SourceOrg r) (sr_URL r) (marshal r)) kept"
    using assms q f by (auto simp: WebSearchTool_Call_def Let_def)
  from t have "suffix (concat (map result_text (enumerate 0 kept))) text" unfolding suffix_def by (rule exI)
  moreover have "map SourceURL (WebSearchTool_Facts t') = map sr_URL kept"
    by (simp add: t' WebSearchTool_Facts_def NewFact_def)
  ultimately show ?thesis using filter_results_public [OF f] by blast
qed

section \<open>Witnesses\<close>

text \<open>A small net: one public host, which redirects to the metadata address, and one search.\<close>

definition small_url :: "string \<Rightarrow> string \<Rightarrow> url" where
  "small_url host path = \<lparr>url_Scheme = ''http'', url_User = False, url_Hostname = host, url_String = path, url_Redacted = path\<rparr>"

definition small_net :: "unit netLib" where
  "small_net = \<lparr>nl_url = (\<lambda>s. if s = ''http://8.8.8.8/'' then Inr (small_url ''8.8.8.8'' s)
       else if s = ''http://169.254.169.254/'' then Inr (small_url ''169.254.169.254'' s)
       else if s = ''http://8.8.8.8/ok'' then Inr (small_url ''8.8.8.8'' s) else Inl (Plain ''bad'')),
     nl_ip = (\<lambda>s. if s = ''8.8.8.8'' then Some [8, 8, 8, 8] else if s = ''169.254.169.254'' then Some [169, 254, 169, 254] else None),
     nl_lookup = (\<lambda>_ w. (w, None))\<rparr>"

definition small_http :: "unit httpLib" where
  "small_http = \<lparr>hl_net = small_net, hl_match = (\<lambda>p h. p = h \<or> p = ''*''), hl_upper = (\<lambda>s. s),
     hl_send = (\<lambda>_ u _ w. (w, if url_String u = ''http://8.8.8.8/'' then Redirect (small_url ''169.254.169.254'' ''http://169.254.169.254/'')
        else Answer 200 ''hello'' None)), hl_request = (\<lambda>_. None)\<rparr>"

definition small_fetch :: httpFetch where
  "small_fetch = \<lparr>hf_allow = [''*''], hf_methods = [''GET''], hf_timeout = 30, hf_maxBytes = 4, hf_headers = Map.empty, hf_exactAllow = []\<rparr>"

lemma HTTPFetch_guarded_witness:
  "\<exists>sent. HTTPFetch_Call small_http small_fetch ''http://8.8.8.8/ok'' () = ((), sent, Inr ''hell'')
     \<and> (\<forall>u\<in>set sent. safe_target small_net [] (url_String u)) \<and> length sent \<le> 4"
proof -
  let ?h = small_fetch
  let ?c = "HTTPFetch_Call small_http ?h ''http://8.8.8.8/ok'' ()"
  obtain sent where r: "?c = ((), sent, snd (snd ?c))" by (cases ?c) auto
  have v: "snd (snd ?c) = Inr ''hell''" "hf_exactAllow ?h = []" by code_simp+
  have "hl_net small_http = small_net" by (simp add: small_http_def)
  from HTTPFetch_guarded [OF r] show ?thesis using r v \<open>hl_net small_http = small_net\<close> by (auto simp: maxRedirects_def)
qed

lemma metadata_redirect_refused:
  "HTTPFetch_Call small_http small_fetch ''http://8.8.8.8/'' ()
     = ((), [small_url ''8.8.8.8'' ''http://8.8.8.8/''],
        Inl (wrapf ''http_fetch: '' (Plain ''http_fetch: url blocked: http://169.254.169.254/'')))"
  by code_simp

lemma WebSearch_filtered_witness:
  "\<exists>t'. WebSearchTool_Call small_net (\<lambda>s. s) (\<lambda>_. 0) sr_Title
      (NewWebSearch (\<lambda>_ _ w. (w, Inr [\<lparr>sr_Title = ''a'', sr_URL = ''http://169.254.169.254/'', sr_Snippet = [], sr_SourceOrg = []\<rparr>])))
      ''q'' () = ((), t', Inr (''Found 0 results for '' @ [CHR 0x27] @ ''q'' @ [CHR 0x27] @ '':'' @ [CHR 0x0A]))
    \<and> (\<forall>u\<in>set (map SourceURL (WebSearchTool_Facts t')). safe_target small_net [] u)"
proof -
  let ?r = "\<lparr>sr_Title = ''a'', sr_URL = ''http://169.254.169.254/'', sr_Snippet = [], sr_SourceOrg = []\<rparr>"
  let ?t = "NewWebSearch (\<lambda>_ _ w. (w, Inr [?r]))"
  let ?c = "WebSearchTool_Call small_net (\<lambda>s. s) (\<lambda>_. 0) sr_Title ?t ''q'' ()"
  have v: "snd (snd ?c) = Inr (''Found 0 results for '' @ [CHR 0x27] @ ''q'' @ [CHR 0x27] @ '':'' @ [CHR 0x0A])" by code_simp
  obtain t' where r: "?c = ((), t', Inr (''Found 0 results for '' @ [CHR 0x27] @ ''q'' @ [CHR 0x27] @ '':'' @ [CHR 0x0A]))"
    using v by (cases ?c) auto
  have "sx_provider ?t (trim_space ''q'') (sx_maxResults ?t) () = ((), Inr [?r])" by code_simp
  from WebSearch_filtered [OF r this] obtain kept :: "searchResult list"
    where k: "\<forall>r\<in>set kept. safe_target small_net [] (sr_URL r)" "map SourceURL (WebSearchTool_Facts t') = map sr_URL kept"
    by blast
  then have "\<forall>u\<in>set (map SourceURL (WebSearchTool_Facts t')). safe_target small_net [] u" by simp
  with r show ?thesis by blast
qed

end
