(* ===== verification/PathJail.thy ===== *)
theory PathJail
  imports Prompts
begin

text \<open>
  The directory jail of \<^verbatim>\<open>internal/pathjail\<close> and the file tools of \<^verbatim>\<open>tools/files.go\<close>. A file system maps
  absolute paths, given by their components, to files, directories and symbolic links. \<open>kernel_walk\<close>
  is where the Linux kernel ends up when it is given a path, which follows 40 links and takes a name of
  4,095 bytes; \<open>eval_symlinks\<close> is \<^verbatim>\<open>filepath.EvalSymlinks\<close>, which follows 255 links and looks up every
  directory on the way by its own name. Where both resolve the directories a request names, what a path
  accepted by \<open>Resolve\<close> reaches is the path itself, inside the resolved jail, so a tool touches nothing
  else. Where only \<open>eval_symlinks\<close> does, \<open>Resolve\<close> takes an existing name for a missing one and the tools
  leave the jail: \<open>FileRead_escapes\<close> and \<open>FileWrite_escapes\<close> are such runs. Permissions, devices and
  changes by other processes between the calls are not modelled.
\<close>

section \<open>The file system\<close>

type_synonym fpath = "string list"

datatype node = Dir | File string | Link string

type_synonym filesystem = "fpath \<rightharpoonup> node"

text \<open>The components of a path, and the path of components.\<close>

definition parts_of :: "string \<Rightarrow> string list" where
  "parts_of s = filter (\<lambda>c. c \<noteq> []) (split_on CHR ''/'' s)"

definition path_string :: "fpath \<Rightarrow> string" where
  "path_string p = (if p = [] then ''/'' else concat (map (\<lambda>c. CHR ''/'' # c) p))"

text \<open>
  Walking a path from a directory without symbolic links on its way. \<open>named\<close> says which places can be
  looked up, \<open>create\<close> whether a missing last component is a place to create a file at.
\<close>

definition nameMax :: nat where "nameMax = 255"

function walk_path :: "(fpath \<Rightarrow> bool) \<Rightarrow> filesystem \<Rightarrow> bool \<Rightarrow> nat \<Rightarrow> fpath \<Rightarrow> string list \<Rightarrow> fpath option" where
  "walk_path named fs create links cur [] = Some cur"
| "walk_path named fs create links cur (c # cs) =
     (if c = ''.'' then walk_path named fs create links cur cs
      else if c = ''..'' then walk_path named fs create links (butlast cur) cs
      else if \<not> named (cur @ [c]) then None
      else case fs (cur @ [c]) of
        None \<Rightarrow> if create \<and> cs = [] \<and> length c \<le> nameMax then Some (cur @ [c]) else None
      | Some Dir \<Rightarrow> walk_path named fs create links (cur @ [c]) cs
      | Some (File _) \<Rightarrow> if cs = [] then Some (cur @ [c]) else None
      | Some (Link target) \<Rightarrow>
          if links = 0 then None
          else walk_path named fs create (links - 1) (if has_prefix target ''/'' then [] else cur) (parts_of target @ cs))"
  by pat_completeness auto
termination
  by (relation "inv_image (less_than <*lex*> less_than) (\<lambda>(named, fs, create, links, cur, cs). (links, length cs))") auto

declare walk_path.simps(2) [simp del]

text \<open>A name a system call takes: shorter than \<^verbatim>\<open>PATH_MAX\<close> with its terminating NUL, and without NUL bytes.\<close>

definition pathMax :: nat where "pathMax = 4096"

definition short_name :: "fpath \<Rightarrow> bool" where
  "short_name p = (length (path_string p) < pathMax)"

definition sys_name :: "fpath \<Rightarrow> bool" where
  "sys_name p = (short_name p \<and> CHR 0x00 \<notin> set (path_string p))"

text \<open>
  \<^verbatim>\<open>filepath.EvalSymlinks\<close> walks in user space, with an \<^verbatim>\<open>os.Lstat\<close> of every place by its full name; the
  kernel walks from place to place and needs a name for the whole request only.
\<close>

definition maxLinks :: nat where "maxLinks = 255"

definition eval_symlinks :: "filesystem \<Rightarrow> fpath \<Rightarrow> fpath option" where
  "eval_symlinks fs p = walk_path sys_name fs False maxLinks [] p"

definition kernelLinks :: nat where "kernelLinks = 40"

definition kernel_walk :: "filesystem \<Rightarrow> bool \<Rightarrow> fpath \<Rightarrow> fpath option" where
  "kernel_walk fs create p = (if sys_name p then walk_path (\<lambda>_. True) fs create kernelLinks [] p else None)"

definition locate :: "filesystem \<Rightarrow> fpath \<Rightarrow> fpath option" where
  "locate fs p = kernel_walk fs True p"

text \<open>\<^verbatim>\<open>os.Lstat\<close> finds the last component itself, the directories before it through links.\<close>

definition lstat :: "filesystem \<Rightarrow> fpath \<Rightarrow> bool" where
  "lstat fs p =
     (p = [] \<or> (sys_name p \<and> (case kernel_walk fs False (butlast p) of None \<Rightarrow> False | Some d \<Rightarrow> fs (d @ [last p]) \<noteq> None)))"

text \<open>
  The requests the jail is made for: the name is short enough for the kernel, and every directory on
  its way that \<^verbatim>\<open>filepath.EvalSymlinks\<close> resolves, the kernel resolves too, so with at most 40 links.
\<close>

definition within_limits :: "filesystem \<Rightarrow> fpath \<Rightarrow> bool" where
  "within_limits fs p =
     (short_name p \<and> list_all (\<lambda>q. eval_symlinks fs q \<noteq> None \<longrightarrow> walk_path (\<lambda>_. True) fs False kernelLinks [] q \<noteq> None) (prefixes p))"

section \<open>The jail\<close>

function eval_missing :: "filesystem \<Rightarrow> fpath \<Rightarrow> string list \<Rightarrow> err + fpath" where
  "eval_missing fs cur missing =
     (if cur = [] then Inl (Plain ''no existing ancestor'')
      else let parent = butlast cur; missing = last cur # missing in
        if lstat fs parent
        then (case eval_symlinks fs parent of None \<Rightarrow> Inl (Plain ''path symlinks'') | Some d \<Rightarrow> Inr (d @ missing))
        else eval_missing fs parent missing)"
  by pat_completeness auto
termination by (relation "measure (\<lambda>(_, cur, _). length cur)") auto

declare eval_missing.simps [simp del]

definition EvalExisting :: "filesystem \<Rightarrow> fpath \<Rightarrow> err + fpath" where
  "EvalExisting fs p =
     (if lstat fs p
      then (case eval_symlinks fs p of None \<Rightarrow> Inl (Plain ''path symlinks'') | Some q \<Rightarrow> Inr q)
      else eval_missing fs p [])"

text \<open>\<^verbatim>\<open>filepath.Abs\<close>: a relative path is below the working directory; the result is clean.\<close>

definition abs_parts :: "string \<Rightarrow> string \<Rightarrow> fpath" where
  "abs_parts cwd s = parts_of (path_clean (if has_prefix s ''/'' then s else cwd @ ''/'' @ s))"

definition Resolve :: "filesystem \<Rightarrow> string \<Rightarrow> string \<Rightarrow> string \<Rightarrow> err + fpath" where
  "Resolve fs cwd path jail =
     (let jail = trim_space jail in
      if jail = [] then Inl (Plain ''empty jail'')
      else let path = path_clean (trim_space path) in
        if path = [] \<or> path = ''.'' then Inl (Plain ''empty path'')
        else case eval_symlinks fs (abs_parts cwd jail) of
          None \<Rightarrow> Inl (Plain ''jail symlinks'')
        | Some absJail \<Rightarrow>
            (case EvalExisting fs (abs_parts cwd path) of
               Inl e \<Rightarrow> Inl (Plain (''path symlinks: '' @ error_text e))
             | Inr resolved \<Rightarrow>
                 if path_string resolved = path_string absJail
                    \<or> has_prefix (path_string resolved) (path_string absJail @ ''/'')
                 then Inr resolved
                 else Inl (Plain (go_quote path @ '' escapes jail''))))"


section \<open>Clean components\<close>

definition clean_part :: "string \<Rightarrow> bool" where
  "clean_part c = (c \<noteq> [] \<and> CHR ''/'' \<notin> set c)"

definition plain_part :: "string \<Rightarrow> bool" where
  "plain_part c = (clean_part c \<and> c \<noteq> ''.'' \<and> c \<noteq> ''..'')"

lemma parts_clean: "c \<in> set (parts_of s) \<Longrightarrow> clean_part c"
  using split_on_no_sep by (auto simp: parts_of_def clean_part_def)

lemma clean_push_plain:
  "\<forall>c\<in>set st. plain_part c \<Longrightarrow> \<forall>c\<in>set ps. CHR ''/'' \<notin> set c \<Longrightarrow> \<forall>c\<in>set (clean_push True st ps). plain_part c"
proof (induction ps arbitrary: st)
  case (Cons p ps)
  have IH: "\<forall>c\<in>set (clean_push True st' ps). plain_part c" if "\<forall>c\<in>set st'. plain_part c" for st'
    using Cons.IH [OF that] Cons.prems(2) by simp
  consider (skip) "p = [] \<or> p = ''.''" | (up) "p = ''..''" | (push) "p \<noteq> []" "p \<noteq> ''.''" "p \<noteq> ''..''" by blast
  then show ?case
  proof cases
    case skip
    then show ?thesis using IH [OF Cons.prems(1)] by simp
  next
    case up
    then show ?thesis
    proof (cases st)
      case (Cons q qs)
      then have "q \<noteq> ''..''" "\<forall>c\<in>set qs. plain_part c" using Cons.prems(1) by (simp_all add: plain_part_def)
      then show ?thesis using IH up Cons by simp
    qed (use IH [of "[]"] up in simp)
  next
    case push
    then have "\<forall>c\<in>set (p # st). plain_part c" using Cons.prems by (simp add: plain_part_def clean_part_def)
    from IH [OF this] push show ?thesis by simp
  qed
qed simp

lemma parts_path_clean:
  assumes "has_prefix s ''/''"
  shows "\<forall>c\<in>set (parts_of (path_clean s)). plain_part c"
proof -
  let ?cs = "rev (clean_push True [] (split_on CHR ''/'' s))"
  have plain: "\<forall>c\<in>set ?cs. plain_part c" using clean_push_plain [of "[]"] split_on_no_sep by fastforce
  have "parts_of (path_clean s) = ?cs"
  proof (cases "?cs = []")
    case False
    then have "split_on CHR ''/'' (str_join ''/'' ?cs) = ?cs" using plain split_on_join by (auto simp: plain_part_def clean_part_def)
    moreover have "filter (\<lambda>c. c \<noteq> []) ?cs = ?cs" using plain by (auto simp: filter_id_conv plain_part_def clean_part_def)
    ultimately show ?thesis using assms by (simp add: parts_of_def path_clean_def Let_def)
  qed (use assms in \<open>simp add: parts_of_def path_clean_def Let_def\<close>)
  with plain show ?thesis by simp
qed

lemma abs_parts_plain: "has_prefix cwd ''/'' \<Longrightarrow> c \<in> set (abs_parts cwd s) \<Longrightarrow> plain_part c"
  using parts_path_clean [of s] parts_path_clean [of "cwd @ ''/'' @ s"]
  by (auto simp: abs_parts_def has_prefix_def split: if_splits)

lemma walk_cases:
  assumes "walk_path named fs create n cur (c # cs) = Some q"
  obtains (dot) "c = ''.''" "walk_path named fs create n cur cs = Some q"
  | (up) "c = ''..''" "walk_path named fs create n (butlast cur) cs = Some q"
  | (stop) "c \<noteq> ''.''" "c \<noteq> ''..''" "named (cur @ [c])" "cs = []" "q = cur @ [c]"
      "(create \<and> fs (cur @ [c]) = None) \<or> (\<exists>s. fs (cur @ [c]) = Some (File s))"
  | (dir) "c \<noteq> ''.''" "c \<noteq> ''..''" "named (cur @ [c])" "fs (cur @ [c]) = Some Dir" "walk_path named fs create n (cur @ [c]) cs = Some q"
  | (link) target where "c \<noteq> ''.''" "c \<noteq> ''..''" "named (cur @ [c])" "fs (cur @ [c]) = Some (Link target)" "n \<noteq> 0"
      "walk_path named fs create (n - 1) (if has_prefix target ''/'' then [] else cur) (parts_of target @ cs) = Some q"
  using assms by (auto simp: walk_path.simps(2) split: if_splits option.splits node.splits)

lemma walk_clean:
  "walk_path named fs create n cur cs = Some q \<Longrightarrow> \<forall>c\<in>set cur. clean_part c \<Longrightarrow> \<forall>c\<in>set cs. clean_part c \<Longrightarrow> \<forall>c\<in>set q. clean_part c"
proof (induction named fs create n cur cs arbitrary: q rule: walk_path.induct)
  case (2 named fs create n cur c cs)
  have b: "\<forall>c\<in>set (butlast cur). clean_part c" using "2.prems"(2) by (meson in_set_butlastD)
  from "2.prems"(1) show ?case
  proof (cases rule: walk_cases)
    case dot
    with "2.IH"(1) "2.prems" show ?thesis by simp
  next
    case up
    with "2.IH"(2) "2.prems" b show ?thesis by simp
  next
    case dir
    with "2.IH"(3) "2.prems" show ?thesis by simp
  next
    case (link target)
    have "\<forall>c\<in>set (parts_of target @ cs). clean_part c" using "2.prems"(3) by (auto dest: parts_clean)
    moreover have "\<forall>c\<in>set (if has_prefix target ''/'' then [] else cur). clean_part c" using "2.prems"(2) by simp
    ultimately show ?thesis using "2.IH"(4) [OF link(1,2) _ link(4) refl link(5,6)] link(3) by blast
  qed (use "2.prems" in simp)
qed simp

section \<open>What the jail accepts\<close>

text \<open>A path all of whose steps are directories, and so without links.\<close>

inductive dirs :: "filesystem \<Rightarrow> fpath \<Rightarrow> bool" for fs where
  root: "dirs fs []"
| step: "dirs fs q \<Longrightarrow> fs (q @ [c]) = Some Dir \<Longrightarrow> c \<noteq> ''.'' \<Longrightarrow> c \<noteq> ''..'' \<Longrightarrow> dirs fs (q @ [c])"

lemma dirs_butlast: "dirs fs q \<Longrightarrow> dirs fs (butlast q)"
  by (erule dirs.cases) (simp_all add: dirs.root)

lemma dirs_walk:
  "dirs fs q \<Longrightarrow> walk_path (\<lambda>_. True) fs create n [] (q @ cs) = walk_path (\<lambda>_. True) fs create n q cs"
  by (induction arbitrary: cs rule: dirs.induct) (simp_all add: walk_path.simps(2))

text \<open>What is reached without creating is a directory or a file of one.\<close>

definition real_path :: "filesystem \<Rightarrow> fpath \<Rightarrow> bool" where
  "real_path fs q = (dirs fs q \<or> (\<exists>d c s. q = d @ [c] \<and> dirs fs d \<and> c \<noteq> ''.'' \<and> c \<noteq> ''..'' \<and> fs q = Some (File s)))"

lemma walk_real: "walk_path named fs False n cur cs = Some q \<Longrightarrow> dirs fs cur \<Longrightarrow> real_path fs q"
proof (induction named fs "False" n cur cs arbitrary: q rule: walk_path.induct)
  case (2 named fs n cur c cs)
  note IH = "2.hyps"
  from "2.prems"(1) show ?case
  proof (cases rule: walk_cases)
    case dot
    with IH(1) "2.prems" show ?thesis by simp
  next
    case up
    with IH(2) "2.prems" dirs_butlast show ?thesis by simp
  next
    case stop
    with "2.prems" show ?thesis by (auto simp: real_path_def)
  next
    case dir
    with IH(3) "2.prems" dirs.step show ?thesis by simp
  next
    case (link target)
    then show ?thesis using IH(4) [OF link(1,2) _ link(4) refl link(5,6)] link(3) "2.prems" dirs.root by auto
  qed
qed (simp add: real_path_def)

lemma eval_real: "eval_symlinks fs p = Some q \<Longrightarrow> real_path fs q"
  using walk_real dirs.root by (simp add: eval_symlinks_def)

lemma eval_clean: "eval_symlinks fs p = Some q \<Longrightarrow> \<forall>c\<in>set p. clean_part c \<Longrightarrow> \<forall>c\<in>set q. clean_part c"
  using walk_clean [of sys_name fs False maxLinks "[]" p q] by (simp add: eval_symlinks_def)

text \<open>A real path, and a place directly or further below one, is reached by its own name only.\<close>

lemma locate_real: "real_path fs q \<Longrightarrow> locate fs q = Some q' \<Longrightarrow> q' = q"
proof -
  assume q': "locate fs q = Some q'" and "real_path fs q"
  then consider "dirs fs q" | d c s where "q = d @ [c]" "dirs fs d" "c \<noteq> ''.''" "c \<noteq> ''..''" "fs q = Some (File s)"
    by (auto simp: real_path_def)
  then show ?thesis
  proof cases
    case 1
    with dirs_walk [of fs q True kernelLinks "[]"] q' show ?thesis by (simp add: locate_def kernel_walk_def split: if_splits)
  next
    case 2
    with dirs_walk [of fs d True kernelLinks "[c]"] q' show ?thesis
      by (simp add: locate_def kernel_walk_def walk_path.simps(2) split: if_splits)
  qed
qed

lemma walk_create: "walk_path named fs False n cur cs = Some q \<Longrightarrow> walk_path named fs True n cur cs = Some q"
proof (induction named fs False n cur cs arbitrary: q rule: walk_path.induct)
  case (2 named fs n cur c cs)
  from "2.prems" show ?case
    by (cases rule: walk_cases) (use "2.hyps" in \<open>auto simp: walk_path.simps(2)\<close>)
qed simp

lemma kernel_locate: "kernel_walk fs False p = Some q \<Longrightarrow> locate fs p = Some q"
  using walk_create by (auto simp: kernel_walk_def locate_def split: if_splits)

text \<open>Where both walks arrive they arrive at the same place.\<close>

lemma walk_agree:
  "walk_path named fs create m cur cs = Some q \<Longrightarrow> walk_path (\<lambda>_. True) fs create n cur cs = Some q' \<Longrightarrow> q' = q"
proof (induction named fs create m cur cs arbitrary: n q rule: walk_path.induct)
  case (2 named fs create m cur c cs)
  note IH = "2.IH"
  from "2.prems"(1) show ?case
  proof (cases rule: walk_cases)
    case (link target)
    then obtain n' where "walk_path (\<lambda>_. True) fs create n' (if has_prefix target ''/'' then [] else cur) (parts_of target @ cs) = Some q'"
      using "2.prems"(2) by (auto simp: walk_path.simps(2) split: if_splits)
    then show ?thesis using IH(4) [OF link(1,2) _ link(4) refl link(5,6)] link(3) by simp
  qed (use "2.prems"(2) IH(1-3) in \<open>auto simp: walk_path.simps(2) split: if_splits\<close>)
qed simp

lemma locate_missing:
  assumes "real_path fs d" "fs (d @ [c]) = None" "c \<noteq> ''.''" "c \<noteq> ''..''" "locate fs (d @ c # cs) = Some q"
  shows "q = d @ c # cs"
proof -
  from assms(1) consider "dirs fs d" | d' e s where "d = d' @ [e]" "dirs fs d'" "e \<noteq> ''.''" "e \<noteq> ''..''" "fs d = Some (File s)"
    by (auto simp: real_path_def)
  then show ?thesis
  proof cases
    case 1
    with assms dirs_walk [of fs d True kernelLinks "c # cs"] show ?thesis
      by (simp add: locate_def kernel_walk_def walk_path.simps(2) split: if_splits)
  next
    case 2
    with assms dirs_walk [of fs d' True kernelLinks "e # c # cs"] show ?thesis
      by (simp add: locate_def kernel_walk_def walk_path.simps(2) split: if_splits)
  qed
qed

lemma path_string_nul: "CHR 0x00 \<in> set (path_string p) \<longleftrightarrow> (\<exists>c\<in>set p. CHR 0x00 \<in> set c)"
  by (auto simp: path_string_def char_of_eq_iff)

lemma short_butlast: "short_name p \<Longrightarrow> short_name (butlast p)"
  by (cases p rule: rev_cases) (auto simp: short_name_def path_string_def split: if_splits)

lemma within_butlast: "within_limits fs p \<Longrightarrow> within_limits fs (butlast p)"
  by (cases p rule: rev_cases) (auto simp: within_limits_def short_butlast dest: short_butlast)

text \<open>
  Within the limits, the first name the jail takes for missing is missing in the directory the rest
  resolves to, or is no name at all.
\<close>

lemma first_missing:
  assumes "\<not> lstat fs cur" "lstat fs (butlast cur)" "eval_symlinks fs (butlast cur) = Some d" "within_limits fs cur"
  shows "fs (d @ [last cur]) = None \<or> CHR 0x00 \<in> set (last cur)"
proof -
  have ne: "cur \<noteq> []" using assms(1) by (auto simp: lstat_def)
  have short: "short_name cur" "short_name (butlast cur)" using assms(4) short_butlast by (auto simp: within_limits_def)
  have pre: "butlast cur \<in> set (prefixes cur)" by (simp add: prefixeq_butlast)
  have nul: "CHR 0x00 \<notin> set (path_string (butlast cur))"
    using assms(2) by (auto simp: lstat_def sys_name_def path_string_nul)
  show ?thesis
  proof (cases "CHR 0x00 \<in> set (path_string cur)")
    case True
    then obtain c where "c \<in> set cur" "CHR 0x00 \<in> set c" by (auto simp: path_string_nul)
    then show ?thesis using nul ne append_butlast_last_id [OF ne]
      by (metis Un_iff list.set_intros(1) path_string_nul set_ConsD set_append empty_iff list.set(1))
  next
    case False
    obtain d' where w: "walk_path (\<lambda>_. True) fs False kernelLinks [] (butlast cur) = Some d'"
      using assms(3,4) pre by (auto simp: within_limits_def list_all_iff)
    have "d' = d" using walk_agree [OF _ w] assms(3) by (simp add: eval_symlinks_def)
    then show ?thesis using assms(1) False short nul w ne by (simp add: lstat_def kernel_walk_def sys_name_def)
  qed
qed

lemma eval_missing_form:
  "eval_missing fs cur missing = Inr r \<Longrightarrow> \<not> lstat fs cur \<Longrightarrow> within_limits fs cur \<Longrightarrow>
     \<exists>p d m ms. r = d @ m # ms \<and> eval_symlinks fs p = Some d \<and> (fs (d @ [m]) = None \<or> CHR 0x00 \<in> set m)
       \<and> set p \<subseteq> set cur \<and> m \<in> set cur \<and> set ms \<subseteq> set cur \<union> set missing"
proof (induction fs cur missing rule: eval_missing.induct)
  case (1 fs cur missing)
  have ne: "cur \<noteq> []" using "1.prems"(2) by (auto simp: lstat_def)
  show ?case
  proof (cases "lstat fs (butlast cur)")
    case True
    then obtain d where d: "eval_symlinks fs (butlast cur) = Some d" "r = d @ last cur # missing"
      using "1.prems"(1) ne by (auto simp: eval_missing.simps [of fs cur] split: option.splits)
    from first_missing [OF "1.prems"(2) True d(1) "1.prems"(3)] show ?thesis
      using d ne in_set_butlastD last_in_set by (metis subsetI Un_iff)
  next
    case False
    then have "eval_missing fs (butlast cur) (last cur # missing) = Inr r"
      using "1.prems"(1) ne by (simp add: eval_missing.simps [of fs cur])
    from "1.IH" [OF ne refl refl False this False within_butlast [OF "1.prems"(3)]] obtain p d m ms
      where *: "r = d @ m # ms" "eval_symlinks fs p = Some d" "fs (d @ [m]) = None \<or> CHR 0x00 \<in> set m"
        "set p \<subseteq> set (butlast cur)" "m \<in> set (butlast cur)" "set ms \<subseteq> set (butlast cur) \<union> set (last cur # missing)"
      by blast
    have "set (butlast cur) \<subseteq> set cur" "last cur \<in> set cur" using ne by (auto dest: in_set_butlastD)
    with * show ?thesis by (intro exI conjI) (assumption | auto)+
  qed
qed

lemma EvalExisting_itself:
  assumes "EvalExisting fs p = Inr r" "\<forall>c\<in>set p. plain_part c" "within_limits fs p"
  shows "locate fs r = Some q \<Longrightarrow> q = r" and "\<forall>c\<in>set r. clean_part c"
proof -
  have clean: "\<forall>c\<in>set p. clean_part c" using assms(2) by (simp add: plain_part_def)
  have "(locate fs r = Some q \<longrightarrow> q = r) \<and> (\<forall>c\<in>set r. clean_part c)"
  proof (cases "lstat fs p")
    case True
    then have "eval_symlinks fs p = Some r" using assms(1) by (auto simp: EvalExisting_def split: option.splits)
    then show ?thesis using locate_real [OF eval_real] eval_clean clean by auto
  next
    case False
    then have "eval_missing fs p [] = Inr r" using assms(1) by (simp add: EvalExisting_def)
    from eval_missing_form [OF this False assms(3)] obtain p' d m ms where r: "r = d @ m # ms"
      and *: "eval_symlinks fs p' = Some d" "fs (d @ [m]) = None \<or> CHR 0x00 \<in> set m"
        "set p' \<subseteq> set p" "m \<in> set p" "set ms \<subseteq> set p" by auto
    have m: "m \<noteq> ''.''" "m \<noteq> ''..''" using assms(2) *(4) by (auto simp: plain_part_def)
    have "fs (d @ [m]) = None" if "locate fs r = Some q"
      using that *(2) by (auto simp: r locate_def kernel_walk_def sys_name_def path_string_nul split: if_splits)
    moreover have "\<forall>c\<in>set d. clean_part c" using eval_clean [OF *(1)] clean *(3) by blast
    ultimately show ?thesis using locate_missing [OF eval_real [OF *(1)] _ m] r clean * by auto
  qed
  then show "locate fs r = Some q \<Longrightarrow> q = r" and "\<forall>c\<in>set r. clean_part c" by blast+
qed

section \<open>Names and components\<close>

lemma parts_append: "parts_of (a @ CHR ''/'' # s) = parts_of a @ parts_of s"
  by (simp add: parts_of_def split_on_sep)

lemma parts_single: "clean_part c \<Longrightarrow> parts_of c = [c]"
  by (simp add: parts_of_def clean_part_def split_on_none)

lemma parts_path_string: "\<forall>c\<in>set p. clean_part c \<Longrightarrow> parts_of (path_string p) = p"
proof -
  have "\<forall>c\<in>set p. clean_part c \<Longrightarrow> parts_of (s @ concat (map (\<lambda>c. CHR ''/'' # c) p)) = parts_of s @ p" for s
  proof (induction p arbitrary: s)
    case (Cons c p)
    from Cons.IH [of "s @ CHR ''/'' # c"] Cons.prems show ?case by (simp add: parts_append parts_single)
  qed simp
  from this [of "[]"] show "\<forall>c\<in>set p. clean_part c \<Longrightarrow> parts_of (path_string p) = p"
    by (simp add: path_string_def parts_of_def)
qed

lemma inside_prefix:
  assumes "path_string r = path_string J \<or> has_prefix (path_string r) (path_string J @ ''/'')"
    and "\<forall>c\<in>set J. clean_part c" "\<forall>c\<in>set r. clean_part c"
  shows "prefix J r"
proof -
  from assms(1) consider "path_string r = path_string J" | x where "path_string r = path_string J @ CHR ''/'' # x"
    by (auto simp: has_prefix_def prefix_def)
  then have "\<exists>x. parts_of (path_string r) = parts_of (path_string J) @ x"
    by cases (simp_all add: parts_append)
  then show ?thesis using parts_path_string assms(2,3) by (auto simp: prefix_def)
qed

text \<open>An accepted path is inside the jail and names exactly one location, itself.\<close>

lemma Resolve_inside:
  assumes "Resolve fs cwd path jail = Inr r" "has_prefix cwd ''/''"
    and within: "within_limits fs (abs_parts cwd (path_clean (trim_space path)))"
  shows "\<exists>J. eval_symlinks fs (abs_parts cwd (trim_space jail)) = Some J \<and> prefix J r \<and> (\<forall>q. locate fs r = Some q \<longrightarrow> q = r)"
proof -
  obtain J where J: "eval_symlinks fs (abs_parts cwd (trim_space jail)) = Some J"
    and r: "EvalExisting fs (abs_parts cwd (path_clean (trim_space path))) = Inr r"
    and inside: "path_string r = path_string J \<or> has_prefix (path_string r) (path_string J @ ''/'')"
    using assms(1) by (auto simp: Resolve_def Let_def split: if_splits option.splits sum.splits)
  have plain: "\<forall>c\<in>set (abs_parts cwd s). plain_part c" for s using abs_parts_plain [OF assms(2)] by blast
  then have "\<forall>c\<in>set J. clean_part c" using eval_clean [OF J] by (simp add: plain_part_def)
  from inside_prefix [OF inside this EvalExisting_itself(2) [OF r plain within]]
  show ?thesis using J EvalExisting_itself(1) [OF r plain within] by blast
qed

section \<open>The file tools\<close>

record fileTool =
  ft_root :: string
  ft_maxBytes :: nat
  ft_allowBinary :: bool
  ft_allowWrite :: bool

record fileOpts =
  fo_maxBytes :: int
  fo_allowBinary :: bool
  fo_allowWrite :: bool

definition WithAllowWrite :: "fileOpts \<Rightarrow> fileOpts" where
  "WithAllowWrite fo = fo\<lparr>fo_allowWrite := True\<rparr>"

definition WithAllowBinary :: "fileOpts \<Rightarrow> fileOpts" where
  "WithAllowBinary fo = fo\<lparr>fo_allowBinary := True\<rparr>"

definition WithFileMaxBytes :: "int \<Rightarrow> fileOpts \<Rightarrow> fileOpts" where
  "WithFileMaxBytes n fo = (if n > 0 then fo\<lparr>fo_maxBytes := n\<rparr> else fo)"

definition applyFileOpts :: "(fileOpts \<Rightarrow> fileOpts) list \<Rightarrow> fileOpts" where
  "applyFileOpts opts =
     (let fo = fold (\<lambda>fn fo. fn fo) opts \<lparr>fo_maxBytes = int MaxToolOutputBytes, fo_allowBinary = False, fo_allowWrite = False\<rparr>
      in if fo_maxBytes fo \<le> 0 then fo\<lparr>fo_maxBytes := int MaxToolOutputBytes\<rparr> else fo)"

definition NewFileRead :: "string \<Rightarrow> (fileOpts \<Rightarrow> fileOpts) list \<Rightarrow> fileTool" where
  "NewFileRead dir opts =
     (let fo = applyFileOpts opts
      in \<lparr>ft_root = dir, ft_maxBytes = nat (fo_maxBytes fo), ft_allowBinary = fo_allowBinary fo, ft_allowWrite = False\<rparr>)"

definition NewFileWrite :: "string \<Rightarrow> (fileOpts \<Rightarrow> fileOpts) list \<Rightarrow> fileTool" where
  "NewFileWrite dir opts =
     (let fo = applyFileOpts opts
      in \<lparr>ft_root = dir, ft_maxBytes = nat (fo_maxBytes fo), ft_allowBinary = False, ft_allowWrite = fo_allowWrite fo\<rparr>)"

definition FileRead_Call :: "filesystem \<Rightarrow> string \<Rightarrow> fileTool \<Rightarrow> string \<Rightarrow> err + string" where
  "FileRead_Call fs cwd t input =
     (case Resolve fs cwd input (ft_root t) of
        Inl e \<Rightarrow> Inl (wrapf ''file_read: '' e)
      | Inr resolved \<Rightarrow>
          (case kernel_walk fs False resolved of
             None \<Rightarrow> Inl (wrapf ''file_read: '' (Plain ''open''))
           | Some q \<Rightarrow>
               (case fs q of
                  Some (File content) \<Rightarrow>
                    let data = take (ft_maxBytes t) content in
                    if \<not> ft_allowBinary t \<and> CHR 0x00 \<in> set data then Inl (Plain ''file_read: binary content rejected'')
                    else Inr data
                | _ \<Rightarrow> Inl (wrapf ''file_read: '' (Plain ''read'')))))"

text \<open>\<^verbatim>\<open>os.WriteFile\<close>: the file at the location is created or truncated; anything else is an error.\<close>

definition write_file :: "filesystem \<Rightarrow> fpath \<Rightarrow> string \<Rightarrow> filesystem \<times> err option" where
  "write_file fs p content =
     (case locate fs p of
        None \<Rightarrow> (fs, Some (Plain ''open''))
      | Some q \<Rightarrow> (if fs q = Some Dir then (fs, Some (Plain ''is a directory'')) else (fs(q \<mapsto> File content), None)))"

definition FileWrite_Call ::
  "(string \<Rightarrow> err + string \<times> string) \<Rightarrow> filesystem \<Rightarrow> string \<Rightarrow> fileTool \<Rightarrow> string \<Rightarrow> filesystem \<times> (err + string)" where
  "FileWrite_Call decode fs cwd t input =
     (if \<not> ft_allowWrite t then (fs, Inl (Plain ''file_write: writes disabled (pass tools.WithAllowWrite)''))
      else case decode (trim_space input) of
        Inl e \<Rightarrow> (fs, Inl (wrapf (''file_write: expected JSON {'' @ go_quote ''path'' @ '','' @ go_quote ''content'' @ ''}: '') e))
      | Inr (path, content) \<Rightarrow>
          if trim_space path = [] then (fs, Inl (Plain ''file_write: empty path''))
          else if length content > ft_maxBytes t
          then (fs, Inl (Plain (''file_write: content exceeds cap ('' @ itoa (ft_maxBytes t) @ '' bytes)'')))
          else (case Resolve fs cwd path (ft_root t) of
                  Inl e \<Rightarrow> (fs, Inl (wrapf ''file_write: '' e))
                | Inr resolved \<Rightarrow>
                    (case write_file fs resolved content of
                       (fs', Some e) \<Rightarrow> (fs', Inl (wrapf ''file_write: '' e))
                     | (fs', None) \<Rightarrow> (fs', Inr (''wrote '' @ path_string resolved)))))"

text \<open>
  C7. \<^verbatim>\<open>file_write\<close> changes nothing outside its jail, whatever links, dots and missing directories
  the path goes through, as long as the requested path is within the limits of the kernel (its absolute
  name is shorter than 4,096 bytes, and no part of it that \<^verbatim>\<open>filepath.EvalSymlinks\<close> resolves needs more than
  the 40 links Linux follows): any location whose content differs afterwards is inside the directory the
  jail resolves to, and without \<^verbatim>\<open>WithAllowWrite\<close> nothing changes at all. Beyond the limits the jail
  fails (\<open>FileWrite_escapes\<close>). The working directory is an absolute path.
\<close>
theorem FileWrite_jailed:
  assumes "FileWrite_Call decode fs cwd t input = (fs', res)" "has_prefix cwd ''/''" "fs' p \<noteq> fs p"
    and within: "\<And>path content. decode (trim_space input) = Inr (path, content)
      \<Longrightarrow> within_limits fs (abs_parts cwd (path_clean (trim_space path)))"
  shows "ft_allowWrite t \<and> (\<exists>J content. eval_symlinks fs (abs_parts cwd (trim_space (ft_root t))) = Some J
     \<and> prefix J p \<and> fs' p = Some (File content) \<and> length content \<le> ft_maxBytes t)"
proof -
  have allow: "ft_allowWrite t" using assms(1,3) by (cases "ft_allowWrite t") (auto simp: FileWrite_Call_def)
  obtain path content where d: "decode (trim_space input) = Inr (path, content)"
    using assms(1,3) allow by (cases "decode (trim_space input)") (auto simp: FileWrite_Call_def)
  have len: "length content \<le> ft_maxBytes t" and ne: "trim_space path \<noteq> []"
    using assms(1,3) allow d
    by (cases "length content \<le> ft_maxBytes t"; cases "trim_space path = []"; auto simp: FileWrite_Call_def)+
  obtain r where r: "Resolve fs cwd path (ft_root t) = Inr r"
    using assms(1,3) allow d len ne by (cases "Resolve fs cwd path (ft_root t)") (auto simp: FileWrite_Call_def)
  have "fs' = fst (write_file fs r content)"
    using assms(1) allow d len ne r by (auto simp: FileWrite_Call_def split: prod.splits option.splits)
  then obtain q where q: "locate fs r = Some q" "fs' = fs(q \<mapsto> File content)"
    using assms(3) by (cases "locate fs r") (auto simp: write_file_def split: if_splits)
  from Resolve_inside [OF r assms(2) within [OF d]] obtain J
    where J: "eval_symlinks fs (abs_parts cwd (trim_space (ft_root t))) = Some J" "prefix J r" "q = r" using q(1) by blast
  have "p = q" using q(2) assms(3) by (cases "p = q") simp_all
  with allow len q(2) J show ?thesis by auto
qed

text \<open>
  C33. \<^verbatim>\<open>file_read\<close> returns only what is in a file inside its jail, at most \<open>maxBytes\<close> of it, and no
  NUL byte unless binary content was allowed, as long as the requested path is within the limits of the
  kernel (an absolute name shorter than 4,096 bytes, and no part that \<^verbatim>\<open>filepath.EvalSymlinks\<close> resolves
  with more than the 40 links Linux follows). Beyond them the jail fails (\<open>FileRead_escapes\<close>).
\<close>
theorem FileRead_jailed:
  assumes "FileRead_Call fs cwd t input = Inr data" "has_prefix cwd ''/''"
    and "within_limits fs (abs_parts cwd (path_clean (trim_space input)))"
  shows "\<exists>J p content. eval_symlinks fs (abs_parts cwd (trim_space (ft_root t))) = Some J \<and> prefix J p
     \<and> fs p = Some (File content) \<and> data = take (ft_maxBytes t) content
     \<and> (ft_allowBinary t \<or> CHR 0x00 \<notin> set data)"
proof -
  obtain r q content where r: "Resolve fs cwd input (ft_root t) = Inr r" and q: "kernel_walk fs False r = Some q"
    and c: "fs q = Some (File content)" "data = take (ft_maxBytes t) content" "ft_allowBinary t \<or> CHR 0x00 \<notin> set data"
    using assms(1) by (auto simp: FileRead_Call_def Let_def split: sum.splits option.splits node.splits if_splits)
  have "locate fs r = Some q" by (rule kernel_locate [OF q])
  with Resolve_inside [OF r assms(2,3)] c show ?thesis by blast
qed


section \<open>Witnesses\<close>

text \<open>A jail with a file and a link that leads out of it.\<close>

definition small_fs :: filesystem where
  "small_fs = (\<lambda>p. if p = [''jail''] \<or> p = [''etc''] then Some Dir
     else if p = [''jail'', ''a''] then Some (File ''hello'')
     else if p = [''etc'', ''passwd''] then Some (File ''secret'')
     else if p = [''jail'', ''out''] then Some (Link ''/etc'') else None)"

definition small_tool :: fileTool where
  "small_tool = \<lparr>ft_root = ''/jail'', ft_maxBytes = 4, ft_allowBinary = False, ft_allowWrite = True\<rparr>"

lemma FileWrite_jailed_witness:
  "\<exists>fs'. FileWrite_Call (\<lambda>s. Inr (s, ''new'')) small_fs ''/'' small_tool ''/jail/b'' = (fs', Inr ''wrote /jail/b'')
     \<and> fs' [''jail'', ''b''] = Some (File ''new'') \<and> prefix [''jail''] [''jail'', ''b'']"
proof -
  have r: "Resolve small_fs ''/'' ''/jail/b'' ''/jail'' = Inr [''jail'', ''b'']" by code_simp
  have l: "locate small_fs [''jail'', ''b''] = Some [''jail'', ''b'']" by code_simp
  have none: "small_fs [''jail'', ''b''] = None" by code_simp
  have t: "trim_space ''/jail/b'' = ''/jail/b''" by code_simp
  have J: "eval_symlinks small_fs (abs_parts ''/'' (trim_space (ft_root small_tool))) = Some [''jail'']" by code_simp
  have w: "FileWrite_Call (\<lambda>s. Inr (s, ''new'')) small_fs ''/'' small_tool ''/jail/b''
      = (small_fs([''jail'', ''b''] \<mapsto> File ''new''), Inr ''wrote /jail/b'')"
    by (simp add: FileWrite_Call_def write_file_def r l t none small_tool_def path_string_def)
  have l: "within_limits small_fs (abs_parts ''/'' (path_clean (trim_space ''/jail/b'')))" by code_simp
  have "has_prefix ''/'' ''/''" by (simp add: has_prefix_def)
  from FileWrite_jailed [OF w this, of "[''jail'', ''b'']"] J none l t have "prefix [''jail''] [''jail'', ''b'']" by simp
  with w show ?thesis by (intro exI [of _ "small_fs([''jail'', ''b''] \<mapsto> File ''new'')"]) simp
qed

lemma FileRead_jailed_witness:
  "FileRead_Call small_fs ''/'' small_tool ''jail/a'' = Inr ''hell'' \<and> (\<exists>p content. prefix [''jail''] p \<and> small_fs p = Some (File content) \<and> ''hell'' = take 4 content)"
proof -
  have v: "FileRead_Call small_fs ''/'' small_tool ''jail/a'' = Inr ''hell''"
    "within_limits small_fs (abs_parts ''/'' (path_clean (trim_space ''jail/a'')))"
    "eval_symlinks small_fs (abs_parts ''/'' (trim_space (ft_root small_tool))) = Some [''jail'']" by code_simp+
  have "has_prefix ''/'' ''/''" by (simp add: has_prefix_def)
  moreover have "ft_maxBytes small_tool = 4" by (simp add: small_tool_def)
  ultimately show ?thesis using FileRead_jailed [OF v(1) _ v(2)] v(1,3) by auto
qed

lemma jail_refuses_links_out:
  "FileRead_Call small_fs ''/'' small_tool ''/jail/out/passwd''
     = Inl (wrapf ''file_read: '' (Plain (go_quote ''/jail/out/passwd'' @ '' escapes jail'')))"
  "FileRead_Call small_fs ''/'' small_tool ''/jail/../etc/passwd''
     = Inl (wrapf ''file_read: '' (Plain (go_quote ''/etc/passwd'' @ '' escapes jail'')))"
  by code_simp+

text \<open>
  The escape: the name \<open>l\<close> is the first of a chain of 41 links, each to the next, the last one to a
  directory of the jail with a link \<open>x\<close> that leads out. The kernel stops at the 41st link, so \<^verbatim>\<open>os.Lstat\<close>
  finds no \<open>l/x\<close>, \<^verbatim>\<open>EvalExisting\<close> takes \<open>x\<close> for a missing name in the directory \<^verbatim>\<open>filepath.EvalSymlinks\<close>
  resolves \<open>l\<close> to, and the accepted path is a link out of the jail, which the tools follow.
\<close>

definition chain_fs :: filesystem where
  "chain_fs = (\<lambda>p. case p of
     [a] \<Rightarrow> if a = ''jail'' \<or> a = ''etc'' then Some Dir else None
   | [a, c] \<Rightarrow>
       if a = ''etc'' then (if c = ''passwd'' then Some (File ''secret'') else None)
       else if a = ''jail'' \<and> c = ''d'' then Some Dir
       else if a = ''jail'' \<and> list_all (\<lambda>l. l = CHR ''l'') c \<and> length c < 41 then Some (Link (CHR ''l'' # c))
       else if a = ''jail'' \<and> c = replicate 41 CHR ''l'' then Some (Link ''d'') else None
   | [a, c, x] \<Rightarrow> if a = ''jail'' \<and> c = ''d'' \<and> x = ''x'' then Some (Link ''/etc/passwd'') else None
   | _ \<Rightarrow> None)"

lemma Resolve_escapes:
  "Resolve chain_fs ''/'' ''/jail/l/x'' ''/jail'' = Inr [''jail'', ''d'', ''x'']"
  by code_simp

lemma FileRead_escapes: "FileRead_Call chain_fs ''/'' small_tool ''/jail/l/x'' = Inr ''secr''"
  by code_simp

lemma FileWrite_escapes:
  "fst (FileWrite_Call (\<lambda>s. Inr (s, ''root'')) chain_fs ''/'' small_tool ''/jail/l/x'') [''etc'', ''passwd''] = Some (File ''root'')"
  by code_simp

text \<open>The root directory as a jail accepts nothing below it.\<close>

lemma root_jail_rejects:
  "Resolve small_fs ''/'' ''/jail/a'' ''/'' = Inl (Plain (go_quote ''/jail/a'' @ '' escapes jail''))"
  by code_simp

end
