(* ===== verification/Mcp.thy ===== *)
theory Mcp
  imports Types Json "HOL-Library.Word"
begin

text \<open>
  The client of the Model Context Protocol: \<^verbatim>\<open>mcp/client.go\<close>, \<^verbatim>\<open>mcp/config.go\<close> and the tool adapter of
  \<^verbatim>\<open>mcp/adapter.go\<close>. Clients are objects at addresses, because adapters share them; the state also
  holds the process-wide request counter, a 64-bit word. The HTTP transport is a function on the
  outside state; JSON decoding, file reading and the order of a range over a map are arguments.
  Envelopes are sent as values, since encoding them cannot fail.
\<close>

section \<open>Messages\<close>

definition MaxMCPResponseBytes :: nat where "MaxMCPResponseBytes = 16777216"
definition maxListToolsPages :: nat where "maxListToolsPages = 256"
definition protocolVersion :: string where "protocolVersion = ''2025-06-18''"
definition DefaultHTTPTimeout :: int where "DefaultHTTPTimeout = 30000000000"

record jsonRPCRequest =
  rq_JSONRPC :: string
  rq_ID :: "64 word"
  rq_Method :: string
  rq_Params :: "json option"

record jsonRPCError =
  re_Code :: int
  re_Message :: string

record jsonRPCResponse =
  rs_ID :: "64 word"
  rs_Result :: string
  rs_Error :: "jsonRPCError option"

record mcpTool =
  mt_Name :: string
  mt_Description :: string
  mt_InputSchema :: string

record listToolsResult =
  lt_Tools :: "mcpTool list"
  lt_NextCursor :: string
  lt_NextCursorField :: string

definition cursor_of :: "listToolsResult \<Rightarrow> string" where
  "cursor_of r = (if lt_NextCursor r \<noteq> [] then lt_NextCursor r else lt_NextCursorField r)"

record contentBlock =
  cb_Type :: string
  cb_Text :: string

record callToolResult =
  ct_Content :: "contentBlock list"
  ct_IsError :: bool

section \<open>Transport\<close>

record httpRequest =
  hq_Method :: string
  hq_URL :: string
  hq_Headers :: "(string \<times> string) list"
  hq_Body :: "jsonRPCRequest option"
  hq_Timeout :: int

text \<open>A body is its content and the error that ends it instead of its end, if any.\<close>

record httpResponse =
  hr_Status :: int
  hr_Session :: string
  hr_ContentType :: string
  hr_Body :: "string \<times> err option"

record serverConfig =
  sc_Name :: string
  sc_Endpoint :: string
  sc_Headers :: "(string \<times> string) list"
  sc_Timeout :: string

record 'w mcpLib =
  ml_do :: "httpRequest \<Rightarrow> 'w \<Rightarrow> 'w \<times> (err + httpResponse)"
  ml_request :: "string \<Rightarrow> err option"
  ml_response :: "string \<Rightarrow> err + jsonRPCResponse"
  ml_value :: "string \<Rightarrow> err + json"
  ml_page :: "string \<Rightarrow> err + listToolsResult"
  ml_result :: "string \<Rightarrow> err + callToolResult"
  ml_readFile :: "string \<Rightarrow> 'w \<Rightarrow> err + string"
  ml_config :: "string \<Rightarrow> err + serverConfig list"
  ml_duration :: "string \<Rightarrow> int option"
  ml_range :: "(string \<times> string) list \<Rightarrow> (string \<times> string) list"

type_synonym cid = nat

record mcpClient =
  mc_endpoint :: string
  mc_headers :: "(string \<times> string) list"
  mc_customHTTP :: bool
  mc_timeout :: int
  mc_sessionID :: string

record 'w mcp =
  ms_world :: 'w
  ms_requestID :: "64 word"
  ms_clients :: "cid \<Rightarrow> mcpClient"
  ms_next :: cid

definition WithHTTPClient :: "int \<Rightarrow> mcpClient \<Rightarrow> mcpClient" where
  "WithHTTPClient custom_timeout c = c\<lparr>mc_customHTTP := True, mc_timeout := custom_timeout\<rparr>"

definition mcp_WithHTTPTimeout :: "int \<Rightarrow> mcpClient \<Rightarrow> mcpClient" where
  "mcp_WithHTTPTimeout d c = (if mc_customHTTP c then c else c\<lparr>mc_timeout := (if d < 0 then 0 else d)\<rparr>)"

definition WithHeader :: "string \<Rightarrow> string \<Rightarrow> mcpClient \<Rightarrow> mcpClient" where
  "WithHeader key val c = (if key = [] then c else c\<lparr>mc_headers := mc_headers c @ [(key, val)]\<rparr>)"

definition mcp_New :: "string \<Rightarrow> (mcpClient \<Rightarrow> mcpClient) list \<Rightarrow> 'w mcp \<Rightarrow> 'w mcp \<times> cid" where
  "mcp_New endpoint opts st =
     (let c = fold (\<lambda>opt c. opt c) opts \<lparr>mc_endpoint = endpoint, mc_headers = [], mc_customHTTP = False,
                mc_timeout = DefaultHTTPTimeout, mc_sessionID = []\<rparr>
      in (st\<lparr>ms_clients := (ms_clients st)(ms_next st := c), ms_next := Suc (ms_next st)\<rparr>, ms_next st))"

text \<open>\<^verbatim>\<open>Header.Set\<close>: keys are compared without case, a later value replaces an earlier one.\<close>

definition same_key :: "string \<Rightarrow> string \<Rightarrow> bool" where
  "same_key a b = (map ascii_lower a = map ascii_lower b)"

definition set_header :: "string \<Rightarrow> string \<Rightarrow> (string \<times> string) list \<Rightarrow> (string \<times> string) list" where
  "set_header k v hs = filter (\<lambda>(k', _). \<not> same_key k' k) hs @ [(k, v)]"

definition get_header :: "string \<Rightarrow> (string \<times> string) list \<Rightarrow> string option" where
  "get_header k hs = (case filter (\<lambda>(k', _). same_key k' k) hs of [] \<Rightarrow> None | (_, v) # _ \<Rightarrow> Some v)"

definition set_headers :: "(string \<times> string) list \<Rightarrow> (string \<times> string) list \<Rightarrow> (string \<times> string) list" where
  "set_headers kvs hs = fold (\<lambda>(k, v). set_header k v) kvs hs"

definition nextRequestID :: "'w mcp \<Rightarrow> 'w mcp \<times> 64 word" where
  "nextRequestID st = (let n = ms_requestID st + 1 in (st\<lparr>ms_requestID := n\<rparr>, n))"

definition readLimited :: "string \<times> err option \<Rightarrow> string \<times> err option" where
  "readLimited body =
     (if length (fst body) \<ge> MaxMCPResponseBytes then (take MaxMCPResponseBytes (fst body), None) else body)"

definition send_http :: "'w mcpLib \<Rightarrow> httpRequest \<Rightarrow> 'w mcp \<Rightarrow> 'w mcp \<times> (err + httpResponse)" where
  "send_http lib req st = (let (w, r) = ml_do lib req (ms_world st) in (st\<lparr>ms_world := w\<rparr>, r))"

definition set_session :: "cid \<Rightarrow> string \<Rightarrow> 'w mcp \<Rightarrow> 'w mcp" where
  "set_session c sid st = st\<lparr>ms_clients := (ms_clients st)(c := (ms_clients st c)\<lparr>mc_sessionID := sid\<rparr>)\<rparr>"

text \<open>The POST of an envelope; the session id of a response is kept when there is none yet.\<close>

definition post_headers :: "mcpClient \<Rightarrow> (string \<times> string) list" where
  "post_headers c =
     (let hs = set_headers (mc_headers c)
                 (set_header ''Accept'' ''application/json, text/event-stream''
                   (set_header ''Content-Type'' ''application/json'' []))
      in if mc_sessionID c \<noteq> [] then set_header ''Mcp-Session-Id'' (mc_sessionID c) hs else hs)"

definition mcp_do :: "'w mcpLib \<Rightarrow> cid \<Rightarrow> jsonRPCRequest \<Rightarrow> 'w mcp \<Rightarrow> 'w mcp \<times> (err + httpResponse)" where
  "mcp_do lib c body st =
     (let cl = ms_clients st c in
      case ml_request lib (mc_endpoint cl) of
        Some e \<Rightarrow> (st, Inl (wrapf ''build request: '' e))
      | None \<Rightarrow>
          (case send_http lib \<lparr>hq_Method = ''POST'', hq_URL = mc_endpoint cl, hq_Headers = post_headers cl,
                  hq_Body = Some body, hq_Timeout = mc_timeout cl\<rparr> st of
             (st, Inl e) \<Rightarrow> (st, Inl (wrapf ''transport: '' e))
           | (st, Inr resp) \<Rightarrow>
               let st = (if mc_sessionID (ms_clients st c) = [] \<and> hr_Session resp \<noteq> []
                         then set_session c (hr_Session resp) st else st)
               in (st, Inr (resp\<lparr>hr_Body := readLimited (hr_Body resp)\<rparr>))))"

section \<open>Reading an envelope\<close>

text \<open>Whether the loop returned inside the scan, or the data lines it ended with.\<close>

fun sse_scan :: "string list \<Rightarrow> string list \<Rightarrow> string list + string" where
  "sse_scan [] data = Inl data"
| "sse_scan (line # ls) data =
     (if line = [] then (if data \<noteq> [] then Inr (str_join [CHR 0x0A] data) else sse_scan ls data)
      else if has_prefix line '':'' then sse_scan ls data
      else if has_prefix line ''data:''
      then (let rest = drop 5 line; rest = (if has_prefix rest '' '' then tl rest else rest) in sse_scan ls (data @ [rest]))
      else sse_scan ls data)"

text \<open>The scanner stops at a line that fills its buffer, and at a read error after the lines before it.\<close>

definition parseSSEChunk :: "string \<times> err option \<Rightarrow> err + string option" where
  "parseSSEChunk body =
     (let raw = split_on CHR 0x0A (fst body);
          fitting = takeWhile (\<lambda>l. length l < MaxMCPResponseBytes) raw;
          too_long = length fitting < length raw;
          lines = (if too_long then map strip_return fitting else scan_lines (fst body));
          failure = (if too_long then Some (Plain ''bufio.Scanner: token too long'') else snd body)
      in case sse_scan lines [] of
           Inr payload \<Rightarrow> Inr (Some payload)
         | Inl data \<Rightarrow>
             (case failure of
                Some e \<Rightarrow> Inl e
              | None \<Rightarrow> Inr (if data \<noteq> [] then Some (str_join [CHR 0x0A] data) else None)))"

definition readJSONRPCPayload :: "httpResponse \<Rightarrow> err + string" where
  "readJSONRPCPayload resp =
     (if contains (to_lower (hr_ContentType resp)) ''text/event-stream'' then
        (case parseSSEChunk (hr_Body resp) of
           Inl e \<Rightarrow> Inl (wrapf ''decode sse: '' e)
         | Inr None \<Rightarrow> Inl (Plain ''decode sse: empty event stream'')
         | Inr (Some raw) \<Rightarrow> Inr raw)
      else case hr_Body resp of
        (_, Some e) \<Rightarrow> Inl (wrapf ''read response: '' e)
      | (data, None) \<Rightarrow> Inr data)"

section \<open>Calls\<close>

definition http_ok :: "int \<Rightarrow> bool" where
  "http_ok status = (\<not> (status < 200 \<or> status \<ge> 300))"

text \<open>\<open>decode\<close> fills the result and \<open>zero\<close> is what it holds when the response has none.\<close>

definition mcp_call ::
  "'w mcpLib \<Rightarrow> cid \<Rightarrow> string \<Rightarrow> json option \<Rightarrow> (string \<Rightarrow> err + 'a) \<Rightarrow> 'a \<Rightarrow> 'w mcp \<Rightarrow> 'w mcp \<times> (err + 'a)" where
  "mcp_call lib c method params decode zero st =
     (let (st, n) = nextRequestID st in
      case mcp_do lib c \<lparr>rq_JSONRPC = ''2.0'', rq_ID = n, rq_Method = method, rq_Params = params\<rparr> st of
        (st, Inl e) \<Rightarrow> (st, Inl e)
      | (st, Inr resp) \<Rightarrow>
          (st, if \<not> http_ok (hr_Status resp) then Inl (Plain (''mcp: HTTP '' @ itoa_int (hr_Status resp)))
               else case readJSONRPCPayload resp of
                 Inl e \<Rightarrow> Inl e
               | Inr payload \<Rightarrow>
                   (case ml_response lib payload of
                      Inl e \<Rightarrow> Inl (wrapf ''decode response: '' e)
                    | Inr rpc \<Rightarrow>
                        (case rs_Error rpc of
                           Some e \<Rightarrow> Inl (Plain (''jsonrpc error '' @ itoa_int (re_Code e) @ '': '' @ re_Message e))
                         | None \<Rightarrow> if rs_Result rpc = [] then Inr zero else decode (rs_Result rpc)))))"

definition notify :: "'w mcpLib \<Rightarrow> cid \<Rightarrow> string \<Rightarrow> json option \<Rightarrow> 'w mcp \<Rightarrow> 'w mcp \<times> err option" where
  "notify lib c method params st =
     (case mcp_do lib c \<lparr>rq_JSONRPC = ''2.0'', rq_ID = 0, rq_Method = method, rq_Params = params\<rparr> st of
        (st, Inl e) \<Rightarrow> (st, Some e)
      | (st, Inr resp) \<Rightarrow>
          (st, if \<not> http_ok (hr_Status resp)
               then Some (Plain (''mcp: notification '' @ go_quote method @ '': HTTP '' @ itoa_int (hr_Status resp))) else None))"

definition initialize_params :: "string \<Rightarrow> string \<Rightarrow> json" where
  "initialize_params name version =
     JObj [(''capabilities'', JObj []),
           (''clientInfo'', JObj [(''name'', JStr (if name = [] then ''crewai-go'' else name)),
                                  (''version'', JStr (if version = [] then ''0.0.0'' else version))]),
           (''protocolVersion'', JStr protocolVersion)]"

definition Initialize :: "'w mcpLib \<Rightarrow> cid \<Rightarrow> string \<Rightarrow> string \<Rightarrow> 'w mcp \<Rightarrow> 'w mcp \<times> err option" where
  "Initialize lib c name version st =
     (case mcp_call lib c ''initialize'' (Some (initialize_params name version)) Inr [] st of
        (st, Inl e) \<Rightarrow> (st, Some (wrapf ''initialize: '' e))
      | (st, Inr _) \<Rightarrow>
          (case notify lib c ''notifications/initialized'' None st of
             (st, Some e) \<Rightarrow> (st, Some (wrapf ''notifications/initialized: '' e))
           | (st, None) \<Rightarrow> (st, None)))"

definition Close :: "'w mcpLib \<Rightarrow> cid \<Rightarrow> 'w mcp \<Rightarrow> 'w mcp \<times> err option" where
  "Close lib c st =
     (let cl = ms_clients st c; sid = mc_sessionID cl; st = set_session c [] st in
      if sid = [] then (st, None)
      else case ml_request lib (mc_endpoint cl) of
        Some e \<Rightarrow> (st, Some (wrapf ''close session: '' e))
      | None \<Rightarrow>
          (case send_http lib \<lparr>hq_Method = ''DELETE'', hq_URL = mc_endpoint cl,
                  hq_Headers = set_headers (mc_headers cl) (set_header ''Mcp-Session-Id'' sid []),
                  hq_Body = None, hq_Timeout = mc_timeout cl\<rparr> st of
             (st, Inl e) \<Rightarrow> (st, Some (wrapf ''close session: '' e))
           | (st, Inr resp) \<Rightarrow>
               (st, if hr_Status resp = 404 \<or> hr_Status resp = 405 then None
                    else if \<not> http_ok (hr_Status resp)
                    then Some (Plain (''close session: HTTP '' @ itoa_int (hr_Status resp))) else None)))"

text \<open>The page loop, with the number of pages still allowed.\<close>

fun list_pages :: "'w mcpLib \<Rightarrow> cid \<Rightarrow> nat \<Rightarrow> string \<Rightarrow> mcpTool list \<Rightarrow> 'w mcp \<Rightarrow> 'w mcp \<times> (err + mcpTool list)" where
  "list_pages lib c 0 cursor all st =
     (st, Inl (Plain (''tools/list: exceeded '' @ itoa maxListToolsPages @ '' pages'')))"
| "list_pages lib c (Suc n) cursor all st =
     (case mcp_call lib c ''tools/list'' (Some (JObj (if cursor \<noteq> [] then [(''cursor'', JStr cursor)] else [])))
             (ml_page lib) \<lparr>lt_Tools = [], lt_NextCursor = [], lt_NextCursorField = []\<rparr> st of
        (st, Inl e) \<Rightarrow> (st, Inl (wrapf ''tools/list: '' e))
      | (st, Inr page) \<Rightarrow>
          (if cursor_of page = [] then (st, Inr (all @ lt_Tools page))
           else list_pages lib c n (cursor_of page) (all @ lt_Tools page) st))"

definition ListTools :: "'w mcpLib \<Rightarrow> cid \<Rightarrow> 'w mcp \<Rightarrow> 'w mcp \<times> (err + mcpTool list)" where
  "ListTools lib c st = list_pages lib c maxListToolsPages [] [] st"

definition CallTool :: "'w mcpLib \<Rightarrow> cid \<Rightarrow> string \<Rightarrow> string \<Rightarrow> 'w mcp \<Rightarrow> 'w mcp \<times> (err + callToolResult)" where
  "CallTool lib c name args st =
     (if name = [] then (st, Inl (Plain ''call tool: empty name''))
      else case (if args = [] then Inr [(''name'', JStr name)]
                 else case ml_value lib args of
                   Inl e \<Rightarrow> Inl (wrapf ''call tool: invalid args JSON: '' e)
                 | Inr v \<Rightarrow> Inr [(''arguments'', v), (''name'', JStr name)]) of
        Inl e \<Rightarrow> (st, Inl e)
      | Inr params \<Rightarrow>
          (case mcp_call lib c ''tools/call'' (Some (JObj params)) (ml_result lib) \<lparr>ct_Content = [], ct_IsError = False\<rparr> st of
             (st, Inl e) \<Rightarrow> (st, Inl (wrapf (''tools/call '' @ go_quote name @ '': '') e))
           | (st, Inr res) \<Rightarrow> (st, Inr res)))"

section \<open>Configuration\<close>

definition close_all :: "'w mcpLib \<Rightarrow> cid list \<Rightarrow> 'w mcp \<Rightarrow> 'w mcp" where
  "close_all lib cs st = fold (\<lambda>c st. fst (Close lib c st)) cs st"

definition server_identity :: "nat \<Rightarrow> serverConfig \<Rightarrow> string" where
  "server_identity i sc =
     (if sc_Name sc \<noteq> [] then sc_Name sc
      else if sc_Endpoint sc \<noteq> [] then sc_Endpoint sc
      else ''servers['' @ itoa i @ '']'')"

definition server_options :: "'w mcpLib \<Rightarrow> nat \<Rightarrow> serverConfig \<Rightarrow> err + (mcpClient \<Rightarrow> mcpClient) list" where
  "server_options lib i sc =
     (let who = go_quote (server_identity i sc); opts = map (\<lambda>(k, v). WithHeader k v) (ml_range lib (sc_Headers sc)) in
      if sc_Endpoint sc = [] then Inl (Plain (''mcp: server '' @ who @ '': empty endpoint''))
      else if sc_Timeout sc = [] then Inr opts
      else case ml_duration lib (sc_Timeout sc) of
        None \<Rightarrow> Inl (Plain (''mcp: server '' @ who @ '': invalid timeout '' @ go_quote (sc_Timeout sc)))
      | Some d \<Rightarrow> Inr (opts @ [mcp_WithHTTPTimeout d]))"

fun connect_servers ::
  "'w mcpLib \<Rightarrow> string \<Rightarrow> string \<Rightarrow> nat \<Rightarrow> serverConfig list \<Rightarrow> cid list \<Rightarrow> 'w mcp \<Rightarrow> 'w mcp \<times> (err + cid list)" where
  "connect_servers lib name version i [] clients st = (st, Inr clients)"
| "connect_servers lib name version i (sc # scs) clients st =
     (case server_options lib i sc of
        Inl e \<Rightarrow> (st, Inl e)
      | Inr opts \<Rightarrow>
          (let (st, c) = mcp_New (sc_Endpoint sc) opts st in
           case Initialize lib c name version st of
             (st, Some e) \<Rightarrow>
               (close_all lib clients st,
                Inl (wrapf (''mcp: initialize server '' @ go_quote (server_identity i sc) @ '': '') e))
           | (st, None) \<Rightarrow> connect_servers lib name version (Suc i) scs (clients @ [c]) st))"

definition LoadConfig :: "'w mcpLib \<Rightarrow> string \<Rightarrow> string \<Rightarrow> string \<Rightarrow> 'w mcp \<Rightarrow> 'w mcp \<times> (err + cid list)" where
  "LoadConfig lib path name version st =
     (if path = [] then (st, Inl (Plain ''mcp: config path is required''))
      else case ml_readFile lib path (ms_world st) of
        Inl e \<Rightarrow> (st, Inl (wrapf (''mcp: reading config '' @ go_quote path @ '': '') e))
      | Inr data \<Rightarrow>
          (case ml_config lib data of
             Inl e \<Rightarrow> (st, Inl (wrapf (''mcp: parsing config '' @ go_quote path @ '': '') e))
           | Inr [] \<Rightarrow> (st, Inl (Plain (''mcp: no servers in config file '' @ go_quote path)))
           | Inr scs \<Rightarrow> connect_servers lib name version 0 scs [] st))"

section \<open>The adapter\<close>

record toolAdapter =
  ta_client :: cid
  ta_tool :: mcpTool
  ta_descLimit :: int

definition WithDescriptionLimit :: "int \<Rightarrow> toolAdapter \<Rightarrow> toolAdapter" where
  "WithDescriptionLimit n a = a\<lparr>ta_descLimit := (if n < 0 then 0 else n)\<rparr>"

definition NewToolAdapter :: "cid \<Rightarrow> mcpTool \<Rightarrow> (toolAdapter \<Rightarrow> toolAdapter) list \<Rightarrow> toolAdapter" where
  "NewToolAdapter c t opts = fold (\<lambda>opt a. opt a) opts \<lparr>ta_client = c, ta_tool = t, ta_descLimit = 0\<rparr>"

definition FilterTools :: "mcpTool list \<Rightarrow> string set \<Rightarrow> mcpTool list" where
  "FilterTools tools allow = (if allow = {} then [] else filter (\<lambda>t. mt_Name t \<noteq> [] \<and> mt_Name t \<in> allow) tools)"

text \<open>Tab is kept; the other C0 controls, DEL and the category Cc are dropped.\<close>

definition kept_rune :: "nat \<Rightarrow> bool" where
  "kept_rune r = (r = 9 \<or> \<not> (r < 0x20 \<or> r = 0x7F) \<and> \<not> (0x80 \<le> r \<and> r \<le> 0x9F))"

definition stripASCIIControls :: "string \<Rightarrow> string" where
  "stripASCIIControls s = concat (map encode_rune (filter kept_rune (runes s)))"

text \<open>The bytes before the rune number \<open>n\<close>.\<close>

primrec rune_prefix :: "nat \<Rightarrow> string \<Rightarrow> string" where
  "rune_prefix 0 s = []"
| "rune_prefix (Suc n) s =
     (if s = [] then []
      else let w = snd (decode_bytes (map of_char s)) in take w s @ rune_prefix n (drop w s))"

definition truncateRunes :: "string \<Rightarrow> int \<Rightarrow> string" where
  "truncateRunes s n = (if n \<le> 0 \<or> s = [] \<or> int (length (runes s)) \<le> n then s else rune_prefix (nat n) s)"

definition adapter_Description :: "toolAdapter \<Rightarrow> string" where
  "adapter_Description a =
     (if ta_descLimit a \<le> 0 then mt_Description (ta_tool a)
      else truncateRunes (stripASCIIControls (mt_Description (ta_tool a))) (ta_descLimit a))"

definition adapter_Schema :: "toolAdapter \<Rightarrow> string option" where
  "adapter_Schema a = (if mt_InputSchema (ta_tool a) = [] then None else Some (mt_InputSchema (ta_tool a)))"

text \<open>The text blocks, separated by newlines once something has been written.\<close>

definition join_text :: "contentBlock list \<Rightarrow> string" where
  "join_text bs = fold (\<lambda>b out. if cb_Type b = ''text'' then (if out \<noteq> [] then out @ [CHR 0x0A] else out) @ cb_Text b else out) bs []"

definition result_output :: "callToolResult \<Rightarrow> string" where
  "result_output res =
     (let out = join_text (ct_Content res) in
      if out = [] then (if ct_IsError res then ''tool reported an error without text content'' else ''tool returned no text content'')
      else if ct_IsError res then ''[tool error] '' @ out else out)"

definition adapter_Call :: "'w mcpLib \<Rightarrow> toolAdapter \<Rightarrow> string \<Rightarrow> 'w mcp \<Rightarrow> 'w mcp \<times> (err + string)" where
  "adapter_Call lib a input st =
     (case CallTool lib (ta_client a) (mt_Name (ta_tool a)) input st of
        (st, Inl e) \<Rightarrow> (st, Inl e)
      | (st, Inr res) \<Rightarrow> (st, Inr (result_output res)))"

text \<open>The adapter as a tool of an agent whose outside state holds the MCP state.\<close>

definition adapter_tool :: "'w mcpLib \<Rightarrow> toolAdapter \<Rightarrow> 'w mcp tool" where
  "adapter_tool lib a = ExtTool
     \<lparr>xt_Name = mt_Name (ta_tool a), xt_Description = adapter_Description a,
      xt_Call = (\<lambda>ctx input st. let (st, r) = adapter_Call lib a input st in (st, r, [])),
      xt_Facts = None, xt_Schema = adapter_Schema a\<rparr>"

end
