(* ===== verification/McpSpec.thy ===== *)
theory McpSpec
  imports Mcp
begin

text \<open>
  What the MCP client promises: it reads exactly the first event of a stream, it keeps one session
  until it is closed and sends its id with every later request, listing stays within its page
  bound, and a failed handshake closes the sessions opened before it. The counterexamples show the
  sessions that are left open, and a notification that is taken for an empty result.
\<close>

section \<open>Event streams\<close>

definition NLc :: char where "NLc = CHR 0x0A"

text \<open>An event as a server writes it: one \<^verbatim>\<open>data:\<close> line per line of the payload, and a blank line.\<close>

definition sse_event :: "string list \<Rightarrow> string" where
  "sse_event data = concat (map (\<lambda>l. ''data: '' @ l @ [NLc]) data) @ [NLc]"

lemma split_event: "\<forall>l\<in>set data. NLc \<notin> set l \<Longrightarrow> split_on NLc (sse_event data @ rest) = map (\<lambda>l. ''data: '' @ l) data @ [] # split_on NLc rest"
proof (induction data)
  case Nil
  show ?case by (simp add: sse_event_def)
next
  case (Cons l data)
  have "NLc \<notin> set (''data: '' @ l)" using Cons.prems by (simp add: NLc_def)
  then have "split_on NLc ((''data: '' @ l) @ NLc # sse_event data @ rest) = (''data: '' @ l) # split_on NLc (sse_event data @ rest)"
    by (rule split_on_append)
  with Cons show ?case by (simp add: sse_event_def)
qed

lemma sse_scan_data:
  "sse_scan (map (\<lambda>l. ''data: '' @ l) data @ ls) acc = sse_scan ls (acc @ data)"
  by (induction data arbitrary: acc) (simp_all add: has_prefix_def Let_def)

lemma parseSSEChunk_read:
  assumes "data \<noteq> []" "\<forall>l\<in>set data. CHR 0x0A \<notin> set l \<and> CHR 0x0D \<notin> set l \<and> length l + 6 < MaxMCPResponseBytes"
  shows "parseSSEChunk (sse_event data @ rest, e) = Inr (Some (str_join [CHR 0x0A] data))"
proof -
  let ?first = "map (\<lambda>l. ''data: '' @ l) data @ [[]]"
  let ?raw = "split_on CHR 0x0A (sse_event data @ rest)"
  have raw: "?raw = ?first @ split_on CHR 0x0A rest"
    using split_event [of data rest] assms(2) by (simp add: NLc_def)
  have first: "strip_return l = l \<and> length l < MaxMCPResponseBytes" if "l \<in> set ?first" for l
  proof -
    have "CHR 0x0D \<notin> set l" "length l < MaxMCPResponseBytes"
      using that assms(2) by (auto simp: MaxMCPResponseBytes_def)
    then show ?thesis by (simp add: strip_return_plain)
  qed
  then have fit: "takeWhile (\<lambda>l. length l < MaxMCPResponseBytes) ?raw = ?first @ takeWhile (\<lambda>l. length l < MaxMCPResponseBytes) (split_on CHR 0x0A rest)"
    unfolding raw by (subst takeWhile_append2) auto
  have same: "map strip_return ?first = ?first" using first by (simp add: map_idI)
  have scan: "sse_scan (map strip_return (?first @ more)) [] = Inr (str_join [CHR 0x0A] data)" for more
    using sse_scan_data [of data "[] # map strip_return more" "[]"] assms(1) same by (simp only: map_append) simp
  have "\<exists>more. scan_lines (sse_event data @ rest) = map strip_return (?first @ more)"
  proof -
    have "last ?raw = last (split_on CHR 0x0A rest)" unfolding raw by simp
    then show ?thesis unfolding scan_lines_def Let_def raw by (auto simp: butlast_append)
  qed
  then obtain more where more: "scan_lines (sse_event data @ rest) = map strip_return (?first @ more)" by blast
  show ?thesis unfolding parseSSEChunk_def Let_def fst_conv
    by (simp only: fit more scan sum.case split: if_split) simp
qed

text \<open>
  C34. The client reads back the first event of a stream, whatever follows it: the payload of a
  stream that starts with an event of the given lines is these lines, joined by newlines, even when
  the connection breaks later.
\<close>
theorem parseSSEChunk_first_event:
  assumes "data \<noteq> []" "\<forall>l\<in>set data. CHR 0x0A \<notin> set l \<and> CHR 0x0D \<notin> set l \<and> length l + 6 < MaxMCPResponseBytes"
  shows "parseSSEChunk (sse_event data @ rest, e) = Inr (Some (str_join [CHR 0x0A] data))"
  by (rule parseSSEChunk_read [OF assms])

section \<open>Sessions\<close>

text \<open>A transport that also records the requests it is given.\<close>

definition recording :: "'w mcpLib \<Rightarrow> ('w \<times> httpRequest list) mcpLib" where
  "recording lib =
     \<lparr>ml_do = (\<lambda>req (w, log). let (w', r) = ml_do lib req w in ((w', log @ [req]), r)),
      ml_request = ml_request lib, ml_response = ml_response lib, ml_value = ml_value lib, ml_page = ml_page lib,
      ml_result = ml_result lib, ml_readFile = (\<lambda>p (w, log). ml_readFile lib p w), ml_config = ml_config lib,
      ml_duration = ml_duration lib, ml_range = ml_range lib\<rparr>"

datatype mcpOp = OpInitialize string string | OpListTools | OpCallTool string string

primrec mcp_op :: "'w mcpLib \<Rightarrow> cid \<Rightarrow> mcpOp \<Rightarrow> 'w mcp \<Rightarrow> 'w mcp" where
  "mcp_op lib c (OpInitialize name version) st = fst (Initialize lib c name version st)"
| "mcp_op lib c OpListTools st = fst (ListTools lib c st)"
| "mcp_op lib c (OpCallTool name args) st = fst (CallTool lib c name args st)"

text \<open>
  From one state to a later one, requests carrying a session id were sent and the client kept it.
\<close>

definition in_session :: "string \<Rightarrow> cid \<Rightarrow> ('w \<times> httpRequest list) mcp \<Rightarrow> ('w \<times> httpRequest list) mcp \<Rightarrow> bool" where
  "in_session sid c st st' =
     (ms_clients st' c = ms_clients st c
      \<and> (\<exists>reqs. snd (ms_world st') = snd (ms_world st) @ reqs
           \<and> (\<forall>req\<in>set reqs. get_header ''Mcp-Session-Id'' (hq_Headers req) = Some sid)))"

lemma in_session_refl: "in_session sid c st st"
  by (simp add: in_session_def)

lemma in_session_trans: "in_session sid c st st1 \<Longrightarrow> in_session sid c st1 st2 \<Longrightarrow> in_session sid c st st2"
  unfolding in_session_def by fastforce

lemma get_set_header: "get_header k (set_header k v hs) = Some v"
proof -
  have "filter (\<lambda>(k', _). same_key k' k) (set_header k v hs) = [(k, v)]"
    by (auto simp: set_header_def same_key_def filter_empty_conv)
  then show ?thesis by (simp add: get_header_def)
qed

lemma mcp_do_session:
  assumes "mcp_do (recording lib) c body st = (st', r)" "mc_sessionID (ms_clients st c) = sid" "sid \<noteq> []"
  shows "in_session sid c st st'"
proof (cases "ml_request lib (mc_endpoint (ms_clients st c))")
  case (Some e)
  then show ?thesis using assms(1) in_session_refl by (auto simp: mcp_do_def recording_def)
next
  case None
  let ?req = "\<lparr>hq_Method = ''POST'', hq_URL = mc_endpoint (ms_clients st c), hq_Headers = post_headers (ms_clients st c),
      hq_Body = Some body, hq_Timeout = mc_timeout (ms_clients st c)\<rparr>"
  obtain w log where st: "ms_world st = (w, log)" by fastforce
  obtain w' x where d: "ml_do lib ?req w = (w', x)" by fastforce
  have "get_header ''Mcp-Session-Id'' (post_headers (ms_clients st c)) = Some sid"
    using assms(2,3) get_set_header by (simp add: post_headers_def Let_def)
  moreover have "st' = st\<lparr>ms_world := (w', log @ [?req])\<rparr>"
    using assms None st d by (cases x) (auto simp: mcp_do_def recording_def send_http_def Let_def)
  ultimately show ?thesis using st by (simp add: in_session_def)
qed

text \<open>Each operation keeps the session.\<close>

definition sessioned :: "cid \<Rightarrow> (('w \<times> httpRequest list) mcp \<Rightarrow> ('w \<times> httpRequest list) mcp \<times> 'a) \<Rightarrow> bool" where
  "sessioned c f = (\<forall>st sid. mc_sessionID (ms_clients st c) = sid \<longrightarrow> sid \<noteq> [] \<longrightarrow> in_session sid c st (fst (f st)))"

lemma sessionedD: "sessioned c f \<Longrightarrow> mc_sessionID (ms_clients st c) = sid \<Longrightarrow> sid \<noteq> [] \<Longrightarrow> f st = (st', x) \<Longrightarrow> in_session sid c st st'"
  unfolding sessioned_def by (metis fst_conv)

lemma sessionedI:
  "(\<And>st sid. mc_sessionID (ms_clients st c) = sid \<Longrightarrow> sid \<noteq> [] \<Longrightarrow> in_session sid c st (fst (f st))) \<Longrightarrow> sessioned c f"
  by (simp add: sessioned_def)

lemma sessioned_step: "sessioned c f \<Longrightarrow> mc_sessionID (ms_clients st c) = sid \<Longrightarrow> sid \<noteq> [] \<Longrightarrow> in_session sid c st (fst (f st))"
  unfolding sessioned_def by blast

lemma in_session_id: "in_session sid c st st' \<Longrightarrow> mc_sessionID (ms_clients st' c) = mc_sessionID (ms_clients st c)"
  by (simp add: in_session_def)

lemma sessioned_do: "sessioned c (mcp_do (recording lib) c body)"
  by (rule sessionedI) (metis mcp_do_session prod.collapse)

lemma sessioned_call: "sessioned c (mcp_call (recording lib) c method params decode zero)"
proof -
  have "in_session sid c st (fst (mcp_call (recording lib) c method params decode zero st))"
    if s: "mc_sessionID (ms_clients st c) = sid" "sid \<noteq> []" for st sid
  proof -
    let ?st = "st\<lparr>ms_requestID := ms_requestID st + 1\<rparr>"
    obtain st' r where d: "mcp_do (recording lib) c \<lparr>rq_JSONRPC = ''2.0'', rq_ID = ms_requestID st + 1, rq_Method = method, rq_Params = params\<rparr> ?st = (st', r)"
      by fastforce
    have "in_session sid c ?st st'" by (rule mcp_do_session [OF d]) (simp_all add: s)
    then have "in_session sid c st st'" by (simp add: in_session_def)
    then show ?thesis using d by (simp add: mcp_call_def nextRequestID_def Let_def split: sum.split)
  qed
  then show ?thesis by (simp add: sessioned_def)
qed

lemma sessioned_notify: "sessioned c (notify (recording lib) c method params)"
  using sessioned_do [of c lib "\<lparr>rq_JSONRPC = ''2.0'', rq_ID = 0, rq_Method = method, rq_Params = params\<rparr>"]
  by (simp add: sessioned_def notify_def split: prod.split sum.split) fastforce

lemma sessioned_Initialize: "sessioned c (Initialize (recording lib) c name version)"
proof (rule sessionedI, goal_cases)
  case s: (1 st sid)
  let ?call = "mcp_call (recording lib) c ''initialize'' (Some (initialize_params name version)) Inr []"
  obtain st1 r where f: "?call st = (st1, r)" by fastforce
  note one = sessionedD [OF sessioned_call s f]
  obtain st2 e where g: "notify (recording lib) c ''notifications/initialized'' None st1 = (st2, e)" by fastforce
  have two: "in_session sid c st1 st2"
    by (rule sessionedD [OF sessioned_notify _ s(2) g]) (simp add: in_session_id [OF one] s(1))
  show ?case
    using one in_session_trans [OF one two] f g by (simp add: Initialize_def split: sum.split option.split)
qed

lemma sessioned_pages: "sessioned c (list_pages (recording lib) c n cursor all)"
proof (induction n arbitrary: cursor all)
  case 0
  show ?case by (simp add: sessioned_def in_session_refl)
next
  case (Suc n)
  show ?case
  proof (rule sessionedI, goal_cases)
    case s: (1 st sid)
    let ?call = "mcp_call (recording lib) c ''tools/list'' (Some (JObj (if cursor \<noteq> [] then [(''cursor'', JStr cursor)] else [])))
        (ml_page (recording lib)) \<lparr>lt_Tools = [], lt_NextCursor = [], lt_NextCursorField = []\<rparr>"
    obtain st1 r where f: "?call st = (st1, r)" by fastforce
    note one = sessionedD [OF sessioned_call s f]
    have two: "in_session sid c st1 (fst (list_pages (recording lib) c n cur more st1))" for cur more
      by (rule sessioned_step [OF Suc.IH _ s(2)]) (simp add: in_session_id [OF one] s(1))
    show ?case
      using one in_session_trans [OF one two] f by (simp split: sum.split)
  qed
qed

lemma sessioned_CallTool: "sessioned c (CallTool (recording lib) c name args)"
proof (rule sessionedI, goal_cases)
  case s: (1 st sid)
  have "in_session sid c st (fst (mcp_call (recording lib) c ''tools/call'' params decode zero st))" for params decode and zero :: callToolResult
    by (rule sessioned_step [OF sessioned_call s])
  then show ?case by (simp add: CallTool_def in_session_refl case_prod_beta split: sum.split)
qed

text \<open>
  C23. A session is kept: once a client has a session id, no sequence of handshakes, listings and tool
  calls changes it, and every request they send carries it, whatever headers were configured and
  whatever the server answers.
\<close>
theorem mcp_session_sticky:
  assumes "mc_sessionID (ms_clients st c) = sid" "sid \<noteq> []"
  shows "in_session sid c st (fold (mcp_op (recording lib) c) ops st)"
  using assms
proof (induction ops arbitrary: st)
  case Nil
  show ?case by (simp add: in_session_refl)
next
  case (Cons op ops)
  have one: "in_session sid c st (mcp_op (recording lib) c op st)"
    using sessioned_step [OF sessioned_Initialize Cons.prems] sessioned_step [OF sessioned_pages Cons.prems]
      sessioned_step [OF sessioned_CallTool Cons.prems]
    by (cases op) (simp_all add: ListTools_def)
  moreover have "in_session sid c (mcp_op (recording lib) c op st) (fold (mcp_op (recording lib) c) (op # ops) st)"
    using Cons.IH [of "mcp_op (recording lib) c op st"] in_session_id [OF one] Cons.prems by simp
  ultimately show ?case by (rule in_session_trans)
qed

section \<open>Configurations\<close>

text \<open>What an operation on one client may change: the outside world, the counter and its session id.\<close>

definition only_session :: "cid \<Rightarrow> 'w mcp \<Rightarrow> 'w mcp \<Rightarrow> bool" where
  "only_session c st st' =
     (ms_next st' = ms_next st
      \<and> (\<exists>sid. ms_clients st' = (ms_clients st)(c := (ms_clients st c)\<lparr>mc_sessionID := sid\<rparr>)))"

lemma only_session_refl: "ms_next st' = ms_next st \<Longrightarrow> ms_clients st' = ms_clients st \<Longrightarrow> only_session c st st'"
  unfolding only_session_def by (intro conjI exI [of _ "mc_sessionID (ms_clients st c)"]) simp_all

lemma only_session_trans: "only_session c st st1 \<Longrightarrow> only_session c st1 st2 \<Longrightarrow> only_session c st st2"
  by (auto simp: only_session_def)

lemma only_sessionD:
  assumes "only_session c st st'"
  shows "ms_next st' = ms_next st" "mc_endpoint (ms_clients st' d) = mc_endpoint (ms_clients st d)"
    "d \<noteq> c \<Longrightarrow> ms_clients st' d = ms_clients st d"
  using assms by (auto simp: only_session_def)

lemma mcp_do_only: "mcp_do lib c body st = (st', r) \<Longrightarrow> only_session c st st'"
  by (auto simp: mcp_do_def send_http_def set_session_def Let_def intro: only_session_refl split: option.splits sum.splits prod.splits if_splits)
    (auto simp: only_session_def)

lemma mcp_call_only: "mcp_call lib c method params decode zero st = (st', r) \<Longrightarrow> only_session c st st'"
  by (auto simp: mcp_call_def nextRequestID_def Let_def split: prod.splits sum.splits dest!: mcp_do_only) (auto simp: only_session_def)

lemma notify_only: "notify lib c method params st = (st', r) \<Longrightarrow> only_session c st st'"
  by (auto simp: notify_def split: prod.splits sum.splits dest!: mcp_do_only)

lemma Initialize_only: "Initialize lib c name version st = (st', r) \<Longrightarrow> only_session c st st'"
  unfolding Initialize_def
  by (auto split: prod.splits sum.splits option.splits dest!: mcp_call_only notify_only intro: only_session_trans)

lemma Close_closed: "Close lib c st = (st', r) \<Longrightarrow> only_session c st st' \<and> mc_sessionID (ms_clients st' c) = []"
  by (auto simp: Close_def send_http_def set_session_def only_session_def Let_def split: option.splits sum.splits prod.splits if_splits)

lemma close_all_next: "ms_next (close_all lib cs st) = ms_next st"
proof (induction cs arbitrary: st)
  case (Cons d cs)
  obtain st1 r where d: "Close lib d st = (st1, r)" by fastforce
  show ?case using Cons.IH [of st1] d only_sessionD(1) [OF conjunct1 [OF Close_closed [OF d]]] by (simp add: close_all_def)
qed (simp add: close_all_def)

lemma close_all_closed:
  "c \<in> set cs \<or> mc_sessionID (ms_clients st c) = [] \<Longrightarrow> mc_sessionID (ms_clients (close_all lib cs st) c) = []"
proof (induction cs arbitrary: st)
  case (Cons d cs)
  obtain st1 r where d: "Close lib d st = (st1, r)" by fastforce
  note D = Close_closed [OF d]
  have "c \<in> set cs \<or> mc_sessionID (ms_clients st1 c) = []"
  proof (cases "c = d")
    case False
    have "ms_clients st1 c = ms_clients st c" by (rule only_sessionD(3) [OF conjunct1 [OF D] False])
    with Cons.prems False show ?thesis by simp
  qed (use D in simp)
  from Cons.IH [OF this] show ?case using d by (simp add: close_all_def)
qed (simp add: close_all_def)

lemma server_options_refused: "server_options lib i sc = Inl e \<Longrightarrow> \<exists>s. e = Plain s"
  by (auto simp: server_options_def Let_def split: if_splits option.splits)

lemma mcp_New_client:
  assumes "server_options lib i sc = Inr opts" "mcp_New (sc_Endpoint sc) opts st = (st1, c)"
  shows "c = ms_next st" "ms_next st1 = Suc c" "d \<noteq> c \<Longrightarrow> ms_clients st1 d = ms_clients st d"
    "mc_endpoint (ms_clients st1 c) = sc_Endpoint sc" "sc_Endpoint sc \<noteq> []"
    "mc_sessionID (ms_clients st1 c) = []" "ms_world st1 = ms_world st"
proof -
  have keep: "mc_endpoint (opt cl) = mc_endpoint cl \<and> mc_sessionID (opt cl) = mc_sessionID cl" if "opt \<in> set opts" for opt cl
    using that assms(1)
    by (auto simp: server_options_def WithHeader_def mcp_WithHTTPTimeout_def Let_def split: if_splits option.splits)
  have "mc_endpoint (fold (\<lambda>opt c. opt c) os cl) = mc_endpoint cl \<and> mc_sessionID (fold (\<lambda>opt c. opt c) os cl) = mc_sessionID cl"
    if "set os \<subseteq> set opts" for os cl
    using that keep by (induction os arbitrary: cl) auto
  then show "mc_endpoint (ms_clients st1 c) = sc_Endpoint sc" "mc_sessionID (ms_clients st1 c) = []"
    using assms(2) by (auto simp: mcp_New_def)
  show "ms_world st1 = ms_world st" using assms(2) by (auto simp: mcp_New_def)
  show "c = ms_next st" "ms_next st1 = Suc c" "d \<noteq> c \<Longrightarrow> ms_clients st1 d = ms_clients st d"
    using assms(2) by (auto simp: mcp_New_def)
  show "sc_Endpoint sc \<noteq> []" using assms(1) by (auto simp: server_options_def Let_def split: if_splits)
qed

text \<open>
  After a run over the remaining servers: all connected at consecutive addresses, or the document
  was refused, or a handshake failed and every client before it is without a session.
\<close>

definition connected :: "cid list \<Rightarrow> serverConfig list \<Rightarrow> 'w mcp \<Rightarrow> 'w mcp \<Rightarrow> err + cid list \<Rightarrow> bool" where
  "connected clients scs st st' r =
     (case r of
        Inr cs \<Rightarrow> cs = clients @ [ms_next st..<ms_next st + length scs]
          \<and> (\<forall>k<length scs. sc_Endpoint (scs ! k) \<noteq> [] \<and> mc_endpoint (ms_clients st' (ms_next st + k)) = sc_Endpoint (scs ! k))
          \<and> (\<forall>d<ms_next st. ms_clients st' d = ms_clients st d)
      | Inl e \<Rightarrow> (\<exists>s. e = Plain s)
          \<or> (\<forall>c. c \<in> set clients \<or> ms_next st \<le> c \<and> Suc c < ms_next st' \<longrightarrow> mc_sessionID (ms_clients st' c) = []))"

lemma connect_servers_connected:
  assumes "connect_servers lib name version i scs clients st = (st', r)" "\<forall>c\<in>set clients. c < ms_next st"
  shows "connected clients scs st st' r"
  using assms
proof (induction scs arbitrary: i clients st)
  case Nil
  then show ?case by (auto simp: connected_def)
next
  case (Cons sc scs)
  show ?case
  proof (cases "server_options lib i sc")
    case (Inl e)
    then obtain s where "e = Plain s" using server_options_refused by blast
    moreover have "r = Inl e" using Cons.prems Inl by simp
    ultimately show ?thesis by (simp add: connected_def)
  next
    case (Inr opts)
    obtain st1 c where new: "mcp_New (sc_Endpoint sc) opts st = (st1, c)" by fastforce
    note N = mcp_New_client [OF Inr new]
    obtain st2 e where init: "Initialize lib c name version st1 = (st2, e)" by fastforce
    note O = only_sessionD [OF Initialize_only [OF init]]
    show ?thesis
    proof (cases e)
      case (Some x)
      have r: "st' = close_all lib clients st2"
        "r = Inl (wrapf (''mcp: initialize server '' @ go_quote (server_identity i sc) @ '': '') x)"
        using Cons.prems(1) Inr new init Some by simp_all
      have "mc_sessionID (ms_clients st' d) = []" if "d \<in> set clients \<or> ms_next st \<le> d \<and> Suc d < ms_next st'" for d
        using that close_all_closed [of d clients st2 lib] close_all_next [of lib clients st2] r(1) N(1,2) O(1) by auto
      then show ?thesis using r(2) by (simp add: connected_def)
    next
      case None
      have rest: "connect_servers lib name version (Suc i) scs (clients @ [c]) st2 = (st', r)"
        using Cons.prems(1) Inr new init None by simp
      have less: "\<forall>d\<in>set (clients @ [c]). d < ms_next st2" using Cons.prems(2) N(1,2) O(1) by auto
      have next2: "ms_next st2 = Suc (ms_next st)" using N(1,2) O(1) by simp
      note IH = Cons.IH [OF rest less, unfolded connected_def next2]
      show ?thesis
      proof (cases r)
        case (Inl x)
        have "d \<in> set (clients @ [c]) \<or> Suc (ms_next st) \<le> d \<and> Suc d < ms_next st'"
          if "d \<in> set clients \<or> ms_next st \<le> d \<and> Suc d < ms_next st'" for d
          using that N(1) by (cases "d = c") auto
        moreover have "(\<exists>s. x = Plain s) \<or> (\<forall>d. d \<in> set (clients @ [c]) \<or> Suc (ms_next st) \<le> d \<and> Suc d < ms_next st'
            \<longrightarrow> mc_sessionID (ms_clients st' d) = [])"
          using IH unfolding Inl sum.case .
        ultimately show ?thesis unfolding Inl connected_def sum.case by blast
      next
        case (Inr cs)
        from IH Inr have cs: "cs = (clients @ [c]) @ [Suc (ms_next st)..<Suc (ms_next st) + length scs]"
          and ends: "\<And>k. k < length scs \<Longrightarrow> sc_Endpoint (scs ! k) \<noteq> [] \<and> mc_endpoint (ms_clients st' (Suc (ms_next st) + k)) = sc_Endpoint (scs ! k)"
          and old: "\<And>d. d < Suc (ms_next st) \<Longrightarrow> ms_clients st' d = ms_clients st2 d"
          by auto
        have "ms_clients st' d = ms_clients st d" if "d < ms_next st" for d
          using that old [of d] O(3) [of d] N(3) [of d] N(1) by simp
        moreover have "sc_Endpoint ((sc # scs) ! k) \<noteq> [] \<and> mc_endpoint (ms_clients st' (ms_next st + k)) = sc_Endpoint ((sc # scs) ! k)"
          if "k < length (sc # scs)" for k
          using that ends [of "k - 1"] old [of c] N(1,4,5) O(2) [of c] by (cases k) simp_all
        moreover have "cs = clients @ [ms_next st..<ms_next st + length (sc # scs)]"
          using cs N(1) by (simp add: upt_conv_Cons del: upt_Suc)
        ultimately show ?thesis using Inr by (simp add: connected_def)
      qed
    qed
  qed
qed

text \<open>A transport that also records what it was asked and what it answered.\<close>

type_synonym exchanges = "(httpRequest \<times> (err + httpResponse)) list"

definition exchanging :: "'w mcpLib \<Rightarrow> ('w \<times> exchanges) mcpLib" where
  "exchanging lib =
     \<lparr>ml_do = (\<lambda>req (w, log). let (w', r) = ml_do lib req w in ((w', log @ [(req, r)]), r)),
      ml_request = ml_request lib, ml_response = ml_response lib, ml_value = ml_value lib, ml_page = ml_page lib,
      ml_result = ml_result lib, ml_readFile = (\<lambda>p (w, log). ml_readFile lib p w), ml_config = ml_config lib,
      ml_duration = ml_duration lib, ml_range = ml_range lib\<rparr>"

text \<open>
  A completed handshake as the wire shows it: \<^verbatim>\<open>initialize\<close> was answered with a status of success and an
  envelope without an error, then the notification \<^verbatim>\<open>notifications/initialized\<close> was accepted; the second
  request carries the session the first answer opened, and that is the session the client holds.
\<close>

definition posted :: "string \<Rightarrow> string \<Rightarrow> json option \<Rightarrow> httpRequest \<Rightarrow> bool" where
  "posted endpoint method params q \<longleftrightarrow>
     hq_Method q = ''POST'' \<and> hq_URL q = endpoint
     \<and> (\<exists>b. hq_Body q = Some b \<and> rq_Method b = method \<and> rq_Params b = params)"

definition handshake :: "'w mcpLib \<Rightarrow> string \<Rightarrow> string \<Rightarrow> string \<Rightarrow> string \<Rightarrow> exchanges \<Rightarrow> bool" where
  "handshake lib name version endpoint sid wire \<longleftrightarrow>
     (\<exists>q a q' a' payload rpc. wire = [(q, Inr a), (q', Inr a')]
        \<and> posted endpoint ''initialize'' (Some (initialize_params name version)) q
        \<and> http_ok (hr_Status a) \<and> readJSONRPCPayload (a\<lparr>hr_Body := readLimited (hr_Body a)\<rparr>) = Inr payload
        \<and> ml_response lib payload = Inr rpc \<and> rs_Error rpc = None
        \<and> posted endpoint ''notifications/initialized'' None q' \<and> http_ok (hr_Status a')
        \<and> (if hr_Session a = [] then sid = hr_Session a'
           else sid = hr_Session a \<and> get_header ''Mcp-Session-Id'' (hq_Headers q') = Some sid))"

lemma mcp_do_exchange:
  assumes "mcp_do (exchanging lib) c body st = (st', Inr resp)"
  shows "\<exists>q a. snd (ms_world st') = snd (ms_world st) @ [(q, Inr a)] \<and> resp = a\<lparr>hr_Body := readLimited (hr_Body a)\<rparr>
     \<and> posted (mc_endpoint (ms_clients st c)) (rq_Method body) (rq_Params body) q
     \<and> hq_Headers q = post_headers (ms_clients st c)
     \<and> mc_sessionID (ms_clients st' c) = (if mc_sessionID (ms_clients st c) = [] then hr_Session a else mc_sessionID (ms_clients st c))
     \<and> mc_endpoint (ms_clients st' c) = mc_endpoint (ms_clients st c)"
proof -
  let ?req = "\<lparr>hq_Method = ''POST'', hq_URL = mc_endpoint (ms_clients st c), hq_Headers = post_headers (ms_clients st c),
      hq_Body = Some body, hq_Timeout = mc_timeout (ms_clients st c)\<rparr>"
  have ok: "ml_request lib (mc_endpoint (ms_clients st c)) = None"
    using assms by (auto simp: mcp_do_def exchanging_def Let_def split: option.splits)
  obtain w log where st: "ms_world st = (w, log)" by fastforce
  obtain w' x where d: "ml_do lib ?req w = (w', x)" by fastforce
  obtain a where a: "x = Inr a"
    using assms ok st d by (cases x) (auto simp: mcp_do_def exchanging_def send_http_def Let_def)
  have "posted (mc_endpoint (ms_clients st c)) (rq_Method body) (rq_Params body) ?req" by (simp add: posted_def)
  moreover have "snd (ms_world st') = snd (ms_world st) @ [(?req, Inr a)] \<and> resp = a\<lparr>hr_Body := readLimited (hr_Body a)\<rparr>
     \<and> mc_sessionID (ms_clients st' c) = (if mc_sessionID (ms_clients st c) = [] then hr_Session a else mc_sessionID (ms_clients st c))
     \<and> mc_endpoint (ms_clients st' c) = mc_endpoint (ms_clients st c)"
    using assms ok st d a by (auto simp: mcp_do_def exchanging_def send_http_def set_session_def Let_def)
  ultimately show ?thesis by (intro exI [of _ ?req] exI [of _ a]) simp
qed

lemma Initialize_handshake:
  assumes "Initialize (exchanging lib) c name version st = (st', None)" "mc_sessionID (ms_clients st c) = []"
  shows "\<exists>log. snd (ms_world st') = snd (ms_world st) @ log
     \<and> handshake lib name version (mc_endpoint (ms_clients st c)) (mc_sessionID (ms_clients st' c)) log"
proof -
  let ?b = "\<lparr>rq_JSONRPC = ''2.0'', rq_ID = ms_requestID st + 1, rq_Method = ''initialize'', rq_Params = Some (initialize_params name version)\<rparr>"
  let ?st = "st\<lparr>ms_requestID := ms_requestID st + 1\<rparr>"
  obtain st1 x where call: "mcp_call (exchanging lib) c ''initialize'' (Some (initialize_params name version)) Inr [] st = (st1, Inr x)"
    and second: "notify (exchanging lib) c ''notifications/initialized'' None st1 = (st', None)"
    using assms(1) by (auto simp: Initialize_def split: prod.splits sum.splits option.splits)
  obtain r1 where d1: "mcp_do (exchanging lib) c ?b ?st = (st1, Inr r1)"
    using call by (auto simp: mcp_call_def nextRequestID_def Let_def split: prod.splits sum.splits)
  obtain payload rpc where ok1: "http_ok (hr_Status r1)" "readJSONRPCPayload r1 = Inr payload" "ml_response lib payload = Inr rpc" "rs_Error rpc = None"
    using call d1 by (auto simp: mcp_call_def nextRequestID_def exchanging_def Let_def split: sum.splits if_splits option.splits)
  obtain r2 where d2: "mcp_do (exchanging lib) c \<lparr>rq_JSONRPC = ''2.0'', rq_ID = 0, rq_Method = ''notifications/initialized'', rq_Params = None\<rparr> st1 = (st', Inr r2)"
    and ok2: "http_ok (hr_Status r2)"
    using second by (auto simp: notify_def split: prod.splits sum.splits if_splits)
  from mcp_do_exchange [OF d1] obtain q a where A: "snd (ms_world st1) = snd (ms_world st) @ [(q, Inr a)]"
    "r1 = a\<lparr>hr_Body := readLimited (hr_Body a)\<rparr>" "mc_sessionID (ms_clients st1 c) = hr_Session a"
    "posted (mc_endpoint (ms_clients st c)) ''initialize'' (Some (initialize_params name version)) q"
    "mc_endpoint (ms_clients st1 c) = mc_endpoint (ms_clients st c)"
    using assms(2) by auto
  from mcp_do_exchange [OF d2] obtain q' a' where B: "snd (ms_world st') = snd (ms_world st1) @ [(q', Inr a')]"
    "r2 = a'\<lparr>hr_Body := readLimited (hr_Body a')\<rparr>" "hq_Headers q' = post_headers (ms_clients st1 c)"
    "mc_sessionID (ms_clients st' c) = (if hr_Session a = [] then hr_Session a' else hr_Session a)"
    "posted (mc_endpoint (ms_clients st c)) ''notifications/initialized'' None q'"
    using A(3,5) by auto
  have "get_header ''Mcp-Session-Id'' (hq_Headers q') = Some (hr_Session a)" if "hr_Session a \<noteq> []"
    using that B(3) A(3) get_set_header by (simp add: post_headers_def Let_def)
  then have "handshake lib name version (mc_endpoint (ms_clients st c)) (mc_sessionID (ms_clients st' c)) [(q, Inr a), (q', Inr a')]"
    using A B ok1 ok2 unfolding handshake_def
    by (intro exI [of _ q] exI [of _ a] exI [of _ q'] exI [of _ a'] exI [of _ payload] exI [of _ rpc]) auto
  with A(1) B(1) show ?thesis by auto
qed

lemma connect_servers_handshakes:
  assumes "connect_servers (exchanging lib) name version i scs clients st = (st', Inr cs)" "\<forall>c\<in>set clients. c < ms_next st"
  shows "\<exists>logs. length logs = length scs \<and> snd (ms_world st') = snd (ms_world st) @ concat logs
     \<and> (\<forall>k<length scs. handshake lib name version (sc_Endpoint (scs ! k)) (mc_sessionID (ms_clients st' (ms_next st + k))) (logs ! k))"
  using assms
proof (induction scs arbitrary: i clients st)
  case (Cons sc scs)
  obtain opts where opts: "server_options (exchanging lib) i sc = Inr opts"
    using Cons.prems(1) by (cases "server_options (exchanging lib) i sc") auto
  obtain st1 c where new: "mcp_New (sc_Endpoint sc) opts st = (st1, c)" by fastforce
  note N = mcp_New_client [OF opts new]
  obtain st2 where init: "Initialize (exchanging lib) c name version st1 = (st2, None)"
    and rest: "connect_servers (exchanging lib) name version (Suc i) scs (clients @ [c]) st2 = (st', Inr cs)"
    using Cons.prems(1) opts new by (auto split: prod.splits option.splits)
  note O = only_sessionD [OF Initialize_only [OF init]]
  have less: "\<forall>d\<in>set (clients @ [c]). d < ms_next st2" using Cons.prems(2) N(1,2) O(1) by auto
  have next2: "ms_next st2 = Suc (ms_next st)" using N(1,2) O(1) by simp
  obtain log where L: "snd (ms_world st2) = snd (ms_world st) @ log"
    "handshake lib name version (sc_Endpoint sc) (mc_sessionID (ms_clients st2 c)) log"
    using Initialize_handshake [OF init N(6)] N(4,7) by auto
  obtain logs where R: "length logs = length scs" "snd (ms_world st') = snd (ms_world st2) @ concat logs"
    "\<And>k. k < length scs \<Longrightarrow> handshake lib name version (sc_Endpoint (scs ! k)) (mc_sessionID (ms_clients st' (Suc (ms_next st) + k))) (logs ! k)"
    using Cons.IH [OF rest less] unfolding next2 by auto
  have "ms_clients st' c = ms_clients st2 c"
    using connect_servers_connected [OF rest less] N(1) next2 by (simp add: connected_def)
  then have "handshake lib name version (sc_Endpoint ((sc # scs) ! k)) (mc_sessionID (ms_clients st' (ms_next st + k))) ((log # logs) ! k)"
    if "k < length (sc # scs)" for k
    using that L(2) N(1) R(3) [of "k - 1"] by (cases k) simp_all
  then show ?case using L(1) R(1,2) by (intro exI [of _ "log # logs"]) simp
qed (intro exI [of _ "[]"], simp)

text \<open>
  C35. Loading a configuration connects to every server of the file in order, or fails. When it returns
  clients, the transport was asked two requests per server and nothing else, in the order of the file:
  each server answered \<^verbatim>\<open>initialize\<close> without an error and accepted the notification that follows, and its
  client holds the session it opened. When it fails because of a handshake, no client of a server before
  the failing one still holds a session. (A file refused for a later entry gives a \<^const>\<open>Plain\<close> error and
  does leave sessions, see below.) The transport is any, seen through a log of its exchanges.
\<close>
theorem LoadConfig_outcome:
  assumes "LoadConfig (exchanging lib) path name version st = (st', r)"
  shows "case r of
      Inr cs \<Rightarrow> \<exists>data scs logs. ml_readFile lib path (fst (ms_world st)) = Inr data \<and> ml_config lib data = Inr scs \<and> scs \<noteq> []
        \<and> cs = [ms_next st..<ms_next st + length scs] \<and> length logs = length scs
        \<and> snd (ms_world st') = snd (ms_world st) @ concat logs
        \<and> (\<forall>k<length scs. mc_endpoint (ms_clients st' (cs ! k)) = sc_Endpoint (scs ! k) \<and> sc_Endpoint (scs ! k) \<noteq> []
             \<and> handshake lib name version (sc_Endpoint (scs ! k)) (mc_sessionID (ms_clients st' (cs ! k))) (logs ! k))
    | Inl e \<Rightarrow> (\<exists>s. e = Plain s) \<or> (\<forall>c. ms_next st \<le> c \<longrightarrow> Suc c < ms_next st' \<longrightarrow> mc_sessionID (ms_clients st' c) = [])"
proof (cases "\<exists>data scs. path \<noteq> [] \<and> ml_readFile lib path (fst (ms_world st)) = Inr data \<and> ml_config lib data = Inr scs \<and> scs \<noteq> []")
  case True
  then obtain data scs where f: "path \<noteq> []" "ml_readFile lib path (fst (ms_world st)) = Inr data" "ml_config lib data = Inr scs" "scs \<noteq> []"
    by blast
  then have conn: "connect_servers (exchanging lib) name version 0 scs [] st = (st', r)"
    using assms by (cases scs) (auto simp: LoadConfig_def exchanging_def case_prod_beta)
  from connect_servers_connected [OF this] have c: "connected [] scs st st' r" by simp
  show ?thesis
  proof (cases r)
    case (Inl e)
    with c show ?thesis by (auto simp: connected_def)
  next
    case (Inr cs)
    with conn have run: "connect_servers (exchanging lib) name version 0 scs [] st = (st', Inr cs)" by simp
    from connect_servers_handshakes [OF run] obtain logs where L: "length logs = length scs"
      "snd (ms_world st') = snd (ms_world st) @ concat logs"
      "\<forall>k<length scs. handshake lib name version (sc_Endpoint (scs ! k)) (mc_sessionID (ms_clients st' (ms_next st + k))) (logs ! k)"
      by auto
    from c Inr have C: "cs = [ms_next st..<ms_next st + length scs]"
      "\<forall>k<length scs. sc_Endpoint (scs ! k) \<noteq> [] \<and> mc_endpoint (ms_clients st' (ms_next st + k)) = sc_Endpoint (scs ! k)"
      by (auto simp: connected_def)
    show ?thesis unfolding Inr sum.case
      by (intro exI [of _ data] exI [of _ scs] exI [of _ logs]) (use f(2-4) L C in simp)
  qed
next
  case False
  then have "ms_next st' = ms_next st \<and> (\<exists>e. r = Inl e)"
    using assms by (auto simp: LoadConfig_def exchanging_def case_prod_beta split: if_splits sum.splits list.splits)
  then show ?thesis by auto
qed

section \<open>Closed instances\<close>

text \<open>
  A server that opens session \<open>s1\<close> and lists one tool, after a notification; its world counts the
  requests. At the endpoint \<open>strict\<close> it refuses notifications.
\<close>

definition note_stream :: string where "note_stream = sse_event [''note''] @ sse_event [''page'']"

definition small_server :: "httpRequest \<Rightarrow> nat \<Rightarrow> nat \<times> (err + httpResponse)" where
  "small_server req n = (Suc n,
     case hq_Body req of
       None \<Rightarrow> Inr \<lparr>hr_Status = 200, hr_Session = [], hr_ContentType = [], hr_Body = ([], None)\<rparr>
     | Some rpc \<Rightarrow>
         if rq_Method rpc = ''initialize''
         then Inr \<lparr>hr_Status = 200, hr_Session = ''s1'', hr_ContentType = [], hr_Body = (''ok'', None)\<rparr>
         else if rq_Method rpc = ''tools/list''
         then Inr \<lparr>hr_Status = 200, hr_Session = [], hr_ContentType = ''text/event-stream'', hr_Body = (note_stream, None)\<rparr>
         else Inr \<lparr>hr_Status = (if hq_URL req = ''strict'' then 500 else 202), hr_Session = [], hr_ContentType = [], hr_Body = ([], None)\<rparr>)"

definition small_mcp :: "serverConfig list \<Rightarrow> nat mcpLib" where
  "small_mcp scs = \<lparr>ml_do = small_server, ml_request = (\<lambda>_. None),
     ml_response = (\<lambda>p. Inr \<lparr>rs_ID = 0, rs_Result = (if p = ''note'' then [] else p), rs_Error = None\<rparr>),
     ml_value = (\<lambda>_. Inr JNull),
     ml_page = (\<lambda>_. Inr \<lparr>lt_Tools = [\<lparr>mt_Name = ''search'', mt_Description = [], mt_InputSchema = []\<rparr>],
                   lt_NextCursor = [], lt_NextCursorField = []\<rparr>),
     ml_result = (\<lambda>_. Inl (Plain [])), ml_readFile = (\<lambda>_ _. Inr []), ml_config = (\<lambda>_. Inr scs),
     ml_duration = (\<lambda>_. None), ml_range = (\<lambda>hs. hs)\<rparr>"

definition small_state :: "'w \<Rightarrow> 'w mcp" where
  "small_state w = \<lparr>ms_world = w, ms_requestID = 0,
     ms_clients = (\<lambda>_. \<lparr>mc_endpoint = [], mc_headers = [], mc_customHTTP = False, mc_timeout = 0, mc_sessionID = ''s1''\<rparr>), ms_next = 0\<rparr>"

definition server_at :: "string \<Rightarrow> serverConfig" where
  "server_at e = \<lparr>sc_Name = ''srv'', sc_Endpoint = e, sc_Headers = [], sc_Timeout = []\<rparr>"

lemma content_types [simp]:
  "contains (to_lower []) ''text/event-stream'' = False" "contains (to_lower ''text/event-stream'') ''text/event-stream''"
  by code_simp+

lemmas mcp_run = Initialize_def mcp_call_def notify_def mcp_do_def mcp_New_def nextRequestID_def send_http_def set_session_def
  readJSONRPCPayload_def http_ok_def Let_def small_mcp_def small_server_def small_state_def

lemmas load_run = LoadConfig_def server_options_def server_identity_def server_at_def readLimited_def MaxMCPResponseBytes_def

lemma parseSSEChunk_first_event_witness:
  "parseSSEChunk (sse_event [''{}''] @ ''data: later'', Some (Plain ''reset'')) = Inr (Some ''{}'')"
  using parseSSEChunk_first_event [of "[''{}'']" "''data: later''" "Some (Plain ''reset'')"]
  by (simp add: MaxMCPResponseBytes_def)

lemma mcp_session_sticky_witness:
  "in_session ''s1'' 0 (small_state (0, []))
     (fold (mcp_op (recording (small_mcp [])) 0) [OpInitialize [] [], OpListTools, OpCallTool ''search'' []] (small_state (0, [])))"
  by (rule mcp_session_sticky) (simp_all add: small_state_def)

lemma LoadConfig_outcome_witness:
  "case LoadConfig (exchanging (small_mcp [server_at ''ok''])) ''f'' [] [] (small_state (0, [])) of
     (st, r) \<Rightarrow> r = Inr [0] \<and> mc_sessionID (ms_clients st 0) = ''s1'' \<and> length (snd (ms_world st)) = 2
       \<and> handshake (small_mcp [server_at ''ok'']) [] [] ''ok'' ''s1'' (snd (ms_world st))"
proof -
  let ?run = "LoadConfig (exchanging (small_mcp [server_at ''ok''])) ''f'' [] [] (small_state (0, []))"
  obtain st r where run: "?run = (st, r)" by fastforce
  have "snd ?run = Inr [0] \<and> mc_sessionID (ms_clients (fst ?run) 0) = ''s1'' \<and> length (snd (ms_world (fst ?run))) = 2"
    by (simp del: to_lower.simps add: load_run mcp_run exchanging_def)
  then have v: "r = Inr [0]" "mc_sessionID (ms_clients st 0) = ''s1''" "length (snd (ms_world st)) = 2" by (simp_all add: run)
  from LoadConfig_outcome [OF run] v obtain logs where "length logs = 1" "snd (ms_world st) = concat logs"
    "handshake (small_mcp [server_at ''ok'']) [] [] ''ok'' ''s1'' (logs ! 0)"
    by (auto simp: small_mcp_def server_at_def small_state_def)
  then have "handshake (small_mcp [server_at ''ok'']) [] [] ''ok'' ''s1'' (snd (ms_world st))"
    by (cases logs) auto
  then show ?thesis using v by (simp add: run)
qed

text \<open>
  The comment of \<^verbatim>\<open>LoadConfig\<close> says that an empty endpoint is rejected before any network call and that
  earlier sessions are not abandoned. With a good first entry, two requests were made, and its
  session is still open.
\<close>
lemma bad_entry_leaks_session:
  "case LoadConfig (small_mcp [server_at ''ok'', server_at []]) ''f'' [] [] (small_state 0) of
     (st, r) \<Rightarrow> r = Inl (Plain (''mcp: server '' @ go_quote ''srv'' @ '': empty endpoint''))
       \<and> ms_world st = 2 \<and> mc_sessionID (ms_clients st 0) = ''s1''"
  by (simp del: to_lower.simps add: load_run mcp_run)

text \<open>A handshake whose second half fails leaves the session its first half opened.\<close>
lemma failed_handshake_leaks_session:
  "case LoadConfig (small_mcp [server_at ''strict'']) ''f'' [] [] (small_state 0) of
     (st, r) \<Rightarrow> isl r \<and> ms_world st = 2 \<and> mc_sessionID (ms_clients st 0) = ''s1''"
  by (simp del: to_lower.simps add: load_run mcp_run close_all_def)

text \<open>
  The envelope is the first event of the stream, even when that is a notification of the server: it has
  no result, so listing succeeds with no tools although the tools are in the next event.
\<close>
lemma notification_hides_tools:
  "snd (ListTools (small_mcp []) 0 (small_state 0)) = Inr []"
proof -
  have "parseSSEChunk (note_stream, None) = Inr (Some ''note'')"
    using parseSSEChunk_read [of "[''note'']" "sse_event [''page'']" None] by (simp add: note_stream_def MaxMCPResponseBytes_def)
  moreover have "length note_stream < 100" by (simp add: note_stream_def sse_event_def)
  then have "readLimited (note_stream, None) = (note_stream, None)" by (simp add: readLimited_def MaxMCPResponseBytes_def)
  moreover have max: "maxListToolsPages = Suc 255" by (simp add: maxListToolsPages_def)
  ultimately show ?thesis unfolding ListTools_def max list_pages.simps(2)
    by (simp del: to_lower.simps add: cursor_of_def mcp_run)
qed

end
