(* ===== verification/McpText.thy ===== *)
theory McpText
  imports McpSpec Utf8
begin

text \<open>
  What the MCP adapter lets an agent see of a server's tool description: runes of it without control
  characters, at most the limit of them.
\<close>

lemma decode_rune_string:
  "scalar r \<Longrightarrow> decode_bytes (map of_char (rune_string (r # rs))) = (r, length (encode_rune r))"
  using decode_encode [of r "map of_char (rune_string rs)"] by (simp add: rune_string_def)

lemma rune_prefix_string: "list_all scalar rs \<Longrightarrow> rune_prefix n (rune_string rs) = rune_string (take n rs)"
proof (induction n arbitrary: rs)
  case (Suc n)
  show ?case
  proof (cases rs)
    case (Cons r xs)
    then have "decode_bytes (map of_char (rune_string rs)) = (r, length (encode_rune r))"
      using Suc.prems decode_rune_string [of r xs] by simp
    moreover have "rune_string rs = encode_rune r @ rune_string xs" by (simp add: Cons rune_string_def)
    moreover have "encode_rune r @ rune_string (take n xs) = rune_string (take (Suc n) rs)" by (simp add: Cons rune_string_def)
    ultimately show ?thesis using Suc Cons by (simp add: Let_def)
  qed (simp add: rune_string_def)
qed (simp add: rune_string_def)

lemma stripASCIIControls_runes: "stripASCIIControls s = rune_string (filter kept_rune (runes s))"
  by (simp add: stripASCIIControls_def rune_string_def)

lemma truncateRunes_string:
  assumes "list_all scalar rs" "0 < n"
  shows "truncateRunes (rune_string rs) n = rune_string (take (nat n) rs)"
proof (cases "rs = []")
  case True
  then show ?thesis by (simp add: truncateRunes_def rune_string_def)
next
  case False
  then have "rune_string rs \<noteq> []" by (cases rs) (simp_all add: rune_string_def)
  then show ?thesis
    using assms(2) by (auto simp: truncateRunes_def runes_rune_string [OF assms(1)] rune_prefix_string [OF assms(1)])
qed

lemma limited_description:
  assumes "0 < n"
  shows "adapter_Description (WithDescriptionLimit n a) = rune_string (take (nat n) (filter kept_rune (runes (mt_Description (ta_tool a)))))"
  using assms by (simp add: adapter_Description_def WithDescriptionLimit_def stripASCIIControls_runes truncateRunes_string list_all_filter runes_scalar)

text \<open>
  C40. A tool adapter with a description limit shows the agent exactly the first \<open>n\<close> runes of the server's
  description that are no control characters (tab is kept): the cut falls on a rune boundary, so the text
  decodes to those runes, there are at most \<open>n\<close> of them and none is a control.
\<close>

theorem limited_description_safe:
  assumes "0 < n"
  shows "runes (adapter_Description (WithDescriptionLimit n a)) = take (nat n) (filter kept_rune (runes (mt_Description (ta_tool a))))
    \<and> int (length (runes (adapter_Description (WithDescriptionLimit n a)))) \<le> n
    \<and> (\<forall>r. r \<in> set (runes (adapter_Description (WithDescriptionLimit n a))) \<longrightarrow> r = 9 \<or> 0x20 \<le> r \<and> r \<noteq> 0x7F \<and> (r < 0x80 \<or> 0x9F < r))"
proof -
  let ?rs = "take (nat n) (filter kept_rune (runes (mt_Description (ta_tool a))))"
  have runes: "runes (adapter_Description (WithDescriptionLimit n a)) = ?rs"
    unfolding limited_description [OF assms] by (intro runes_rune_string list_all_take list_all_filter runes_scalar)
  have "int (length ?rs) \<le> n" using assms by simp
  moreover have "r = 9 \<or> 0x20 \<le> r \<and> r \<noteq> 0x7F \<and> (r < 0x80 \<or> 0x9F < r)" if "r \<in> set ?rs" for r
  proof -
    have "kept_rune r" using that in_set_takeD by fastforce
    then show ?thesis unfolding kept_rune_def by linarith
  qed
  ultimately show ?thesis unfolding runes by blast
qed

theorem limited_description_safe_witness:
  "let a = \<lparr>ta_client = 0, ta_tool = \<lparr>mt_Name = ''t'', mt_Description = [CHR ''a'', CHR 0x1B, CHR ''b'', CHR ''c''], mt_InputSchema = []\<rparr>, ta_descLimit = 0\<rparr> in
   runes (adapter_Description (WithDescriptionLimit 2 a)) = [97, 98]"
  using conjunct1 [OF limited_description_safe [where n = 2 and
    a = "\<lparr>ta_client = 0, ta_tool = \<lparr>mt_Name = ''t'', mt_Description = [CHR ''a'', CHR 0x1B, CHR ''b'', CHR ''c''], mt_InputSchema = []\<rparr>, ta_descLimit = 0\<rparr>"]]
  by (simp add: runes_def decode_bytes_def kept_rune_def)

end
