(* ===== verification/Provider.thy ===== *)
theory Provider
  imports Stream Json
begin

text \<open>
  What the adapters of model providers under \<^verbatim>\<open>llm/\<close> share: wire values, one HTTP exchange with a
  capped body, the size-limited line reader of the three \<^verbatim>\<open>stream.go\<close> files, sends on the chunk channel,
  and the native search of \<^verbatim>\<open>websearch.go\<close>. \<^verbatim>\<open>encoding/json\<close>, the transport and the environment are
  arguments. A body is the list of what its reads return and the error that ends it, \<^const>\<open>None\<close> for
  the end of file; a reader that returns no bytes and no error is left out.
\<close>

section \<open>Wire values\<close>

text \<open>
  What \<^verbatim>\<open>json.Marshal\<close> is given: the fields of a struct under their tags, in order, those that
  \<^verbatim>\<open>omitempty\<close> leaves out not being there. \<open>WRaw\<close> is a \<^verbatim>\<open>json.RawMessage\<close>, \<open>WNull\<close> a nil slice.
\<close>

datatype wire =
    WNull
  | WBool bool
  | WInt int
  | WFloat float64
  | WStr string
  | WRaw string
  | WList "wire list"
  | WObj "(string \<times> wire) list"

definition field :: "string \<Rightarrow> wire \<Rightarrow> (string \<times> wire) list" where
  "field k v = [(k, v)]"

definition opt_field :: "bool \<Rightarrow> string \<Rightarrow> wire \<Rightarrow> (string \<times> wire) list" where
  "opt_field present k v = (if present then [(k, v)] else [])"

fun wire_get :: "string \<Rightarrow> wire \<Rightarrow> wire option" where
  "wire_get k (WObj fs) = map_of fs k"
| "wire_get k _ = None"

fun role_text :: "role \<Rightarrow> string" where
  "role_text RoleSystem = ''system''"
| "role_text RoleUser = ''user''"
| "role_text RoleAssistant = ''assistant''"
| "role_text RoleTool = ''tool''"

text \<open>\<^verbatim>\<open>ToolSpec\<close> and \<^verbatim>\<open>ToolCall\<close> under their own tags.\<close>

definition wire_tool_spec :: "toolSpec \<Rightarrow> wire" where
  "wire_tool_spec t = WObj (field ''type'' (WStr (ts_Type t)) @
     field ''function'' (WObj (field ''name'' (WStr (tf_Name (ts_Function t))) @
       field ''description'' (WStr (tf_Description (ts_Function t))) @
       field ''parameters'' (WRaw (tf_Parameters (ts_Function t))))))"

definition wire_tool_call :: "toolCall \<Rightarrow> wire" where
  "wire_tool_call tc = WObj (opt_field (tc_ID tc \<noteq> []) ''id'' (WStr (tc_ID tc)) @
     field ''function'' (WObj (field ''name'' (WStr (tc_Name tc)) @ field ''arguments'' (WRaw (tc_Arguments tc)))))"

section \<open>One exchange\<close>

definition MaxProviderResponseBytes :: nat where "MaxProviderResponseBytes = 10485760"

text \<open>The constant 0.7 as a float64.\<close>

definition temperature_07 :: float64 where "temperature_07 = Fin (3152519739159347 / 4503599627370496)"

record provRequest =
  pq_Method :: string
  pq_URL :: string
  pq_Headers :: "(string \<times> string) list"
  pq_Body :: string

type_synonym body = "string list \<times> err option"

record provReply =
  pr_Status :: int
  pr_Body :: body

text \<open>\<^verbatim>\<open>http.Client.Do\<close>, its timeout included.\<close>

type_synonym 'w httpClient = "provRequest \<Rightarrow> 'w \<Rightarrow> 'w \<times> (err + provReply)"

record 'w provLib =
  pl_marshal :: "wire \<Rightarrow> err + string"
  pl_request :: "string \<Rightarrow> err option"
  pl_client :: "int \<Rightarrow> 'w httpClient"
  pl_getenv :: "string \<Rightarrow> string"

text \<open>\<^verbatim>\<open>io.ReadAll(io.LimitReader(body, limit))\<close>: the rest of a longer body is dropped without an error.\<close>

definition read_capped :: "nat \<Rightarrow> body \<Rightarrow> err + string" where
  "read_capped limit b =
     (let data = concat (fst b) in
      if length data \<ge> limit then Inr (take limit data)
      else case snd b of Some e \<Rightarrow> Inl e | None \<Rightarrow> Inr data)"

text \<open>
  Build a request, send it and read the answer: the steps every adapter repeats, with what it
  makes of the error of each.
\<close>

definition exchange ::
  "'w provLib \<Rightarrow> 'w httpClient \<Rightarrow> nat \<Rightarrow> (err \<Rightarrow> err) \<Rightarrow> (err \<Rightarrow> err) \<Rightarrow> (err \<Rightarrow> err) \<Rightarrow> provRequest \<Rightarrow> 'w \<Rightarrow> 'w \<times> (err + int \<times> string)" where
  "exchange lib client limit creating sending reading req w =
     (case pl_request lib (pq_URL req) of
        Some e \<Rightarrow> (w, Inl (creating e))
      | None \<Rightarrow>
          (case client req w of
             (w, Inl e) \<Rightarrow> (w, Inl (sending e))
           | (w, Inr resp) \<Rightarrow>
               (case read_capped limit (pr_Body resp) of
                  Inl e \<Rightarrow> (w, Inl (reading e))
                | Inr data \<Rightarrow> (w, Inr (pr_Status resp, data)))))"

lemma read_capped_whole: "length (concat reads) < limit \<Longrightarrow> read_capped limit (reads, None) = Inr (concat reads)"
  by (simp add: read_capped_def)

lemma read_capped_bound: "read_capped limit b = Inr data \<Longrightarrow> length data \<le> limit"
  by (auto simp: read_capped_def Let_def split: if_splits option.splits)

section \<open>Search results\<close>

record searchHit =
  sh_Title :: string
  sh_URL :: string
  sh_Content :: string

text \<open>The range of results the providers accept.\<close>

definition clamp_max :: "int \<Rightarrow> int" where
  "clamp_max n = (if n \<le> 0 \<or> n > 10 then 5 else n)"

text \<open>A model, and its search when it implements \<^verbatim>\<open>WebSearcher\<close>.\<close>

definition SearchWeb ::
  "(string \<Rightarrow> int \<Rightarrow> 'w \<Rightarrow> 'w \<times> (err + searchHit list)) option \<Rightarrow> string \<Rightarrow> int \<Rightarrow> 'w \<Rightarrow> 'w \<times> (err + searchHit list)" where
  "SearchWeb ws query n w =
     (case ws of None \<Rightarrow> (w, Inl (Sentinel ErrWebSearchUnsupported)) | Some f \<Rightarrow> f query n w)"

section \<open>Lines of a stream\<close>

text \<open>\<^verbatim>\<open>countingLimitReader\<close>: it fails once more bytes were read than its limit, and stays failed.\<close>

record countingLimitReader =
  lr_n :: nat
  lr_err :: "err option"

definition counting_read :: "countingLimitReader \<Rightarrow> string \<Rightarrow> countingLimitReader" where
  "counting_read c chunk =
     (let n = lr_n c + length chunk in
      c\<lparr>lr_n := n, lr_err := (if n > MaxProviderResponseBytes then Some (Sentinel ErrStreamResponseTooLarge) else None)\<rparr>)"

text \<open>
  \<^verbatim>\<open>bufio.Scanner\<close> over it: the tokens of the run, each with the reader's error when it is returned,
  the error of the scanner, and that of the reader at the end. Every line that is complete is
  returned before the next read; after the last read, or a failed one, what is left is returned as
  lines too.
\<close>

type_synonym scan = "(string \<times> err option) list \<times> err option \<times> err option"

fun scan_body :: "countingLimitReader \<Rightarrow> string \<Rightarrow> string list \<Rightarrow> err option \<Rightarrow> scan" where
  "scan_body c buf [] fin =
     (if length buf \<ge> MaxProviderResponseBytes then ([], Some (Plain ''bufio.Scanner: token too long''), None)
      else (map (\<lambda>l. (l, None)) (scan_lines buf), fin, None))"
| "scan_body c buf (r # rs) fin =
     (if length buf \<ge> MaxProviderResponseBytes then ([], Some (Plain ''bufio.Scanner: token too long''), None)
      else
        let c = counting_read c r in
        case lr_err c of
          Some e \<Rightarrow> (map (\<lambda>l. (l, Some e)) (scan_lines (buf @ r)), Some e, Some e)
        | None \<Rightarrow>
            let ls = split_on CHR 0x0A (buf @ r); (more, ends) = scan_body c (last ls) rs fin
            in (map (\<lambda>l. (strip_return l, None)) (butlast ls) @ more, ends))"

definition scan_stream :: "body \<Rightarrow> scan" where
  "scan_stream b = scan_body \<lparr>lr_n = 0, lr_err = None\<rparr> [] (fst b) (snd b)"

section \<open>The chunk channel\<close>

text \<open>
  The context of a producer: at which send the \<^verbatim>\<open>select\<close> takes the branch of the cancelled context,
  and whether it is cancelled when the stream has broken.
\<close>

record sel =
  sl_done :: "nat \<Rightarrow> bool"
  sl_err :: bool

definition send :: "sel \<Rightarrow> streamChunk \<Rightarrow> streamChunk list \<Rightarrow> streamChunk list \<times> bool" where
  "send s chunk ch = (if sl_done s (length ch) then (ch, False) else (ch @ [chunk], True))"

definition sendErr :: "sel \<Rightarrow> err \<Rightarrow> streamChunk list \<Rightarrow> streamChunk list" where
  "sendErr s e ch = fst (send s (chunk_err e) ch)"

definition sendDone :: "sel \<Rightarrow> streamChunk list \<Rightarrow> streamChunk list" where
  "sendDone s ch = fst (send s (chunk_done []) ch)"

text \<open>What follows the scan loop.\<close>

definition stream_end :: "string \<Rightarrow> sel \<Rightarrow> err option \<times> err option \<Rightarrow> nat \<Rightarrow> streamChunk list \<Rightarrow> streamChunk list" where
  "stream_end who s ends textLen ch =
     (case ends of
        (Some e, Some limited) \<Rightarrow> sendErr s limited ch
      | (Some e, None) \<Rightarrow> if sl_err s then ch else sendErr s (wrapf (who @ '': reading stream: '') e) ch
      | (None, Some limited) \<Rightarrow> sendErr s limited ch
      | (None, None) \<Rightarrow> if textLen > 0 then sendDone s ch else ch)"

text \<open>
  The beginning of \<^verbatim>\<open>runStream\<close>, after the credentials: encode, build, send, and refuse every status
  but 200; then the loop over the lines.
\<close>

definition open_stream ::
  "'w provLib \<Rightarrow> 'w httpClient \<Rightarrow> string \<Rightarrow> string \<Rightarrow> (string \<times> string) list \<Rightarrow> wire \<Rightarrow> sel
   \<Rightarrow> (scan \<Rightarrow> streamChunk list) \<Rightarrow> 'w \<Rightarrow> 'w \<times> streamChunk list" where
  "open_stream lib client who url headers reqBody s loop w =
     (case pl_marshal lib reqBody of
        Inl e \<Rightarrow> (w, sendErr s (wrapf (who @ '': encoding request: '') e) [])
      | Inr buf \<Rightarrow>
          (case pl_request lib url of
             Some e \<Rightarrow> (w, sendErr s (wrapf (who @ '': creating request: '') e) [])
           | None \<Rightarrow>
               (case client \<lparr>pq_Method = ''POST'', pq_URL = url, pq_Headers = headers, pq_Body = buf\<rparr> w of
                  (w, Inl e) \<Rightarrow> (w, sendErr s (wrapf (who @ '': sending request: '') e) [])
                | (w, Inr resp) \<Rightarrow>
                    if pr_Status resp \<noteq> 200
                    then (w, sendErr s (Plain (who @ '': unexpected status '' @ itoa_int (pr_Status resp))) [])
                    else (w, loop (scan_stream (pr_Body resp))))))"

end
