(* ===== verification/OpenAI.thy ===== *)
theory OpenAI
  imports Provider
begin

text \<open>
  \<^verbatim>\<open>llm/openai\<close>: the client of the Chat Completions API and of everything that speaks it. Decoding
  into the response structs is an argument, one decoder per struct; a decoded error is its message,
  because nothing else of it is used.
\<close>

section \<open>The client\<close>

definition openai_defaultBaseURL :: string where "openai_defaultBaseURL = ''https://api.openai.com/v1''"

record 'w openaiClient =
  oc_apiKey :: string
  oc_tokenSource :: "('w \<Rightarrow> 'w \<times> (err + string)) option"
  oc_model :: string
  oc_baseURL :: string
  oc_temperature :: float64
  oc_httpClient :: "'w httpClient"

definition openai_WithBaseURL :: "string \<Rightarrow> 'w openaiClient \<Rightarrow> 'w openaiClient" where
  "openai_WithBaseURL url c = c\<lparr>oc_baseURL := url\<rparr>"

definition openai_WithTemperature :: "float64 \<Rightarrow> 'w openaiClient \<Rightarrow> 'w openaiClient" where
  "openai_WithTemperature t c = c\<lparr>oc_temperature := t\<rparr>"

definition openai_WithHTTPClient :: "'w httpClient \<Rightarrow> 'w openaiClient \<Rightarrow> 'w openaiClient" where
  "openai_WithHTTPClient h c = c\<lparr>oc_httpClient := h\<rparr>"

definition openai_WithAPIKey :: "string \<Rightarrow> 'w openaiClient \<Rightarrow> 'w openaiClient" where
  "openai_WithAPIKey key c = c\<lparr>oc_apiKey := key\<rparr>"

definition openai_WithTokenSource :: "('w \<Rightarrow> 'w \<times> (err + string)) \<Rightarrow> 'w openaiClient \<Rightarrow> 'w openaiClient" where
  "openai_WithTokenSource ts c = c\<lparr>oc_tokenSource := Some ts\<rparr>"

definition openai_New :: "('w, 'x) provLib_scheme \<Rightarrow> string \<Rightarrow> ('w openaiClient \<Rightarrow> 'w openaiClient) list \<Rightarrow> 'w openaiClient" where
  "openai_New lib model opts =
     fold (\<lambda>opt c. opt c) opts
       \<lparr>oc_apiKey = pl_getenv lib ''OPENAI_API_KEY'', oc_tokenSource = None, oc_model = model,
        oc_baseURL = openai_defaultBaseURL, oc_temperature = temperature_07, oc_httpClient = pl_client lib 120000000000\<rparr>"

section \<open>Responses\<close>

record openAIToolCall =
  oa_ID :: string
  oa_Type :: string
  oa_Name :: string
  oa_Arguments :: string

record openAIMessage =
  om_Content :: string
  om_ToolCalls :: "openAIToolCall list"

record webSearchAnnotation =
  wa_Type :: string
  wa_URL :: string
  wa_Title :: string

record webSearchMessage =
  wm_Content :: string
  wm_Annotations :: "webSearchAnnotation list"

record 'm chatResponse =
  cr_Choices :: "'m list"
  cr_Error :: "string option"

text \<open>The decoders; \<open>ol_raw\<close> decodes into a \<^verbatim>\<open>json.RawMessage\<close>. A delta is the content of a choice, if any.\<close>

record 'w openaiLib = "'w provLib" +
  ol_chat :: "string \<Rightarrow> err + string chatResponse"
  ol_tools :: "string \<Rightarrow> err + openAIMessage chatResponse"
  ol_search :: "string \<Rightarrow> err + webSearchMessage chatResponse"
  ol_delta :: "string \<Rightarrow> err + string option chatResponse"
  ol_raw :: "string \<Rightarrow> err + string"

section \<open>Calls\<close>

definition authToken :: "'w openaiClient \<Rightarrow> 'w \<Rightarrow> 'w \<times> (err + string)" where
  "authToken c w =
     (case oc_tokenSource c of
        Some ts \<Rightarrow> ts w
      | None \<Rightarrow>
          if oc_apiKey c = []
          then (w, Inl (Plain ''openai: missing credentials (set OPENAI_API_KEY, use WithAPIKey or WithTokenSource)''))
          else (w, Inr (oc_apiKey c)))"

definition openai_headers :: "string \<Rightarrow> (string \<times> string) list" where
  "openai_headers token = [(''Content-Type'', ''application/json''), (''Authorization'', ''Bearer '' @ token)]"

definition chat_message :: "message \<Rightarrow> wire" where
  "chat_message m = WObj (field ''role'' (WStr (role_text (msg_Role m))) @ field ''content'' (WStr (msg_Content m)))"

definition chat_request :: "'w openaiClient \<Rightarrow> message list \<Rightarrow> wire" where
  "chat_request c messages =
     WObj (field ''model'' (WStr (oc_model c)) @ field ''messages'' (WList (map chat_message messages)) @
           field ''temperature'' (WFloat (oc_temperature c)))"

text \<open>The checks between decoding and use; \<open>unexpected\<close> is the text for a status other than 200.\<close>

definition openai_checked :: "string \<Rightarrow> int \<Rightarrow> 'm chatResponse \<Rightarrow> err + 'm list" where
  "openai_checked unexpected status parsed =
     (case cr_Error parsed of
        Some m \<Rightarrow> Inl (Plain (''openai: API error: '' @ m))
      | None \<Rightarrow> if status \<noteq> 200 then Inl (Plain (unexpected @ itoa_int status)) else Inr (cr_Choices parsed))"

definition decoding :: "string \<Rightarrow> int \<Rightarrow> err \<Rightarrow> err" where
  "decoding who status e = wrapf (who @ '': decoding response (status '' @ itoa_int status @ ''): '') e"

definition openai_Call :: "'w openaiLib \<Rightarrow> 'w openaiClient \<Rightarrow> message list \<Rightarrow> 'w \<Rightarrow> 'w \<times> (err + string)" where
  "openai_Call lib c messages w =
     (case authToken c w of
        (w, Inl e) \<Rightarrow> (w, Inl e)
      | (w, Inr token) \<Rightarrow>
          (case pl_marshal lib (chat_request c messages) of
             Inl e \<Rightarrow> (w, Inl (wrapf ''openai: encoding request: '' e))
           | Inr buf \<Rightarrow>
               (case exchange (provLib.truncate lib) (oc_httpClient c) MaxProviderResponseBytes
                       (wrapf ''openai: creating request: '') (wrapf ''openai: sending request: '') (wrapf ''openai: reading response: '')
                       \<lparr>pq_Method = ''POST'', pq_URL = oc_baseURL c @ ''/chat/completions'', pq_Headers = openai_headers token, pq_Body = buf\<rparr> w of
                  (w, Inl e) \<Rightarrow> (w, Inl e)
                | (w, Inr (status, data)) \<Rightarrow>
                    (w, case ol_chat lib data of
                          Inl e \<Rightarrow> Inl (decoding ''openai'' status e)
                        | Inr parsed \<Rightarrow>
                            (case openai_checked ''openai: unexpected status '' status parsed of
                               Inl e \<Rightarrow> Inl e
                             | Inr [] \<Rightarrow> Inl (Plain ''openai: response with no choices'')
                             | Inr (content # _) \<Rightarrow> Inr content)))))"

section \<open>Tool calls\<close>

definition wire_openai_call :: "toolCall \<Rightarrow> wire" where
  "wire_openai_call tc =
     WObj (field ''id'' (WStr (tc_ID tc)) @ field ''type'' (WStr ''function'') @
       field ''function'' (WObj (field ''name'' (WStr (tc_Name tc)) @ field ''arguments'' (WStr (tc_Arguments tc)))))"

definition openai_message :: "message \<Rightarrow> wire" where
  "openai_message m =
     WObj (field ''role'' (WStr (role_text (msg_Role m))) @ field ''content'' (WStr (msg_Content m)) @
       opt_field (msg_ToolCalls m \<noteq> []) ''tool_calls'' (WList (map wire_openai_call (msg_ToolCalls m))) @
       opt_field (msg_ToolCallID m \<noteq> []) ''tool_call_id'' (WStr (msg_ToolCallID m)))"

definition tools_request :: "'w openaiClient \<Rightarrow> message list \<Rightarrow> toolSpec list \<Rightarrow> wire" where
  "tools_request c messages tools =
     WObj (field ''model'' (WStr (oc_model c)) @ field ''messages'' (WList (map openai_message messages)) @
           field ''temperature'' (WFloat (oc_temperature c)) @
           opt_field (tools \<noteq> []) ''tools'' (WList (map wire_tool_spec tools)))"

text \<open>A string argument becomes raw JSON; one that is not valid JSON is kept as it is.\<close>

definition normalize_call :: "(string \<Rightarrow> err + string) \<Rightarrow> openAIToolCall \<Rightarrow> toolCall" where
  "normalize_call raw otc =
     \<lparr>tc_ID = oa_ID otc, tc_Name = oa_Name otc,
      tc_Arguments = (case raw (oa_Arguments otc) of Inl _ \<Rightarrow> oa_Arguments otc | Inr args \<Rightarrow> args)\<rparr>"

definition openai_CallWithTools ::
  "'w openaiLib \<Rightarrow> 'w openaiClient \<Rightarrow> message list \<Rightarrow> toolSpec list \<Rightarrow> 'w \<Rightarrow> 'w \<times> (err + toolCallResponse)" where
  "openai_CallWithTools lib c messages tools w =
     (case authToken c w of
        (w, Inl e) \<Rightarrow> (w, Inl e)
      | (w, Inr token) \<Rightarrow>
          (case pl_marshal lib (tools_request c messages tools) of
             Inl e \<Rightarrow> (w, Inl (wrapf ''openai: encoding request: '' e))
           | Inr buf \<Rightarrow>
               (case exchange (provLib.truncate lib) (oc_httpClient c) MaxProviderResponseBytes
                       (wrapf ''openai: creating request: '') (wrapf ''openai: sending request: '') (wrapf ''openai: reading response: '')
                       \<lparr>pq_Method = ''POST'', pq_URL = oc_baseURL c @ ''/chat/completions'', pq_Headers = openai_headers token, pq_Body = buf\<rparr> w of
                  (w, Inl e) \<Rightarrow> (w, Inl e)
                | (w, Inr (status, data)) \<Rightarrow>
                    (w, case ol_tools lib data of
                          Inl e \<Rightarrow> Inl (decoding ''openai'' status e)
                        | Inr parsed \<Rightarrow>
                            (case openai_checked ''openai: unexpected status '' status parsed of
                               Inl e \<Rightarrow> Inl e
                             | Inr [] \<Rightarrow> Inr \<lparr>tr_Content = [], tr_ToolCalls = []\<rparr>
                             | Inr (m # _) \<Rightarrow>
                                 Inr \<lparr>tr_Content = om_Content m,
                                      tr_ToolCalls = map (normalize_call (ol_raw lib)) (om_ToolCalls m)\<rparr>)))))"

section \<open>Search\<close>

definition search_request :: "'w openaiClient \<Rightarrow> string \<Rightarrow> int \<Rightarrow> wire" where
  "search_request c query n =
     WObj (field ''model'' (WStr (oc_model c)) @
           field ''messages'' (WList [chat_message (UserMessage
             (''Search the web for: '' @ query @ ''. Return the top '' @ itoa_int n @ '' results.''))]) @
           field ''web_search_options'' (WObj []) @ field ''temperature'' (WFloat (oc_temperature c)))"

text \<open>The citations with a URL, or the content alone, at most \<open>n\<close>.\<close>

definition openai_hits :: "string \<Rightarrow> int \<Rightarrow> webSearchMessage \<Rightarrow> searchHit list" where
  "openai_hits query n m =
     (let hits = map (\<lambda>a. \<lparr>sh_Title = wa_Title a, sh_URL = wa_URL a, sh_Content = wm_Content m\<rparr>)
                   (filter (\<lambda>a. wa_Type a = ''url_citation'' \<and> wa_URL a \<noteq> []) (wm_Annotations m));
          hits = (if hits = [] \<and> wm_Content m \<noteq> []
                  then [\<lparr>sh_Title = query, sh_URL = [], sh_Content = wm_Content m\<rparr>] else hits)
      in if int (length hits) > n then take (nat n) hits else hits)"

definition openai_WebSearch ::
  "'w openaiLib \<Rightarrow> 'w openaiClient \<Rightarrow> string \<Rightarrow> int \<Rightarrow> 'w \<Rightarrow> 'w \<times> (err + searchHit list)" where
  "openai_WebSearch lib c query n w =
     (case authToken c w of
        (w, Inl e) \<Rightarrow> (w, Inl e)
      | (w, Inr token) \<Rightarrow>
          (let n = clamp_max n; buf = (case pl_marshal lib (search_request c query n) of Inl _ \<Rightarrow> [] | Inr b \<Rightarrow> b) in
           case exchange (provLib.truncate lib) (oc_httpClient c) MaxProviderResponseBytes
                  (wrapf ''openai: creating web search request: '') (wrapf ''openai: sending web search request: '') (wrapf ''openai: reading web search response: '')
                  \<lparr>pq_Method = ''POST'', pq_URL = oc_baseURL c @ ''/chat/completions'', pq_Headers = openai_headers token, pq_Body = buf\<rparr> w of
             (w, Inl e) \<Rightarrow> (w, Inl e)
           | (w, Inr (status, data)) \<Rightarrow>
               (w, case ol_search lib data of
                     Inl e \<Rightarrow> Inl (wrapf ''openai: decoding web search response: '' e)
                   | Inr parsed \<Rightarrow>
                       (case openai_checked ''openai: web search HTTP '' status parsed of
                          Inl e \<Rightarrow> Inl e
                        | Inr [] \<Rightarrow> Inr []
                        | Inr (m # _) \<Rightarrow> Inr (openai_hits query n m)))))"

section \<open>Streaming\<close>

definition stream_request :: "'w openaiClient \<Rightarrow> message list \<Rightarrow> wire" where
  "stream_request c messages =
     WObj (field ''model'' (WStr (oc_model c)) @ field ''messages'' (WList (map chat_message messages)) @
           field ''temperature'' (WFloat (oc_temperature c)) @ field ''stream'' (WBool True))"

text \<open>The text a payload adds: of its first choice, if there is any and it is not empty.\<close>

fun delta_text :: "string option list \<Rightarrow> string" where
  "delta_text (Some s # _) = s"
| "delta_text _ = []"

fun openai_scan ::
  "'w openaiLib \<Rightarrow> sel \<Rightarrow> (string \<times> err option) list \<Rightarrow> err option \<times> err option \<Rightarrow> nat \<Rightarrow> streamChunk list \<Rightarrow> streamChunk list" where
  "openai_scan lib s [] ends textLen ch = stream_end ''openai'' s ends textLen ch"
| "openai_scan lib s ((line, limited) # ls) ends textLen ch =
     (case limited of
        Some e \<Rightarrow> sendErr s e ch
      | None \<Rightarrow>
          if line = [] \<or> has_prefix line '':'' \<or> \<not> has_prefix line ''data:'' then openai_scan lib s ls ends textLen ch
          else let data = trim_space (drop 5 line) in
            if data = ''[DONE]'' then sendDone s ch
            else case ol_delta lib data of
              Inl e \<Rightarrow> sendErr s (wrapf ''openai: decoding stream chunk: '' e) ch
            | Inr parsed \<Rightarrow>
                (case cr_Error parsed of
                   Some m \<Rightarrow> sendErr s (Plain (''openai: API error: '' @ m)) ch
                 | None \<Rightarrow>
                     let content = delta_text (cr_Choices parsed) in
                     if content = [] then openai_scan lib s ls ends textLen ch
                     else case send s (chunk_delta content) ch of
                       (ch, False) \<Rightarrow> ch
                     | (ch, True) \<Rightarrow> openai_scan lib s ls ends (textLen + length content) ch))"

definition openai_runStream :: "'w openaiLib \<Rightarrow> 'w openaiClient \<Rightarrow> sel \<Rightarrow> message list \<Rightarrow> 'w \<Rightarrow> 'w \<times> streamChunk list" where
  "openai_runStream lib c s messages w =
     (case authToken c w of
        (w, Inl e) \<Rightarrow> (w, sendErr s e [])
      | (w, Inr token) \<Rightarrow>
          open_stream (provLib.truncate lib) (oc_httpClient c) ''openai'' (oc_baseURL c @ ''/chat/completions'')
            (openai_headers token @ [(''Accept'', ''text/event-stream'')]) (stream_request c messages) s
            (\<lambda>(lines, ends). openai_scan lib s lines ends 0 []) w)"

text \<open>What a receiver sees of the channel when its own context stays live.\<close>

definition as_channel :: "streamChunk list \<Rightarrow> recv list option" where
  "as_channel ch = Some (map RecvChunk ch)"

text \<open>The client as a model of the crew, with its two optional capabilities.\<close>

definition openai_llm :: "'w openaiLib \<Rightarrow> 'w openaiClient \<Rightarrow> ('w ctx \<Rightarrow> sel) \<Rightarrow> 'w llm" where
  "openai_llm lib c sel_of =
     \<lparr>llm_Model = oc_model c,
      llm_Call = (\<lambda>ctx. openai_Call lib c),
      llm_CallWithTools = Some (\<lambda>ctx. openai_CallWithTools lib c),
      llm_CallStream = Some (\<lambda>ctx messages w. let (w, ch) = openai_runStream lib c (sel_of ctx) messages w in (w, as_channel ch))\<rparr>"

end
