(* ===== verification/Anthropic.thy ===== *)
theory Anthropic
  imports Provider
begin

text \<open>
  \<^verbatim>\<open>llm/anthropic\<close>: the client of the Messages API. The system prompt travels apart from the messages,
  tool calls and their results as typed content blocks, and streamed events carry a name. The decoders
  of \<^verbatim>\<open>encoding/json\<close> are arguments, one per struct.
\<close>

section \<open>The client\<close>

definition anthropic_defaultBaseURL :: string where "anthropic_defaultBaseURL = ''https://api.anthropic.com/v1''"
definition apiVersion :: string where "apiVersion = ''2023-06-01''"

record 'w anthropicClient =
  ac_apiKey :: string
  ac_model :: string
  ac_baseURL :: string
  ac_maxTokens :: int
  ac_temperature :: float64
  ac_httpClient :: "'w httpClient"

definition anthropic_WithBaseURL :: "string \<Rightarrow> 'w anthropicClient \<Rightarrow> 'w anthropicClient" where
  "anthropic_WithBaseURL url c = c\<lparr>ac_baseURL := url\<rparr>"

definition anthropic_WithMaxTokens :: "int \<Rightarrow> 'w anthropicClient \<Rightarrow> 'w anthropicClient" where
  "anthropic_WithMaxTokens n c = c\<lparr>ac_maxTokens := n\<rparr>"

definition anthropic_WithTemperature :: "float64 \<Rightarrow> 'w anthropicClient \<Rightarrow> 'w anthropicClient" where
  "anthropic_WithTemperature t c = c\<lparr>ac_temperature := t\<rparr>"

definition anthropic_WithHTTPClient :: "'w httpClient \<Rightarrow> 'w anthropicClient \<Rightarrow> 'w anthropicClient" where
  "anthropic_WithHTTPClient h c = c\<lparr>ac_httpClient := h\<rparr>"

definition anthropic_WithAPIKey :: "string \<Rightarrow> 'w anthropicClient \<Rightarrow> 'w anthropicClient" where
  "anthropic_WithAPIKey key c = c\<lparr>ac_apiKey := key\<rparr>"

definition anthropic_New ::
  "('w, 'x) provLib_scheme \<Rightarrow> string \<Rightarrow> ('w anthropicClient \<Rightarrow> 'w anthropicClient) list \<Rightarrow> 'w anthropicClient" where
  "anthropic_New lib model opts =
     fold (\<lambda>opt c. opt c) opts
       \<lparr>ac_apiKey = pl_getenv lib ''ANTHROPIC_API_KEY'', ac_model = model, ac_baseURL = anthropic_defaultBaseURL,
        ac_maxTokens = 4096, ac_temperature = temperature_07, ac_httpClient = pl_client lib 120000000000\<rparr>"

section \<open>Responses\<close>

record anthContentBlock =
  ab_Type :: string
  ab_Text :: string
  ab_ID :: string
  ab_Name :: string
  ab_Input :: string

record anthWebSearchResult =
  as_Type :: string
  as_Title :: string
  as_URL :: string
  as_EncryptedContent :: string

record 'b messagesResponse =
  mr_Content :: "'b list"
  mr_Error :: "string option"

text \<open>
  \<open>al_type\<close> and \<open>al_block\<close> decode one raw content block; \<open>al_error\<close> is what a payload leaves in the
  message of an error event, whether it decodes or not.
\<close>

record 'w anthropicLib = "'w provLib" +
  al_messages :: "string \<Rightarrow> err + anthContentBlock messagesResponse"
  al_search :: "string \<Rightarrow> err + string messagesResponse"
  al_type :: "string \<Rightarrow> err + string"
  al_block :: "string \<Rightarrow> err + anthWebSearchResult list"
  al_delta :: "string \<Rightarrow> err + string"
  al_error :: "string \<Rightarrow> string"

section \<open>Messages\<close>

definition missing_key :: err where
  "missing_key = Plain ''anthropic: missing API key (set ANTHROPIC_API_KEY or use WithAPIKey)''"

definition anthropic_headers :: "'w anthropicClient \<Rightarrow> (string \<times> string) list" where
  "anthropic_headers c =
     [(''Content-Type'', ''application/json''), (''x-api-key'', ac_apiKey c), (''anthropic-version'', apiVersion)]"

definition anth_msg :: "string \<Rightarrow> wire \<Rightarrow> wire" where
  "anth_msg role content = WObj (field ''role'' (WStr role) @ field ''content'' content)"

text \<open>The two slices one loop fills: the system parts, and the other messages.\<close>

definition system_parts :: "message list \<Rightarrow> string list" where
  "system_parts messages = map msg_Content (filter (\<lambda>m. msg_Role m = RoleSystem) messages)"

definition plain_turn :: "message \<Rightarrow> wire" where
  "plain_turn m = anth_msg (if msg_Role m = RoleAssistant then ''assistant'' else ''user'') (WStr (msg_Content m))"

definition slice :: "wire list \<Rightarrow> wire" where
  "slice xs = (if xs = [] then WNull else WList xs)"

definition plain_messages :: "message list \<Rightarrow> wire" where
  "plain_messages messages = slice (map plain_turn (filter (\<lambda>m. msg_Role m \<noteq> RoleSystem) messages))"

definition system_field :: "message list \<Rightarrow> (string \<times> wire) list" where
  "system_field messages =
     (let s = str_join [CHR 0x0A, CHR 0x0A] (system_parts messages) in opt_field (s \<noteq> []) ''system'' (WStr s))"

definition request_head :: "'w anthropicClient \<Rightarrow> (string \<times> wire) list" where
  "request_head c =
     field ''model'' (WStr (ac_model c)) @ field ''max_tokens'' (WInt (ac_maxTokens c)) @
     field ''temperature'' (WFloat (ac_temperature c))"

definition messages_request :: "'w anthropicClient \<Rightarrow> message list \<Rightarrow> wire" where
  "messages_request c messages =
     WObj (request_head c @ system_field messages @ field ''messages'' (plain_messages messages))"

definition anthropic_checked :: "string \<Rightarrow> int \<Rightarrow> 'b messagesResponse \<Rightarrow> err + 'b list" where
  "anthropic_checked unexpected status parsed =
     (case mr_Error parsed of
        Some m \<Rightarrow> Inl (Plain (''anthropic: API error: '' @ m))
      | None \<Rightarrow> if status \<noteq> 200 then Inl (Plain (unexpected @ itoa_int status)) else Inr (mr_Content parsed))"

text \<open>\<open>Call\<close> and \<open>CallWithTools\<close> after the key was checked, up to the decoded blocks.\<close>

definition post_messages :: "'w anthropicLib \<Rightarrow> 'w anthropicClient \<Rightarrow> wire \<Rightarrow> 'w \<Rightarrow> 'w \<times> (err + anthContentBlock list)" where
  "post_messages lib c reqBody w =
     (case pl_marshal lib reqBody of
        Inl e \<Rightarrow> (w, Inl (wrapf ''anthropic: encoding request: '' e))
      | Inr buf \<Rightarrow>
          (case exchange (provLib.truncate lib) (ac_httpClient c) MaxProviderResponseBytes
                  (wrapf ''anthropic: creating request: '') (wrapf ''anthropic: sending request: '') (wrapf ''anthropic: reading response: '')
                  \<lparr>pq_Method = ''POST'', pq_URL = ac_baseURL c @ ''/messages'', pq_Headers = anthropic_headers c, pq_Body = buf\<rparr> w of
             (w, Inl e) \<Rightarrow> (w, Inl e)
           | (w, Inr (status, data)) \<Rightarrow>
               (w, case al_messages lib data of
                     Inl e \<Rightarrow> Inl (wrapf (''anthropic: decoding response (status '' @ itoa_int status @ ''): '') e)
                   | Inr parsed \<Rightarrow> anthropic_checked ''anthropic: unexpected status '' status parsed)))"

definition text_blocks :: "anthContentBlock list \<Rightarrow> string" where
  "text_blocks bs = concat (map ab_Text (filter (\<lambda>b. ab_Type b = ''text'') bs))"

definition anthropic_Call :: "'w anthropicLib \<Rightarrow> 'w anthropicClient \<Rightarrow> message list \<Rightarrow> 'w \<Rightarrow> 'w \<times> (err + string)" where
  "anthropic_Call lib c messages w =
     (if ac_apiKey c = [] then (w, Inl missing_key)
      else case post_messages lib c (messages_request c messages) w of
        (w, Inl e) \<Rightarrow> (w, Inl e)
      | (w, Inr blocks) \<Rightarrow> (w, Inr (text_blocks blocks)))"

section \<open>Tools\<close>

definition toAnthropicTools :: "toolSpec list \<Rightarrow> wire list" where
  "toAnthropicTools tools =
     map (\<lambda>t. let f = ts_Function t;
                  schema = (if tf_Parameters f = [] then ''{\"type\":\"object\",\"properties\":{}}'' else tf_Parameters f)
              in WObj (field ''name'' (WStr (tf_Name f)) @
                       opt_field (tf_Description f \<noteq> []) ''description'' (WStr (tf_Description f)) @
                       field ''input_schema'' (WRaw schema))) tools"

definition text_part :: "string \<Rightarrow> wire" where
  "text_part s = WObj (field ''type'' (WStr ''text'') @ opt_field (s \<noteq> []) ''text'' (WStr s))"

definition tool_use_part :: "toolCall \<Rightarrow> wire" where
  "tool_use_part tc =
     WObj (field ''type'' (WStr ''tool_use'') @ opt_field (tc_ID tc \<noteq> []) ''id'' (WStr (tc_ID tc)) @
       opt_field (tc_Name tc \<noteq> []) ''name'' (WStr (tc_Name tc)) @
       field ''input'' (WRaw (if tc_Arguments tc = [] then ''{}'' else tc_Arguments tc)))"

definition tool_result_part :: "message \<Rightarrow> wire" where
  "tool_result_part m =
     (let tid = (if msg_ToolCallID m = [] then msg_ToolName m else msg_ToolCallID m) in
      WObj (field ''type'' (WStr ''tool_result'') @ opt_field (tid \<noteq> []) ''tool_use_id'' (WStr tid) @
        opt_field (msg_Content m \<noteq> []) ''content'' (WStr (msg_Content m))))"

definition tool_turn :: "message \<Rightarrow> wire" where
  "tool_turn m =
     (case msg_Role m of
        RoleAssistant \<Rightarrow>
          if msg_ToolCalls m = [] then anth_msg ''assistant'' (WStr (msg_Content m))
          else anth_msg ''assistant'' (WList ((if msg_Content m \<noteq> [] then [text_part (msg_Content m)] else [])
                                               @ map tool_use_part (msg_ToolCalls m)))
      | RoleTool \<Rightarrow> anth_msg ''user'' (WList [tool_result_part m])
      | _ \<Rightarrow> anth_msg ''user'' (WStr (msg_Content m)))"

definition tool_messages :: "message list \<Rightarrow> wire list" where
  "tool_messages messages = map tool_turn (filter (\<lambda>m. msg_Role m \<noteq> RoleSystem) messages)"

definition tools_messages_request :: "'w anthropicClient \<Rightarrow> message list \<Rightarrow> toolSpec list \<Rightarrow> wire" where
  "tools_messages_request c messages tools =
     WObj (request_head c @ system_field messages @ field ''messages'' (slice (tool_messages messages)) @
           opt_field (tools \<noteq> []) ''tools'' (WList (toAnthropicTools tools)))"

definition use_blocks :: "anthContentBlock list \<Rightarrow> toolCall list" where
  "use_blocks bs = map (\<lambda>b. \<lparr>tc_ID = ab_ID b, tc_Name = ab_Name b, tc_Arguments = ab_Input b\<rparr>)
     (filter (\<lambda>b. ab_Type b = ''tool_use'') bs)"

definition anthropic_CallWithTools ::
  "'w anthropicLib \<Rightarrow> 'w anthropicClient \<Rightarrow> message list \<Rightarrow> toolSpec list \<Rightarrow> 'w \<Rightarrow> 'w \<times> (err + toolCallResponse)" where
  "anthropic_CallWithTools lib c messages tools w =
     (if ac_apiKey c = [] then (w, Inl missing_key)
      else case post_messages lib c (tools_messages_request c messages tools) w of
        (w, Inl e) \<Rightarrow> (w, Inl e)
      | (w, Inr blocks) \<Rightarrow> (w, Inr \<lparr>tr_Content = text_blocks blocks, tr_ToolCalls = use_blocks blocks\<rparr>))"

section \<open>Search\<close>

text \<open>The results in the blocks of the one type that carries them; a block that does not decode is skipped.\<close>

definition anthropic_hits :: "'w anthropicLib \<Rightarrow> int \<Rightarrow> string list \<Rightarrow> searchHit list" where
  "anthropic_hits lib n raws =
     (let hits = concat (map (\<lambda>raw.
            case al_type lib raw of
              Inl _ \<Rightarrow> []
            | Inr t \<Rightarrow>
                if t \<noteq> ''web_search_tool_result'' then []
                else case al_block lib raw of
                  Inl _ \<Rightarrow> []
                | Inr results \<Rightarrow> map (\<lambda>r. \<lparr>sh_Title = as_Title r, sh_URL = as_URL r, sh_Content = as_EncryptedContent r\<rparr>)
                                   (filter (\<lambda>r. as_Type r = ''web_search_result'') results)) raws)
      in if int (length hits) > n then take (nat n) hits else hits)"

definition web_search_request :: "'w anthropicClient \<Rightarrow> string \<Rightarrow> int \<Rightarrow> wire" where
  "web_search_request c query n =
     WObj (field ''model'' (WStr (ac_model c)) @ field ''max_tokens'' (WInt (ac_maxTokens c)) @
           field ''messages'' (WList [anth_msg ''user'' (WStr query)]) @
           field ''tools'' (WRaw (''[{\"type\":\"web_search_20250305\",\"name\":\"web_search\",\"max_uses\":'' @ itoa_int n @ ''}]'')))"

definition anthropic_WebSearch ::
  "'w anthropicLib \<Rightarrow> 'w anthropicClient \<Rightarrow> string \<Rightarrow> int \<Rightarrow> 'w \<Rightarrow> 'w \<times> (err + searchHit list)" where
  "anthropic_WebSearch lib c query n w =
     (if ac_apiKey c = [] then (w, Inl missing_key)
      else
        let n = clamp_max n; buf = (case pl_marshal lib (web_search_request c query n) of Inl _ \<Rightarrow> [] | Inr b \<Rightarrow> b) in
        case exchange (provLib.truncate lib) (ac_httpClient c) MaxProviderResponseBytes
               (wrapf ''anthropic: creating web search request: '') (wrapf ''anthropic: sending web search request: '') (wrapf ''anthropic: reading web search response: '')
               \<lparr>pq_Method = ''POST'', pq_URL = ac_baseURL c @ ''/messages'', pq_Headers = anthropic_headers c, pq_Body = buf\<rparr> w of
          (w, Inl e) \<Rightarrow> (w, Inl e)
        | (w, Inr (status, data)) \<Rightarrow>
            (w, case al_search lib data of
                  Inl e \<Rightarrow> if status \<noteq> 200 then Inl (Plain (''anthropic: web search HTTP '' @ itoa_int status))
                            else Inl (wrapf ''anthropic: decoding web search response: '' e)
                | Inr parsed \<Rightarrow>
                    (case anthropic_checked ''anthropic: web search HTTP '' status parsed of
                       Inl e \<Rightarrow> Inl e
                     | Inr raws \<Rightarrow> Inr (anthropic_hits lib n raws))))"

section \<open>Streaming\<close>

definition stream_messages_request :: "'w anthropicClient \<Rightarrow> message list \<Rightarrow> wire" where
  "stream_messages_request c messages =
     WObj (request_head c @ system_field messages @ field ''messages'' (plain_messages messages) @ field ''stream'' (WBool True))"

fun anthropic_scan ::
  "'w anthropicLib \<Rightarrow> sel \<Rightarrow> string \<Rightarrow> (string \<times> err option) list \<Rightarrow> err option \<times> err option \<Rightarrow> nat \<Rightarrow> streamChunk list
   \<Rightarrow> streamChunk list" where
  "anthropic_scan lib s eventName [] ends textLen ch = stream_end ''anthropic'' s ends textLen ch"
| "anthropic_scan lib s eventName ((line, limited) # ls) ends textLen ch =
     (case limited of
        Some e \<Rightarrow> sendErr s e ch
      | None \<Rightarrow>
          if line = [] then anthropic_scan lib s [] ls ends textLen ch
          else if has_prefix line '':'' then anthropic_scan lib s eventName ls ends textLen ch
          else if has_prefix line ''event:'' then anthropic_scan lib s (trim_space (drop 6 line)) ls ends textLen ch
          else if \<not> has_prefix line ''data:'' then anthropic_scan lib s eventName ls ends textLen ch
          else let data = trim_space (drop 5 line) in
            if eventName = ''content_block_delta'' then
              (case al_delta lib data of
                 Inl e \<Rightarrow> sendErr s (wrapf ''anthropic: decoding stream chunk: '' e) ch
               | Inr content \<Rightarrow>
                   if content = [] then anthropic_scan lib s eventName ls ends textLen ch
                   else case send s (chunk_delta content) ch of
                     (ch, False) \<Rightarrow> ch
                   | (ch, True) \<Rightarrow> anthropic_scan lib s eventName ls ends (textLen + length content) ch)
            else if eventName = ''message_stop'' then sendDone s ch
            else if eventName = ''error'' then
              (let m = al_error lib data in
               sendErr s (Plain (''anthropic: API error: '' @ (if m = [] then ''stream error'' else m))) ch)
            else anthropic_scan lib s eventName ls ends textLen ch)"

definition anthropic_runStream ::
  "'w anthropicLib \<Rightarrow> 'w anthropicClient \<Rightarrow> sel \<Rightarrow> message list \<Rightarrow> 'w \<Rightarrow> 'w \<times> streamChunk list" where
  "anthropic_runStream lib c s messages w =
     (if ac_apiKey c = [] then (w, sendErr s missing_key [])
      else open_stream (provLib.truncate lib) (ac_httpClient c) ''anthropic'' (ac_baseURL c @ ''/messages'')
             (anthropic_headers c @ [(''Accept'', ''text/event-stream'')]) (stream_messages_request c messages) s
             (\<lambda>(lines, ends). anthropic_scan lib s [] lines ends 0 []) w)"

end
