(* ===== verification/Ollama.thy ===== *)
theory Ollama
  imports Provider
begin

text \<open>
  \<^verbatim>\<open>llm/ollama\<close>: the client of the native API of a local Ollama or of Ollama Cloud. A stream is one
  JSON document per line; tool calls travel as the program has them.
\<close>

section \<open>The client\<close>

definition LocalBaseURL :: string where "LocalBaseURL = ''http://localhost:11434''"
definition CloudBaseURL :: string where "CloudBaseURL = ''https://ollama.com''"

record 'w ollamaClient =
  lc_model :: string
  lc_baseURL :: string
  lc_apiKey :: string
  lc_temperature :: float64
  lc_httpClient :: "'w httpClient"

definition ollama_WithBaseURL :: "string \<Rightarrow> 'w ollamaClient \<Rightarrow> 'w ollamaClient" where
  "ollama_WithBaseURL url c = c\<lparr>lc_baseURL := url\<rparr>"

definition ollama_WithAPIKey :: "string \<Rightarrow> 'w ollamaClient \<Rightarrow> 'w ollamaClient" where
  "ollama_WithAPIKey key c = c\<lparr>lc_apiKey := key\<rparr>"

definition ollama_WithTemperature :: "float64 \<Rightarrow> 'w ollamaClient \<Rightarrow> 'w ollamaClient" where
  "ollama_WithTemperature t c = c\<lparr>lc_temperature := t\<rparr>"

definition ollama_WithHTTPClient :: "'w httpClient \<Rightarrow> 'w ollamaClient \<Rightarrow> 'w ollamaClient" where
  "ollama_WithHTTPClient h c = c\<lparr>lc_httpClient := h\<rparr>"

definition ollama_New :: "('w, 'x) provLib_scheme \<Rightarrow> string \<Rightarrow> ('w ollamaClient \<Rightarrow> 'w ollamaClient) list \<Rightarrow> 'w ollamaClient" where
  "ollama_New lib model opts =
     fold (\<lambda>opt c. opt c) opts
       \<lparr>lc_model = model, lc_baseURL = LocalBaseURL, lc_apiKey = [], lc_temperature = temperature_07,
        lc_httpClient = pl_client lib 300000000000\<rparr>"

definition ollama_NewCloud :: "('w, 'x) provLib_scheme \<Rightarrow> string \<Rightarrow> ('w ollamaClient \<Rightarrow> 'w ollamaClient) list \<Rightarrow> 'w ollamaClient" where
  "ollama_NewCloud lib model opts =
     fold (\<lambda>opt c. opt c) opts
       \<lparr>lc_model = model, lc_baseURL = CloudBaseURL, lc_apiKey = pl_getenv lib ''OLLAMA_API_KEY'',
        lc_temperature = temperature_07, lc_httpClient = pl_client lib 300000000000\<rparr>"

section \<open>Chat\<close>

text \<open>\<open>chatResponse\<close> and \<open>chatResponseFull\<close>; the first has no tool calls.\<close>

record ollamaResponse =
  lr_Content :: string
  lr_ToolCalls :: "toolCall list"
  lr_Done :: bool
  lr_Error :: string

record ollamaResult =
  lw_Title :: string
  lw_URL :: string
  lw_Content :: string

record 'w ollamaLib = "'w provLib" +
  ll_chat :: "string \<Rightarrow> err + ollamaResponse"
  ll_full :: "string \<Rightarrow> err + ollamaResponse"
  ll_search :: "string \<Rightarrow> err + ollamaResult list"

definition needs_token :: "'w ollamaClient \<Rightarrow> bool" where
  "needs_token c = (lc_baseURL c = CloudBaseURL \<and> lc_apiKey c = [])"

definition token_required :: err where
  "token_required = Plain ''ollama: Ollama Cloud requires a token (set OLLAMA_API_KEY or use WithAPIKey)''"

definition ollama_headers :: "'w ollamaClient \<Rightarrow> (string \<times> string) list" where
  "ollama_headers c = (''Content-Type'', ''application/json'')
     # (if lc_apiKey c \<noteq> [] then [(''Authorization'', ''Bearer '' @ lc_apiKey c)] else [])"

definition ollama_message :: "message \<Rightarrow> wire" where
  "ollama_message m = WObj (field ''role'' (WStr (role_text (msg_Role m))) @ field ''content'' (WStr (msg_Content m)))"

definition ollama_message_full :: "message \<Rightarrow> wire" where
  "ollama_message_full m =
     WObj (field ''role'' (WStr (role_text (msg_Role m))) @ field ''content'' (WStr (msg_Content m)) @
       opt_field (msg_ToolCalls m \<noteq> []) ''tool_calls'' (WList (map wire_tool_call (msg_ToolCalls m))) @
       opt_field (msg_ToolName m \<noteq> []) ''tool_name'' (WStr (msg_ToolName m)))"

definition ollama_request :: "'w ollamaClient \<Rightarrow> bool \<Rightarrow> message list \<Rightarrow> wire" where
  "ollama_request c stream messages =
     WObj (field ''model'' (WStr (lc_model c)) @ field ''messages'' (WList (map ollama_message messages)) @
           field ''stream'' (WBool stream) @ field ''options'' (WObj (field ''temperature'' (WFloat (lc_temperature c)))))"

definition ollama_tools_request :: "'w ollamaClient \<Rightarrow> message list \<Rightarrow> toolSpec list \<Rightarrow> wire" where
  "ollama_tools_request c messages tools =
     WObj (field ''model'' (WStr (lc_model c)) @ field ''messages'' (WList (map ollama_message_full messages)) @
           opt_field (tools \<noteq> []) ''tools'' (WList (map wire_tool_spec tools)) @
           field ''stream'' (WBool False) @ field ''options'' (WObj (field ''temperature'' (WFloat (lc_temperature c)))))"

definition ollama_checked :: "int \<Rightarrow> ollamaResponse \<Rightarrow> err + ollamaResponse" where
  "ollama_checked status parsed =
     (if lr_Error parsed \<noteq> [] then Inl (Plain (''ollama: API error: '' @ lr_Error parsed))
      else if status \<noteq> 200 then Inl (Plain (''ollama: unexpected status '' @ itoa_int status))
      else Inr parsed)"

definition post_chat ::
  "'w ollamaLib \<Rightarrow> 'w ollamaClient \<Rightarrow> (string \<Rightarrow> err + ollamaResponse) \<Rightarrow> wire \<Rightarrow> 'w \<Rightarrow> 'w \<times> (err + ollamaResponse)" where
  "post_chat lib c decode reqBody w =
     (if needs_token c then (w, Inl token_required)
      else case pl_marshal lib reqBody of
        Inl e \<Rightarrow> (w, Inl (wrapf ''ollama: encoding request: '' e))
      | Inr buf \<Rightarrow>
          (case exchange (provLib.truncate lib) (lc_httpClient c) MaxProviderResponseBytes
                  (wrapf ''ollama: creating request: '') (wrapf ''ollama: sending request: '') (wrapf ''ollama: reading response: '')
                  \<lparr>pq_Method = ''POST'', pq_URL = lc_baseURL c @ ''/api/chat'', pq_Headers = ollama_headers c, pq_Body = buf\<rparr> w of
             (w, Inl e) \<Rightarrow> (w, Inl e)
           | (w, Inr (status, data)) \<Rightarrow>
               (w, case decode data of
                     Inl e \<Rightarrow> Inl (wrapf (''ollama: decoding response (status '' @ itoa_int status @ ''): '') e)
                   | Inr parsed \<Rightarrow> ollama_checked status parsed)))"

definition ollama_Call :: "'w ollamaLib \<Rightarrow> 'w ollamaClient \<Rightarrow> message list \<Rightarrow> 'w \<Rightarrow> 'w \<times> (err + string)" where
  "ollama_Call lib c messages w =
     (case post_chat lib c (ll_chat lib) (ollama_request c False messages) w of
        (w, Inl e) \<Rightarrow> (w, Inl e)
      | (w, Inr parsed) \<Rightarrow> (w, Inr (lr_Content parsed)))"

definition ollama_CallWithTools ::
  "'w ollamaLib \<Rightarrow> 'w ollamaClient \<Rightarrow> message list \<Rightarrow> toolSpec list \<Rightarrow> 'w \<Rightarrow> 'w \<times> (err + toolCallResponse)" where
  "ollama_CallWithTools lib c messages tools w =
     (case post_chat lib c (ll_full lib) (ollama_tools_request c messages tools) w of
        (w, Inl e) \<Rightarrow> (w, Inl e)
      | (w, Inr parsed) \<Rightarrow> (w, Inr \<lparr>tr_Content = lr_Content parsed, tr_ToolCalls = lr_ToolCalls parsed\<rparr>))"

section \<open>Search\<close>

definition ollama_WebSearch ::
  "'w ollamaLib \<Rightarrow> 'w ollamaClient \<Rightarrow> string \<Rightarrow> int \<Rightarrow> 'w \<Rightarrow> 'w \<times> (err + searchHit list)" where
  "ollama_WebSearch lib c query n w =
     (if needs_token c then (w, Inl token_required)
      else case pl_marshal lib (WObj (field ''query'' (WStr query) @ field ''max_results'' (WInt (clamp_max n)))) of
        Inl e \<Rightarrow> (w, Inl (wrapf ''ollama: encoding web search request: '' e))
      | Inr buf \<Rightarrow>
          (case exchange (provLib.truncate lib) (lc_httpClient c) MaxProviderResponseBytes
                  (wrapf ''ollama: creating web search request: '') (wrapf ''ollama: sending web search request: '') (wrapf ''ollama: reading web search response: '')
                  \<lparr>pq_Method = ''POST'', pq_URL = lc_baseURL c @ ''/api/web_search'', pq_Headers = ollama_headers c, pq_Body = buf\<rparr> w of
             (w, Inl e) \<Rightarrow> (w, Inl e)
           | (w, Inr (status, data)) \<Rightarrow>
               (w, if status \<noteq> 200 then Inl (Plain (''ollama: web search HTTP '' @ itoa_int status))
                   else case ll_search lib data of
                     Inl e \<Rightarrow> Inl (wrapf ''ollama: decoding web search response: '' e)
                   | Inr results \<Rightarrow>
                       Inr (map (\<lambda>r. \<lparr>sh_Title = lw_Title r, sh_URL = lw_URL r, sh_Content = lw_Content r\<rparr>) results))))"

section \<open>Streaming\<close>

text \<open>
  A line of a stream: skipped, decoded, delivered, and the last one when it says so. The flag
  \<^verbatim>\<open>sawDone\<close> is set only where the loop returns, so it is false after it.
\<close>

fun ollama_scan ::
  "'w ollamaLib \<Rightarrow> sel \<Rightarrow> (string \<times> err option) list \<Rightarrow> err option \<times> err option \<Rightarrow> nat \<Rightarrow> streamChunk list \<Rightarrow> streamChunk list" where
  "ollama_scan lib s [] ends textLen ch = stream_end ''ollama'' s ends textLen ch"
| "ollama_scan lib s ((line, limited) # ls) ends textLen ch =
     (case limited of
        Some e \<Rightarrow> sendErr s e ch
      | None \<Rightarrow>
          if trim_space line = [] then ollama_scan lib s ls ends textLen ch
          else case ll_chat lib line of
            Inl e \<Rightarrow> sendErr s (wrapf ''ollama: decoding stream chunk: '' e) ch
          | Inr parsed \<Rightarrow>
              if lr_Error parsed \<noteq> [] then sendErr s (Plain (''ollama: API error: '' @ lr_Error parsed)) ch
              else let content = lr_Content parsed;
                       (ch, live) = (if content \<noteq> [] then send s (chunk_delta content) ch else (ch, True)) in
                if \<not> live then ch
                else if lr_Done parsed then sendDone s ch
                else ollama_scan lib s ls ends (textLen + length content) ch)"

definition ollama_runStream :: "'w ollamaLib \<Rightarrow> 'w ollamaClient \<Rightarrow> sel \<Rightarrow> message list \<Rightarrow> 'w \<Rightarrow> 'w \<times> streamChunk list" where
  "ollama_runStream lib c s messages w =
     (if needs_token c then (w, sendErr s token_required [])
      else open_stream (provLib.truncate lib) (lc_httpClient c) ''ollama'' (lc_baseURL c @ ''/api/chat'')
             (ollama_headers c) (ollama_request c True messages) s
             (\<lambda>(lines, ends). ollama_scan lib s lines ends 0 []) w)"

end
