(* ===== verification/ProviderSpec.thy ===== *)
theory ProviderSpec
  imports OpenAI Anthropic Ollama Executor
begin

text \<open>
  What the adapters promise: a stream keeps the chunk protocol whatever the server sends, it does not
  depend on how the network cuts a body into reads, a well-formed stream delivers its text, and
  conversations with tool calls stay well paired on the wire.
\<close>

section \<open>Lines do not depend on the reads\<close>

lemma split_on_append_any:
  "split_on d (x @ y) = butlast (split_on d x) @ split_on d (last (split_on d x) @ y)"
proof (induction x)
  case (Cons c x)
  obtain p ps where p: "split_on d x = p # ps" using split_on_nonempty [of d x] by (cases "split_on d x") auto
  show ?case
  proof (cases "c = d")
    case True
    then show ?thesis using Cons p by simp
  next
    case False
    have "split_on d ((c # p) @ y) = (case split_on d (p @ y) of [] \<Rightarrow> [[c]] | z # zs \<Rightarrow> (c # z) # zs)"
      using False by simp
    then show ?thesis using Cons False p by (cases ps) (auto split: list.split)
  qed
qed simp

lemma scan_lines_append:
  "scan_lines (x @ y) = map strip_return (butlast (split_on CHR 0x0A x)) @ scan_lines (last (split_on CHR 0x0A x) @ y)"
proof -
  have n: "split_on CHR 0x0A z \<noteq> []" for z by (rule split_on_nonempty)
  show ?thesis
    unfolding scan_lines_def Let_def split_on_append_any [of "CHR 0x0A" x y] using n by (auto simp: butlast_append)
qed

lemma last_split_length: "length (last (split_on d x)) \<le> length x"
proof (induction x)
  case (Cons c x)
  then show ?case using split_on_nonempty [of d x] by (cases "split_on d x") auto
qed simp

lemma scan_body_whole:
  assumes "lr_n c + length (concat rs) \<le> MaxProviderResponseBytes" "length buf + length (concat rs) < MaxProviderResponseBytes"
  shows "scan_body c buf rs fin = (map (\<lambda>l. (l, None)) (scan_lines (buf @ concat rs)), fin, None)"
  using assms
proof (induction rs arbitrary: c buf)
  case (Cons r rs)
  let ?ls = "split_on CHR 0x0A (buf @ r)"
  let ?c = "counting_read c r"
  have c: "lr_err ?c = None" "lr_n ?c = lr_n c + length r"
    using Cons.prems(1) by (simp_all add: counting_read_def Let_def)
  have "length (last ?ls) \<le> length buf + length r" using last_split_length [of "CHR 0x0A" "buf @ r"] by simp
  then have "scan_body ?c (last ?ls) rs fin = (map (\<lambda>l. (l, None)) (scan_lines (last ?ls @ concat rs)), fin, None)"
    using Cons.prems c(2) by (intro Cons.IH) simp_all
  then show ?case
    using Cons.prems(2) c(1) scan_lines_append [of "buf @ r" "concat rs"] by (simp add: Let_def comp_def)
qed simp

lemma scan_stream_whole:
  "length (concat reads) < MaxProviderResponseBytes \<Longrightarrow>
   scan_stream (reads, fin) = (map (\<lambda>l. (l, None)) (scan_lines (concat reads)), fin, None)"
  unfolding scan_stream_def by (simp add: scan_body_whole)

section \<open>The chunk protocol\<close>

text \<open>
  The contract of \<^verbatim>\<open>StreamingLLM\<close>: text chunks, none of them empty, and then nothing, one final chunk, or
  one error without text.
\<close>

definition ends_stream :: "streamChunk list \<Rightarrow> bool" where
  "ends_stream t = (t = [] \<or> t = [chunk_done []] \<or> (\<exists>e. t = [chunk_err e]))"

definition well_streamed :: "streamChunk list \<Rightarrow> bool" where
  "well_streamed ch = (\<exists>ds t. ch = map chunk_delta ds @ t \<and> [] \<notin> set ds \<and> ends_stream t)"

locale chunk_producer =
  fixes run :: "'i \<Rightarrow> sel \<Rightarrow> streamChunk list"
  assumes protocol: "well_streamed (run i s)"
begin

lemma errors_empty: "err_chunks_empty (map RecvChunk (run i s))"
  using protocol [of i s] unfolding well_streamed_def ends_stream_def err_chunks_empty_def
  by (auto simp: chunk_delta_def chunk_err_def chunk_done_def)

lemma never_both: "c \<in> set (run i s) \<Longrightarrow> \<not> (sk_Done c \<and> sk_Err c \<noteq> None)"
  using protocol [of i s] unfolding well_streamed_def ends_stream_def
  by (auto simp: chunk_delta_def chunk_err_def chunk_done_def)

lemma sink_agrees:
  assumes "cx_err ctx = (\<lambda>_. st)"
  shows "snd (drainToSink ctx (as_channel (run i s)) sink w) = CollectStream ctx (as_channel (run i s)) w"
  by (simp add: drainToSink_def CollectStream_def as_channel_def drain_loop_collect [OF assms errors_empty])

end

lemma well_streamed_deltas: "[] \<notin> set ds \<Longrightarrow> ends_stream t \<Longrightarrow> well_streamed (map chunk_delta ds @ t)"
  unfolding well_streamed_def by blast

lemma well_streamed_sendErr [intro]: "[] \<notin> set ds \<Longrightarrow> well_streamed (sendErr s e (map chunk_delta ds))"
proof -
  assume ds: "[] \<notin> set ds"
  have "well_streamed (map chunk_delta ds @ t)" if "t = [] \<or> t = [chunk_err e]" for t
    using ds that by (intro well_streamed_deltas) (auto simp: ends_stream_def)
  then show ?thesis by (force simp: sendErr_def send_def)
qed

lemma well_streamed_sendDone [intro]: "[] \<notin> set ds \<Longrightarrow> well_streamed (sendDone s (map chunk_delta ds))"
proof -
  assume ds: "[] \<notin> set ds"
  have "well_streamed (map chunk_delta ds @ t)" if "t = [] \<or> t = [chunk_done []]" for t
    using ds that by (intro well_streamed_deltas) (auto simp: ends_stream_def)
  then show ?thesis by (force simp: sendDone_def send_def)
qed

lemma well_streamed_plain [intro]: "[] \<notin> set ds \<Longrightarrow> well_streamed (map chunk_delta ds)"
  using well_streamed_deltas [of ds "[]"] by (simp add: ends_stream_def)

lemma well_streamed_end [intro]: "[] \<notin> set ds \<Longrightarrow> well_streamed (stream_end who s ends n (map chunk_delta ds))"
  by (cases ends) (auto simp: stream_end_def split: option.split)

lemma send_delta: "send s (chunk_delta d) (map chunk_delta ds) = (if sl_done s (length ds) then (map chunk_delta ds, False) else (map chunk_delta (ds @ [d]), True))"
  by (simp add: send_def)

lemma openai_scan_streams: "[] \<notin> set ds \<Longrightarrow> well_streamed (openai_scan lib s ls ends n (map chunk_delta ds))"
proof (induction ls arbitrary: ds n)
  case (Cons l ls)
  obtain line limited where l: "l = (line, limited)" by fastforce
  have more: "well_streamed (openai_scan lib s ls ends n' (map chunk_delta (ds @ [d])))" if "d \<noteq> []" for d n'
    using that Cons.prems by (intro Cons.IH) simp
  have skip: "well_streamed (openai_scan lib s ls ends n (map chunk_delta ds))" by (rule Cons.IH [OF Cons.prems])
  show ?case unfolding l openai_scan.simps
    using Cons.prems more skip by (auto simp: send_delta Let_def split: option.split sum.split simp del: map_append)
qed (simp add: well_streamed_end)

lemma anthropic_scan_streams: "[] \<notin> set ds \<Longrightarrow> well_streamed (anthropic_scan lib s ev ls ends n (map chunk_delta ds))"
proof (induction ls arbitrary: ev ds n)
  case (Cons l ls)
  obtain line limited where l: "l = (line, limited)" by fastforce
  have skip: "well_streamed (anthropic_scan lib s ev' ls ends n (map chunk_delta ds))" for ev' by (rule Cons.IH [OF Cons.prems])
  let ?data = "trim_space (drop 5 line)"
  show ?case
  proof (cases "limited = None \<and> line \<noteq> [] \<and> \<not> has_prefix line '':'' \<and> \<not> has_prefix line ''event:''
      \<and> has_prefix line ''data:'' \<and> ev = ''content_block_delta''")
    case True
    show ?thesis
    proof (cases "al_delta lib ?data")
      case (Inr content)
      have "well_streamed (anthropic_scan lib s ev ls ends n' (map chunk_delta (ds @ [content])))" if "content \<noteq> []" for n'
        using that Cons.prems by (intro Cons.IH) simp
      then show ?thesis
        using True Inr l skip Cons.prems by (cases "content = []") (simp_all add: send_delta Let_def well_streamed_plain del: map_append)
    qed (use True l Cons.prems in \<open>simp add: well_streamed_sendErr\<close>)
  next
    case False
    then show ?thesis
      using l skip Cons.prems by (cases limited) (auto simp: Let_def)
  qed
qed (simp add: well_streamed_end)

lemma ollama_scan_streams: "[] \<notin> set ds \<Longrightarrow> well_streamed (ollama_scan lib s ls ends n (map chunk_delta ds))"
proof (induction ls arbitrary: ds n)
  case (Cons l ls)
  obtain line limited where l: "l = (line, limited)" by fastforce
  have step: "well_streamed (if final then sendDone s (map chunk_delta ds') else ollama_scan lib s ls ends n' (map chunk_delta ds'))"
    if "[] \<notin> set ds'" for final ds' n' using that Cons.IH by (simp add: well_streamed_sendDone)
  show ?case
  proof (cases "limited = None \<and> trim_space line \<noteq> []")
    case True
    show ?thesis
    proof (cases "ll_chat lib line")
      case (Inr parsed)
      have with_text: "[] \<notin> set (ds @ [lr_Content parsed])" if "lr_Content parsed \<noteq> []" using that Cons.prems by simp
      show ?thesis
        using True Inr l Cons.prems step [OF Cons.prems, of "lr_Done parsed" n]
          step [OF with_text, of "lr_Done parsed" "n + length (lr_Content parsed)"]
        by (cases "lr_Content parsed = []") (auto simp: send_delta Let_def simp del: map_append)
    qed (use True l Cons.prems in \<open>auto simp: Let_def\<close>)
  next
    case False
    then show ?thesis using l Cons.prems Cons.IH [OF Cons.prems] by (cases limited) auto
  qed
qed (simp add: well_streamed_end)

lemma open_stream_streams:
  assumes "\<And>scan. well_streamed (loop scan)"
  shows "well_streamed (snd (open_stream lib client who url headers body s loop w))"
proof -
  have "well_streamed (sendErr s e [])" for e using well_streamed_sendErr [of "[]" s e] by simp
  then show ?thesis using assms unfolding open_stream_def
    by (simp split: sum.split option.split prod.split)
qed

text \<open>The three clients fulfil the contract.\<close>

lemma openai_runStream_streams: "well_streamed (snd (openai_runStream lib c s messages w))"
proof -
  have "well_streamed (sendErr s e [])" for e using well_streamed_sendErr [of "[]" s e] by simp
  then show ?thesis
    using openai_scan_streams [of "[]" lib s] by (auto simp: openai_runStream_def intro!: open_stream_streams split: sum.split prod.split)
qed

lemma anthropic_runStream_streams: "well_streamed (snd (anthropic_runStream lib c s messages w))"
proof -
  have "well_streamed (sendErr s e [])" for e using well_streamed_sendErr [of "[]" s e] by simp
  then show ?thesis
    using anthropic_scan_streams [of "[]" lib s] by (auto simp: anthropic_runStream_def intro!: open_stream_streams split: prod.split)
qed

lemma ollama_runStream_streams: "well_streamed (snd (ollama_runStream lib c s messages w))"
proof -
  have "well_streamed (sendErr s e [])" for e using well_streamed_sendErr [of "[]" s e] by simp
  then show ?thesis
    using ollama_scan_streams [of "[]" lib s] by (auto simp: ollama_runStream_def intro!: open_stream_streams split: prod.split)
qed

interpretation openai_stream: chunk_producer "\<lambda>(lib, c, messages, w) s. snd (openai_runStream lib c s messages w)"
  by unfold_locales (simp add: openai_runStream_streams split: prod.split)

interpretation anthropic_stream: chunk_producer "\<lambda>(lib, c, messages, w) s. snd (anthropic_runStream lib c s messages w)"
  by unfold_locales (simp add: anthropic_runStream_streams split: prod.split)

interpretation ollama_stream: chunk_producer "\<lambda>(lib, c, messages, w) s. snd (ollama_runStream lib c s messages w)"
  by unfold_locales (simp add: ollama_runStream_streams split: prod.split)

text \<open>
  C13. Whatever a server sends, however its bytes arrive and whenever the context is cancelled, the
  channel of each of the three providers carries non-empty text chunks followed by at most one final
  chunk, which is a completion or an error without text, never both; so a sink and a collector see the
  same text and the same error.
\<close>
theorem providers_stream_protocol:
  assumes "ch \<in> {snd (openai_runStream olib oc s messages w), snd (anthropic_runStream alib ac s messages w),
                 snd (ollama_runStream llib lc s messages w)}"
    and "cx_err ctx = (\<lambda>_. st)"
  shows "well_streamed ch \<and> snd (drainToSink ctx (as_channel ch) sink w') = CollectStream ctx (as_channel ch) w'"
  using assms(1) openai_runStream_streams [of olib oc s messages w] anthropic_runStream_streams [of alib ac s messages w]
    ollama_runStream_streams [of llib lc s messages w]
    openai_stream.sink_agrees [OF assms(2), of "(olib, oc, messages, w)" s sink w']
    anthropic_stream.sink_agrees [OF assms(2), of "(alib, ac, messages, w)" s sink w']
    ollama_stream.sink_agrees [OF assms(2), of "(llib, lc, messages, w)" s sink w']
  by auto

section \<open>Well-formed streams deliver their text\<close>

lemma scan_lines_line: "CHR 0x0A \<notin> set l \<Longrightarrow> scan_lines (l @ CHR 0x0A # rest) = strip_return l # scan_lines rest"
  by (simp add: scan_lines_def Let_def split_on_append)

lemma trim_space_blank: "trim_space (CHR 0x20 # s) = trim_space s"
proof -
  have "strip_with space_runes (CHR 0x20 # s) = strip_with space_runes s"
    by (subst strip_with.simps) (simp add: space_runes_def)
  then show ?thesis by (simp add: trim_space_def)
qed

text \<open>A payload a server can put on one \<^verbatim>\<open>data:\<close> line.\<close>

definition one_line :: "string \<Rightarrow> bool" where
  "one_line p = (CHR 0x0A \<notin> set p \<and> CHR 0x0D \<notin> set p \<and> trim_space p = p)"

definition openai_event :: "string \<Rightarrow> string" where
  "openai_event p = ''data: '' @ p @ [CHR 0x0A, CHR 0x0A]"

definition openai_sse :: "string list \<Rightarrow> string" where
  "openai_sse payloads = concat (map openai_event payloads) @ openai_event ''[DONE]''"

lemma openai_event_lines: "one_line p \<Longrightarrow> scan_lines (openai_event p @ rest) = (''data: '' @ p) # [] # scan_lines rest"
proof -
  assume p: "one_line p"
  have "strip_return (''data: '' @ p) = ''data: '' @ p" "CHR 0x0A \<notin> set (''data: '' @ p)"
    using p by (intro strip_return_plain, simp_all add: one_line_def)
  then have "scan_lines ((''data: '' @ p) @ CHR 0x0A # ([] @ CHR 0x0A # rest)) = (''data: '' @ p) # [] # scan_lines rest"
    using scan_lines_line [of "[]" rest] scan_lines_line [of "''data: '' @ p" "[] @ CHR 0x0A # rest"]
    by (simp add: strip_return_def)
  then show ?thesis by (simp add: openai_event_def)
qed

lemma data_line:
  assumes "one_line p"
  shows "has_prefix (''data: '' @ p) ''data:''" "\<not> has_prefix (''data: '' @ p) '':''" "trim_space (drop 5 (''data: '' @ p)) = p"
  using assms by (simp_all add: has_prefix_def one_line_def trim_space_blank)

lemma openai_scan_delivers:
  assumes "\<And>p. p \<in> set payloads \<Longrightarrow> one_line p \<and> p \<noteq> ''[DONE]'' \<and> ol_delta lib p = Inr \<lparr>cr_Choices = [Some (piece p)], cr_Error = None\<rparr>"
    and "sl_done s = (\<lambda>_. False)"
  shows "openai_scan lib s (map (\<lambda>l. (l, None)) (scan_lines (openai_sse payloads))) ends n (map chunk_delta ds)
    = map chunk_delta (ds @ filter (\<lambda>d. d \<noteq> []) (map piece payloads)) @ [chunk_done []]"
  using assms(1)
proof (induction payloads arbitrary: n ds)
  case Nil
  have "one_line ''[DONE]''" by (simp add: one_line_def trim_space_def strip_with.simps space_runes_def)
  from openai_event_lines [OF this, of "[]"] data_line [OF this] show ?case
    using assms(2) by (simp add: openai_sse_def sendDone_def send_def)
next
  case (Cons p ps)
  have p: "one_line p" "p \<noteq> ''[DONE]''" "ol_delta lib p = Inr \<lparr>cr_Choices = [Some (piece p)], cr_Error = None\<rparr>"
    using Cons.prems [of p] by simp_all
  have lines: "scan_lines (openai_sse (p # ps)) = (''data: '' @ p) # [] # scan_lines (openai_sse ps)"
    using openai_event_lines [OF p(1)] by (simp add: openai_sse_def)
  have IH: "openai_scan lib s (map (\<lambda>l. (l, None)) (scan_lines (openai_sse ps))) ends n' (map chunk_delta ds')
      = map chunk_delta (ds' @ filter (\<lambda>d. d \<noteq> []) (map piece ps)) @ [chunk_done []]" for n' ds'
    by (rule Cons.IH) (use Cons.prems in simp)
  show ?case
  proof (cases "piece p = []")
    case True
    then show ?thesis unfolding lines using p data_line [OF p(1)] IH by (simp add: Let_def)
  next
    case False
    have "openai_scan lib s (map (\<lambda>l. (l, None)) (scan_lines (openai_sse (p # ps)))) ends n (map chunk_delta ds)
      = openai_scan lib s (map (\<lambda>l. (l, None)) (scan_lines (openai_sse ps))) ends (n + length (piece p)) (map chunk_delta (ds @ [piece p]))"
      unfolding lines using False p data_line [OF p(1)] assms(2) by (simp add: Let_def send_def)
    then show ?thesis using False IH [of _ "ds @ [piece p]"] by simp
  qed
qed

lemma collect_deltas:
  "collect_loop ctx (map RecvChunk (map chunk_delta ds) @ [RecvChunk (chunk_done [])]) b w = (b @ concat ds, None)"
  by (induction ds arbitrary: b) (auto simp: chunk_delta_def chunk_done_def)

lemma concat_nonempty: "concat (filter (\<lambda>d. d \<noteq> []) xs) = concat xs"
  by (induction xs) auto

text \<open>
  C36. A stream that follows the protocol delivers the text of its pieces, in order, and nothing else,
  and completes: for any payloads that fit a line and decode to one piece each, and any way the network
  cuts the body into reads; a caller that collects the channel gets the same text as one call would.
\<close>
theorem openai_stream_delivers:
  assumes "\<And>p. p \<in> set payloads \<Longrightarrow> one_line p \<and> p \<noteq> ''[DONE]'' \<and> ol_delta lib p = Inr \<lparr>cr_Choices = [Some (piece p)], cr_Error = None\<rparr>"
    and "authToken c w = (w1, Inr token)" "pl_marshal lib (stream_request c messages) = Inr buf"
    and "pl_request lib (oc_baseURL c @ ''/chat/completions'') = None"
    and "oc_httpClient c \<lparr>pq_Method = ''POST'', pq_URL = oc_baseURL c @ ''/chat/completions'',
           pq_Headers = openai_headers token @ [(''Accept'', ''text/event-stream'')], pq_Body = buf\<rparr> w1
         = (w2, Inr \<lparr>pr_Status = 200, pr_Body = (reads, fin)\<rparr>)"
    and "concat reads = openai_sse payloads" "length (openai_sse payloads) < MaxProviderResponseBytes"
    and "sl_done s = (\<lambda>_. False)"
  shows "openai_runStream lib c s messages w = (w2, map chunk_delta (filter (\<lambda>d. d \<noteq> []) (map piece payloads)) @ [chunk_done []])
    \<and> CollectStream ctx (as_channel (snd (openai_runStream lib c s messages w))) w' = (concat (map piece payloads), None)"
proof -
  have scan: "scan_stream (reads, fin) = (map (\<lambda>l. (l, None)) (scan_lines (openai_sse payloads)), fin, None)"
    using scan_stream_whole [of reads fin] assms(6,7) by simp
  have "openai_runStream lib c s messages w = (w2, map chunk_delta (filter (\<lambda>d. d \<noteq> []) (map piece payloads)) @ [chunk_done []])"
    using assms(2-5) openai_scan_delivers [where ds = "[]" and payloads = payloads, OF assms(1) assms(8)]
    by (simp add: openai_runStream_def open_stream_def provLib.defs scan)
  then show ?thesis
    using collect_deltas [of ctx "filter (\<lambda>d. d \<noteq> []) (map piece payloads)" "[]" w']
    by (simp add: CollectStream_def as_channel_def concat_nonempty)
qed


section \<open>Witnesses\<close>

text \<open>A client whose server streams two pieces, cut into reads in the middle of a line.\<close>

definition small_openai_lib :: "unit openaiLib" where
  "small_openai_lib =
     \<lparr>pl_marshal = (\<lambda>_. Inr ''{}''), pl_request = (\<lambda>_. None), pl_client = (\<lambda>_ _ w. (w, Inl (Plain ''down''))),
      pl_getenv = (\<lambda>_. []), ol_chat = (\<lambda>d. Inr \<lparr>cr_Choices = [d], cr_Error = None\<rparr>),
      ol_tools = (\<lambda>d. Inr \<lparr>cr_Choices = [], cr_Error = None\<rparr>), ol_search = (\<lambda>d. Inr \<lparr>cr_Choices = [], cr_Error = None\<rparr>),
      ol_delta = (\<lambda>d. Inr \<lparr>cr_Choices = [Some d], cr_Error = None\<rparr>), ol_raw = (\<lambda>d. Inr d)\<rparr>"

definition small_openai :: "unit openaiClient" where
  "small_openai =
     \<lparr>oc_apiKey = ''key'', oc_tokenSource = None, oc_model = ''m'', oc_baseURL = ''http://h'', oc_temperature = temperature_07,
      oc_httpClient = (\<lambda>_ w. (w, Inr \<lparr>pr_Status = 200,
        pr_Body = ([take 9 (openai_sse [''he'', ''llo'']), drop 9 (openai_sse [''he'', ''llo''])], None)\<rparr>))\<rparr>"

definition open_sel :: sel where "open_sel = \<lparr>sl_done = (\<lambda>_. False), sl_err = False\<rparr>"

lemma openai_stream_delivers_witness:
  "openai_runStream small_openai_lib small_openai open_sel [UserMessage ''q''] () = ((), [chunk_delta ''he'', chunk_delta ''llo'', chunk_done []])
   \<and> CollectStream background (as_channel [chunk_delta ''he'', chunk_delta ''llo'', chunk_done []]) () = (''hello'', None)"
proof -
  have both: "openai_runStream small_openai_lib small_openai open_sel [UserMessage ''q''] ()
       = ((), map chunk_delta (filter (\<lambda>d. d \<noteq> []) (map (\<lambda>d. d) [''he'', ''llo''])) @ [chunk_done []])
    \<and> CollectStream background (as_channel (snd (openai_runStream small_openai_lib small_openai open_sel [UserMessage ''q''] ()))) ()
       = (concat (map (\<lambda>d. d) [''he'', ''llo'']), None)"
  proof (rule openai_stream_delivers)
    fix p assume "p \<in> set [''he'', ''llo'']"
    moreover have "trim_space ''he'' = ''he''" "trim_space ''llo'' = ''llo''" by code_simp+
    ultimately show "one_line p \<and> p \<noteq> ''[DONE]'' \<and> ol_delta small_openai_lib p = Inr \<lparr>cr_Choices = [Some p], cr_Error = None\<rparr>"
      by (auto simp: one_line_def small_openai_lib_def)
  next
    show "concat [take 9 (openai_sse [''he'', ''llo'']), drop 9 (openai_sse [''he'', ''llo''])] = openai_sse [''he'', ''llo'']"
      by (simp only: concat.simps append_Nil2 append_take_drop_id)
  next
    show "length (openai_sse [''he'', ''llo'']) < MaxProviderResponseBytes"
      by (simp add: openai_sse_def openai_event_def MaxProviderResponseBytes_def)
  qed (simp_all add: small_openai_lib_def small_openai_def authToken_def open_sel_def)
  have run: "openai_runStream small_openai_lib small_openai open_sel [UserMessage ''q''] () = ((), [chunk_delta ''he'', chunk_delta ''llo'', chunk_done []])"
    using conjunct1 [OF both] by simp
  show ?thesis using run conjunct2 [OF both] unfolding run by simp
qed

lemma providers_stream_protocol_witness:
  "well_streamed (snd (openai_runStream small_openai_lib small_openai open_sel [] ()))
   \<and> snd (drainToSink background (as_channel (snd (openai_runStream small_openai_lib small_openai open_sel [] ()))) None ())
     = CollectStream background (as_channel (snd (openai_runStream small_openai_lib small_openai open_sel [] ()))) ()"
  by (rule providers_stream_protocol [where st = None and olib = small_openai_lib and oc = small_openai and s = open_sel and messages = "[]" and w = "()"])
    (simp_all add: background_def)


end
