(* ===== verification/ProviderTools.thy ===== *)
theory ProviderTools
  imports OpenAI Anthropic Executor
begin

text \<open>
  Tool calls on the wire: what a provider with native tool calling requires of the messages it is sent,
  for the encodings of OpenAI and Anthropic, and the native loop of the executor run with these clients.
\<close>

section \<open>Paired messages on the wire\<close>

text \<open>
  \<open>requested\<close> reads the ids of the calls a message asks for, \<open>answered\<close> the id a message answers. A
  message that asks for calls is followed by their answers, in order; no answer stands anywhere else.
\<close>

function wire_paired :: "(wire \<Rightarrow> string list) \<Rightarrow> (wire \<Rightarrow> string option) \<Rightarrow> wire list \<Rightarrow> bool" where
  "wire_paired requested answered [] = True"
| "wire_paired requested answered (m # ms) =
     (if requested m = [] then answered m = None \<and> wire_paired requested answered ms
      else map answered (take (length (requested m)) ms) = map Some (requested m)
        \<and> wire_paired requested answered (drop (length (requested m)) ms))"
  by pat_completeness auto
termination by (relation "measure (\<lambda>(_, _, ms). length ms)") auto

text \<open>An encoding of messages, one by one, that keeps calls and answers readable.\<close>

locale tool_wire =
  fixes turn :: "message \<Rightarrow> wire"
    and kept :: "message \<Rightarrow> bool"
    and requested :: "wire \<Rightarrow> string list"
    and answered :: "wire \<Rightarrow> string option"
    and fit :: "message \<Rightarrow> bool"
  assumes kept_calls: "msg_Role m = RoleAssistant \<or> msg_Role m = RoleTool \<Longrightarrow> kept m"
    and requested_turn: "fit m \<Longrightarrow> msg_Role m = RoleAssistant \<or> msg_ToolCalls m = [] \<Longrightarrow> requested (turn m) = map tc_ID (msg_ToolCalls m)"
    and answered_turn: "fit m \<Longrightarrow> msg_Role m = RoleTool \<Longrightarrow> answered (turn m) = Some (msg_ToolCallID m)"
    and answered_other: "msg_Role m \<noteq> RoleTool \<Longrightarrow> answered (turn m) = None"
begin

lemma encode_paired:
  assumes "paired ms" "\<forall>m\<in>set ms. fit m"
  shows "wire_paired requested answered (map turn (filter kept ms))"
  using assms
proof (induction ms rule: paired.induct)
  case (2 m ms)
  show ?case
  proof (cases "msg_ToolCalls m = []")
    case True
    then show ?thesis
      using 2 requested_turn [of m] answered_other [of m] by (cases "kept m") simp_all
  next
    case False
    let ?n = "length (msg_ToolCalls m)"
    have m: "msg_Role m = RoleAssistant" "list_all2 answers (msg_ToolCalls m) (take ?n ms)" "paired (drop ?n ms)"
      using 2(3) False by simp_all
    have n: "length (take ?n ms) = ?n" using list_all2_lengthD [OF m(2)] by simp
    have tools: "\<forall>t\<in>set (take ?n ms). msg_Role t = RoleTool \<and> fit t"
      using m(2) 2(4) by (auto simp: list_all2_conv_all_nth in_set_conv_nth answers_def dest: in_set_takeD)
    have keep: "filter kept (take ?n ms) = take ?n ms" using tools kept_calls by (simp add: filter_id_conv)
    have split: "filter kept ms = take ?n ms @ filter kept (drop ?n ms)"
      using keep filter_append [of kept "take ?n ms" "drop ?n ms"] by simp
    have ans: "map answered (map turn (take ?n ms)) = map Some (map tc_ID (msg_ToolCalls m))"
    proof (rule nth_equalityI)
      fix i assume "i < length (map answered (map turn (take ?n ms)))"
      then have i: "i < ?n" using n by simp
      then have "answers (msg_ToolCalls m ! i) (take ?n ms ! i)" using list_all2_nthD [OF m(2) i] by simp
      moreover have "take ?n ms ! i \<in> set (take ?n ms)" using i n by (intro nth_mem) simp
      ultimately show "map answered (map turn (take ?n ms)) ! i = map Some (map tc_ID (msg_ToolCalls m)) ! i"
        using tools answered_turn [of "take ?n ms ! i"] i n by (simp add: answers_def)
    qed (use n in simp)
    have rest: "wire_paired requested answered (map turn (filter kept (drop ?n ms)))"
      using 2(2) [OF False m(3)] 2(4) by (auto dest: in_set_dropD)
    have req: "requested (turn m) = map tc_ID (msg_ToolCalls m)" using requested_turn [of m] m(1) 2(4) by simp
    have "map turn (filter kept (m # ms)) = turn m # map turn (take ?n ms) @ map turn (filter kept (drop ?n ms))"
      using split kept_calls [of m] m(1) by simp
    then show ?thesis using req ans rest False n by simp
  qed
qed simp

end

section \<open>OpenAI\<close>

fun wire_string :: "wire option \<Rightarrow> string" where
  "wire_string (Some (WStr s)) = s"
| "wire_string _ = []"

fun wire_elems :: "wire option \<Rightarrow> wire list" where
  "wire_elems (Some (WList xs)) = xs"
| "wire_elems _ = []"

definition openai_requested :: "wire \<Rightarrow> string list" where
  "openai_requested m = map (\<lambda>v. wire_string (wire_get ''id'' v)) (wire_elems (wire_get ''tool_calls'' m))"

definition openai_answered :: "wire \<Rightarrow> string option" where
  "openai_answered m =
     (if wire_string (wire_get ''role'' m) = ''tool'' then Some (wire_string (wire_get ''tool_call_id'' m)) else None)"

lemmas wire_defs = field_def opt_field_def

lemma role_text_tool: "role_text r = ''tool'' \<longleftrightarrow> r = RoleTool"
  by (cases r) simp_all

interpretation openai_wire: tool_wire openai_message "\<lambda>_. True" openai_requested openai_answered "\<lambda>_. True"
  by unfold_locales
    (auto simp: openai_message_def openai_requested_def openai_answered_def wire_defs wire_openai_call_def comp_def role_text_tool)

section \<open>Anthropic\<close>

definition part_id :: "string \<Rightarrow> string \<Rightarrow> wire \<Rightarrow> string option" where
  "part_id kind key p =
     (if wire_string (wire_get ''type'' p) = kind then Some (wire_string (wire_get key p)) else None)"

definition anthropic_requested :: "wire \<Rightarrow> string list" where
  "anthropic_requested m = List.map_filter (part_id ''tool_use'' ''id'') (wire_elems (wire_get ''content'' m))"

definition anthropic_answered :: "wire \<Rightarrow> string option" where
  "anthropic_answered m =
     (case List.map_filter (part_id ''tool_result'' ''tool_use_id'') (wire_elems (wire_get ''content'' m)) of [] \<Rightarrow> None | i # _ \<Rightarrow> Some i)"

text \<open>Without an id the encoding falls back to the tool's name, which answers nothing.\<close>

definition has_id :: "message \<Rightarrow> bool" where
  "has_id m = (msg_Role m = RoleTool \<longrightarrow> msg_ToolCallID m \<noteq> [])"

lemma text_part_id: "part_id ''tool_use'' ''id'' (text_part s) = None" "part_id ''tool_result'' k (text_part s) = None"
  by (simp_all add: part_id_def text_part_def wire_defs)

lemma tool_use_part_id: "part_id ''tool_use'' ''id'' (tool_use_part tc) = Some (tc_ID tc)" "part_id ''tool_result'' k (tool_use_part tc) = None"
  by (simp_all add: part_id_def tool_use_part_def wire_defs)

lemma tool_result_part_id:
  "msg_ToolCallID m \<noteq> [] \<Longrightarrow> part_id ''tool_result'' ''tool_use_id'' (tool_result_part m) = Some (msg_ToolCallID m)"
  "part_id ''tool_use'' k (tool_result_part m) = None"
  by (simp_all add: part_id_def tool_result_part_def wire_defs Let_def)

lemma map_filter_uses: "List.map_filter (part_id ''tool_use'' ''id'') (map tool_use_part tcs) = map tc_ID tcs"
  by (induction tcs) (simp_all add: map_filter_simps tool_use_part_id)

lemma map_filter_no_results: "List.map_filter (part_id ''tool_result'' k) (map tool_use_part tcs) = []"
  by (induction tcs) (simp_all add: map_filter_simps tool_use_part_id)

interpretation anthropic_wire: tool_wire tool_turn "\<lambda>m. msg_Role m \<noteq> RoleSystem" anthropic_requested anthropic_answered has_id
proof
  fix m :: message
  show "msg_Role m = RoleAssistant \<or> msg_Role m = RoleTool \<Longrightarrow> msg_Role m \<noteq> RoleSystem" by auto
  show "has_id m \<Longrightarrow> msg_Role m = RoleAssistant \<or> msg_ToolCalls m = [] \<Longrightarrow> anthropic_requested (tool_turn m) = map tc_ID (msg_ToolCalls m)"
    by (cases "msg_Role m")
      (auto simp: anthropic_requested_def tool_turn_def anth_msg_def wire_defs map_filter_simps map_filter_uses text_part_id tool_result_part_id)
  show "has_id m \<Longrightarrow> msg_Role m = RoleTool \<Longrightarrow> anthropic_answered (tool_turn m) = Some (msg_ToolCallID m)"
    by (simp add: anthropic_answered_def tool_turn_def anth_msg_def wire_defs map_filter_simps tool_result_part_id has_id_def)
  show "msg_Role m \<noteq> RoleTool \<Longrightarrow> anthropic_answered (tool_turn m) = None"
    by (cases "msg_Role m")
      (auto simp: anthropic_answered_def tool_turn_def anth_msg_def wire_defs map_filter_simps map_filter_no_results text_part_id)
qed

text \<open>
  C37. A conversation the executor keeps paired reaches Anthropic paired: every assistant turn with
  \<open>tool_use\<close> blocks is followed by user turns whose \<open>tool_result\<close> blocks carry exactly the ids of
  these blocks, in order, and no result stands anywhere else; for tool messages that have an id.
\<close>
theorem anthropic_tool_results:
  assumes "paired ms" "\<forall>m\<in>set ms. msg_Role m = RoleTool \<longrightarrow> msg_ToolCallID m \<noteq> []"
  shows "wire_paired anthropic_requested anthropic_answered (tool_messages ms)"
  using anthropic_wire.encode_paired [OF assms(1)] assms(2) by (simp add: tool_messages_def has_id_def)

section \<open>The native loop with an OpenAI client\<close>

text \<open>A request body with well-paired messages.\<close>

definition paired_body :: "wire \<Rightarrow> bool" where
  "paired_body v = (\<exists>ms. wire_get ''messages'' v = Some (WList ms) \<and> wire_paired openai_requested openai_answered ms)"

lemma tools_request_paired: "paired ms \<Longrightarrow> paired_body (tools_request c ms tools)"
  using openai_wire.encode_paired [of ms] by (simp add: paired_body_def tools_request_def wire_defs)

text \<open>
  C12. Run with an OpenAI-compatible client, the native loop only ever puts well-paired conversations on
  the wire, each tool result under the id of the call it answers: nothing changes for a client whose
  encoder behaves differently on any other body.
\<close>
theorem openai_native_wire:
  assumes "\<And>v. paired_body v \<Longrightarrow> enc v = pl_marshal lib v" and "paired messages"
  shows "native_loop call ctx a tools (\<lambda>ctx. openai_CallWithTools (lib\<lparr>pl_marshal := enc\<rparr>) c) n messages traces facts rt
       = native_loop call ctx a tools (\<lambda>ctx. openai_CallWithTools lib c) n messages traces facts rt"
proof (rule native_loop_agrees [OF _ refl assms(2)])
  fix msgs :: "message list" and w :: 'a
  assume "paired msgs"
  then have "enc (tools_request c msgs (toToolSpecs tools)) = pl_marshal lib (tools_request c msgs (toToolSpecs tools))"
    by (intro assms(1) tools_request_paired)
  then show "openai_CallWithTools (lib\<lparr>pl_marshal := enc\<rparr>) c msgs (toToolSpecs tools) w
      = openai_CallWithTools lib c msgs (toToolSpecs tools) w"
    by (simp add: openai_CallWithTools_def exchange_def provLib.defs cong: sum.case_cong prod.case_cong list.case_cong)
qed

section \<open>Witnesses\<close>

definition one_call :: toolCall where "one_call = \<lparr>tc_ID = [CHR 0x31], tc_Name = ''echo'', tc_Arguments = [CHR 0x5B, CHR 0x5D]\<rparr>"

lemma anthropic_tool_results_witness:
  "wire_paired anthropic_requested anthropic_answered
     (tool_messages [SystemMessage ''s'', UserMessage ''q'', assistant_calls \<lparr>tr_Content = ''look'', tr_ToolCalls = [one_call]\<rparr>,
        tool_message one_call ''out'', AssistantMessage ''done''])"
  by (rule anthropic_tool_results)
    (simp_all add: SystemMessage_def UserMessage_def AssistantMessage_def assistant_calls_def tool_message_def answers_def one_call_def)

definition refusing :: "wire \<Rightarrow> err + string" where
  "refusing v = (if paired_body v then Inr ''{}'' else Inl (Plain ''unpaired''))"

definition no_http :: "unit openaiLib" where
  "no_http =
     \<lparr>pl_marshal = (\<lambda>_. Inr ''{}''), pl_request = (\<lambda>_. None), pl_client = (\<lambda>_ _ w. (w, Inl (Plain ''down''))),
      pl_getenv = (\<lambda>_. ''key''), ol_chat = (\<lambda>d. Inl (Plain [])), ol_tools = (\<lambda>d. Inl (Plain [])), ol_search = (\<lambda>d. Inl (Plain [])),
      ol_delta = (\<lambda>d. Inl (Plain [])), ol_raw = (\<lambda>d. Inr d)\<rparr>"

lemma openai_native_wire_witness:
  "native_loop echo_call background (NewAgent ''a'' [] [] None) [echo_tool :: unit tool]
     (\<lambda>ctx. openai_CallWithTools (no_http\<lparr>pl_marshal := refusing\<rparr>) (openai_New no_http ''m'' [])) 3 [UserMessage ''q''] [] [] (new_rt ())
   = native_loop echo_call background (NewAgent ''a'' [] [] None) [echo_tool]
     (\<lambda>ctx. openai_CallWithTools no_http (openai_New no_http ''m'' [])) 3 [UserMessage ''q''] [] [] (new_rt ())"
  by (rule openai_native_wire) (simp_all add: refusing_def no_http_def UserMessage_def)


end
