(* ===== verification/Xai.thy ===== *)
theory Xai
  imports OpenAI "HOL-Library.Word"
begin

text \<open>
  \<^verbatim>\<open>llm/xai\<close>: a client built on the OpenAI one, and the OAuth device flow with its renewing token source.
  Instants and durations are in nanoseconds; a duration is computed in 64 bits, as \<^verbatim>\<open>time.Duration\<close> is.
  The clock, the timer, random bytes, hashes, form and JSON encodings and files are arguments.
\<close>

section \<open>The client\<close>

definition xai_DefaultBaseURL :: string where "xai_DefaultBaseURL = ''https://api.x.ai/v1''"
definition DefaultAuthServer :: string where "DefaultAuthServer = ''https://accounts.x.ai''"

record 'w xaiConfig =
  xc_apiKey :: string
  xc_baseURL :: string
  xc_tokenSource :: "('w \<Rightarrow> 'w \<times> (err + string)) option"
  xc_extra :: "('w openaiClient \<Rightarrow> 'w openaiClient) list"

definition xai_WithAPIKey :: "string \<Rightarrow> 'w xaiConfig \<Rightarrow> 'w xaiConfig" where
  "xai_WithAPIKey key c = c\<lparr>xc_apiKey := key\<rparr>"

definition xai_WithBaseURL :: "string \<Rightarrow> 'w xaiConfig \<Rightarrow> 'w xaiConfig" where
  "xai_WithBaseURL url c = c\<lparr>xc_baseURL := url\<rparr>"

definition xai_WithTemperature :: "float64 \<Rightarrow> 'w xaiConfig \<Rightarrow> 'w xaiConfig" where
  "xai_WithTemperature t c = c\<lparr>xc_extra := xc_extra c @ [openai_WithTemperature t]\<rparr>"

definition xai_WithTokenSource :: "('w \<Rightarrow> 'w \<times> (err + string)) option \<Rightarrow> 'w xaiConfig \<Rightarrow> 'w xaiConfig" where
  "xai_WithTokenSource ts c = c\<lparr>xc_tokenSource := ts\<rparr>"

definition xai_build :: "('w, 'x) provLib_scheme \<Rightarrow> string \<Rightarrow> 'w xaiConfig \<Rightarrow> 'w openaiClient" where
  "xai_build lib model cfg =
     openai_New lib model
       ([openai_WithBaseURL (xc_baseURL cfg)]
        @ (case xc_tokenSource cfg of Some ts \<Rightarrow> [openai_WithTokenSource ts] | None \<Rightarrow> [openai_WithAPIKey (xc_apiKey cfg)])
        @ xc_extra cfg)"

definition xai_New :: "('w, 'x) provLib_scheme \<Rightarrow> string \<Rightarrow> ('w xaiConfig \<Rightarrow> 'w xaiConfig) list \<Rightarrow> 'w openaiClient" where
  "xai_New lib model opts =
     xai_build lib model (fold (\<lambda>opt c. opt c) opts
       \<lparr>xc_apiKey = pl_getenv lib ''XAI_API_KEY'', xc_baseURL = xai_DefaultBaseURL, xc_tokenSource = None, xc_extra = []\<rparr>)"

definition NewWithOAuth ::
  "('w, 'x) provLib_scheme \<Rightarrow> string \<Rightarrow> ('w \<Rightarrow> 'w \<times> (err + string)) option \<Rightarrow> ('w xaiConfig \<Rightarrow> 'w xaiConfig) list \<Rightarrow> 'w openaiClient" where
  "NewWithOAuth lib model ts opts =
     xai_build lib model (fold (\<lambda>opt c. opt c) opts
       \<lparr>xc_apiKey = [], xc_baseURL = xai_DefaultBaseURL, xc_tokenSource = ts, xc_extra = []\<rparr>)"

text \<open>Every operation delegates to the inner client.\<close>

definition xai_Call :: "'w openaiLib \<Rightarrow> 'w openaiClient \<Rightarrow> message list \<Rightarrow> 'w \<Rightarrow> 'w \<times> (err + string)" where
  "xai_Call = openai_Call"

definition xai_CallWithTools ::
  "'w openaiLib \<Rightarrow> 'w openaiClient \<Rightarrow> message list \<Rightarrow> toolSpec list \<Rightarrow> 'w \<Rightarrow> 'w \<times> (err + toolCallResponse)" where
  "xai_CallWithTools = openai_CallWithTools"

definition xai_CallStream :: "'w openaiLib \<Rightarrow> 'w openaiClient \<Rightarrow> sel \<Rightarrow> message list \<Rightarrow> 'w \<Rightarrow> 'w \<times> streamChunk list" where
  "xai_CallStream = openai_runStream"

definition xai_WebSearch :: "'w openaiLib \<Rightarrow> 'w openaiClient \<Rightarrow> string \<Rightarrow> int \<Rightarrow> 'w \<Rightarrow> 'w \<times> (err + searchHit list)" where
  "xai_WebSearch = openai_WebSearch"

section \<open>Tokens\<close>

definition second :: int where "second = 1000000000"

text \<open>\<^verbatim>\<open>time.Duration(n) * time.Second\<close> and the sum of two durations, which wrap.\<close>

definition wrap64 :: "int \<Rightarrow> int" where
  "wrap64 n = sint (word_of_int n :: 64 word)"

definition seconds :: "int \<Rightarrow> int" where
  "seconds n = wrap64 (n * second)"

record token =
  at_AccessToken :: string
  at_RefreshToken :: string
  at_TokenType :: string
  at_Expiry :: int

definition token_Valid :: "int \<Rightarrow> token \<Rightarrow> bool" where
  "token_Valid now t = (at_AccessToken t \<noteq> [] \<and> now + 60 * second < at_Expiry t)"

record verificationInfo =
  vi_VerificationURI :: string
  vi_VerificationURIComplete :: string
  vi_UserCode :: string
  vi_ExpiresIn :: int

record deviceCodeResponse =
  dc_DeviceCode :: string
  dc_UserCode :: string
  dc_VerificationURI :: string
  dc_VerificationURIComplete :: string
  dc_ExpiresIn :: int
  dc_Interval :: int

record tokenResponse =
  tp_AccessToken :: string
  tp_RefreshToken :: string
  tp_TokenType :: string
  tp_ExpiresIn :: int
  tp_Error :: string
  tp_ErrorDescription :: string

record 'w deviceFlow =
  df_ClientID :: string
  df_DeviceCodeURL :: string
  df_TokenURL :: string
  df_Scopes :: "string list"
  df_HTTPClient :: "'w httpClient"
  df_Prompt :: "(verificationInfo \<Rightarrow> 'w \<Rightarrow> 'w) option"

text \<open>
  \<open>xo_wait\<close> is the \<^verbatim>\<open>select\<close> of the poll: the error of the cancelled context, or none once the timer fired.
  \<open>xo_form\<close> is \<^verbatim>\<open>url.Values.Encode\<close>, \<open>xo_print\<close> a write to standard error.
\<close>

record 'w oauthLib =
  xo_now :: "'w \<Rightarrow> int"
  xo_wait :: "int \<Rightarrow> 'w \<Rightarrow> 'w \<times> err option"
  xo_rand :: "'w \<Rightarrow> 'w \<times> (err + string)"
  xo_base64 :: "string \<Rightarrow> string"
  xo_sha256 :: "string \<Rightarrow> string"
  xo_form :: "(string \<times> string) list \<Rightarrow> string"
  xo_request :: "string \<Rightarrow> err option"
  xo_device :: "string \<Rightarrow> err + deviceCodeResponse"
  xo_token :: "string \<Rightarrow> err + tokenResponse"
  xo_print :: "string \<Rightarrow> 'w \<Rightarrow> 'w"
  xo_client :: "int \<Rightarrow> 'w httpClient"
  xo_home :: "string option"
  xo_encode :: "token \<Rightarrow> err + string"
  xo_decode :: "string \<Rightarrow> err + token"
  xo_writeFile :: "string \<Rightarrow> string \<Rightarrow> 'w \<Rightarrow> 'w \<times> err option"
  xo_readFile :: "string \<Rightarrow> 'w \<Rightarrow> err + string"

definition WithAuthServer :: "string \<Rightarrow> 'w deviceFlow \<Rightarrow> 'w deviceFlow" where
  "WithAuthServer base d =
     (let d = (if df_DeviceCodeURL d = [] then d\<lparr>df_DeviceCodeURL := base @ ''/oauth2/device/code''\<rparr> else d)
      in if df_TokenURL d = [] then d\<lparr>df_TokenURL := base @ ''/oauth2/token''\<rparr> else d)"

definition WithDeviceCodeURL :: "string \<Rightarrow> 'w deviceFlow \<Rightarrow> 'w deviceFlow" where
  "WithDeviceCodeURL u d = d\<lparr>df_DeviceCodeURL := u\<rparr>"

definition WithTokenURL :: "string \<Rightarrow> 'w deviceFlow \<Rightarrow> 'w deviceFlow" where
  "WithTokenURL u d = d\<lparr>df_TokenURL := u\<rparr>"

definition WithScopes :: "string list \<Rightarrow> 'w deviceFlow \<Rightarrow> 'w deviceFlow" where
  "WithScopes scopes d = d\<lparr>df_Scopes := scopes\<rparr>"

definition WithPrompt :: "(verificationInfo \<Rightarrow> 'w \<Rightarrow> 'w) option \<Rightarrow> 'w deviceFlow \<Rightarrow> 'w deviceFlow" where
  "WithPrompt fn d = d\<lparr>df_Prompt := fn\<rparr>"

definition WithDeviceFlowHTTPClient :: "'w httpClient \<Rightarrow> 'w deviceFlow \<Rightarrow> 'w deviceFlow" where
  "WithDeviceFlowHTTPClient h d = d\<lparr>df_HTTPClient := h\<rparr>"

definition NewDeviceFlow :: "'w oauthLib \<Rightarrow> string \<Rightarrow> ('w deviceFlow \<Rightarrow> 'w deviceFlow) list \<Rightarrow> 'w deviceFlow" where
  "NewDeviceFlow lib clientID opts =
     fold (\<lambda>opt d. opt d) opts
       (WithAuthServer DefaultAuthServer
         \<lparr>df_ClientID = clientID, df_DeviceCodeURL = [], df_TokenURL = [], df_Scopes = [''openid'', ''offline_access''],
          df_HTTPClient = xo_client lib (30 * second), df_Prompt = None\<rparr>)"

definition postForm ::
  "'w oauthLib \<Rightarrow> 'w deviceFlow \<Rightarrow> string \<Rightarrow> (string \<times> string) list \<Rightarrow> (string \<Rightarrow> err + 'a) \<Rightarrow> 'w \<Rightarrow> 'w \<times> (err + 'a)" where
  "postForm lib d endpoint form decode w =
     (case xo_request lib endpoint of
        Some e \<Rightarrow> (w, Inl e)
      | None \<Rightarrow>
          (case df_HTTPClient d \<lparr>pq_Method = ''POST'', pq_URL = endpoint,
                  pq_Headers = [(''Content-Type'', ''application/x-www-form-urlencoded''), (''Accept'', ''application/json'')],
                  pq_Body = xo_form lib form\<rparr> w of
             (w, Inl e) \<Rightarrow> (w, Inl e)
           | (w, Inr resp) \<Rightarrow>
               (w, case snd (pr_Body resp) of
                     Some e \<Rightarrow> Inl e
                   | None \<Rightarrow>
                       (case decode (concat (fst (pr_Body resp))) of
                          Inl _ \<Rightarrow> Inl (Plain (''invalid response (status '' @ itoa_int (pr_Status resp) @ ''): '' @ concat (fst (pr_Body resp))))
                        | Inr v \<Rightarrow> Inr v))))"

definition tokenFromResponse :: "int \<Rightarrow> tokenResponse \<Rightarrow> token" where
  "tokenFromResponse now tr =
     \<lparr>at_AccessToken = tp_AccessToken tr, at_RefreshToken = tp_RefreshToken tr,
      at_TokenType = (if tp_TokenType tr = [] then ''Bearer'' else tp_TokenType tr),
      at_Expiry = (if tp_ExpiresIn tr = 0 then now + 3600 * second else now + seconds (tp_ExpiresIn tr))\<rparr>"

definition pkcePair :: "'w oauthLib \<Rightarrow> 'w \<Rightarrow> 'w \<times> (err + string \<times> string)" where
  "pkcePair lib w =
     (case xo_rand lib w of
        (w, Inl e) \<Rightarrow> (w, Inl e)
      | (w, Inr b) \<Rightarrow> let verifier = xo_base64 lib b in (w, Inr (verifier, xo_base64 lib (xo_sha256 lib verifier))))"

definition defaultPrompt :: "'w oauthLib \<Rightarrow> verificationInfo \<Rightarrow> 'w \<Rightarrow> 'w" where
  "defaultPrompt lib info w =
     (let w = xo_print lib ([CHR 0x0A] @ ''=== xAI Authorization (subscription OAuth) ==='' @ [CHR 0x0A]) w;
          w = (if vi_VerificationURIComplete info \<noteq> []
               then xo_print lib (''Open: '' @ vi_VerificationURIComplete info @ [CHR 0x0A]) w
               else xo_print lib (''And enter the code: '' @ vi_UserCode info @ [CHR 0x0A])
                      (xo_print lib (''Open: '' @ vi_VerificationURI info @ [CHR 0x0A]) w))
      in xo_print lib (''Waiting for authorization...'' @ [CHR 0x0A]) w)"

section \<open>The device flow\<close>

definition token_form :: "'w deviceFlow \<Rightarrow> string \<Rightarrow> string \<Rightarrow> (string \<times> string) list" where
  "token_form d code verifier =
     [(''grant_type'', ''urn:ietf:params:oauth:grant-type:device_code''), (''device_code'', code),
      (''client_id'', df_ClientID d), (''code_verifier'', verifier)]"

text \<open>The poll loop; it runs as long as the server answers that the user has not decided.\<close>

partial_function (option) poll_token ::
  "'w oauthLib \<Rightarrow> 'w deviceFlow \<Rightarrow> string \<Rightarrow> string \<Rightarrow> int \<Rightarrow> 'w \<Rightarrow> ('w \<times> (err + token)) option" where
  "poll_token lib d code verifier interval w =
     (case xo_wait lib interval w of
        (w1, Some e) \<Rightarrow> Some (w1, Inl e)
      | (w1, None) \<Rightarrow>
          (case postForm lib d (df_TokenURL d) (token_form d code verifier) (xo_token lib) w1 of
             (w2, Inl e) \<Rightarrow> Some (w2, Inl (wrapf ''xai/oauth: exchanging token: '' e))
           | (w2, Inr tr) \<Rightarrow>
               if tp_Error tr = [] then Some (w2, Inr (tokenFromResponse (xo_now lib w2) tr))
               else if tp_Error tr = ''authorization_pending'' then poll_token lib d code verifier interval w2
               else if tp_Error tr = ''slow_down'' then poll_token lib d code verifier (wrap64 (interval + 5 * second)) w2
               else Some (w2, Inl (Plain (''xai/oauth: authorization failed: '' @ tp_Error tr @ '' ('' @ tp_ErrorDescription tr @ '')'')))))"

definition poll_interval :: "deviceCodeResponse \<Rightarrow> int" where
  "poll_interval dc = seconds (if dc_Interval dc \<le> 0 then 5 else dc_Interval dc)"

definition Authorize :: "'w oauthLib \<Rightarrow> 'w deviceFlow \<Rightarrow> 'w \<Rightarrow> ('w \<times> (err + token)) option" where
  "Authorize lib d w =
     (if df_ClientID d = [] then Some (w, Inl (Plain ''xai/oauth: ClientID is required''))
      else case pkcePair lib w of
        (w, Inl e) \<Rightarrow> Some (w, Inl e)
      | (w, Inr (verifier, challenge)) \<Rightarrow>
          (case postForm lib d (df_DeviceCodeURL d)
                  [(''client_id'', df_ClientID d), (''scope'', str_join '' '' (df_Scopes d)),
                   (''code_challenge'', challenge), (''code_challenge_method'', ''S256'')] (xo_device lib) w of
             (w, Inl e) \<Rightarrow> Some (w, Inl (wrapf ''xai/oauth: requesting device code: '' e))
           | (w, Inr dc) \<Rightarrow>
               let info = \<lparr>vi_VerificationURI = dc_VerificationURI dc, vi_VerificationURIComplete = dc_VerificationURIComplete dc,
                           vi_UserCode = dc_UserCode dc, vi_ExpiresIn = dc_ExpiresIn dc\<rparr>;
                   w = (case df_Prompt d of Some f \<Rightarrow> f info w | None \<Rightarrow> defaultPrompt lib info w)
               in poll_token lib d (dc_DeviceCode dc) verifier (poll_interval dc) w))"

definition Refresh :: "'w oauthLib \<Rightarrow> 'w deviceFlow \<Rightarrow> string \<Rightarrow> 'w \<Rightarrow> 'w \<times> (err + token)" where
  "Refresh lib d refreshToken w =
     (case postForm lib d (df_TokenURL d)
             [(''grant_type'', ''refresh_token''), (''refresh_token'', refreshToken), (''client_id'', df_ClientID d)] (xo_token lib) w of
        (w, Inl e) \<Rightarrow> (w, Inl (wrapf ''xai/oauth: refreshing token: '' e))
      | (w, Inr tr) \<Rightarrow>
          if tp_Error tr \<noteq> []
          then (w, Inl (Plain (''xai/oauth: refresh failed: '' @ tp_Error tr @ '' ('' @ tp_ErrorDescription tr @ '')'')))
          else let tok = tokenFromResponse (xo_now lib w) tr in
            (w, Inr (if at_RefreshToken tok = [] then tok\<lparr>at_RefreshToken := refreshToken\<rparr> else tok)))"

section \<open>The renewing source\<close>

type_synonym 'w save = "(token \<Rightarrow> 'w \<Rightarrow> 'w \<times> err option) option"

text \<open>The source holds its current token, which comes first in the state.\<close>

definition source_Token ::
  "'w oauthLib \<Rightarrow> 'w deviceFlow \<Rightarrow> 'w save \<Rightarrow> token \<times> 'w \<Rightarrow> (token \<times> 'w) \<times> (err + string)" where
  "source_Token lib d save = (\<lambda>(tok, w).
     if token_Valid (xo_now lib w) tok then ((tok, w), Inr (at_AccessToken tok))
     else if at_RefreshToken tok = []
     then ((tok, w), Inl (Plain ''xai/oauth: token expired and no refresh token; log in again''))
     else case Refresh lib d (at_RefreshToken tok) w of
       (w, Inl e) \<Rightarrow> ((tok, w), Inl e)
     | (w, Inr newTok) \<Rightarrow>
         (case save of
            None \<Rightarrow> ((newTok, w), Inr (at_AccessToken newTok))
          | Some f \<Rightarrow>
              (case f newTok w of
                 (w, Some e) \<Rightarrow> ((newTok, w), Inl (wrapf ''xai/oauth: persisting renewed token: '' e))
               | (w, None) \<Rightarrow> ((newTok, w), Inr (at_AccessToken newTok)))))"

section \<open>Files\<close>

definition expandHome :: "'w oauthLib \<Rightarrow> string \<Rightarrow> string" where
  "expandHome lib path =
     (if path = ''~'' then (case xo_home lib of Some home \<Rightarrow> home | None \<Rightarrow> path)
      else if has_prefix path ''~/'' then (case xo_home lib of Some home \<Rightarrow> home @ tl path | None \<Rightarrow> path)
      else path)"

definition SaveToken :: "'w oauthLib \<Rightarrow> string \<Rightarrow> token \<Rightarrow> 'w \<Rightarrow> 'w \<times> err option" where
  "SaveToken lib path tok w =
     (case xo_encode lib tok of Inl e \<Rightarrow> (w, Some e) | Inr data \<Rightarrow> xo_writeFile lib (expandHome lib path) data w)"

definition LoadToken :: "'w oauthLib \<Rightarrow> string \<Rightarrow> 'w \<Rightarrow> err + token" where
  "LoadToken lib path w =
     (case xo_readFile lib (expandHome lib path) w of Inl e \<Rightarrow> Inl e | Inr data \<Rightarrow> xo_decode lib data)"

text \<open>The source that renews and rewrites the file it was read from: its first token and its operation.\<close>

definition LoadTokenSource ::
  "'w oauthLib \<Rightarrow> string \<Rightarrow> 'w deviceFlow \<Rightarrow> 'w \<Rightarrow> err + token \<times> (token \<times> 'w \<Rightarrow> (token \<times> 'w) \<times> (err + string))" where
  "LoadTokenSource lib path d w =
     (case LoadToken lib path w of
        Inl e \<Rightarrow> Inl e
      | Inr tok \<Rightarrow> Inr (tok, source_Token lib d (Some (SaveToken lib path))))"

end
