(* ===== verification/XaiSpec.thy ===== *)
theory XaiSpec
  imports Xai
begin

text \<open>
  The device flow returns, a renewing source hands out only tokens that are valid or just renewed and
  never forgets how to renew, and a client for xAI never uses the key of OpenAI. The counterexamples
  show an option without effect and an empty token taken for a success.
\<close>

section \<open>Polling ends\<close>

lemma wrap64_small: "- (2 ^ 63) \<le> n \<Longrightarrow> n < 2 ^ 63 \<Longrightarrow> wrap64 n = n"
  unfolding wrap64_def by (simp add: signed_take_bit_int_eq_self sint_sbintrunc')

text \<open>What the flow relies on: a timer that fires after its duration, a clock that does not run backwards.\<close>

definition timely :: "'w oauthLib \<Rightarrow> 'w deviceFlow \<Rightarrow> bool" where
  "timely lib d =
     ((\<forall>i w w'. xo_wait lib i w = (w', None) \<longrightarrow> xo_now lib w + i \<le> xo_now lib w')
      \<and> (\<forall>form w w' tr. postForm lib d (df_TokenURL d) form (xo_token lib) w = (w', Inr tr) \<longrightarrow> xo_now lib w \<le> xo_now lib w'))"

text \<open>A server that answers nothing but a decision, an expiry or another error from the instant \<open>T\<close> on.\<close>

definition decides_by :: "'w oauthLib \<Rightarrow> 'w deviceFlow \<Rightarrow> int \<Rightarrow> bool" where
  "decides_by lib d T =
     (\<forall>form w w' tr. postForm lib d (df_TokenURL d) form (xo_token lib) w = (w', Inr tr) \<longrightarrow> T \<le> xo_now lib w
        \<longrightarrow> tp_Error tr \<noteq> ''authorization_pending'' \<and> tp_Error tr \<noteq> ''slow_down'')"

lemma poll_token_returns:
  assumes "timely lib d" "decides_by lib d T"
    and "second \<le> interval" "interval + 5 * max 0 (T - xo_now lib w) + 5 * second < 2 ^ 63"
  shows "\<exists>r. poll_token lib d code verifier interval w = Some r"
  using assms(3,4)
proof (induction "nat (T - xo_now lib w)" arbitrary: interval w rule: less_induct)
  case less
  obtain w1 e where wait: "xo_wait lib interval w = (w1, e)" by fastforce
  obtain w2 r where post: "postForm lib d (df_TokenURL d) (token_form d code verifier) (xo_token lib) w1 = (w2, r)" by fastforce
  note eq = poll_token.simps [of lib d code verifier interval w]
  show ?case
  proof (cases "e = None \<and> (\<exists>tr. r = Inr tr \<and> (tp_Error tr = ''authorization_pending'' \<or> tp_Error tr = ''slow_down''))")
    case True
    then obtain tr where tr: "e = None" "r = Inr tr" "tp_Error tr = ''authorization_pending'' \<or> tp_Error tr = ''slow_down''" by blast
    have now: "xo_now lib w + interval \<le> xo_now lib w1" "xo_now lib w1 \<le> xo_now lib w2"
      using assms(1) wait post tr unfolding timely_def by blast+
    have before: "xo_now lib w1 < T"
      using assms(2) post tr(2,3) unfolding decides_by_def by (meson not_le)
    have later: "xo_now lib w + second \<le> xo_now lib w2" "second > 0" using now less.prems(1) by (simp_all add: second_def)
    have smaller: "nat (T - xo_now lib w2) < nat (T - xo_now lib w)" using later before now less.prems(1) by simp
    have room: "interval + 5 * max 0 (T - xo_now lib w2) + 5 * second \<le> interval + 5 * max 0 (T - xo_now lib w)"
      using later before now less.prems(1) by (simp add: max_def)
    have slow: "wrap64 (interval + 5 * second) = interval + 5 * second"
      using less.prems room by (intro wrap64_small) (simp_all add: second_def max_def split: if_splits)
    have "\<exists>r. poll_token lib d code verifier i w2 = Some r" if "i = interval \<or> i = interval + 5 * second" for i
    proof (rule less.hyps [OF smaller])
      show "second \<le> i" using that less.prems(1) later(2) by auto
      show "i + 5 * max 0 (T - xo_now lib w2) + 5 * second < 2 ^ 63" using that less.prems(2) room later(2) by auto
    qed
    then show ?thesis using eq wait post tr slow by auto
  next
    case False
    then show ?thesis using eq wait post by (cases e; cases r) auto
  qed
qed

text \<open>
  C25. Logging in returns: with a timer that waits as long as it is told, and a server that stops
  answering "pending" once the device code has run out, the device flow ends with a token or an error,
  whatever mixture of "pending" and "slow down" it is answered before and though each "slow down"
  lengthens the interval; for instants below 2^59 nanoseconds and a server interval of at most 2^30
  seconds no duration overflows.
\<close>
theorem Authorize_returns:
  assumes "timely lib d" "decides_by lib d T" "\<forall>w. 0 \<le> xo_now lib w" "T \<le> 2 ^ 59"
    and "\<forall>data dc. xo_device lib data = Inr dc \<longrightarrow> dc_Interval dc \<le> 2 ^ 30"
  shows "\<exists>r. Authorize lib d w = Some r"
proof -
  have poll: "\<exists>r. poll_token lib d code verifier (poll_interval dc) w' = Some r" if "dc_Interval dc \<le> 2 ^ 30" for code verifier dc w'
  proof (rule poll_token_returns [OF assms(1,2)])
    let ?n = "if dc_Interval dc \<le> 0 then 5 else dc_Interval dc"
    have i: "poll_interval dc = ?n * second" using that by (simp add: poll_interval_def seconds_def wrap64_small second_def)
    show "second \<le> poll_interval dc" unfolding i second_def by auto
    have "poll_interval dc \<le> 2 ^ 30 * second" unfolding i second_def using that by auto
    then have bound: "m \<le> 2 ^ 59 \<Longrightarrow> poll_interval dc + 5 * m + 5 * second < 2 ^ 63" for m by (simp add: second_def)
    have "T - xo_now lib w' \<le> 2 ^ 59" using assms(3,4) by (meson diff_le_eq le_add_same_cancel1 order_trans)
    then show "poll_interval dc + 5 * max 0 (T - xo_now lib w') + 5 * second < 2 ^ 63" by (intro bound) simp
  qed
  have dc: "dc_Interval dc \<le> 2 ^ 30" if "postForm lib d u form (xo_device lib) w' = (w2, Inr dc)" for u form w' w2 dc
    using that assms(5) by (auto simp: postForm_def split: option.splits prod.splits sum.splits)
  show ?thesis
  proof (cases "df_ClientID d = []")
    case True
    then show ?thesis by (simp add: Authorize_def)
  next
    case False
    obtain w1 p where p: "pkcePair lib w = (w1, p)" by fastforce
    show ?thesis
    proof (cases p)
      case (Inr vc)
      obtain v ch where vc: "vc = (v, ch)" by fastforce
      obtain w2 r where r: "postForm lib d (df_DeviceCodeURL d)
          [(''client_id'', df_ClientID d), (''scope'', str_join '' '' (df_Scopes d)),
           (''code_challenge'', ch), (''code_challenge_method'', ''S256'')] (xo_device lib) w1 = (w2, r)" by fastforce
      show ?thesis using False p Inr vc r poll dc [of "df_DeviceCodeURL d"] by (cases r) (auto simp: Authorize_def Let_def)
    qed (use False p in \<open>simp add: Authorize_def\<close>)
  qed
qed

section \<open>The renewing source\<close>

lemma Refresh_keeps:
  "Refresh lib d rt w = (w', Inr tok) \<Longrightarrow> rt \<noteq> [] \<Longrightarrow> at_RefreshToken tok \<noteq> []"
  by (auto simp: Refresh_def Let_def split: prod.splits sum.splits if_splits)

text \<open>
  C24. A renewing source never hands out an expired token: what it returns is the token it holds, which
  is either still valid for a minute, with no request made, or the one the server just issued for the
  refresh token it held; it keeps its token when the renewal fails, and a source that could renew once
  can always renew, even when servers do not reissue the refresh token.
\<close>
theorem source_Token_sound:
  assumes "source_Token lib d save (tok, w) = ((tok', w'), r)"
  shows "(at_RefreshToken tok \<noteq> [] \<longrightarrow> at_RefreshToken tok' \<noteq> [])
    \<and> (\<forall>t. r = Inr t \<longrightarrow> t = at_AccessToken tok'
          \<and> (tok' = tok \<and> w' = w \<and> token_Valid (xo_now lib w) tok
             \<or> (\<exists>w1. \<not> token_Valid (xo_now lib w) tok \<and> Refresh lib d (at_RefreshToken tok) w = (w1, Inr tok'))))
    \<and> (tok' \<noteq> tok \<longrightarrow> (\<exists>w1. Refresh lib d (at_RefreshToken tok) w = (w1, Inr tok')))"
proof (cases "token_Valid (xo_now lib w) tok \<or> at_RefreshToken tok = []")
  case True
  then show ?thesis using assms by (auto simp: source_Token_def split: if_splits)
next
  case False
  obtain w1 x where f: "Refresh lib d (at_RefreshToken tok) w = (w1, x)" by fastforce
  show ?thesis
  proof (cases x)
    case (Inl e)
    then show ?thesis using assms False f by (auto simp: source_Token_def)
  next
    case (Inr new)
    have "at_RefreshToken new \<noteq> []" using Refresh_keeps [of lib d "at_RefreshToken tok" w w1 new] f Inr False by simp
    moreover have "tok' = new \<and> (\<forall>t. r = Inr t \<longrightarrow> t = at_AccessToken new)"
      using assms False f Inr by (auto simp: source_Token_def split: option.splits prod.splits)
    ultimately show ?thesis using False f Inr by auto
  qed
qed

section \<open>Credentials\<close>

text \<open>The options of the package.\<close>

inductive xai_option :: "('w xaiConfig \<Rightarrow> 'w xaiConfig) \<Rightarrow> bool" where
  key: "xai_option (xai_WithAPIKey k)"
| url: "xai_option (xai_WithBaseURL u)"
| temperature: "xai_option (xai_WithTemperature t)"
| tokens: "xai_option (xai_WithTokenSource ts)"

inductive_cases xai_optionE: "xai_option opt"

definition plain_extra :: "'w xaiConfig \<Rightarrow> bool" where
  "plain_extra cfg = (\<forall>opt\<in>set (xc_extra cfg). \<exists>t. opt = openai_WithTemperature t)"

lemma options_plain: "\<forall>opt\<in>set opts. xai_option opt \<Longrightarrow> plain_extra cfg \<Longrightarrow> plain_extra (fold (\<lambda>opt c. opt c) opts cfg)"
proof (induction opts arbitrary: cfg)
  case (Cons opt opts)
  have "xai_option opt" using Cons.prems by simp
  then have "plain_extra (opt cfg)"
    using Cons.prems(2)
    by (elim xai_optionE) (auto simp: plain_extra_def xai_WithAPIKey_def xai_WithBaseURL_def xai_WithTemperature_def xai_WithTokenSource_def)
  then show ?case using Cons by simp
qed simp

text \<open>Two clients that differ at most in an unused key.\<close>

definition same_client :: "'w openaiClient \<Rightarrow> 'w openaiClient \<Rightarrow> bool" where
  "same_client c c' = (c' = c \<or> (oc_tokenSource c \<noteq> None \<and> c' = c\<lparr>oc_apiKey := oc_apiKey c'\<rparr>))"

lemma same_clientI: "oc_tokenSource c \<noteq> None \<Longrightarrow> same_client c (c\<lparr>oc_apiKey := k\<rparr>)"
  by (simp add: same_client_def)

lemma same_client_temperature: "same_client c c' \<Longrightarrow> same_client (openai_WithTemperature t c) (openai_WithTemperature t c')"
proof -
  have "same_client (openai_WithTemperature t c) (openai_WithTemperature t (c\<lparr>oc_apiKey := k\<rparr>))" if "oc_tokenSource c \<noteq> None" for k
    using same_clientI [of "openai_WithTemperature t c" k] that by (cases c) (simp add: openai_WithTemperature_def)
  then show "same_client c c' \<Longrightarrow> ?thesis" unfolding same_client_def [of c c'] by (metis same_client_def)
qed

lemma same_client_extra:
  "same_client c c' \<Longrightarrow> \<forall>opt\<in>set opts. \<exists>t. opt = openai_WithTemperature t \<Longrightarrow>
   same_client (fold (\<lambda>opt c. opt c) opts c) (fold (\<lambda>opt c. opt c) opts c')"
proof (induction opts arbitrary: c c')
  case (Cons opt opts)
  obtain t where "opt = openai_WithTemperature t" using Cons.prems(2) by auto
  then have "same_client (opt c) (opt c')" using Cons.prems(1) by (simp add: same_client_temperature)
  then show ?case using Cons by simp
qed simp

lemma xai_build_same:
  assumes "plain_extra cfg"
  shows "same_client (xai_build lib model cfg) (xai_build (lib\<lparr>pl_getenv := env\<rparr>) model cfg)"
proof -
  let ?base = "\<lambda>key. \<lparr>oc_apiKey = key, oc_tokenSource = xc_tokenSource cfg, oc_model = model, oc_baseURL = xc_baseURL cfg,
    oc_temperature = temperature_07, oc_httpClient = pl_client lib 120000000000\<rparr>"
  let ?opened = "\<lambda>get. if xc_tokenSource cfg = None then ?base (xc_apiKey cfg) else ?base (get ''OPENAI_API_KEY'')"
  have made: "xai_build (lib\<lparr>pl_getenv := get\<rparr>) model cfg = fold (\<lambda>opt c. opt c) (xc_extra cfg) (?opened get)" for get
    by (auto simp: xai_build_def openai_New_def openai_WithBaseURL_def openai_WithTokenSource_def openai_WithAPIKey_def split: option.split)
  have "same_client (?opened (pl_getenv lib)) (?opened env)" by (auto simp: same_client_def)
  then have "same_client (fold (\<lambda>opt c. opt c) (xc_extra cfg) (?opened (pl_getenv lib))) (fold (\<lambda>opt c. opt c) (xc_extra cfg) (?opened env))"
    by (rule same_client_extra) (use assms in \<open>simp add: plain_extra_def\<close>)
  then show ?thesis using made [of "pl_getenv lib"] made [of env] by simp
qed

lemma same_client_calls:
  assumes "same_client c c'"
  shows "openai_Call lib c' = openai_Call lib c" "openai_CallWithTools lib c' = openai_CallWithTools lib c"
    "openai_runStream lib c' = openai_runStream lib c" "openai_WebSearch lib c' = openai_WebSearch lib c"
proof -
  have "authToken c' = authToken c \<and> oc_model c' = oc_model c \<and> oc_baseURL c' = oc_baseURL c
      \<and> oc_temperature c' = oc_temperature c \<and> oc_httpClient c' = oc_httpClient c"
  proof (cases "c' = c")
    case False
    then obtain k where "oc_tokenSource c \<noteq> None" "c' = c\<lparr>oc_apiKey := k\<rparr>" using assms by (auto simp: same_client_def)
    then show ?thesis by (auto simp: authToken_def fun_eq_iff)
  qed simp
  then have e: "authToken c' = authToken c" "oc_model c' = oc_model c" "oc_baseURL c' = oc_baseURL c"
    "oc_temperature c' = oc_temperature c" "oc_httpClient c' = oc_httpClient c" by blast+
  show "openai_Call lib c' = openai_Call lib c" "openai_CallWithTools lib c' = openai_CallWithTools lib c"
    "openai_runStream lib c' = openai_runStream lib c" "openai_WebSearch lib c' = openai_WebSearch lib c"
    by (intro ext, simp only: openai_Call_def openai_CallWithTools_def openai_runStream_def openai_WebSearch_def
        chat_request_def tools_request_def stream_request_def search_request_def e)+
qed

text \<open>
  The key of OpenAI is never sent to xAI: whatever \<open>OPENAI_API_KEY\<close> holds, a client made with a key
  or with a token source and any of the package's options behaves the same in every operation.
\<close>
theorem xai_ignores_openai_key:
  assumes "\<forall>opt\<in>set opts. xai_option opt" "\<forall>k. k \<noteq> ''OPENAI_API_KEY'' \<longrightarrow> env k = pl_getenv lib k"
    and "(c, c') \<in> {(xai_New lib model opts, xai_New (lib\<lparr>pl_getenv := env\<rparr>) model opts),
                    (NewWithOAuth lib model ts opts, NewWithOAuth (lib\<lparr>pl_getenv := env\<rparr>) model ts opts)}"
  shows "xai_Call l c' = xai_Call l c \<and> xai_CallWithTools l c' = xai_CallWithTools l c
    \<and> xai_CallStream l c' = xai_CallStream l c \<and> xai_WebSearch l c' = xai_WebSearch l c"
proof -
  have "plain_extra \<lparr>xc_apiKey = k, xc_baseURL = u, xc_tokenSource = t, xc_extra = []\<rparr>" for k u and t :: "('a \<Rightarrow> 'a \<times> (err + string)) option"
    by (simp add: plain_extra_def)
  from xai_build_same [OF options_plain [OF assms(1) this]]
  have "same_client c c'" using assms(2,3) by (auto simp: xai_New_def NewWithOAuth_def)
  then show ?thesis
    by (simp add: same_client_calls xai_Call_def xai_CallWithTools_def xai_CallStream_def xai_WebSearch_def)
qed

section \<open>Counterexamples\<close>

text \<open>\<^verbatim>\<open>NewDeviceFlow\<close> sets the default server first, so the option that names another one does nothing.\<close>
lemma WithAuthServer_ignored: "NewDeviceFlow lib clientID [WithAuthServer base] = NewDeviceFlow lib clientID []"
  by (simp add: NewDeviceFlow_def WithAuthServer_def DefaultAuthServer_def Let_def)

text \<open>The status is never looked at: a failed exchange whose body is any object is a token, an empty one.\<close>
lemma empty_token_accepted:
  assumes "xo_request lib (df_TokenURL d) = None"
    and "\<And>req. df_HTTPClient d req w = (w', Inr \<lparr>pr_Status = 500, pr_Body = ([''{}''], None)\<rparr>)"
    and "xo_token lib ''{}'' = Inr \<lparr>tp_AccessToken = [], tp_RefreshToken = [], tp_TokenType = [], tp_ExpiresIn = 0, tp_Error = [], tp_ErrorDescription = []\<rparr>"
  shows "\<exists>tok. Refresh lib d rt w = (w', Inr tok) \<and> at_AccessToken tok = []"
  using assms by (simp add: Refresh_def postForm_def tokenFromResponse_def Let_def)

text \<open>A long interval wraps to a negative duration, whose timer fires at once.\<close>
lemma poll_interval_overflow: "seconds 9223372037 < 0"
  by (simp add: seconds_def wrap64_def second_def)

section \<open>Witnesses\<close>

text \<open>
  A world that is its clock. The server says "slow down" for twenty seconds, then issues a token
  without a refresh token.
\<close>

definition answer_of :: "string \<Rightarrow> tokenResponse" where
  "answer_of e = \<lparr>tp_AccessToken = ''fresh'', tp_RefreshToken = [], tp_TokenType = [], tp_ExpiresIn = 60, tp_Error = e, tp_ErrorDescription = []\<rparr>"

definition small_oauth :: "nat oauthLib" where
  "small_oauth =
     \<lparr>xo_now = int, xo_wait = (\<lambda>i w. (w + nat i, None)), xo_rand = (\<lambda>w. (w, Inr ''r'')), xo_base64 = (\<lambda>s. s), xo_sha256 = (\<lambda>s. s),
      xo_form = (\<lambda>_. []), xo_request = (\<lambda>_. None),
      xo_device = (\<lambda>_. Inr \<lparr>dc_DeviceCode = ''d'', dc_UserCode = ''u'', dc_VerificationURI = [], dc_VerificationURIComplete = [],
                              dc_ExpiresIn = 600, dc_Interval = 0\<rparr>),
      xo_token = (\<lambda>s. Inr (answer_of (if s = ''s'' then ''slow_down'' else []))), xo_print = (\<lambda>_ w. w),
      xo_client = (\<lambda>_ _ w. (w, Inr \<lparr>pr_Status = 200, pr_Body = ([if int w < 20 * second then ''s'' else ''ok''], None)\<rparr>)),
      xo_home = None, xo_encode = (\<lambda>_. Inl (Plain [])), xo_decode = (\<lambda>_. Inl (Plain [])),
      xo_writeFile = (\<lambda>_ _ w. (w, None)), xo_readFile = (\<lambda>_ _. Inl (Plain []))\<rparr>"

definition small_flow :: "nat deviceFlow" where "small_flow = NewDeviceFlow small_oauth ''id'' []"

lemma small_flow_client: "df_HTTPClient small_flow = xo_client small_oauth (30 * second)" "df_ClientID small_flow = ''id''"
  by (simp_all add: small_flow_def NewDeviceFlow_def WithAuthServer_def Let_def)

lemma small_post:
  "postForm small_oauth small_flow u form (xo_token small_oauth) w = (w, Inr (answer_of (if int w < 20 * second then ''slow_down'' else [])))"
  unfolding postForm_def small_flow_client by (simp add: small_oauth_def)

lemma Authorize_returns_witness: "\<exists>r. Authorize small_oauth small_flow 0 = Some r"
proof (rule Authorize_returns)
  show "timely small_oauth small_flow" unfolding timely_def small_post by (auto simp: small_oauth_def)
  show "decides_by small_oauth small_flow (20 * second)" unfolding decides_by_def small_post by (auto simp: small_oauth_def answer_of_def)
qed (simp_all add: small_oauth_def second_def)

definition old_token :: token where
  "old_token = \<lparr>at_AccessToken = ''old'', at_RefreshToken = ''again'', at_TokenType = ''Bearer'', at_Expiry = 0\<rparr>"

lemma source_Token_sound_witness:
  "snd (source_Token small_oauth small_flow None (old_token, 30000000000)) = Inr ''fresh''
   \<and> at_RefreshToken (fst (fst (source_Token small_oauth small_flow None (old_token, 30000000000)))) \<noteq> []"
proof -
  let ?r = "source_Token small_oauth small_flow None (old_token, 30000000000)"
  have run: "?r = ((fst (fst ?r), snd (fst ?r)), snd ?r)" by simp
  have "snd ?r = Inr ''fresh''"
    by (simp add: source_Token_def token_Valid_def old_token_def Refresh_def small_post answer_of_def tokenFromResponse_def Let_def second_def)
      (simp add: small_oauth_def)
  then show ?thesis using source_Token_sound [OF run] by (simp add: old_token_def)
qed

definition env_lib :: "string \<Rightarrow> unit provLib" where
  "env_lib key = \<lparr>pl_marshal = (\<lambda>_. Inl (Plain [])), pl_request = (\<lambda>_. None), pl_client = (\<lambda>_ _ w. (w, Inl (Plain []))),
     pl_getenv = (\<lambda>k. if k = ''OPENAI_API_KEY'' then key else ''xai'')\<rparr>"

lemma xai_ignores_openai_key_witness:
  "\<forall>l. xai_Call l (xai_New (env_lib ''leak'') ''grok'' [xai_WithTokenSource (Some (\<lambda>w. (w, Inr ''tok'')))])
     = xai_Call l (xai_New (env_lib []) ''grok'' [xai_WithTokenSource (Some (\<lambda>w. (w, Inr ''tok'')))])"
proof
  fix l :: "unit openaiLib"
  let ?opts = "[xai_WithTokenSource (Some (\<lambda>w :: unit. (w, Inr ''tok'')))]"
  have "env_lib ''leak'' = (env_lib [])\<lparr>pl_getenv := pl_getenv (env_lib ''leak'')\<rparr>" by (simp add: env_lib_def)
  moreover have "xai_Call l (xai_New ((env_lib [])\<lparr>pl_getenv := pl_getenv (env_lib ''leak'')\<rparr>) ''grok'' ?opts) = xai_Call l (xai_New (env_lib []) ''grok'' ?opts)"
    by (rule conjunct1 [OF xai_ignores_openai_key [where opts = ?opts and lib = "env_lib []" and model = "''grok''" and ts = None, OF _ _ insertI1]])
      (auto simp: env_lib_def intro: xai_option.intros)
  ultimately show "xai_Call l (xai_New (env_lib ''leak'') ''grok'' ?opts) = xai_Call l (xai_New (env_lib []) ''grok'' ?opts)" by simp
qed


text \<open>A bare tilde is expanded too, although the comment says it is left unchanged.\<close>

lemma bare_tilde_expanded: "xo_home lib = Some home \<Longrightarrow> expandHome lib ''~'' = home"
  by (simp add: expandHome_def)

end
