(* ===== verification/Mock.thy ===== *)
theory Mock
  imports Provider Utf8
begin

text \<open>
  \<^verbatim>\<open>llm/mock\<close>: the scripted model the tests and examples run crews with. Its counters and its log are a
  state beside the outside world; the mutex makes each update one step. The theorems show that it
  streams what it would have answered, and that it logs every conversation.
\<close>

section \<open>The model\<close>

record 'w mockLLM =
  mk_Responses :: "string list"
  mk_Handler :: "('w ctx \<Rightarrow> message list \<Rightarrow> 'w \<Rightarrow> 'w \<times> (err + string)) option"
  mk_ModelName :: string
  mk_ToolCallResponses :: "toolCallResponse list"
  mk_WebSearchResults :: "searchHit list option"
  mk_WebSearchHandler :: "(string \<Rightarrow> int \<Rightarrow> 'w \<Rightarrow> 'w \<times> (err + searchHit list)) option"
  mk_StreamChunks :: "streamChunk list list"
  mk_StreamChunkRunes :: int
  mk_calls :: nat
  mk_toolCallIndex :: nat
  mk_webSearchCalls :: nat
  mk_streamIndex :: nat
  mk_log :: "message list list"

definition mock_New :: "string list \<Rightarrow> 'w mockLLM" where
  "mock_New responses =
     \<lparr>mk_Responses = responses, mk_Handler = None, mk_ModelName = ''mock'', mk_ToolCallResponses = [],
      mk_WebSearchResults = None, mk_WebSearchHandler = None, mk_StreamChunks = [], mk_StreamChunkRunes = 0,
      mk_calls = 0, mk_toolCallIndex = 0, mk_webSearchCalls = 0, mk_streamIndex = 0, mk_log = []\<rparr>"

definition mock_Call :: "'w ctx \<Rightarrow> message list \<Rightarrow> 'w mockLLM \<Rightarrow> 'w \<Rightarrow> 'w mockLLM \<times> 'w \<times> (err + string)" where
  "mock_Call ctx messages m w =
     (let m = m\<lparr>mk_calls := mk_calls m + 1, mk_log := mk_log m @ [messages]\<rparr>; n = mk_calls m in
      case mk_Handler m of
        Some h \<Rightarrow> (case h ctx messages w of (w, r) \<Rightarrow> (m, w, r))
      | None \<Rightarrow>
          (m, w, Inr (if mk_Responses m = [] then []
                      else if n - 1 < length (mk_Responses m) then mk_Responses m ! (n - 1)
                      else last (mk_Responses m))))"

definition mock_Model :: "'w mockLLM \<Rightarrow> string" where
  "mock_Model m = (if mk_ModelName m = [] then ''mock'' else mk_ModelName m)"

definition mock_Calls :: "'w mockLLM \<Rightarrow> nat" where
  "mock_Calls m = mk_calls m"

definition mock_WebSearchCalls :: "'w mockLLM \<Rightarrow> nat" where
  "mock_WebSearchCalls m = mk_webSearchCalls m"

definition LastMessages :: "'w mockLLM \<Rightarrow> message list" where
  "LastMessages m = (if mk_log m = [] then [] else last (mk_log m))"

definition mock_CallWithTools ::
  "message list \<Rightarrow> toolSpec list \<Rightarrow> 'w mockLLM \<Rightarrow> 'w mockLLM \<times> (err + toolCallResponse)" where
  "mock_CallWithTools messages tools m =
     (let idx = mk_toolCallIndex m;
          m = m\<lparr>mk_calls := mk_calls m + 1, mk_log := mk_log m @ [messages], mk_toolCallIndex := idx + 1\<rparr>
      in (m, Inr (if idx \<ge> length (mk_ToolCallResponses m) then \<lparr>tr_Content = [], tr_ToolCalls = []\<rparr>
                  else mk_ToolCallResponses m ! idx)))"

section \<open>Streaming\<close>

text \<open>Groups of runes, each encoded again.\<close>

fun split_loop :: "nat \<Rightarrow> nat list \<Rightarrow> nat list \<Rightarrow> string list" where
  "split_loop n [] b = (if b \<noteq> [] then [rune_string b] else [])"
| "split_loop n (r # rs) b =
     (let b = b @ [r] in if length b \<ge> n then rune_string b # split_loop n rs [] else split_loop n rs b)"

definition splitRunes :: "string \<Rightarrow> int \<Rightarrow> string list" where
  "splitRunes s n =
     (if s = [] \<or> n \<le> 0 then (if s = [] then [] else [s]) else split_loop (nat n) (runes s) [])"

fun send_all :: "sel \<Rightarrow> streamChunk list \<Rightarrow> streamChunk list \<Rightarrow> streamChunk list \<times> bool" where
  "send_all s [] ch = (ch, True)"
| "send_all s (c # cs) ch = (case send s c ch of (ch, False) \<Rightarrow> (ch, False) | (ch, True) \<Rightarrow> send_all s cs ch)"

definition mock_CallStream ::
  "'w ctx \<Rightarrow> sel \<Rightarrow> message list \<Rightarrow> 'w mockLLM \<Rightarrow> 'w \<Rightarrow> 'w mockLLM \<times> 'w \<times> streamChunk list" where
  "mock_CallStream ctx s messages m w =
     (let idx = mk_streamIndex m; m = m\<lparr>mk_streamIndex := idx + 1\<rparr>;
          scripted = (if idx < length (mk_StreamChunks m) then mk_StreamChunks m ! idx else [])
      in if scripted \<noteq> [] then (m, w, fst (send_all s scripted []))
         else case mock_Call ctx messages m w of
           (m, w, Inl e) \<Rightarrow> (m, w, sendErr s e [])
         | (m, w, Inr reply) \<Rightarrow>
             let n = (if mk_StreamChunkRunes m \<le> 0 then 4 else mk_StreamChunkRunes m) in
             (m, w, case send_all s (map chunk_delta (splitRunes reply n)) [] of
                      (ch, False) \<Rightarrow> ch
                    | (ch, True) \<Rightarrow> sendDone s ch))"

definition mock_WebSearch ::
  "string \<Rightarrow> int \<Rightarrow> 'w mockLLM \<Rightarrow> 'w \<Rightarrow> 'w mockLLM \<times> 'w \<times> (err + searchHit list)" where
  "mock_WebSearch query n m w =
     (let m = m\<lparr>mk_webSearchCalls := mk_webSearchCalls m + 1\<rparr> in
      case mk_WebSearchHandler m of
        Some h \<Rightarrow> (case h query n w of (w, r) \<Rightarrow> (m, w, r))
      | None \<Rightarrow>
          (m, w, case mk_WebSearchResults m of Some hits \<Rightarrow> Inr hits | None \<Rightarrow> Inl (Sentinel ErrWebSearchUnsupported)))"

section \<open>It streams what it answers\<close>

lemma split_loop_concat: "concat (split_loop n rs b) = rune_string (b @ rs)"
proof (induction n rs b rule: split_loop.induct)
  case (1 n b)
  then show ?case by (simp add: rune_string_def)
next
  case (2 n r rs b)
  then show ?case by (auto simp: Let_def rune_string_append [symmetric] rune_string_def)
qed

lemma split_loop_bound: "0 < n \<Longrightarrow> p \<in> set (split_loop n rs b) \<Longrightarrow> length b < n \<Longrightarrow> \<exists>q. p = rune_string q \<and> q \<noteq> [] \<and> length q \<le> n"
proof (induction n rs b rule: split_loop.induct)
  case (1 n b)
  then show ?case by (auto split: if_splits)
next
  case (2 n r rs b)
  show ?case
  proof (cases "length (b @ [r]) \<ge> n")
    case True
    then consider "p = rune_string (b @ [r])" | "p \<in> set (split_loop n rs [])" using 2(4) by (auto simp: Let_def)
    then show ?thesis
    proof cases
      case 1
      then show ?thesis using True 2(5) by (intro exI [of _ "b @ [r]"]) simp
    next
      case in_rest: 2
      show ?thesis by (rule 2(1) [OF refl True]) (use in_rest 2(3) in simp_all)
    qed
  next
    case False
    then show ?thesis using 2(2) [of "b @ [r]"] 2(3,4) by (simp add: Let_def)
  qed
qed

lemma splitRunes_concat: "valid_text s \<Longrightarrow> concat (splitRunes s n) = s"
  by (simp add: splitRunes_def split_loop_concat valid_text_def)

lemma send_all_live: "sl_done s = (\<lambda>_. False) \<Longrightarrow> send_all s cs ch = (ch @ cs, True)"
  by (induction cs arbitrary: ch) (simp_all add: send_def)

lemma collect_parts:
  "collect_loop ctx (map RecvChunk (map chunk_delta ds @ [chunk_done []])) b w = (b @ concat ds, None)"
  by (induction ds arbitrary: b) (auto simp: chunk_delta_def chunk_done_def)

text \<open>
  A model without a script streams exactly what it would have answered: collecting its channel
  gives the text of the call it makes, or its error, and leaves the same counters, log and world.
\<close>
theorem mock_streams_answer:
  assumes "length (mk_StreamChunks m) \<le> mk_streamIndex m" "sl_done s = (\<lambda>_. False)"
    and "mock_Call ctx messages (m\<lparr>mk_streamIndex := mk_streamIndex m + 1\<rparr>) w = (m', w', r)"
    and "\<forall>t. r = Inr t \<longrightarrow> valid_text t"
  shows "\<exists>ch. mock_CallStream ctx s messages m w = (m', w', ch)
    \<and> CollectStream ctx (Some (map RecvChunk ch)) w'' = (case r of Inl e \<Rightarrow> ([], Some e) | Inr t \<Rightarrow> (t, None))"
proof (cases r)
  case (Inl e)
  then show ?thesis using assms
    by (simp add: mock_CallStream_def Let_def sendErr_def send_def CollectStream_def chunk_err_def)
next
  case (Inr t)
  then show ?thesis using assms collect_parts [of ctx "splitRunes t (if mk_StreamChunkRunes m' \<le> 0 then 4 else mk_StreamChunkRunes m')" "[]" w'']
    by (simp add: mock_CallStream_def Let_def send_all_live sendDone_def send_def CollectStream_def splitRunes_concat)
qed

text \<open>The counter and the log move together, so the log is the history of the calls.\<close>
lemma mock_logs:
  "mock_Call ctx messages m w = (m', w', r) \<Longrightarrow> mk_calls m = length (mk_log m) \<Longrightarrow>
   mk_calls m' = length (mk_log m') \<and> LastMessages m' = messages"
  by (auto simp: mock_Call_def Let_def LastMessages_def split: option.splits prod.splits)

lemma mock_tools_logs:
  "mock_CallWithTools messages tools m = (m', r) \<Longrightarrow> mk_calls m = length (mk_log m) \<Longrightarrow>
   mk_calls m' = length (mk_log m') \<and> LastMessages m' = messages"
  by (auto simp: mock_CallWithTools_def Let_def LastMessages_def)

text \<open>Text that is not UTF-8 does not survive: each bad byte comes back as the replacement character.\<close>
lemma splitRunes_replaces: "concat (splitRunes [CHR 0xFF] 4) = [CHR 0xEF, CHR 0xBF, CHR 0xBD]"
  by (simp add: splitRunes_def runes_def decode_bytes_def rune_string_def encode_rune_def char_of_eq_iff take_bit_eq_mod)

lemma mock_streams_answer_witness:
  "\<exists>ch. mock_CallStream background \<lparr>sl_done = (\<lambda>_. False), sl_err = False\<rparr> [UserMessage ''q''] (mock_New [''hello'']) ()
       = ((mock_New [''hello''])\<lparr>mk_streamIndex := 1, mk_calls := 1, mk_log := [[UserMessage ''q'']]\<rparr>, (), ch)
     \<and> CollectStream background (Some (map RecvChunk ch)) () = (''hello'', None)"
proof -
  let ?m = "mock_New [''hello''] :: unit mockLLM"
  let ?m' = "?m\<lparr>mk_streamIndex := 1, mk_calls := 1, mk_log := [[UserMessage ''q'']]\<rparr>"
  have "valid_text ''hello''" by code_simp
  then have valid: "\<forall>t. (Inr ''hello'' :: err + string) = Inr t \<longrightarrow> valid_text t" by simp
  have call: "mock_Call background [UserMessage ''q''] (?m\<lparr>mk_streamIndex := mk_streamIndex ?m + 1\<rparr>) () = (?m', (), Inr ''hello'')"
    by (simp add: mock_Call_def mock_New_def)
  have "length (mk_StreamChunks ?m) \<le> mk_streamIndex ?m" by (simp add: mock_New_def)
  from mock_streams_answer [OF this _ call valid, of "\<lparr>sl_done = (\<lambda>_. False), sl_err = False\<rparr>" "()"] show ?thesis by simp
qed

end
