(* ===== verification/SearchProviders.thy ===== *)
theory SearchProviders
  imports Provider HttpTools
begin

text \<open>
  The search backends of \<^verbatim>\<open>tools/*_search.go\<close> and the small tools of \<^verbatim>\<open>tools/misc.go\<close>. Requests are built
  to the byte, with the query escaping of \<^verbatim>\<open>net/url\<close>; the decoders of the answers, the two regular
  expressions that find DuckDuckGo's results, \<^verbatim>\<open>html.UnescapeString\<close> and the transport are arguments.
\<close>

section \<open>Query strings\<close>

definition unreserved :: "char \<Rightarrow> bool" where
  "unreserved c = (let n = (of_char c :: nat) in
     48 \<le> n \<and> n \<le> 57 \<or> 65 \<le> n \<and> n \<le> 90 \<or> 97 \<le> n \<and> n \<le> 122 \<or> c \<in> set ''-_.~'')"

text \<open>\<^verbatim>\<open>url.QueryEscape\<close> and \<^verbatim>\<open>url.QueryUnescape\<close>; the latter fails on a percent sign without two hex digits.\<close>

definition escape_char :: "char \<Rightarrow> string" where
  "escape_char c =
     (if unreserved c then [c] else if c = CHR '' '' then ''+''
      else [CHR ''%'', hex_upper (of_char c div 16), hex_upper (of_char c mod 16)])"

definition query_escape :: "string \<Rightarrow> string" where
  "query_escape s = concat (map escape_char s)"

definition unhex :: "char \<Rightarrow> nat option" where
  "unhex c = (let n = (of_char c :: nat) in
     if 48 \<le> n \<and> n \<le> 57 then Some (n - 48) else if 97 \<le> n \<and> n \<le> 102 then Some (n - 87)
     else if 65 \<le> n \<and> n \<le> 70 then Some (n - 55) else None)"

fun query_unescape :: "string \<Rightarrow> string option" where
  "query_unescape [] = Some []"
| "query_unescape (c # s) =
     (if c = CHR ''%'' then
        (case s of
           a # b # s' \<Rightarrow>
             (case (unhex a, unhex b) of
                (Some h, Some l) \<Rightarrow> map_option (Cons (char_of (16 * h + l))) (query_unescape s')
              | _ \<Rightarrow> None)
         | _ \<Rightarrow> None)
      else map_option (Cons (if c = CHR ''+'' then CHR '' '' else c)) (query_unescape s))"

section \<open>The backends\<close>

text \<open>
  One decoder per answer, giving the fields the code uses, and what the regular expressions and the
  URL parser find in a DuckDuckGo page.
\<close>

record 'w searchLib = "'w provLib" +
  sv_net :: "'w netLib"
  sv_brave :: "string \<Rightarrow> err + (string \<times> string \<times> string) list"
  sv_google :: "string \<Rightarrow> err + (string \<times> string \<times> string) list"
  sv_lang :: "string \<Rightarrow> err + int \<times> string \<times> (string \<times> string \<times> string \<times> string) list"
  sv_serp :: "string \<Rightarrow> err + bool \<times> (int \<times> string) option \<times> (string \<times> string \<times> string) list"
  sv_wiki :: "string \<Rightarrow> err + (string \<times> int \<times> string) list"
  sv_links :: "string \<Rightarrow> (string \<times> string) list"
  sv_snippets :: "string \<Rightarrow> string list"
  sv_unescape :: "string \<Rightarrow> string"
  sv_uddg :: "string \<Rightarrow> string option"

record 'w searchClient =
  sc_apiKey :: string
  sc_cxID :: string
  sc_httpClient :: "'w httpClient"
  sc_baseURL :: string
  sc_language :: string

definition search_limit :: nat where "search_limit = 2097152"

text \<open>A key that is not given comes from the environment.\<close>

definition key_or_env :: "('w, 'x) provLib_scheme \<Rightarrow> string \<Rightarrow> string \<Rightarrow> string" where
  "key_or_env lib key name = (if key = [] then pl_getenv lib name else key)"

definition new_client :: "('w, 'x) provLib_scheme \<Rightarrow> string \<Rightarrow> string \<Rightarrow> 'w searchClient" where
  "new_client lib key base =
     \<lparr>sc_apiKey = key, sc_cxID = [], sc_httpClient = pl_client lib 30000000000, sc_baseURL = base, sc_language = []\<rparr>"

definition plain_get :: "string \<Rightarrow> (string \<times> string) list \<Rightarrow> provRequest" where
  "plain_get url headers = \<lparr>pq_Method = ''GET'', pq_URL = url, pq_Headers = headers, pq_Body = []\<rparr>"

definition found :: "'w searchLib \<Rightarrow> string \<Rightarrow> string \<Rightarrow> string \<Rightarrow> searchResult" where
  "found lib title url snippet =
     \<lparr>sr_Title = title, sr_URL = url, sr_Snippet = snippet, sr_SourceOrg = extractHost (sv_net lib) url\<rparr>"

text \<open>The options that redirect a backend, the same assignment in every file.\<close>

definition WithBaseURL :: "string \<Rightarrow> 'w searchClient \<Rightarrow> 'w searchClient" where
  "WithBaseURL url c = c\<lparr>sc_baseURL := url\<rparr>"

subsection \<open>Brave\<close>

definition NewBraveSearch :: "('w, 'x) provLib_scheme \<Rightarrow> string \<Rightarrow> 'w searchClient" where
  "NewBraveSearch lib apiKey = new_client lib (key_or_env lib apiKey ''BRAVE_API_KEY'') ''https://api.search.brave.com/res/v1/web/search''"

definition brave_url :: "string \<Rightarrow> string \<Rightarrow> int \<Rightarrow> string" where
  "brave_url base query n = base @ ''?q='' @ query_escape query @ ''&count='' @ itoa_int n"

definition brave_Search :: "'w searchLib \<Rightarrow> 'w searchClient \<Rightarrow> string \<Rightarrow> int \<Rightarrow> 'w \<Rightarrow> 'w \<times> (err + searchResult list)" where
  "brave_Search lib c query maxResults w =
     (if sc_apiKey c = [] then (w, Inl (Plain ''brave search: BRAVE_API_KEY not set''))
      else
        let n = (if maxResults \<le> 0 \<or> maxResults > 20 then 10 else maxResults) in
        case exchange (provLib.truncate lib) (sc_httpClient c) search_limit (\<lambda>e. e) (\<lambda>e. e) (\<lambda>e. e)
               (plain_get (brave_url (sc_baseURL c) query n)
                  [(''Accept'', ''application/json''), (''X-Subscription-Token'', sc_apiKey c)]) w of
          (w, Inl e) \<Rightarrow> (w, Inl e)
        | (w, Inr (status, data)) \<Rightarrow>
            (w, if status \<noteq> 200 then Inl (Plain (''brave search: HTTP '' @ itoa_int status))
                else case sv_brave lib data of
                  Inl e \<Rightarrow> Inl (wrapf ''brave search: decode: '' e)
                | Inr rs \<Rightarrow> Inr (map (\<lambda>(t, u, d). found lib t u d) rs)))"

subsection \<open>Google\<close>

definition NewGoogleSearch :: "('w, 'x) provLib_scheme \<Rightarrow> string \<Rightarrow> string \<Rightarrow> 'w searchClient" where
  "NewGoogleSearch lib apiKey cxID =
     (new_client lib (key_or_env lib apiKey ''GOOGLE_API_KEY'') ''https://www.googleapis.com/customsearch/v1'')
       \<lparr>sc_cxID := key_or_env lib cxID ''GOOGLE_CSE_ID''\<rparr>"

definition google_url :: "string \<Rightarrow> string \<Rightarrow> string \<Rightarrow> string \<Rightarrow> int \<Rightarrow> string" where
  "google_url base query key cx n =
     base @ ''?q='' @ query_escape query @ ''&key='' @ query_escape key @ ''&cx='' @ query_escape cx @ ''&num='' @ itoa_int n"

definition google_Search :: "'w searchLib \<Rightarrow> 'w searchClient \<Rightarrow> string \<Rightarrow> int \<Rightarrow> 'w \<Rightarrow> 'w \<times> (err + searchResult list)" where
  "google_Search lib c query maxResults w =
     (if sc_apiKey c = [] then (w, Inl (Plain ''google search: GOOGLE_API_KEY not set''))
      else if sc_cxID c = [] then (w, Inl (Plain ''google search: GOOGLE_CSE_ID not set''))
      else
        let n = (if maxResults \<le> 0 \<or> maxResults > 10 then 10 else maxResults) in
        case exchange (provLib.truncate lib) (sc_httpClient c) search_limit
               (wrapf ''google search: building request: '') (\<lambda>_. Plain ''google search: request failed'')
               (wrapf ''google search: reading response: '')
               (plain_get (google_url (sc_baseURL c) query (sc_apiKey c) (sc_cxID c) n) []) w of
          (w, Inl e) \<Rightarrow> (w, Inl e)
        | (w, Inr (status, data)) \<Rightarrow>
            (w, if status \<noteq> 200 then Inl (Plain (''google search: HTTP '' @ itoa_int status))
                else case sv_google lib data of
                  Inl e \<Rightarrow> Inl (wrapf ''google search: decode: '' e)
                | Inr rs \<Rightarrow> Inr (map (\<lambda>(t, u, d). found lib t u d) rs)))"

subsection \<open>LangSearch\<close>

definition NewLangSearch :: "('w, 'x) provLib_scheme \<Rightarrow> string \<Rightarrow> 'w searchClient" where
  "NewLangSearch lib apiKey = new_client lib (key_or_env lib apiKey ''LANGSEARCH_API_KEY'') ''https://api.langsearch.com/v1/web-search''"

definition langsearch_Search :: "'w searchLib \<Rightarrow> 'w searchClient \<Rightarrow> string \<Rightarrow> int \<Rightarrow> 'w \<Rightarrow> 'w \<times> (err + searchResult list)" where
  "langsearch_Search lib c query maxResults w =
     (if sc_apiKey c = []
      then (w, Inl (Plain ''langsearch: LANGSEARCH_API_KEY not set (get a free key at https://langsearch.com)''))
      else
        let n = (if maxResults \<le> 0 \<or> maxResults > 20 then 10 else maxResults) in
        case pl_marshal lib (WObj (field ''query'' (WStr query) @ field ''freshness'' (WStr ''noLimit'') @
               field ''summary'' (WBool True) @ field ''count'' (WInt n))) of
          Inl e \<Rightarrow> (w, Inl (wrapf ''langsearch: encoding request: '' e))
        | Inr buf \<Rightarrow>
            (case exchange (provLib.truncate lib) (sc_httpClient c) search_limit
                    (wrapf ''langsearch: creating request: '') (wrapf ''langsearch: sending request: '') (wrapf ''langsearch: reading response: '')
                    \<lparr>pq_Method = ''POST'', pq_URL = sc_baseURL c,
                     pq_Headers = [(''Content-Type'', ''application/json''), (''Authorization'', ''Bearer '' @ sc_apiKey c)],
                     pq_Body = buf\<rparr> w of
               (w, Inl e) \<Rightarrow> (w, Inl e)
             | (w, Inr (status, data)) \<Rightarrow>
                 (w, if status \<noteq> 200 then Inl (Plain (''langsearch: HTTP '' @ itoa_int status))
                     else case sv_lang lib data of
                       Inl e \<Rightarrow> Inl (wrapf ''langsearch: decoding response: '' e)
                     | Inr (code, msg, rs) \<Rightarrow>
                         if code \<noteq> 200
                         then Inl (Plain (''langsearch: API error code '' @ itoa_int code @ '': '' @ msg))
                         else Inr (map (\<lambda>(name, u, snippet, summary). found lib name u (if summary \<noteq> [] then summary else snippet)) rs))))"

subsection \<open>Serpstack\<close>

definition NewSerpstack :: "('w, 'x) provLib_scheme \<Rightarrow> string \<Rightarrow> 'w searchClient" where
  "NewSerpstack lib apiKey = new_client lib (key_or_env lib apiKey ''SERPSTACK_API_KEY'') ''http://api.serpstack.com/search''"

definition serpstack_url :: "string \<Rightarrow> string \<Rightarrow> string \<Rightarrow> int \<Rightarrow> string" where
  "serpstack_url base key query n =
     base @ ''?access_key='' @ query_escape key @ ''&query='' @ query_escape query @ ''&num='' @ itoa_int n"

definition serpstack_Search :: "'w searchLib \<Rightarrow> 'w searchClient \<Rightarrow> string \<Rightarrow> int \<Rightarrow> 'w \<Rightarrow> 'w \<times> (err + searchResult list)" where
  "serpstack_Search lib c query maxResults w =
     (if sc_apiKey c = []
      then (w, Inl (Plain ''serpstack: SERPSTACK_API_KEY not set (get a free key at https://serpstack.com)''))
      else
        let n = (if maxResults \<le> 0 \<or> maxResults > 100 then 10 else maxResults) in
        case exchange (provLib.truncate lib) (sc_httpClient c) search_limit
               (wrapf ''serpstack: building request: '') (\<lambda>_. Plain ''serpstack: request failed'') (wrapf ''serpstack: reading response: '')
               (plain_get (serpstack_url (sc_baseURL c) (sc_apiKey c) query n) []) w of
          (w, Inl e) \<Rightarrow> (w, Inl e)
        | (w, Inr (status, data)) \<Rightarrow>
            (w, case sv_serp lib data of
                  Inl e \<Rightarrow> Inl (wrapf ''serpstack: decode: '' e)
                | Inr (success, failure, rs) \<Rightarrow>
                    (case failure of
                       Some (code, kind) \<Rightarrow>
                         if \<not> success then Inl (Plain (''serpstack: error '' @ itoa_int code @ '' ('' @ kind @ '')''))
                         else Inr (map (\<lambda>(t, u, d). found lib t u d) rs)
                     | None \<Rightarrow> Inr (map (\<lambda>(t, u, d). found lib t u d) rs))))"

subsection \<open>Wikipedia\<close>

definition NewWikipediaSearch :: "('w, 'x) provLib_scheme \<Rightarrow> 'w searchClient" where
  "NewWikipediaSearch lib = (new_client lib [] ''https://en.wikipedia.org'')\<lparr>sc_language := ''en''\<rparr>"

definition NewWikipediaSearchWithLanguage :: "('w, 'x) provLib_scheme \<Rightarrow> string \<Rightarrow> 'w searchClient" where
  "NewWikipediaSearchWithLanguage lib lang = (new_client lib [] (''https://'' @ lang @ ''.wikipedia.org''))\<lparr>sc_language := lang\<rparr>"

text \<open>\<^verbatim>\<open>stripTags\<close>: the matches of \<^verbatim>\<open><[^>]*>\<close>, each from the leftmost bracket, are removed.\<close>

function stripTags :: "string \<Rightarrow> string" where
  "stripTags [] = []"
| "stripTags (c # s) =
     (if c \<noteq> CHR ''<'' then c # stripTags s
      else case dropWhile (\<lambda>d. d \<noteq> CHR ''>'') s of [] \<Rightarrow> c # s | _ # rest \<Rightarrow> stripTags rest)"
  by pat_completeness auto
termination
proof (relation "measure length", goal_cases)
  case (3 c s d rest)
  then show ?case using length_dropWhile_le [of "\<lambda>d. d \<noteq> CHR ''>''" s] by simp
qed simp_all

definition wikipedia_url :: "string \<Rightarrow> string \<Rightarrow> int \<Rightarrow> string" where
  "wikipedia_url base query n =
     base @ ''/w/api.php?action=query&list=search&srsearch='' @ query_escape query @ ''&format=json&srlimit='' @ itoa_int n"

definition wikipedia_Search :: "'w searchLib \<Rightarrow> 'w searchClient \<Rightarrow> string \<Rightarrow> int \<Rightarrow> 'w \<Rightarrow> 'w \<times> (err + searchResult list)" where
  "wikipedia_Search lib c query maxResults w =
     (let n = (if maxResults \<le> 0 then 5 else if maxResults > 50 then 50 else maxResults) in
      case exchange (provLib.truncate lib) (sc_httpClient c) search_limit (\<lambda>e. e) (\<lambda>e. e) (\<lambda>e. e)
             (plain_get (wikipedia_url (sc_baseURL c) query n) [(''User-Agent'', ''crewai-go/1.0 (https://github.com/rhgs/crewai-go)'')]) w of
        (w, Inl e) \<Rightarrow> (w, Inl e)
      | (w, Inr (status, data)) \<Rightarrow>
          (w, if status \<noteq> 200 then Inl (Plain (''wikipedia search: HTTP '' @ itoa_int status))
              else case sv_wiki lib data of
                Inl e \<Rightarrow> Inl (wrapf ''wikipedia search: decode: '' e)
              | Inr items \<Rightarrow>
                  Inr (map (\<lambda>(title, page, snippet).
                    \<lparr>sr_Title = title, sr_URL = ''https://'' @ sc_language c @ ''.wikipedia.org/?curid='' @ itoa_int page,
                     sr_Snippet = stripTags snippet, sr_SourceOrg = ''wikipedia.org''\<rparr>) items)))"

subsection \<open>DuckDuckGo\<close>

definition NewDuckDuckGoSearch :: "('w, 'x) provLib_scheme \<Rightarrow> 'w searchClient" where
  "NewDuckDuckGoSearch lib = new_client lib [] ''https://duckduckgo.com/html/''"

text \<open>\<open>sv_uddg\<close> is the parameter of that name, or none when the URL does not parse.\<close>

definition decodeDuckDuckGoURL :: "'w searchLib \<Rightarrow> string \<Rightarrow> string" where
  "decodeDuckDuckGoURL lib raw =
     (let plain = (if has_prefix raw ''//'' then ''https:'' @ raw else raw) in
      if contains raw ''uddg='' then
        (case sv_uddg lib raw of
           Some encoded \<Rightarrow> if encoded = [] then plain else (case query_unescape encoded of Some u \<Rightarrow> u | None \<Rightarrow> plain)
         | None \<Rightarrow> plain)
      else plain)"

definition parseDuckDuckGoHTML :: "'w searchLib \<Rightarrow> string \<Rightarrow> int \<Rightarrow> searchResult list" where
  "parseDuckDuckGoHTML lib body n =
     (let snippets = sv_snippets lib body in
      map (\<lambda>(i, raw, title).
             found lib (sv_unescape lib (stripTags title)) (decodeDuckDuckGoURL lib raw)
               (if i < length snippets then sv_unescape lib (stripTags (snippets ! i)) else []))
        (take (nat n) (enumerate 0 (sv_links lib body))))"

definition duckduckgo_url :: "string \<Rightarrow> string \<Rightarrow> string" where
  "duckduckgo_url base query = base @ ''?q='' @ query_escape query"

definition duckduckgo_Search :: "'w searchLib \<Rightarrow> 'w searchClient \<Rightarrow> string \<Rightarrow> int \<Rightarrow> 'w \<Rightarrow> 'w \<times> (err + searchResult list)" where
  "duckduckgo_Search lib c query maxResults w =
     (let n = (if maxResults \<le> 0 then 5 else maxResults) in
      case exchange (provLib.truncate lib) (sc_httpClient c) search_limit (\<lambda>e. e) (\<lambda>e. e) (\<lambda>e. e)
             (plain_get (duckduckgo_url (sc_baseURL c) query) [(''User-Agent'', ''Mozilla/5.0 (compatible; crewai-go/1.0)'')]) w of
        (w, Inl e) \<Rightarrow> (w, Inl e)
      | (w, Inr (status, data)) \<Rightarrow>
          (w, if status = 202 \<or> contains data ''anomaly''
              then Inl (Plain (''duckduckgo: blocked by anomaly/captcha page (HTTP '' @ itoa_int status @ '')''))
              else Inr (parseDuckDuckGoHTML lib data n)))"

section \<open>Small tools\<close>

definition CurrentTime :: "(string \<Rightarrow> 'w \<Rightarrow> string) \<Rightarrow> string \<Rightarrow> 'w tool" where
  "CurrentTime format layout =
     (let layout = (if layout = [] then ''2006-01-02T15:04:05Z07:00'' else layout) in
      NewTool ''current_time'' ''Reports the current date and time. The input is ignored.''
        (Some (\<lambda>ctx input w. (w, Inr (format layout w), []))))"

text \<open>\<^verbatim>\<open>strings.Fields\<close>: the runs of runes that are not white space.\<close>

definition space_rune :: "nat \<Rightarrow> bool" where
  "space_rune r = (9 \<le> r \<and> r \<le> 13 \<or> r \<in> {0x20, 0x85, 0xA0, 0x1680, 0x2028, 0x2029, 0x202F, 0x205F, 0x3000}
     \<or> 0x2000 \<le> r \<and> r \<le> 0x200A)"

fun count_fields :: "bool \<Rightarrow> nat list \<Rightarrow> nat" where
  "count_fields inside [] = (if inside then 1 else 0)"
| "count_fields inside (r # rs) =
     (if space_rune r then (if inside then 1 else 0) + count_fields False rs else count_fields True rs)"

definition WordCount :: "'w tool" where
  "WordCount =
     NewTool ''word_count'' ''Counts the number of words and characters in the input text.''
       (Some (\<lambda>ctx input w. (w, Inr (''words='' @ itoa (count_fields False (runes input))
          @ '' characters='' @ itoa (length (runes input))), [])))"

end
