(* ===== verification/SearchSpec.thy ===== *)
theory SearchSpec
  imports SearchProviders
begin

text \<open>
  What the search backends promise: a query or a key is one parameter of the request whatever it
  contains, error texts do not depend on the key, and no complete tag is left in a snippet.
\<close>

section \<open>Escaping\<close>

lemma unreserved_hex: "n < 16 \<Longrightarrow> unreserved (hex_upper n)"
  by (auto simp: hex_upper_def unreserved_def Let_def)

lemma unhex_hex: "n < 16 \<Longrightarrow> unhex (hex_upper n) = Some n"
  by (auto simp: hex_upper_def unhex_def Let_def)

lemma unreserved_not: "unreserved c \<Longrightarrow> c \<notin> set ''%+&=?# ''"
  by (auto simp: unreserved_def)

lemma of_char_hex: "of_char c div 16 < (16 :: nat)" "of_char c mod 16 < (16 :: nat)"
proof -
  have "of_char c < (256 :: nat)" using of_char_mod_256 [of c, where 'a = nat] by (metis mod_less_divisor zero_less_numeral)
  then show "of_char c div 16 < (16 :: nat)" by (intro less_mult_imp_div_less) simp
qed simp

lemma char_of_hex: "char_of (16 * (of_char c div 16) + of_char c mod 16 :: nat) = c"
  by (simp add: mult_div_mod_eq)

lemma query_unescape_char: "query_unescape (escape_char c @ s) = map_option (Cons c) (query_unescape s)"
proof (cases "unreserved c \<or> c = CHR '' ''")
  case True
  then show ?thesis using unreserved_not [of c] by (auto simp: escape_char_def)
next
  case False
  then show ?thesis using of_char_hex [of c] char_of_hex [of c] by (simp add: escape_char_def unhex_hex)
qed

lemma query_unescape_escape: "query_unescape (query_escape s) = Some s"
  by (induction s) (simp_all add: query_escape_def query_unescape_char)

lemma escape_char_set: "d \<in> set (escape_char c) \<Longrightarrow> unreserved d \<or> d \<in> {CHR ''%'', CHR ''+''}"
  using unreserved_hex [OF of_char_hex(1) [of c]] unreserved_hex [OF of_char_hex(2) [of c]]
  by (auto simp: escape_char_def split: if_splits)

lemma query_escape_safe: "c \<in> set (query_escape s) \<Longrightarrow> c \<notin> set ''&=?# ''"
  using escape_char_set unreserved_not by (fastforce simp: query_escape_def)

lemma query_escape_plain: "\<forall>c\<in>set s. unreserved c \<Longrightarrow> query_escape s = s"
  by (induction s) (simp_all add: query_escape_def escape_char_def)

lemma itoa_unreserved: "c \<in> set (itoa n) \<Longrightarrow> unreserved c"
proof (induction n rule: itoa.induct)
  case (1 n)
  have "unreserved (digit_char k)" if "k < 10" for k using that by (auto simp: digit_char_def unreserved_def Let_def)
  then show ?case using 1 by (subst (asm) itoa.simps) (auto split: if_splits)
qed

lemma itoa_int_plain: "query_escape (itoa_int n) = itoa_int n"
  using itoa_unreserved by (intro query_escape_plain) (auto simp: itoa_int_def unreserved_def)

section \<open>Requests say what they mean\<close>

text \<open>A query string as a server reads it.\<close>

definition param :: "string \<Rightarrow> string \<times> string option" where
  "param p = (takeWhile (\<lambda>c. c \<noteq> CHR ''='') p, query_unescape (tl (dropWhile (\<lambda>c. c \<noteq> CHR ''='') p)))"

definition reads_back :: "string \<Rightarrow> string \<Rightarrow> (string \<times> string) list \<Rightarrow> bool" where
  "reads_back url path kvs =
     (prefix (path @ ''?'') url
      \<and> map param (split_on CHR ''&'' (drop (length path + 1) url)) = map (\<lambda>(k, v). (k, Some v)) kvs)"

definition query_string :: "(string \<times> string) list \<Rightarrow> string" where
  "query_string kvs = str_join ''&'' (map (\<lambda>(k, v). k @ ''='' @ query_escape v) kvs)"

lemma param_pair: "CHR ''='' \<notin> set k \<Longrightarrow> param (k @ CHR ''='' # query_escape v) = (k, Some v)"
  by (simp add: param_def takeWhile_append dropWhile_append query_unescape_escape)

lemma reads_back_query:
  assumes "kvs \<noteq> []" "\<forall>(k, v)\<in>set kvs. CHR ''='' \<notin> set k \<and> CHR ''&'' \<notin> set k"
  shows "reads_back (path @ ''?'' @ query_string kvs) path kvs"
proof -
  have "CHR ''&'' \<notin> set (query_escape v)" for v using query_escape_safe by fastforce
  then have "split_on CHR ''&'' (query_string kvs) = map (\<lambda>(k, v). k @ ''='' @ query_escape v) kvs"
    using assms unfolding query_string_def by (intro split_on_join) auto
  moreover have "map param (map (\<lambda>(k, v). k @ ''='' @ query_escape v) kvs) = map (\<lambda>(k, v). (k, Some v)) kvs"
    using assms(2) by (auto simp: param_pair)
  ultimately show ?thesis by (simp add: reads_back_def)
qed

text \<open>
  C38. A search cannot inject into its request: whatever the query, the key and the engine id contain,
  the URL of each of the five backends that put them there is its path and a query string in which a
  server reads exactly the intended parameters with exactly their values.
\<close>
theorem search_requests_exact:
  "reads_back (google_url b q key cx n) b [(''q'', q), (''key'', key), (''cx'', cx), (''num'', itoa_int n)]
   \<and> reads_back (brave_url b q n) b [(''q'', q), (''count'', itoa_int n)]
   \<and> reads_back (serpstack_url b key q n) b [(''access_key'', key), (''query'', q), (''num'', itoa_int n)]
   \<and> reads_back (wikipedia_url b q n) (b @ ''/w/api.php'')
       [(''action'', ''query''), (''list'', ''search''), (''srsearch'', q), (''format'', ''json''), (''srlimit'', itoa_int n)]
   \<and> reads_back (duckduckgo_url b q) b [(''q'', q)]"
proof -
  have w: "query_escape ''query'' = ''query''" "query_escape ''search'' = ''search''" "query_escape ''json'' = ''json''"
    by (intro query_escape_plain, simp add: unreserved_def)+
  show ?thesis
    using reads_back_query [of "[(''q'', q), (''key'', key), (''cx'', cx), (''num'', itoa_int n)]" b]
      reads_back_query [of "[(''q'', q), (''count'', itoa_int n)]" b]
      reads_back_query [of "[(''access_key'', key), (''query'', q), (''num'', itoa_int n)]" b]
      reads_back_query [of "[(''action'', ''query''), (''list'', ''search''), (''srsearch'', q), (''format'', ''json''), (''srlimit'', itoa_int n)]" "b @ ''/w/api.php''"]
      reads_back_query [of "[(''q'', q)]" b]
    by (simp add: google_url_def brave_url_def serpstack_url_def wikipedia_url_def duckduckgo_url_def query_string_def itoa_int_plain w)
qed

section \<open>Errors do not tell the key\<close>

text \<open>
  Two requests over two transports that no reply tells apart: both requests can be built, and the
  transports leave the same world and give the same response, or both fail, with errors of their own.
\<close>

definition indistinct :: "('w, 'x) provLib_scheme \<Rightarrow> 'w httpClient \<Rightarrow> provRequest \<Rightarrow> 'w httpClient \<Rightarrow> provRequest \<Rightarrow> 'w \<Rightarrow> bool" where
  "indistinct lib h req h' req' w \<longleftrightarrow>
     pl_request lib (pq_URL req) = None \<and> pl_request lib (pq_URL req') = None
     \<and> fst (h req w) = fst (h' req' w)
     \<and> (snd (h req w) = snd (h' req' w) \<or> (isl (snd (h req w)) \<and> isl (snd (h' req' w))))"

lemma exchange_indistinct:
  assumes "indistinct lib h req h' req' w"
  shows "exchange (provLib.truncate lib) h n f (\<lambda>_. e) g req w = exchange (provLib.truncate lib) h' n f (\<lambda>_. e) g req' w"
  using assms unfolding indistinct_def exchange_def
  by (cases "h req w"; cases "h' req' w"; cases "snd (h req w)"; cases "snd (h' req' w)") (auto simp: provLib.defs)

text \<open>The request a search sends.\<close>

definition google_get :: "'w searchClient \<Rightarrow> string \<Rightarrow> int \<Rightarrow> provRequest" where
  "google_get c q n = plain_get (google_url (sc_baseURL c) q (sc_apiKey c) (sc_cxID c) (if n \<le> 0 \<or> n > 10 then 10 else n)) []"

definition serpstack_get :: "'w searchClient \<Rightarrow> string \<Rightarrow> int \<Rightarrow> provRequest" where
  "serpstack_get c q n = plain_get (serpstack_url (sc_baseURL c) (sc_apiKey c) q (if n \<le> 0 \<or> n > 100 then 10 else n)) []"

text \<open>
  C39. The keys that travel in URLs stay out of the results and errors of Google and Serpstack: when two
  clients that differ in their keys and transports can both build the request of a search, and the
  transports' replies to these two requests differ at most in the texts of their errors (which quote the
  URL), the two searches end in the same result or the same error. A URL no request can be built from is
  the exception: the error quotes it (\<open>google_building_tells_key\<close>).
\<close>
theorem search_key_secret:
  assumes "key \<noteq> []" "key' \<noteq> []"
    and "c\<^sub>1 = c\<lparr>sc_apiKey := key, sc_httpClient := h\<rparr>" "c\<^sub>2 = c\<lparr>sc_apiKey := key', sc_httpClient := h'\<rparr>"
  shows "(indistinct lib h (google_get c\<^sub>1 q n) h' (google_get c\<^sub>2 q n) w
            \<longrightarrow> google_Search lib c\<^sub>1 q n w = google_Search lib c\<^sub>2 q n w)
    \<and> (indistinct lib h (serpstack_get c\<^sub>1 q n) h' (serpstack_get c\<^sub>2 q n) w
            \<longrightarrow> serpstack_Search lib c\<^sub>1 q n w = serpstack_Search lib c\<^sub>2 q n w)"
proof (intro conjI impI)
  assume "indistinct lib h (google_get c\<^sub>1 q n) h' (google_get c\<^sub>2 q n) w"
  from exchange_indistinct [OF this, of search_limit "wrapf ''google search: building request: ''"
      "Plain ''google search: request failed''" "wrapf ''google search: reading response: ''"]
  show "google_Search lib c\<^sub>1 q n w = google_Search lib c\<^sub>2 q n w"
    using assms by (simp add: google_Search_def google_get_def Let_def)
next
  assume "indistinct lib h (serpstack_get c\<^sub>1 q n) h' (serpstack_get c\<^sub>2 q n) w"
  from exchange_indistinct [OF this, of search_limit "wrapf ''serpstack: building request: ''"
      "Plain ''serpstack: request failed''" "wrapf ''serpstack: reading response: ''"]
  show "serpstack_Search lib c\<^sub>1 q n w = serpstack_Search lib c\<^sub>2 q n w"
    using assms by (simp add: serpstack_Search_def serpstack_get_def Let_def)
qed

text \<open>The exception: an error of building the request is passed on, with the URL and the key it quotes.\<close>

lemma google_building_tells_key:
  assumes "pl_request lib (pq_URL (google_get c q n)) = Some e" "sc_apiKey c \<noteq> []" "sc_cxID c \<noteq> []"
  shows "google_Search lib c q n w = (w, Inl (wrapf ''google search: building request: '' e))"
  using assms by (simp add: google_Search_def google_get_def exchange_def Let_def plain_get_def provLib.defs)

section \<open>Snippets\<close>

text \<open>What is left of a snippet has no bracket that is closed later.\<close>
lemma stripTags_clean: "CHR ''>'' \<notin> set (dropWhile (\<lambda>c. c \<noteq> CHR ''<'') (stripTags s))"
proof (induction s rule: stripTags.induct)
  case (2 c s)
  show ?case
  proof (cases "c = CHR ''<''")
    case True
    show ?thesis
    proof (cases "dropWhile (\<lambda>d. d \<noteq> CHR ''>'') s")
      case Nil
      then have "CHR ''>'' \<notin> set s" by (simp add: dropWhile_eq_Nil_conv) blast
      moreover have "stripTags (c # s) = c # s" by (simp add: True Nil)
      ultimately show ?thesis using True by simp
    next
      case (Cons x xs)
      then show ?thesis using True 2(2) [of x xs] by simp
    qed
  qed (use 2(1) in simp)
qed simp

text \<open>DuckDuckGo gives no more results than asked for; the others give what the server sends.\<close>
lemma duckduckgo_bounded: "0 < n \<Longrightarrow> int (length (parseDuckDuckGoHTML lib body n)) \<le> n"
  by (simp add: parseDuckDuckGoHTML_def Let_def)

section \<open>Witnesses\<close>

definition small_search :: "unit searchLib" where
  "small_search =
     \<lparr>pl_marshal = (\<lambda>_. Inr []), pl_request = (\<lambda>u. if CHR 0x7F \<in> set u then Some (Plain u) else None),
      pl_client = (\<lambda>_ req w. (w, Inl (Plain (pq_URL req)))), pl_getenv = (\<lambda>_. ''env''),
      sv_net = \<lparr>nl_url = (\<lambda>_. Inl (Plain [])), nl_ip = (\<lambda>_. None), nl_lookup = (\<lambda>_ w. (w, None))\<rparr>,
      sv_brave = (\<lambda>_. Inr []), sv_google = (\<lambda>_. Inr []), sv_lang = (\<lambda>_. Inr (200, [], [])), sv_serp = (\<lambda>_. Inr (True, None, [])),
      sv_wiki = (\<lambda>_. Inr []), sv_links = (\<lambda>_. []), sv_snippets = (\<lambda>_. []), sv_unescape = (\<lambda>s. s), sv_uddg = (\<lambda>_. None)\<rparr>"

definition small_google :: "string \<Rightarrow> unit searchClient" where
  "small_google key = (NewGoogleSearch small_search [] ''cx'')\<lparr>sc_apiKey := key, sc_httpClient := pl_client small_search 1\<rparr>"

lemma search_key_secret_witness:
  "google_Search small_search (small_google ''k1'') ''q'' 3 () = google_Search small_search (small_google ''k2'') ''q'' 3 ()
   \<and> google_get (small_google ''k1'') ''q'' 3 \<noteq> google_get (small_google ''k2'') ''q'' 3"
proof -
  have "indistinct small_search (pl_client small_search 1) (google_get (small_google ''k1'') ''q'' 3)
      (pl_client small_search 1) (google_get (small_google ''k2'') ''q'' 3) ()"
    "google_get (small_google ''k1'') ''q'' 3 \<noteq> google_get (small_google ''k2'') ''q'' 3" by code_simp+
  then show ?thesis
    using search_key_secret [where key = "''k1''" and key' = "''k2''" and c = "NewGoogleSearch small_search [] ''cx''"
        and h = "pl_client small_search 1" and h' = "pl_client small_search 1" and c\<^sub>1 = "small_google ''k1''"
        and c\<^sub>2 = "small_google ''k2''" and lib = small_search and q = "''q''" and n = 3 and w = "()"]
    by (simp add: small_google_def)
qed

text \<open>
  DuckDuckGo's redirect carries the target as a parameter, which the URL parser has already decoded; the
  code decodes it again, so a target with an escape of its own is changed.
\<close>

lemma duckduckgo_decodes_twice:
  assumes "sv_uddg lib raw = Some ''http://a/?q=b%26c''" "contains raw ''uddg=''"
  shows "decodeDuckDuckGoURL lib raw = ''http://a/?q=b&c''"
proof -
  have "query_unescape ''http://a/?q=b%26c'' = Some ''http://a/?q=b&c''" by code_simp
  then show ?thesis using assms by (simp add: decodeDuckDuckGoURL_def)
qed

end
