(* ===== verification/Spec2Isabelle.thy ===== *)
theory Spec2Isabelle
  imports FileLog Flow CrewWaves TraceSafe Options LoadSpec StructuredSchema Calculator HttpTools PathJail McpText ProviderSpec ProviderTools XaiSpec Mock SearchSpec
begin

text \<open>
  A verification development for crewai-go, a Go framework that runs crews of language-model agents.

  The program. A crew (\<^verbatim>\<open>crew.go\<close>) owns agents and tasks. \<^verbatim>\<open>Kickoff\<close> plans the tasks into waves of
  mutually independent ones (\<^verbatim>\<open>schedule.go\<close>), runs each task through an executor (\<^verbatim>\<open>executor.go\<close>,
  \<^verbatim>\<open>toolcall.go\<close>, \<^verbatim>\<open>structured.go\<close>, \<^verbatim>\<open>loop.go\<close>) that converses with a model and calls tools, folds the
  results at the barrier of each wave, stage or task, commits what the tasks put into memory
  (\<^verbatim>\<open>memory_policy.go\<close>, \<^verbatim>\<open>memory.go\<close>, \<^verbatim>\<open>filestore.go\<close>) and finally asks the crew's guardrails. Facts,
  warnings, events, progress and stream chunks flow beside the answers. Structured answers are
  validated against a JSON Schema (\<^verbatim>\<open>schema.go\<close>); crews can be declared in JSON (\<^verbatim>\<open>load.go\<close>); a flow
  (\<^verbatim>\<open>flow.go\<close>) is a second, smaller engine of steps with dependencies and gates. The tools of
  \<^verbatim>\<open>tools/\<close> are what agents touch the world with: arithmetic, HTTP, web search and files.

  The model. Pointers to agents and tasks are addresses into a heap inside the run state \<^verbatim>\<open>rt\<close>
  (Types), which also holds the bookkeeping a run changes: failures, the memory buffer, the trace
  recorder. Everything outside (models, application tools, stores, clocks, file systems, sinks) is
  a function on an outside state of type \<^verbatim>\<open>'w\<close>, so the order of effects is visible in the equations.
  Errors are values of the datatype \<^verbatim>\<open>err\<close> (Prelude), with \<^verbatim>\<open>errors.Is\<close> as a function on it. Loops of
  the code are recursive functions with their termination proofs; the loops that wait for a model
  or an iteration budget recurse over that budget as the code does. The goroutines of a group run
  one after the other in an order chosen by an arbitrary scheduler, each task as one step.

  The theories, in the order of the imports.
  Prelude: errors, names, lemmas on lists and orders. GoStrings: \<^verbatim>\<open>strings\<close>, \<^verbatim>\<open>strconv\<close>, \<^verbatim>\<open>path\<close>,
  \<^verbatim>\<open>unicode\<close> as the program uses them, on byte strings. Schedule: \<^verbatim>\<open>schedule.go\<close>. Facts: \<^verbatim>\<open>fact.go\<close>.
  Memory: \<^verbatim>\<open>memory.go\<close>, \<^verbatim>\<open>memory_store.go\<close>, \<^verbatim>\<open>memory_embed.go\<close>. FileStore and FileLog: \<^verbatim>\<open>filestore.go\<close>,
  first the operations on index and log lines, then reopening as a refinement. Redact: \<^verbatim>\<open>redact.go\<close>.
  Events: \<^verbatim>\<open>event.go\<close>, \<^verbatim>\<open>progress.go\<close> and the context values. Flow: \<^verbatim>\<open>flow.go\<close>. Types: the data of
  \<^verbatim>\<open>agent.go\<close>, \<^verbatim>\<open>task.go\<close>, \<^verbatim>\<open>tool.go\<close>, \<^verbatim>\<open>llm.go\<close>. Prompts: \<^verbatim>\<open>prompts.go\<close> and the text protocol. Stream:
  \<^verbatim>\<open>stream.go\<close>. MemoryPolicy: \<^verbatim>\<open>memory_policy.go\<close>. Executor: \<^verbatim>\<open>executor.go\<close> and \<^verbatim>\<open>toolcall.go\<close>.
  Structured: \<^verbatim>\<open>structured.go\<close>. Loop: \<^verbatim>\<open>loop.go\<close>. Delegation: \<^verbatim>\<open>delegation.go\<close>, \<^verbatim>\<open>memory_tools.go\<close>.
  TaskRun: guardrails, traces and one task. Crew, Frame, CrewOutput, CrewWaves: \<^verbatim>\<open>crew.go\<close>, what a
  task leaves alone, and the two groups of theorems about \<^verbatim>\<open>Kickoff\<close>. Json, Schema, SchemaSpec:
  decoded JSON, \<^verbatim>\<open>schema.go\<close>, and the meaning of its keywords. StructuredSchema: structured output
  with the real validator. Load, LoadSpec: \<^verbatim>\<open>load.go\<close>, \<^verbatim>\<open>load_schema.go\<close>. Calculator:
  \<^verbatim>\<open>tools/calculator.go\<close>. NetGuard, HttpTools: \<^verbatim>\<open>tools/urlguard.go\<close>, \<^verbatim>\<open>tools/http.go\<close>,
  \<^verbatim>\<open>tools/websearch.go\<close>. PathJail: \<^verbatim>\<open>internal/pathjail\<close> and \<^verbatim>\<open>tools/files.go\<close>. Mcp, McpSpec: the
  client, the configuration and the tool adapter of \<^verbatim>\<open>mcp/\<close>. Utf8: encoding and decoding of runes are
  inverse, on which McpText rests, the description limit of that adapter. Provider: what the clients
  of \<^verbatim>\<open>llm/\<close> share, that is wire values, one capped HTTP exchange, the line scanner and the chunk channel;
  OpenAI, Anthropic, Ollama: the three clients. ProviderSpec, ProviderTools: their streams, and tool calls
  on the wire. Xai, XaiSpec: \<^verbatim>\<open>llm/xai\<close>, with the OAuth device flow. Mock: \<^verbatim>\<open>llm/mock\<close>. SearchProviders,
  SearchSpec: the search backends and \<^verbatim>\<open>misc.go\<close> of \<^verbatim>\<open>tools/\<close>. Options: the options of a crew that only
  reach the context. Tracing: the rest of \<^verbatim>\<open>trace.go\<close> and what a record may tell. TraceSafe: relations
  that a run keeps if the execution of a task and the bookkeeping keep them, and the one for traces.

  What is shown. Scheduling: an accepted plan is a partition in which every dependency is in an
  earlier wave, it is the earliest such plan, and plans are refused exactly for duplicates and
  cycles. Crew: an asynchronous run reports exactly the tasks that did not fail, once each and after
  their dependencies, under every scheduler, unless a task can be without an agent unnoticed; a serial run reports all; facts, warnings and the final
  answer are those of the outputs; no output leaves without the consent of every guardrail, and no
  trace tells more than metadata, or redacted text where bodies were asked for.
  Executors: conversations are well paired and tools see only arguments within the limits;
  structured answers conform to the meaning of their schema (with the restrictions of the validator); a
  refinement loop returns only what passed its evaluation; a sink is given the chunks the channel carried, in
  their order, and is told how it ended. Memory: a store reopened from its files has the entries that were
  in memory, as JSON keeps them, under the conditions named there; queries are scoped, bounded and ranked; a
  barrier commits in declaration order. Flow: soundness, completeness and the round bound. Schema: the
  validator decides the declarative meaning of the keywords, for schemas without \<^verbatim>\<open>$ref\<close> and without \<^verbatim>\<open>false\<close>
  directly below \<^verbatim>\<open>properties\<close> (both have counterexamples), and keeps its reference budget on every
  schema, recursive ones included, giving nothing back. Loader: a built crew is closed, its plan exists, and it is
  what its document names; a run may still refuse it for want of a task or a manager. Tools: the calculator
  accepts exactly its grammar and evaluates printed trees to their value; every request of the HTTP tool went
  through the guard; file tools stay in their jail within the limits of the kernel (40 links, names below 4,096
  bytes), and are shown to leave it beyond them. The MCP client
  reads the first event of any stream, keeps its session, makes the two exchanges of a handshake with every
  server of a configuration and nothing else, and closes what it opened before a failed
  handshake; what it leaves open is shown by counterexample; descriptions are cut at runes and carry no
  controls. Providers: streams are non-empty deltas with one terminal chunk at most, an OpenAI stream
  delivers its text however it is cut, and paired conversations stay paired on the wire, so that the
  native loop never sends another. The device flow returns, a renewing source hands out only valid or
  just renewed tokens, and search requests carry exactly their parameters; two clients whose requests can be
  built and are answered alike end alike, whatever their keys.

  Bounds and fuel. Delegation calls the executor again through an explicit depth, which the code
  bounds by its own depth limit; the executors recurse over the iteration budget; the JSON and
  tool-call repair loops over the repair budget; the flow engine over its rounds, for which one round per
  step plus one is proved enough; the validator needs no fuel, its recursion descends in the schema or in the
  remaining reference depth; path walks descend in the number of links left, 255 for \<^verbatim>\<open>filepath.EvalSymlinks\<close> and 40
  for the kernel, after which they fail as the code's do. The poll loop of the device flow may
  run as long as the server wants; it is a partial function, with a theorem that it returns once the
  server decides. Durations there wrap at 64 bits.

  Channels and files. A channel of chunks is the finite list of what its receiver observes, at the end of
  which it is closed; a channel that neither sends nor closes blocks the code until its context is done, and has
  no value here. A line of the log of a FileStore is its length and the entry as JSON gives it back (bytes that
  are not UTF-8 are U+FFFD), numbers and times being kept.

  What is not modelled. Time and durations, log output, panics inside application code, and the
  interleaving of tasks below the level of one task. The packages \<^verbatim>\<open>encoding/json\<close>, \<^verbatim>\<open>regexp\<close>,
  \<^verbatim>\<open>html\<close>, \<^verbatim>\<open>net/url\<close> (but for the escaping of queries), \<^verbatim>\<open>net/mail\<close>, \<^verbatim>\<open>time\<close> and the network are arguments of the definitions that use them. File
  permissions, partial writes and other processes changing the file system are left out. \<^verbatim>\<open>doc.go\<close> and the
  examples are documentation.
\<close>

end
